(* ===== verification/Prelude.thy ===== *)
theory Prelude
  imports Main "HOL-Library.Word" "HOL-Library.Multiset"
begin

section \<open>Shared types, automation and list facts\<close>

text \<open>
  The types every component shares (machine integers, byte strings, pointers, the SQLite
  result codes the code passes around), the collections of rewrite rules the proofs use, and
  generic facts on lists that more than one component needs.
\<close>

unbundle bit_operations_syntax

type_synonym u8 = "8 word"
type_synonym u16 = "16 word"
type_synonym u32 = "32 word"
type_synonym u64 = "64 word"
type_synonym bytes = "8 word list"

text \<open>A pointer is an address; address \<open>0\<close> is the null pointer.\<close>

type_synonym ptr = nat

abbreviation (input) NULL :: ptr where "NULL \<equiv> 0"

text \<open>The SQLite result codes that the AergoLite code returns and tests.\<close>

datatype rc =
    SQLITE_OK | SQLITE_ERROR | SQLITE_INTERNAL | SQLITE_PERM | SQLITE_BUSY | SQLITE_NOMEM
  | SQLITE_NOTFOUND | SQLITE_EMPTY | SQLITE_MISUSE | SQLITE_INVALID | SQLITE_EXISTS
  | SQLITE_ROW | SQLITE_DONE

subsection \<open>Rewrite collections\<close>

named_theorems framing_simps \<open>unfolding rules for the message framing\<close>
named_theorems plugin_simps \<open>field equations of the consensus plugin's operations\<close>
named_theorems auth_simps \<open>equations for the authorization list\<close>

subsection \<open>Lists\<close>

lemma find_None_iff_all: "List.find P xs = None \<longleftrightarrow> (\<forall>x\<in>set xs. \<not> P x)"
  by (auto simp: find_None_iff)

lemma find_Some_in: "List.find P xs = Some x \<Longrightarrow> x \<in> set xs \<and> P x"
  by (auto simp: find_Some_iff)

lemma remove1_filter_neq: "distinct xs \<Longrightarrow> remove1 x xs = filter (\<lambda>y. y \<noteq> x) xs"
  by (rule distinct_remove1_removeAll [THEN trans]) (auto simp: removeAll_filter_not_eq intro: filter_cong)

lemma take_drop_update_middle:
  "i < length xs \<Longrightarrow> xs[i := x] = take i xs @ x # drop (Suc i) xs"
  by (rule upd_conv_take_nth_drop)

lemma length_filter_remove1_le: "length (filter P (remove1 x xs)) \<le> length (filter P xs)"
  by (induction xs) auto

lemma distinct_map_filterI: "distinct (map f xs) \<Longrightarrow> distinct (map f (filter P xs))"
  by (induction xs) auto

subsection \<open>Words\<close>

lemma word_xor_cancel_right: "(a XOR k = b XOR k) = (a = b)" for a b k :: "'a::len word"
proof
  assume "a XOR k = b XOR k"
  then have "(a XOR k) XOR k = (b XOR k) XOR k" by simp
  then show "a = b" unfolding xor.assoc by simp
qed simp

lemma word_xor_cancel_left: "(k XOR a = k XOR b) = (a = b)" for a b k :: "'a::len word"
  using word_xor_cancel_right [of a k b] by (simp add: xor.commute)

lemma word_xor_involutive: "(a XOR k) XOR k = a" for a k :: "'a::len word"
  unfolding xor.assoc by simp

lemma ucast_u8_inj: "ucast c = (ucast d :: u32) \<Longrightarrow> c = d" for c d :: u8
proof -
  assume "ucast c = (ucast d :: u32)"
  then have "unat (ucast c :: u32) = unat (ucast d :: u32)" by simp
  then show ?thesis by (simp add: unsigned_ucast_eq unsigned_take_bit_eq take_bit_nat_eq_self
      order_less_trans [OF unsigned_less] unsigned_word_eqI)
qed

subsection \<open>Positional numbers, most significant digit first\<close>

definition be_val :: "nat \<Rightarrow> nat list \<Rightarrow> nat" where
  "be_val b ds = foldl (\<lambda>a d. a * b + d) 0 ds"

lemma be_val_Nil [simp]: "be_val b [] = 0"
  by (simp add: be_val_def)

lemma be_val_snoc [simp]: "be_val b (ds @ [d]) = be_val b ds * b + d"
  by (simp add: be_val_def)

lemma be_val_append: "be_val b (xs @ ys) = be_val b xs * b ^ length ys + be_val b ys"
proof (induction ys rule: rev_induct)
  case Nil
  then show ?case by simp
next
  case (snoc y ys)
  have "be_val b ((xs @ ys) @ [y]) = be_val b (xs @ ys) * b + y" by (rule be_val_snoc)
  with snoc show ?case by (simp add: algebra_simps)
qed

lemma be_val_Cons: "be_val b (x # xs) = x * b ^ length xs + be_val b xs"
  using be_val_append [of b "[x]" xs] be_val_snoc [of b "[]" x] by simp

lemma be_val_less: "0 < b \<Longrightarrow> \<forall>d\<in>set ds. d < b \<Longrightarrow> be_val b ds < b ^ length ds"
proof (induction ds)
  case Nil
  then show ?case by simp
next
  case (Cons d ds)
  then have "be_val b ds < b ^ length ds" "Suc d \<le> b" by auto
  then have "d * b ^ length ds + be_val b ds < Suc d * b ^ length ds" by simp
  also have "\<dots> \<le> b * b ^ length ds" using \<open>Suc d \<le> b\<close> by (rule mult_le_mono1)
  finally show ?case by (simp add: be_val_Cons)
qed

lemma be_val_zeros: "be_val b (replicate n 0 @ ds) = be_val b ds"
  by (induction n) (auto simp: be_val_Cons)

lemma be_val_all_zero: "\<forall>d\<in>set ds. d = 0 \<Longrightarrow> be_val b ds = 0"
  by (induction ds) (auto simp: be_val_Cons)

lemma be_val_inj:
  "length xs = length ys \<Longrightarrow> \<forall>d\<in>set xs. d < b \<Longrightarrow> \<forall>d\<in>set ys. d < b \<Longrightarrow>
     be_val b xs = be_val b ys \<Longrightarrow> xs = ys"
proof (induction xs ys rule: list_induct2)
  case Nil
  then show ?case by simp
next
  case (Cons x xs y ys)
  define B where "B = b ^ length xs"
  have lt: "be_val b xs < B" "be_val b ys < B"
    using Cons be_val_less [of b xs] be_val_less [of b ys] by (auto simp: B_def)
  have eq: "x * B + be_val b xs = y * B + be_val b ys"
    using Cons by (simp add: be_val_Cons B_def)
  have "x = y" using arg_cong [OF eq, of "\<lambda>n. n div B"] lt by simp
  moreover from this have "be_val b xs = be_val b ys" using eq by simp
  ultimately show ?case using Cons by auto
qed

lemma map_unat_inj: "map unat xs = map unat ys \<Longrightarrow> xs = ys" for xs ys :: "'a::len word list"
  by (metis inj_map_eq_map inj_unsigned)

lemma unat_byte_less [simp]: "unat b < 256" for b :: u8
  using unsigned_less [of b] by simp

end
