(* ===== verification/Linked_List.thy ===== *)
theory Linked_List
  imports Prelude
begin

section \<open>Intrusive singly linked lists\<close>

text \<open>
  \<^verbatim>\<open>common/linked_list.c\<close>: every list of the program (peers, mempool, blocks, votes,
  requests, authorizations) is threaded through a \<^verbatim>\<open>next\<close> pointer that is the first field
  of its items. The heap is the map from an item's address to its \<^verbatim>\<open>next\<close> field. The
  \<^verbatim>\<open>while\<close> loops of the code follow pointers, so they are \<^theory_text>\<open>partial_function (option)\<close>:
  \<^term>\<open>None\<close> is a run that does not return (a cyclic list) or that follows the null pointer.
  The predicate \<open>lst h p xs\<close> says that the list at \<open>p\<close> holds the items \<open>xs\<close> in this order; the
  lemmas show that on such lists every operation returns and what list it leaves.
\<close>

type_synonym heap = "ptr \<Rightarrow> ptr"

subsection \<open>The operations\<close>

text \<open>\<^verbatim>\<open>while (item->next != 0) item = item->next;\<close>\<close>

partial_function (option) llist_last :: "heap \<Rightarrow> ptr \<Rightarrow> ptr option" where
  "llist_last h item = (if h item \<noteq> NULL then llist_last h (h item) else Some item)"

text \<open>The caller passes \<^verbatim>\<open>&first\<close>; the new value of \<^verbatim>\<open>first\<close> is part of the result.\<close>

definition llist_add :: "heap \<Rightarrow> ptr \<Rightarrow> ptr \<Rightarrow> (heap \<times> ptr) option" where
  "llist_add h first to_add =
     (let item = first in
      if item = NULL then Some (h, to_add)
      else (case llist_last h item of
              None \<Rightarrow> None
            | Some item \<Rightarrow> Some (h(item := to_add), first)))"

definition llist_prepend :: "heap \<Rightarrow> ptr \<Rightarrow> ptr \<Rightarrow> (heap \<times> ptr) option" where
  "llist_prepend h first to_add =
     (if to_add = NULL then None else Some (h(to_add := first), to_add))"

text \<open>\<^verbatim>\<open>while (item != 0) { if (item->next == to_del) { ...; break; } item = item->next; }\<close>\<close>

partial_function (option) llist_unlink :: "heap \<Rightarrow> ptr \<Rightarrow> ptr \<Rightarrow> heap option" where
  "llist_unlink h item to_del =
     (if item = NULL then Some h
      else if h item = to_del then Some (h(item := h to_del))
      else llist_unlink h (h item) to_del)"

definition llist_remove :: "heap \<Rightarrow> ptr \<Rightarrow> ptr \<Rightarrow> (heap \<times> ptr) option" where
  "llist_remove h first to_del =
     (if to_del = NULL then None
      else if to_del = first then Some (h(to_del := NULL), h to_del)
      else (case llist_unlink h first to_del of
              None \<Rightarrow> None
            | Some h' \<Rightarrow> Some (h'(to_del := NULL), first)))"

partial_function (option) llist_count_from :: "heap \<Rightarrow> ptr \<Rightarrow> nat \<Rightarrow> nat option" where
  "llist_count_from h item cnt =
     (if item \<noteq> NULL then llist_count_from h (h item) (cnt + 1) else Some cnt)"

definition llist_count :: "heap \<Rightarrow> ptr \<Rightarrow> nat option" where
  "llist_count h l = llist_count_from h l 0"

partial_function (option) llist_get_from :: "heap \<Rightarrow> ptr \<Rightarrow> int \<Rightarrow> int \<Rightarrow> ptr option" where
  "llist_get_from h item cnt pos =
     (if item \<noteq> NULL then
        (if cnt = pos then Some item else llist_get_from h (h item) (cnt + 1) pos)
      else Some NULL)"

definition llist_get :: "heap \<Rightarrow> ptr \<Rightarrow> int \<Rightarrow> ptr option" where
  "llist_get h l pos = llist_get_from h l 0 pos"

subsection \<open>Abstraction: the list at a pointer\<close>

primrec lst :: "heap \<Rightarrow> ptr \<Rightarrow> ptr list \<Rightarrow> bool" where
  "lst h p [] = (p = NULL)"
| "lst h p (x # xs) = (p = x \<and> x \<noteq> NULL \<and> lst h (h x) xs)"

lemma lst_unique: "lst h p xs \<Longrightarrow> lst h p ys \<Longrightarrow> xs = ys"
proof (induction xs arbitrary: p ys)
  case Nil
  then show ?case by (cases ys) auto
next
  case (Cons x xs)
  then show ?case by (cases ys) auto
qed

lemma lst_appendD: "lst h p (xs @ y # ys) \<Longrightarrow> lst h y (y # ys)"
  by (induction xs arbitrary: p) auto

lemma lst_distinct: "lst h p xs \<Longrightarrow> distinct xs"
proof (induction xs arbitrary: p)
  case Nil
  then show ?case by simp
next
  case (Cons x xs)
  have "x \<notin> set xs"
  proof
    assume "x \<in> set xs"
    then obtain us vs where xs: "xs = us @ x # vs" by (auto dest: split_list)
    with Cons.prems have "lst h x (x # vs)" by (auto dest: lst_appendD)
    moreover from Cons.prems have "lst h x (x # xs)" by simp
    ultimately have "x # vs = x # xs" by (rule lst_unique)
    with xs show False by auto
  qed
  with Cons show ?case by auto
qed

lemma lst_nonnull: "lst h p xs \<Longrightarrow> NULL \<notin> set xs"
  by (induction xs arbitrary: p) auto

lemma lst_cong: "(\<And>a. a \<in> set xs \<Longrightarrow> h' a = h a) \<Longrightarrow> lst h' p xs = lst h p xs"
  by (induction xs arbitrary: p) auto

lemma lst_frame: "lst h p xs \<Longrightarrow> a \<notin> set xs \<Longrightarrow> lst (h(a := b)) p xs"
  by (subst lst_cong) auto

lemma lst_null_iff: "lst h NULL xs \<longleftrightarrow> xs = []"
  by (cases xs) auto

lemma lst_head: "lst h p xs \<Longrightarrow> p = (if xs = [] then NULL else hd xs)"
  by (cases xs) auto

subsection \<open>The loops return on well-formed lists\<close>

lemma llist_last_lst: "lst h p (x # xs) \<Longrightarrow> llist_last h p = Some (last (x # xs))"
proof (induction xs arbitrary: p x)
  case Nil
  then show ?case by (simp add: llist_last.simps)
next
  case (Cons y ys)
  then have "llist_last h (h x) = Some (last (y # ys))" by auto
  with Cons.prems show ?case by (subst llist_last.simps) auto
qed

lemma llist_count_from_lst: "lst h p xs \<Longrightarrow> llist_count_from h p c = Some (c + length xs)"
proof (induction xs arbitrary: p c)
  case Nil
  then show ?case by (simp add: llist_count_from.simps)
next
  case (Cons x xs)
  then have "llist_count_from h (h x) (c + 1) = Some (c + 1 + length xs)" by simp
  with Cons.prems show ?case by (subst llist_count_from.simps) simp
qed

lemma llist_get_from_lst:
  "lst h p xs \<Longrightarrow> llist_get_from h p c pos
     = Some (if c \<le> pos \<and> pos < c + int (length xs) then xs ! nat (pos - c) else NULL)"
proof (induction xs arbitrary: p c)
  case Nil
  then show ?case by (simp add: llist_get_from.simps)
next
  case (Cons x xs)
  then have IH: "llist_get_from h (h x) (c + 1) pos
     = Some (if c + 1 \<le> pos \<and> pos < c + 1 + int (length xs) then xs ! nat (pos - (c + 1)) else NULL)"
    by simp
  have "nat (pos - c) = Suc (nat (pos - (c + 1)))" if "c < pos" using that by arith
  with IH Cons.prems show ?case by (subst llist_get_from.simps) auto
qed

lemma llist_unlink_not_in:
  "lst h p xs \<Longrightarrow> d \<noteq> NULL \<Longrightarrow> d \<notin> set xs \<Longrightarrow> llist_unlink h p d = Some h"
proof (induction xs arbitrary: p)
  case Nil
  then show ?case by (simp add: llist_unlink.simps)
next
  case (Cons x xs)
  then have "h x \<noteq> d" by (cases xs) auto
  moreover from Cons have "llist_unlink h (h x) d = Some h" by simp
  ultimately show ?case using Cons.prems by (subst llist_unlink.simps) auto
qed

lemma llist_unlink_in:
  assumes "lst h p (us @ u # d # vs)"
  shows "llist_unlink h p d = Some (h(u := h d))"
  using assms
proof (induction us arbitrary: p)
  case Nil
  then show ?case by (subst llist_unlink.simps) auto
next
  case (Cons x us)
  have "distinct ((x # us) @ u # d # vs)" using Cons.prems by (rule lst_distinct)
  moreover have "h x = hd (us @ [u])" using Cons.prems by (cases us) auto
  ultimately have "h x \<noteq> d" by (cases us) auto
  with Cons show ?case by (subst llist_unlink.simps) auto
qed

subsection \<open>The effect of each operation on the abstract list\<close>

lemma lst_append_chain:
  "lst h p (xs @ [u]) \<Longrightarrow> lst h q ys \<Longrightarrow> u \<notin> set ys \<Longrightarrow> lst (h(u := q)) p (xs @ u # ys)"
proof (induction xs arbitrary: p)
  case Nil
  then show ?case using lst_frame [of h q ys u q] by (simp del: fun_upd_apply) (simp add: fun_upd_def)
next
  case (Cons x xs)
  have "distinct ((x # xs) @ [u])" using Cons.prems(1) by (rule lst_distinct)
  with Cons show ?case by auto
qed

lemma llist_add_lst:
  assumes "lst h first xs" and "lst h q ys" and "set xs \<inter> set ys = {}"
  shows "\<exists>h' first'. llist_add h first q = Some (h', first') \<and> lst h' first' (xs @ ys)
           \<and> (\<forall>a. a \<notin> set xs \<longrightarrow> h' a = h a)"
proof (cases xs rule: rev_cases)
  case Nil
  with assms show ?thesis by (simp add: llist_add_def)
next
  case (snoc us u)
  then have "first \<noteq> NULL" using assms(1) lst_nonnull [OF assms(1)] by (cases us) auto
  moreover have "llist_last h first = Some u"
    using assms(1) snoc llist_last_lst [of h first "hd xs" "tl xs"] by simp
  moreover have "lst (h(u := q)) first (us @ u # ys)"
    using assms snoc by (intro lst_append_chain) auto
  ultimately show ?thesis using snoc by (simp add: llist_add_def)
qed

lemma lst_unlink_middle:
  assumes "lst h p (us @ u # d # vs)"
  shows "lst (h(u := h d)) p (us @ u # vs)"
proof -
  have dis: "distinct (us @ u # d # vs)" using assms by (rule lst_distinct)
  have "lst h (h d) vs" using lst_appendD [of h p "us @ [u]" d vs] assms by simp
  then have "lst (h(u := h d)) (h d) vs" using dis by (auto intro: lst_frame)
  moreover have "u \<noteq> NULL" using lst_nonnull [OF assms] by auto
  ultimately have tail: "lst (h(u := h d)) u (u # vs)" by (simp del: fun_upd_apply) simp
  from assms dis show ?thesis
  proof (induction us arbitrary: p)
    case Nil
    then have "p = u" by simp
    with tail show ?case by (simp del: lst.simps fun_upd_apply)
  next
    case (Cons x us)
    then show ?case by auto
  qed
qed

lemma llist_remove_lst:
  assumes l: "lst h first xs" and d: "d \<noteq> NULL"
  shows "\<exists>h' first'. llist_remove h first d = Some (h', first') \<and> lst h' first' (remove1 d xs)
           \<and> h' d = NULL \<and> (\<forall>a. a \<noteq> d \<and> a \<notin> set xs \<longrightarrow> h' a = h a)"
proof (cases "d \<in> set xs")
  case False
  then have "llist_unlink h first d = Some h" using l d by (intro llist_unlink_not_in) auto
  moreover have "first \<noteq> d" using l d False by (cases xs) auto
  ultimately show ?thesis using False l d
    by (auto simp: llist_remove_def remove1_idem intro: lst_frame)
next
  case True
  note dis = lst_distinct [OF l]
  from True obtain us vs where xs: "xs = us @ d # vs" by (auto dest: split_list)
  show ?thesis
  proof (cases us rule: rev_cases)
    case Nil
    with xs l d dis show ?thesis by (auto simp: llist_remove_def intro: lst_frame)
  next
    case (snoc ws u)
    have "first \<noteq> d" using l dis xs snoc by (cases ws) auto
    moreover have "llist_unlink h first d = Some (h(u := h d))"
      using l xs snoc by (intro llist_unlink_in [where us = ws and vs = vs]) simp
    moreover have "lst (h(u := h d)) first (ws @ u # vs)"
      using l xs snoc by (intro lst_unlink_middle) simp
    then have "lst (h(u := h d, d := NULL)) first (ws @ u # vs)"
      by (rule lst_frame) (use dis xs snoc in auto)
    moreover have "remove1 d xs = ws @ u # vs" using dis xs snoc by (simp add: remove1_append)
    moreover have "\<forall>a. a \<noteq> d \<and> a \<notin> set xs \<longrightarrow> (h(u := h d, d := NULL)) a = h a"
      using xs snoc by simp
    ultimately show ?thesis using d
      by (simp add: llist_remove_def del: fun_upd_apply) simp
  qed
qed

subsection \<open>The interface\<close>

text \<open>
  What the clients rely on: items are appended in order, whole chains are concatenated,
  removal takes one item out and keeps the rest in order. The client lemma is the movement of
  one item from a list to another, as the block selection does with the blocks it excludes.
\<close>

locale item_list =
  fixes rep :: "'h \<Rightarrow> 'p \<Rightarrow> 'e list \<Rightarrow> bool"
    and link :: "'h \<Rightarrow> 'p \<Rightarrow> 'p \<Rightarrow> ('h \<times> 'p) option"
    and unlink :: "'h \<Rightarrow> 'p \<Rightarrow> 'p \<Rightarrow> ('h \<times> 'p) option"
    and at :: "'e \<Rightarrow> 'p"
  assumes rep_link: "rep h p xs \<Longrightarrow> rep h q ys \<Longrightarrow> set xs \<inter> set ys = {} \<Longrightarrow>
      \<exists>h' p'. link h p q = Some (h', p') \<and> rep h' p' (xs @ ys)
        \<and> (\<forall>r zs. rep h r zs \<and> set zs \<inter> set xs = {} \<longrightarrow> rep h' r zs)"
    and rep_unlink: "rep h p xs \<Longrightarrow> e \<in> set xs \<Longrightarrow>
      \<exists>h' p'. unlink h p (at e) = Some (h', p') \<and> rep h' p' (remove1 e xs) \<and> rep h' (at e) [e]
        \<and> (\<forall>r zs. rep h r zs \<and> set zs \<inter> set xs = {} \<longrightarrow> rep h' r zs)"
    and rep_distinct: "rep h p xs \<Longrightarrow> distinct xs"
begin

definition move :: "'h \<Rightarrow> 'p \<Rightarrow> 'p \<Rightarrow> 'e \<Rightarrow> ('h \<times> 'p \<times> 'p) option" where
  "move h p q e = (case unlink h p (at e) of None \<Rightarrow> None | Some (h1, p1) \<Rightarrow>
     (case link h1 q (at e) of None \<Rightarrow> None | Some (h2, q2) \<Rightarrow> Some (h2, p1, q2)))"

lemma move_rep:
  assumes "rep h p xs" and "rep h q ys" and "e \<in> set xs" and "set xs \<inter> set ys = {}"
  shows "\<exists>h' p' q'. move h p q e = Some (h', p', q') \<and> rep h' p' (remove1 e xs) \<and> rep h' q' (ys @ [e])"
proof -
  obtain h1 p1 where u: "unlink h p (at e) = Some (h1, p1)" "rep h1 p1 (remove1 e xs)"
      "rep h1 (at e) [e]" "rep h1 q ys"
    using rep_unlink [OF assms(1,3)] assms(2,4) by blast
  have "e \<notin> set ys" using assms(3,4) by blast
  then obtain h2 q2 where l: "link h1 q (at e) = Some (h2, q2)" "rep h2 q2 (ys @ [e])"
      "\<forall>r zs. rep h1 r zs \<and> set zs \<inter> set ys = {} \<longrightarrow> rep h2 r zs"
    using rep_link [OF u(4,3)] by auto
  have "set (remove1 e xs) \<inter> set ys = {}" using assms(4) set_remove1_subset [of e xs] by blast
  with u l show ?thesis by (auto simp: move_def)
qed

text \<open>Moving items out and linking what was moved behind the rest loses no item.\<close>

lemma move_back_rep:
  assumes "rep h p xs" and "rep h q ys" and "set xs \<inter> set ys = {}"
  shows "\<exists>h' p'. link h p q = Some (h', p') \<and> rep h' p' (xs @ ys) \<and> mset (xs @ ys) = mset xs + mset ys"
  using rep_link [OF assms] by auto

end

interpretation heap_list: item_list lst llist_add llist_remove "\<lambda>p. p"
proof unfold_locales
  fix h p xs q ys
  assume l: "lst h p xs" "lst h q ys" "set xs \<inter> set ys = {}"
  from llist_add_lst [OF this] obtain h' p' where
    r: "llist_add h p q = Some (h', p')" "lst h' p' (xs @ ys)" "\<forall>a. a \<notin> set xs \<longrightarrow> h' a = h a"
    by blast
  have "lst h' r zs" if "lst h r zs" "set zs \<inter> set xs = {}" for r zs
    using that r(3) by (subst lst_cong [where h = h]) auto
  with r show "\<exists>h' p'. llist_add h p q = Some (h', p') \<and> lst h' p' (xs @ ys)
        \<and> (\<forall>r zs. lst h r zs \<and> set zs \<inter> set xs = {} \<longrightarrow> lst h' r zs)" by blast
next
  fix h p xs e
  assume l: "lst h p xs" and e: "e \<in> set xs"
  then have "e \<noteq> NULL" using lst_nonnull by metis
  from llist_remove_lst [OF l this] obtain h' p' where
    r: "llist_remove h p e = Some (h', p')" "lst h' p' (remove1 e xs)" "h' e = NULL"
      "\<forall>a. a \<noteq> e \<and> a \<notin> set xs \<longrightarrow> h' a = h a" by blast
  have "lst h' r zs" if "lst h r zs" "set zs \<inter> set xs = {}" for r zs
    using that r(4) e by (subst lst_cong [where h = h]) auto
  with r \<open>e \<noteq> NULL\<close> show "\<exists>h' p'. llist_remove h p e = Some (h', p') \<and> lst h' p' (remove1 e xs) \<and> lst h' e [e]
        \<and> (\<forall>r zs. lst h r zs \<and> set zs \<inter> set xs = {} \<longrightarrow> lst h' r zs)" by auto
next
  fix h p xs
  show "lst h p xs \<Longrightarrow> distinct xs" by (rule lst_distinct)
qed

subsection \<open>Properties\<close>

text \<open>C39: Moving an item from one list to another, as \<^verbatim>\<open>choose_block_to_vote\<close> does with the blocks
  it excludes from the selection (\<^verbatim>\<open>llist_remove\<close> followed by \<^verbatim>\<open>llist_add\<close>): on two disjoint
  well-formed lists both loops return, the first list keeps its other items in their order, and
  the second has the item at its end.\<close>
lemma llist_remove_then_add:
  assumes "lst h p xs" and "lst h q ys" and "e \<in> set xs" and "set xs \<inter> set ys = {}"
  shows "\<exists>h1 p1 h2 q2. llist_remove h p e = Some (h1, p1) \<and> llist_add h1 q e = Some (h2, q2)
           \<and> lst h2 p1 (remove1 e xs) \<and> lst h2 q2 (ys @ [e])"
  using heap_list.move_rep [OF assms] by (force simp: heap_list.move_def split: option.splits)

lemma llist_remove_then_add_witness:
  "\<exists>h1 p1 h2 q2. llist_remove ((\<lambda>_. 0)(3 := 5)) 3 5 = Some (h1, p1) \<and> llist_add h1 7 5 = Some (h2, q2)
     \<and> lst h2 p1 [3] \<and> lst h2 q2 [7, 5]"
  using llist_remove_then_add [of "(\<lambda>_. 0)(3 := 5)" 3 "[3, 5]" 7 "[7]" 5] by simp

end
