(* ===== verification/Dyn_Array.thy ===== *)
theory Dyn_Array
  imports Prelude
begin

section \<open>Growing arrays\<close>

text \<open>
  \<^verbatim>\<open>common/array.c\<close>. An array is one memory block: a header with three \<^verbatim>\<open>uint16_t\<close> fields
  (item size, allocated items, used items) followed by the items. The model keeps the two item
  counters at their 16-bit width, because the code computes the new counts as \<^verbatim>\<open>int\<close> and
  truncates them on the store, and keeps the memory itself as the list \<open>slots\<close>, whose length is
  the number of items the block really holds: \<^term>\<open>None\<close> is a slot that was never written
  (memory from \<^verbatim>\<open>realloc\<close>). An array pointer is an option, \<^term>\<open>None\<close> for the null pointer. An
  operation returns \<^term>\<open>None\<close> when it reads or writes outside the block or reads a slot that was
  never written. Item sizes are abstracted: an item is a value of type \<open>'a\<close>, and \<open>zero\<close> is the
  item whose bytes are all zero.
\<close>

record 'a arr =
  alloc_items :: u16
  used_items :: u16
  slots :: "'a option list"

definition ARRAY_INVALID :: int where "ARRAY_INVALID = - 1"
definition ARRAY_NOMEM :: int where "ARRAY_NOMEM = - 2"
definition ARRAY_EXISTS :: int where "ARRAY_EXISTS = - 3"

lemmas array_codes = ARRAY_INVALID_def ARRAY_NOMEM_def ARRAY_EXISTS_def

subsection \<open>The operations\<close>

definition new_array :: "bool \<Rightarrow> 'a \<Rightarrow> int \<Rightarrow> int \<Rightarrow> 'a arr option" where
  "new_array mem_ok zero num_items item_size =
     (if item_size \<le> 0 \<or> num_items < 0 then None
      else if \<not> mem_ok then None
      else Some \<lparr>alloc_items = word_of_int num_items, used_items = 0,
                 slots = replicate (nat num_items) (Some zero)\<rparr>)"

definition array_clear :: "'a arr option \<Rightarrow> 'a arr option" where
  "array_clear array = (case array of None \<Rightarrow> None | Some a \<Rightarrow> Some (a\<lparr>used_items := 0\<rparr>))"

definition array_count :: "'a arr option \<Rightarrow> int" where
  "array_count array = (case array of None \<Rightarrow> - 1 | Some a \<Rightarrow> uint (used_items a))"

text \<open>The copy takes the allocated items the header names, not the ones the block holds.\<close>

definition array_copy :: "bool \<Rightarrow> 'a arr option \<Rightarrow> 'a arr option option" where
  "array_copy mem_ok array = (case array of None \<Rightarrow> Some None
     | Some a \<Rightarrow>
         if \<not> mem_ok then Some None
         else if unat (alloc_items a) \<le> length (slots a)
         then Some (Some (a\<lparr>slots := take (unat (alloc_items a)) (slots a)\<rparr>))
         else None)"

text \<open>Reading one slot; \<^term>\<open>None\<close> is an access outside the block or to unwritten memory.\<close>

definition slot :: "'a arr \<Rightarrow> nat \<Rightarrow> 'a option" where
  "slot a i = (if i < length (slots a) then slots a ! i else None)"

text \<open>\<^verbatim>\<open>array_get\<close>: the outer option is the null pointer it returns, the inner the memory read.\<close>

definition array_get :: "'a arr option \<Rightarrow> int \<Rightarrow> 'a option option" where
  "array_get array pos = (case array of None \<Rightarrow> None
     | Some a \<Rightarrow>
         if pos < 0 \<or> pos \<ge> uint (used_items a) then None
         else Some (slot a (nat pos)))"

function array_find_from :: "'a arr \<Rightarrow> ('a \<Rightarrow> 'a \<Rightarrow> int) \<Rightarrow> 'a \<Rightarrow> nat \<Rightarrow> int option" where
  "array_find_from a compare_fn item i =
     (if i < unat (used_items a) then
        (case slot a i of None \<Rightarrow> None
         | Some itemx \<Rightarrow> if compare_fn itemx item = 0 then Some (int i)
                        else array_find_from a compare_fn item (Suc i))
      else Some (- 1))"
  by pat_completeness auto
termination by (relation "measure (\<lambda>(a, c, x, i). unat (used_items a) - i)") auto

declare array_find_from.simps [simp del]

definition array_find :: "'a arr option \<Rightarrow> ('a \<Rightarrow> 'a \<Rightarrow> int) \<Rightarrow> 'a \<Rightarrow> int option" where
  "array_find array compare_fn item = (case array of None \<Rightarrow> Some (- 2)
     | Some a \<Rightarrow> array_find_from a compare_fn item 0)"

definition in_array :: "'a arr option \<Rightarrow> ('a \<Rightarrow> 'a \<Rightarrow> int) \<Rightarrow> 'a \<Rightarrow> bool option" where
  "in_array array compare_fn item = map_option (\<lambda>r. r \<ge> 0) (array_find array compare_fn item)"

text \<open>\<^verbatim>\<open>memmove\<close> of \<open>n\<close> slots from index \<open>src\<close> to index \<open>dst\<close>.\<close>

definition move_slots :: "'a option list \<Rightarrow> nat \<Rightarrow> nat \<Rightarrow> nat \<Rightarrow> 'a option list option" where
  "move_slots s dst src n =
     (if dst + n \<le> length s \<and> src + n \<le> length s
      then Some (take dst s @ take n (drop src s) @ drop (dst + n) s) else None)"

definition array_remove :: "'a arr option \<Rightarrow> ('a \<Rightarrow> 'a \<Rightarrow> int) \<Rightarrow> 'a \<Rightarrow> 'a arr option option" where
  "array_remove array compare_fn item =
     (case array_find array compare_fn item of None \<Rightarrow> None
      | Some pos \<Rightarrow>
          if pos < 0 then Some array
          else (case array of None \<Rightarrow> None
            | Some a \<Rightarrow>
                let used = uint (used_items a); p = nat pos in
                if pos < used - 1 then
                  (case move_slots (slots a) p (Suc p) (nat used - Suc p) of None \<Rightarrow> None
                   | Some s \<Rightarrow> Some (Some (a\<lparr>slots := s, used_items := word_of_int (used - 1)\<rparr>)))
                else Some (Some (a\<lparr>used_items := word_of_int (used - 1)\<rparr>))))"

text \<open>
  \<^verbatim>\<open>array_insert_ex\<close> in three parts: the growth of the block, the scan for the position of a
  compared item, and the store. \<open>mem_ok\<close> is whether \<^verbatim>\<open>sqlite3_realloc\<close> succeeds; \<^verbatim>\<open>realloc\<close>
  keeps the old content up to the new size and leaves the rest unwritten.
\<close>

definition resize :: "'a option list \<Rightarrow> nat \<Rightarrow> 'a option list" where
  "resize s n = take n s @ replicate (n - length s) None"

definition array_grow :: "bool \<Rightarrow> 'a arr \<Rightarrow> int \<Rightarrow> 'a arr option" where
  "array_grow mem_ok a pos =
     (if used_items a = alloc_items a \<or> pos \<ge> uint (alloc_items a) then
        (let n = (if pos \<ge> uint (alloc_items a) then pos + 1 else uint (alloc_items a) * 2) in
         if \<not> mem_ok then None
         else Some (a\<lparr>slots := resize (slots a) (nat n), alloc_items := word_of_int n\<rparr>))
      else Some a)"

datatype scan_result = Scan_Found nat | Scan_At nat

function array_scan :: "'a arr \<Rightarrow> ('a \<Rightarrow> 'a \<Rightarrow> int) \<Rightarrow> 'a \<Rightarrow> nat \<Rightarrow> scan_result option" where
  "array_scan a compare_fn new_item i =
     (if i < unat (used_items a) then
        (case slot a i of None \<Rightarrow> None
         | Some item \<Rightarrow>
             if compare_fn item new_item = 0 then Some (Scan_Found i)
             else if compare_fn item new_item < 0 then Some (Scan_At i)
             else array_scan a compare_fn new_item (Suc i))
      else Some (Scan_At i))"
  by pat_completeness auto
termination by (relation "measure (\<lambda>(a, c, x, i). unat (used_items a) - i)") auto

declare array_scan.simps [simp del]

definition array_write :: "'a arr \<Rightarrow> nat \<Rightarrow> 'a \<Rightarrow> 'a arr option" where
  "array_write a i x = (if i < length (slots a) then Some (a\<lparr>slots := (slots a)[i := Some x]\<rparr>) else None)"

definition array_place :: "'a \<Rightarrow> 'a arr \<Rightarrow> 'a \<Rightarrow> nat \<Rightarrow> int \<Rightarrow> bool \<Rightarrow> ('a arr \<times> int) option" where
  "array_place zero a new_item i pos replace =
     (let used = unat (used_items a) in
      Option.bind
      (if i < used \<and> \<not> replace then
         map_option (\<lambda>s. (a\<lparr>slots := s\<rparr>, int used + 1)) (move_slots (slots a) (i + 1) i (used - i))
       else if i > used then
         (if i \<le> length (slots a)
          then Some (a\<lparr>slots := take used (slots a) @ replicate (i - used) (Some zero) @ drop i (slots a)\<rparr>, pos + 1)
          else None)
       else if i = used then Some (a, int used + 1)
       else Some (a, int used))
      (\<lambda>(a1, used1). map_option (\<lambda>a2. (a2\<lparr>used_items := word_of_int used1\<rparr>, int i))
                                   (array_write a1 i new_item)))"

definition array_insert_ex ::
  "bool \<Rightarrow> 'a \<Rightarrow> 'a arr option \<Rightarrow> 'a \<Rightarrow> int \<Rightarrow> ('a \<Rightarrow> 'a \<Rightarrow> int) option \<Rightarrow> bool \<Rightarrow> ('a arr option \<times> int) option" where
  "array_insert_ex mem_ok zero parray new_item pos compare_fn replace =
     (case parray of None \<Rightarrow> Some (None, ARRAY_INVALID)
      | Some a0 \<Rightarrow>
        (case array_grow mem_ok a0 pos of None \<Rightarrow> Some (Some a0, ARRAY_NOMEM)
         | Some a \<Rightarrow>
           (case compare_fn of
              Some cmp \<Rightarrow>
                (case array_scan a cmp new_item 0 of None \<Rightarrow> None
                 | Some (Scan_Found i) \<Rightarrow>
                     if replace then map_option (\<lambda>a'. (Some a', int i)) (array_write a i new_item)
                     else Some (Some a, ARRAY_EXISTS)
                 | Some (Scan_At i) \<Rightarrow>
                     map_option (\<lambda>(a', r). (Some a', r)) (array_place zero a new_item i pos False))
            | None \<Rightarrow>
                (let i = (if pos < 0 then unat (used_items a) else nat pos) in
                 map_option (\<lambda>(a', r). (Some a', r)) (array_place zero a new_item i pos replace)))))"

definition array_insert_sorted where
  "array_insert_sorted mem_ok zero parray item compare_fn replace =
     array_insert_ex mem_ok zero parray item 0 (Some compare_fn) replace"

definition array_insert_at where
  "array_insert_at mem_ok zero parray pos item =
     (if pos < 0 then Some (parray, ARRAY_INVALID)
      else array_insert_ex mem_ok zero parray item pos None False)"

definition array_set where
  "array_set mem_ok zero parray pos item =
     (if pos < 0 then Some (parray, ARRAY_INVALID)
      else array_insert_ex mem_ok zero parray item pos None True)"

definition array_prepend where
  "array_prepend mem_ok zero parray item = array_insert_ex mem_ok zero parray item 0 None False"

definition array_append where
  "array_append mem_ok zero parray item = array_insert_ex mem_ok zero parray item (- 1) None False"

text \<open>
  The two comparison functions the plugin passes (\<^verbatim>\<open>requests.c\<close>, \<^verbatim>\<open>state_update.c\<close>): the first
  argument is the item in the array, the second the new one.
\<close>

definition compare_int :: "int \<Rightarrow> int \<Rightarrow> int" where
  "compare_int item1 item2 = (if item2 = item1 then 0 else if item2 > item1 then 1 else - 1)"

definition compare_pgno :: "u32 \<Rightarrow> u32 \<Rightarrow> int" where
  "compare_pgno existing new = (if new = existing then 0 else if new > existing then 1 else - 1)"

subsection \<open>Abstraction: the list an array holds\<close>

definition arr_rep :: "'a arr \<Rightarrow> 'a list \<Rightarrow> bool" where
  "arr_rep a xs \<longleftrightarrow> unat (used_items a) = length xs \<and> length (slots a) = unat (alloc_items a)
     \<and> 0 < unat (alloc_items a) \<and> (\<exists>rest. slots a = map Some xs @ rest)"

text \<open>A stored array: the pointer is not null and the block represents the list.\<close>

definition holds :: "'a arr option \<Rightarrow> 'a list \<Rightarrow> bool" where
  "holds p xs \<longleftrightarrow> (\<exists>a. p = Some a \<and> arr_rep a xs)"

lemma holds_Some [simp]: "holds (Some a) xs = arr_rep a xs"
  by (simp add: holds_def)

lemma arr_rep_length: "arr_rep a xs \<Longrightarrow> length xs \<le> length (slots a)"
  by (auto simp: arr_rep_def)

lemma arr_rep_slot: "arr_rep a xs \<Longrightarrow> i < length xs \<Longrightarrow> slot a i = Some (xs ! i)"
  by (auto simp: arr_rep_def slot_def nth_append)

lemma arr_rep_used: "arr_rep a xs \<Longrightarrow> uint (used_items a) = int (length xs)"
  by (metis arr_rep_def uint_nat)

lemma arr_rep_alloc:
  "arr_rep a xs \<Longrightarrow> int (length (slots a)) = uint (alloc_items a) \<and> 0 < uint (alloc_items a)"
  by (metis arr_rep_def of_nat_0_less_iff uint_nat)

lemma array_count_rep: "holds p xs \<Longrightarrow> array_count p = int (length xs)"
  by (auto simp: holds_def array_count_def arr_rep_used)

lemma unat_word_of_int_u16: "0 \<le> n \<Longrightarrow> n < 65536 \<Longrightarrow> unat (word_of_int n :: u16) = nat n"
  by (simp add: unat_eq_nat_uint uint_word_of_int)

lemma new_array_rep:
  "0 < item_size \<Longrightarrow> 0 < n \<Longrightarrow> n < 65536 \<Longrightarrow> holds (new_array True zero n item_size) []"
  by (simp add: new_array_def arr_rep_def unat_word_of_int_u16)

lemma array_get_rep:
  "holds p xs \<Longrightarrow> array_get p pos
     = (if 0 \<le> pos \<and> pos < int (length xs) then Some (Some (xs ! nat pos)) else None)"
  by (auto simp: holds_def array_get_def arr_rep_used arr_rep_slot)

lemma array_grow_rep:
  assumes rep: "arr_rep a xs" and "length xs < 32768" and "pos < 65535"
  shows "\<exists>a'. array_grow True a pos = Some a' \<and> arr_rep a' xs
           \<and> length xs < length (slots a') \<and> nat pos < length (slots a')"
proof -
  obtain rest where sl: "slots a = map Some xs @ rest" using rep by (auto simp: arr_rep_def)
  define n where "n = (if pos \<ge> uint (alloc_items a) then pos + 1 else uint (alloc_items a) * 2)"
  have len: "int (length (slots a)) = uint (alloc_items a)" "0 < uint (alloc_items a)"
    using arr_rep_alloc [OF rep] by simp_all
  have used: "uint (used_items a) = int (length xs)" using rep by (rule arr_rep_used)
  have lenx: "int (length xs) \<le> uint (alloc_items a)"
    using arr_rep_length [OF rep] len by simp
  show ?thesis
  proof (cases "used_items a = alloc_items a \<or> pos \<ge> uint (alloc_items a)")
    case False
    moreover from False have "uint (used_items a) \<noteq> uint (alloc_items a)" by (simp add: word_uint_eq_iff)
    then have "int (length xs) < uint (alloc_items a)" using lenx used by linarith
    then have "length xs < length (slots a)" using len(1) by linarith
    moreover have "nat pos < length (slots a)" using False len by linarith
    ultimately show ?thesis using rep by (simp add: array_grow_def)
  next
    case True
    have n: "uint (alloc_items a) < n" "n < 65536" "pos < n"
    proof -
      have "uint (alloc_items a) < 32768" if "\<not> pos \<ge> uint (alloc_items a)"
        using True that used assms(2) by auto
      then show "uint (alloc_items a) < n" "n < 65536" "pos < n"
        using len(2) assms(3) unfolding n_def by (auto split: if_split)
    qed
    have nl: "length (slots a) < nat n" using n len by linarith
    have sl': "resize (slots a) (nat n) = map Some xs @ rest @ replicate (nat n - length (slots a)) None"
      using nl sl by (simp add: resize_def)
    have ln: "length (resize (slots a) (nat n)) = nat n" using nl by (simp add: resize_def)
    have un: "unat (word_of_int n :: u16) = nat n" using n len by (intro unat_word_of_int_u16) auto
    define a' where "a' = a\<lparr>slots := resize (slots a) (nat n), alloc_items := word_of_int n\<rparr>"
    have "array_grow True a pos = Some a'"
      using True unfolding array_grow_def a'_def n_def Let_def by (simp only: if_True if_False simp_thms)
    moreover have "arr_rep a' xs"
      using rep sl' ln un nl by (simp add: a'_def arr_rep_def)
    moreover have "length (slots a') = nat n" by (simp add: a'_def ln)
    moreover have "length xs < nat n" "nat pos < nat n" using n lenx len by linarith+
    ultimately show ?thesis by metis
  qed
qed

lemma word_of_length_u16: "n < 65536 \<Longrightarrow> unat (word_of_int (int n) :: u16) = n"
  by (simp add: unat_of_nat)

lemma array_place_insert:
  assumes rep: "arr_rep a xs" and "i \<le> length xs" and "length xs < length (slots a)"
    and "length xs < 65535"
  shows "\<exists>a'. array_place zero a x i pos False = Some (a', int i) \<and> arr_rep a' (take i xs @ x # drop i xs)"
proof -
  obtain rest0 where sl0: "slots a = map Some xs @ rest0" using rep by (auto simp: arr_rep_def)
  then obtain r rest where sl: "slots a = map Some xs @ r # rest" using assms(3) by (cases rest0) auto
  have used: "unat (used_items a) = length xs" using rep by (simp add: arr_rep_def)
  have w: "unat (word_of_int (int (length xs) + 1) :: u16) = length xs + 1"
    using assms(4) by (subst unat_word_of_int_u16) auto
  show ?thesis
  proof (cases "i < length xs")
    case False
    then have "i = length xs" using assms(2) by simp
    with rep sl used w show ?thesis
      by (auto simp: array_place_def Let_def array_write_def arr_rep_def list_update_append)
  next
    case True
    have "move_slots (slots a) (i + 1) i (length xs - i)
        = Some (map Some (take i xs) @ Some (xs ! i) # map Some (drop i xs) @ rest)"
      using True by (simp add: move_slots_def sl take_map drop_map take_Suc_conv_app_nth)
    with True rep sl used w show ?thesis
      by (auto simp: array_place_def Let_def array_write_def arr_rep_def list_update_append)
  qed
qed

lemma array_place_replace:
  assumes rep: "arr_rep a xs" and "i < length xs"
  shows "\<exists>a'. array_place zero a x i pos True = Some (a', int i) \<and> arr_rep a' (xs[i := x])"
proof -
  obtain rest where sl: "slots a = map Some xs @ rest" using rep by (auto simp: arr_rep_def)
  have "word_of_int (int (unat (used_items a))) = used_items a" by simp
  with assms sl show ?thesis
    by (auto simp: array_place_def array_write_def arr_rep_def list_update_append map_update)
qed

lemma array_place_gap:
  assumes rep: "arr_rep a xs" and "length xs < i" and "i < length (slots a)" and "i < 65535"
  shows "\<exists>a'. array_place zero a x i (int i) r = Some (a', int i)
           \<and> arr_rep a' (xs @ replicate (i - length xs) zero @ [x])"
proof -
  have used: "unat (used_items a) = length xs" using rep by (simp add: arr_rep_def)
  obtain y ys where d: "drop i (slots a) = y # ys" using assms(3) by (cases "drop i (slots a)") auto
  have t: "take (length xs) (slots a) = map Some xs" using rep by (auto simp: arr_rep_def)
  have "length ys = length (slots a) - Suc i" using arg_cong [OF d, of length] by simp
  moreover have "unat (word_of_int (int i + 1) :: u16) = Suc i"
    using assms(4) by (subst unat_word_of_int_u16) auto
  ultimately show ?thesis using assms used d t
    by (auto simp: array_place_def array_write_def arr_rep_def list_update_append)
qed

subsection \<open>What each operation does to the list\<close>

lemma array_append_rep:
  assumes "holds p xs" and "length xs < 32768"
  shows "\<exists>p'. array_append True zero p x = Some (p', int (length xs)) \<and> holds p' (xs @ [x])"
proof -
  obtain a where a: "p = Some a" "arr_rep a xs" using assms(1) by (auto simp: holds_def)
  obtain a1 where g: "array_grow True a (- 1) = Some a1" "arr_rep a1 xs" "length xs < length (slots a1)"
    using array_grow_rep [OF a(2) assms(2), of "- 1"] by auto
  have u: "unat (used_items a1) = length xs" using g(2) by (simp add: arr_rep_def)
  obtain a2 where "array_place zero a1 x (length xs) (- 1) False = Some (a2, int (length xs))"
      "arr_rep a2 (xs @ [x])"
    using array_place_insert [OF g(2) order_refl g(3), of zero x "- 1"] assms(2) by auto
  with a g u show ?thesis by (auto simp: array_append_def array_insert_ex_def holds_def)
qed

text \<open>\<^verbatim>\<open>array_set\<close>: inside the list an update, beyond its end the gap is filled with zero items.\<close>

definition set_list :: "'a \<Rightarrow> 'a list \<Rightarrow> nat \<Rightarrow> 'a \<Rightarrow> 'a list" where
  "set_list zero xs i x =
     (if i < length xs then xs[i := x] else xs @ replicate (i - length xs) zero @ [x])"

lemma array_set_rep:
  assumes "holds p xs" and "length xs < 32768" and "i < 65535"
  shows "\<exists>p'. array_set True zero p (int i) x = Some (p', int i) \<and> holds p' (set_list zero xs i x)"
proof -
  obtain a where a: "p = Some a" "arr_rep a xs" using assms(1) by (auto simp: holds_def)
  obtain a1 where g: "array_grow True a (int i) = Some a1" "arr_rep a1 xs" "length xs < length (slots a1)"
      "i < length (slots a1)"
    using array_grow_rep [OF a(2) assms(2), of "int i"] assms(3) by auto
  have "\<exists>a2. array_place zero a1 x i (int i) True = Some (a2, int i) \<and> arr_rep a2 (set_list zero xs i x)"
  proof (cases i "length xs" rule: linorder_cases)
    case less
    then show ?thesis using array_place_replace [OF g(2) less] by (simp add: set_list_def)
  next
    case equal
    then have "array_place zero a1 x i (int i) True = array_place zero a1 x i (int i) False"
      using g(2) by (simp add: array_place_def arr_rep_def)
    with equal show ?thesis
      using array_place_insert [OF g(2) order_refl g(3), of zero x "int i"] assms(2) by (simp add: set_list_def)
  next
    case greater
    then show ?thesis using array_place_gap [OF g(2) greater g(4) assms(3)] by (simp add: set_list_def)
  qed
  with a g show ?thesis by (auto simp: array_set_def array_insert_ex_def holds_def)
qed

fun find_list :: "('a \<Rightarrow> 'a \<Rightarrow> int) \<Rightarrow> 'a \<Rightarrow> 'a list \<Rightarrow> int \<Rightarrow> int" where
  "find_list cmp y [] i = - 1"
| "find_list cmp y (x # xs) i = (if cmp x y = 0 then i else find_list cmp y xs (i + 1))"

lemma array_find_from_rep:
  "arr_rep a xs \<Longrightarrow> i \<le> length xs \<Longrightarrow> array_find_from a cmp y i = Some (find_list cmp y (drop i xs) (int i))"
proof (induction "length xs - i" arbitrary: i)
  case 0
  then show ?case by (simp add: array_find_from.simps arr_rep_def)
next
  case (Suc n)
  then have i: "i < length xs" by simp
  have "array_find_from a cmp y (Suc i) = Some (find_list cmp y (drop (Suc i) xs) (int (Suc i)))"
    using Suc.hyps Suc.prems i by (intro Suc.hyps(1)) auto
  moreover have "unat (used_items a) = length xs" using Suc.prems by (simp add: arr_rep_def)
  ultimately show ?case using i arr_rep_slot [OF Suc.prems(1) i]
    by (simp add: array_find_from.simps [of a cmp y i] Cons_nth_drop_Suc [symmetric] add.commute)
qed

lemma array_find_rep: "holds p xs \<Longrightarrow> array_find p cmp y = Some (find_list cmp y xs 0)"
  by (auto simp: holds_def array_find_def array_find_from_rep)

lemma find_list_neg: "0 \<le> i \<Longrightarrow> find_list cmp y xs i < 0 \<longleftrightarrow> (\<forall>x\<in>set xs. cmp x y \<noteq> 0)"
  by (induction xs arbitrary: i) auto

lemma find_list_split:
  "0 \<le> i \<Longrightarrow> 0 \<le> find_list cmp y xs i \<Longrightarrow>
     \<exists>us x vs. xs = us @ x # vs \<and> cmp x y = 0 \<and> (\<forall>u\<in>set us. cmp u y \<noteq> 0)
       \<and> find_list cmp y xs i = i + int (length us)"
proof (induction xs arbitrary: i)
  case Nil
  then show ?case by simp
next
  case (Cons z zs)
  show ?case
  proof (cases "cmp z y = 0")
    case True
    then show ?thesis by (intro exI [of _ "[]"]) auto
  next
    case False
    then obtain us x vs where "zs = us @ x # vs" "cmp x y = 0" "\<forall>u\<in>set us. cmp u y \<noteq> 0"
        "find_list cmp y zs (i + 1) = i + 1 + int (length us)"
      using Cons.IH [of "i + 1"] Cons.prems by auto
    with False show ?thesis by (intro exI [of _ "z # us"]) auto
  qed
qed

lemma in_array_rep: "holds p xs \<Longrightarrow> in_array p cmp y = Some (\<exists>x\<in>set xs. cmp x y = 0)"
  using find_list_neg [of 0 cmp y xs] by (simp add: in_array_def array_find_rep) (metis not_le)

text \<open>\<^verbatim>\<open>array_remove\<close> takes out the first item that compares equal.\<close>

fun del_first :: "('a \<Rightarrow> 'a \<Rightarrow> int) \<Rightarrow> 'a \<Rightarrow> 'a list \<Rightarrow> 'a list" where
  "del_first cmp y [] = []"
| "del_first cmp y (x # xs) = (if cmp x y = 0 then xs else x # del_first cmp y xs)"

lemma del_first_none: "\<forall>x\<in>set xs. cmp x y \<noteq> 0 \<Longrightarrow> del_first cmp y xs = xs"
  by (induction xs) auto

lemma del_first_split:
  "cmp x y = 0 \<Longrightarrow> \<forall>u\<in>set us. cmp u y \<noteq> 0 \<Longrightarrow> del_first cmp y (us @ x # vs) = us @ vs"
  by (induction us) auto

lemma array_remove_rep:
  assumes h: "holds p xs"
  shows "\<exists>p'. array_remove p cmp y = Some p' \<and> holds p' (del_first cmp y xs)"
proof (cases "find_list cmp y xs 0 < 0")
  case True
  then show ?thesis using h find_list_neg [of 0 cmp y xs]
    by (simp add: array_remove_def array_find_rep [OF h] del_first_none)
next
  case False
  then obtain us x vs where xs: "xs = us @ x # vs" "cmp x y = 0" "\<forall>u\<in>set us. cmp u y \<noteq> 0"
      "find_list cmp y xs 0 = int (length us)"
    using find_list_split [of 0 cmp y xs] by auto
  obtain a where a: "p = Some a" "arr_rep a xs" using h by (auto simp: holds_def)
  then obtain rest where sl: "slots a = map Some xs @ rest" by (auto simp: arr_rep_def)
  have used: "uint (used_items a) = int (length us) + 1 + int (length vs)"
    using arr_rep_used [OF a(2)] xs(1) by simp
  have "unat (used_items a) < 65536" using unsigned_less [of "used_items a"] by simp
  then have small: "length us + length vs < 65536" using a(2) xs(1) by (simp add: arr_rep_def)
  have w: "unat (word_of_int (int (length us) + int (length vs)) :: u16) = length us + length vs"
    using word_of_length_u16 [OF small] by simp
  have mv: "move_slots (slots a) (length us) (Suc (length us)) (length vs)
      = Some (map Some (us @ vs) @ take 1 (map Some (drop (length vs) (x # vs))) @ rest)"
    by (simp add: move_slots_def sl xs(1)) (cases vs rule: rev_cases; simp)
  have f: "array_find (Some a) cmp y = Some (int (length us))"
    using array_find_rep [OF h] xs(4) a(1) by simp
  have "\<exists>a'. array_remove p cmp y = Some (Some a') \<and> arr_rep a' (us @ vs)"
  proof (cases "vs = []")
    case True
    then show ?thesis using a w sl xs(1) by (auto simp: array_remove_def f used arr_rep_def Let_def)
  next
    case False
    have nn: "nat (uint (used_items a)) - Suc (nat (int (length us))) = length vs"
      using used by simp
    have lt: "int (length us) < uint (used_items a) - 1" using False used by simp
    have u1: "uint (used_items a) - 1 = int (length us) + int (length vs)" using used by simp
    show ?thesis using a w sl xs(1) mv lt False unfolding array_remove_def a(1) f
      by (simp add: Let_def nn u1 arr_rep_def)
  qed
  then show ?thesis using xs by (auto simp: del_first_split)
qed

subsection \<open>Sorted insertion and membership under an item order\<close>

text \<open>Insertion into an ascending list without duplicates.\<close>

fun ins_item :: "'a::linorder \<Rightarrow> 'a list \<Rightarrow> 'a list" where
  "ins_item x [] = [x]"
| "ins_item x (y # ys) = (if x = y then y # ys else if x < y then x # y # ys else y # ins_item x ys)"

lemma set_ins_item: "set (ins_item x xs) = insert x (set xs)"
  by (induction xs) auto

lemma sorted_ins_item: "sorted_wrt (<) xs \<Longrightarrow> sorted_wrt (<) (ins_item x xs)"
  by (induction xs) (auto simp: set_ins_item)

lemma length_ins_item: "length (ins_item x xs) \<le> Suc (length xs)"
  by (induction xs) auto

fun scan_list :: "('a \<Rightarrow> 'a \<Rightarrow> int) \<Rightarrow> 'a \<Rightarrow> 'a list \<Rightarrow> nat \<Rightarrow> scan_result" where
  "scan_list cmp y [] i = Scan_At i"
| "scan_list cmp y (x # xs) i =
     (if cmp x y = 0 then Scan_Found i else if cmp x y < 0 then Scan_At i else scan_list cmp y xs (Suc i))"

lemma array_scan_rep:
  "arr_rep a xs \<Longrightarrow> i \<le> length xs \<Longrightarrow> array_scan a cmp y i = Some (scan_list cmp y (drop i xs) i)"
proof (induction "length xs - i" arbitrary: i)
  case 0
  then show ?case by (simp add: array_scan.simps arr_rep_def)
next
  case (Suc n)
  then have i: "i < length xs" by simp
  have "array_scan a cmp y (Suc i) = Some (scan_list cmp y (drop (Suc i) xs) (Suc i))"
    using Suc.hyps Suc.prems i by (intro Suc.hyps(1)) auto
  moreover have "unat (used_items a) = length xs" using Suc.prems by (simp add: arr_rep_def)
  ultimately show ?case using i arr_rep_slot [OF Suc.prems(1) i]
    by (simp add: array_scan.simps [of a cmp y i] Cons_nth_drop_Suc [symmetric])
qed

text \<open>
  The contract between the array and a comparison function: zero exactly on equal items,
  negative when the stored item is behind the new one.
\<close>

locale item_order =
  fixes cmp :: "'a::linorder \<Rightarrow> 'a \<Rightarrow> int"
  assumes cmp_eq: "cmp x y = 0 \<longleftrightarrow> x = y"
    and cmp_neg: "cmp x y < 0 \<longleftrightarrow> y < x"
begin

lemma member_rep: "holds p xs \<Longrightarrow> in_array p cmp y = Some (y \<in> set xs)"
  by (auto simp: in_array_rep cmp_eq)

lemma del_first_remove1: "del_first cmp y xs = remove1 y xs"
  by (induction xs) (auto simp: cmp_eq)

lemma remove_rep: "holds p xs \<Longrightarrow> \<exists>p'. array_remove p cmp y = Some p' \<and> holds p' (remove1 y xs)"
  using array_remove_rep [of p xs cmp y] by (simp add: del_first_remove1)

lemma scan_list_found:
  "scan_list cmp y xs i = Scan_Found k \<Longrightarrow> i \<le> k \<and> k < i + length xs \<and> xs ! (k - i) = y \<and> ins_item y xs = xs"
proof (induction xs arbitrary: i)
  case Nil
  then show ?case by simp
next
  case (Cons x xs)
  show ?case
  proof (cases "cmp x y = 0 \<or> cmp x y < 0")
    case True
    with Cons.prems show ?thesis by (auto simp: cmp_eq split: if_splits)
  next
    case False
    then have "y \<noteq> x" "\<not> y < x" by (auto simp: cmp_eq cmp_neg)
    moreover have "scan_list cmp y xs (Suc i) = Scan_Found k" using False Cons.prems by simp
    then have IH: "Suc i \<le> k" "k < Suc i + length xs" "xs ! (k - Suc i) = y" "ins_item y xs = xs"
      using Cons.IH by blast+
    moreover have "k - i = Suc (k - Suc i)" using IH(1) by simp
    ultimately show ?thesis by simp
  qed
qed

lemma scan_list_at:
  "scan_list cmp y xs i = Scan_At k \<Longrightarrow>
     i \<le> k \<and> k \<le> i + length xs \<and> ins_item y xs = take (k - i) xs @ y # drop (k - i) xs"
proof (induction xs arbitrary: i)
  case Nil
  then show ?case by simp
next
  case (Cons x xs)
  show ?case
  proof (cases "cmp x y = 0 \<or> cmp x y < 0")
    case True
    with Cons.prems show ?thesis by (auto simp: cmp_eq cmp_neg split: if_splits)
  next
    case False
    then have "y \<noteq> x" "\<not> y < x" by (auto simp: cmp_eq cmp_neg)
    moreover have "scan_list cmp y xs (Suc i) = Scan_At k" using False Cons.prems by simp
    then have IH: "Suc i \<le> k" "k \<le> Suc i + length xs"
        "ins_item y xs = take (k - Suc i) xs @ y # drop (k - Suc i) xs"
      using Cons.IH by blast+
    moreover have "k - i = Suc (k - Suc i)" using IH(1) by simp
    ultimately show ?thesis by simp
  qed
qed

lemma insert_sorted_rep:
  assumes h: "holds p xs" and len: "length xs < 32768"
  shows "\<exists>p' i. array_insert_sorted True zero p y cmp True = Some (p', i) \<and> 0 \<le> i \<and> holds p' (ins_item y xs)"
proof -
  obtain a where a: "p = Some a" "arr_rep a xs" using h by (auto simp: holds_def)
  obtain a1 where g: "array_grow True a 0 = Some a1" "arr_rep a1 xs" "length xs < length (slots a1)"
    using array_grow_rep [OF a(2) len, of 0] by auto
  have sc: "array_scan a1 cmp y 0 = Some (scan_list cmp y xs 0)"
    using array_scan_rep [OF g(2), of 0] by simp
  show ?thesis
  proof (cases "scan_list cmp y xs 0")
    case (Scan_Found k)
    then have k: "k < length xs" "xs ! k = y" "ins_item y xs = xs" using scan_list_found by fastforce+
    obtain rest where sl: "slots a1 = map Some xs @ rest" using g(2) by (auto simp: arr_rep_def)
    have "(slots a1)[k := Some y] = slots a1" using k sl by (auto simp: list_update_append map_update [symmetric])
    then have "array_write a1 k y = Some a1" using k g(3) by (simp add: array_write_def)
    with a g sc Scan_Found k show ?thesis by (auto simp: array_insert_sorted_def array_insert_ex_def holds_def)
  next
    case (Scan_At k)
    then have k: "k \<le> length xs" "ins_item y xs = take k xs @ y # drop k xs"
      using scan_list_at by fastforce+
    obtain a2 where "array_place zero a1 y k 0 False = Some (a2, int k)" "arr_rep a2 (take k xs @ y # drop k xs)"
      using array_place_insert [OF g(2) k(1) g(3), of zero y 0] len by auto
    with a g sc Scan_At k show ?thesis by (auto simp: array_insert_sorted_def array_insert_ex_def holds_def)
  qed
qed

end

interpretation node_ids: item_order compare_int
  by unfold_locales (auto simp: compare_int_def)

interpretation pgnos: item_order compare_pgno
  by unfold_locales (auto simp: compare_pgno_def)

subsection \<open>The 16-bit counters overflow\<close>

text \<open>
  At 65535 items the counters are full: setting the next item grows the block and stores the
  item, but the count written back to the header is zero.
\<close>

lemma array_set_wraps:
  assumes h: "holds p xs" and len: "length xs = 65535"
  shows "\<exists>p'. array_set True zero p 65535 x = Some (p', 65535) \<and> array_count p' = 0"
proof -
  obtain a where a: "p = Some a" "arr_rep a xs" using h by (auto simp: holds_def)
  have used: "uint (used_items a) = 65535" using arr_rep_used [OF a(2)] len by simp
  have "uint (alloc_items a) < 2 ^ LENGTH(16)" by (rule uint_lt2p)
  then have alloc: "uint (alloc_items a) = 65535"
    using arr_rep_alloc [OF a(2)] arr_rep_length [OF a(2)] len by simp
  define a1 where "a1 = a\<lparr>slots := resize (slots a) 65536, alloc_items := word_of_int 65536\<rparr>"
  have g: "array_grow True a 65535 = Some a1"
    using used alloc by (simp add: array_grow_def a1_def)
  have un: "unat (used_items a1) = 65535"
    using a(2) len by (simp add: a1_def arr_rep_def)
  have sl: "65535 < length (slots a1)"
    by (simp add: a1_def resize_def)
  have "array_place zero a1 x 65535 65535 True = Some (a1\<lparr>slots := (slots a1)[65535 := Some x], used_items := word_of_int 65536\<rparr>, 65535)"
    using un sl by (simp add: array_place_def array_write_def)
  with a g show ?thesis by (simp add: array_set_def array_insert_ex_def array_count_def)
qed

subsection \<open>Properties\<close>



text \<open>The item counters of an array are 16 bits wide. At 65535 items the next \<^verbatim>\<open>array_set\<close>
  reports success with position 65535 and the array then counts as empty: the hashes of the pages of
  a database with 65536 pages or more are not all part of the state hash, which is computed over
  \<^verbatim>\<open>array_count\<close> items.\<close>
lemma array_set_overflow:
  assumes "holds p xs" and "length xs = 65535"
  shows "\<exists>p'. array_set True zero p 65535 x = Some (p', 65535) \<and> array_count p' = 0"
  using assms by (rule array_set_wraps)

lemma array_set_overflow_witness:
  "\<exists>p'. array_set True 0 (Some \<lparr>alloc_items = - 1, used_items = - 1, slots = map Some (replicate 65535 0)\<rparr>)
      65535 (7::nat) = Some (p', 65535) \<and> array_count p' = 0"
proof -
  have u: "unat (- 1 :: u16) = 65535" by (simp add: unsigned_minus_1_eq_mask mask_eq_exp_minus_1)
  then have "holds (Some \<lparr>alloc_items = - 1, used_items = - 1, slots = map Some (replicate 65535 (0::nat))\<rparr>) (replicate 65535 0)"
    unfolding holds_Some arr_rep_def by simp
  then show ?thesis by (rule array_set_overflow) simp
qed

end
