(* ===== verification/Checksum.thy ===== *)
theory Checksum
  imports Prelude
begin

section \<open>CRC-32\<close>

text \<open>
  \<^verbatim>\<open>common/checksum.c\<close>: the table-driven CRC-32 the core uses to recognise the header and the body
  of the active block and to derive node ids from addresses. The table is a list that is empty
  until \<^verbatim>\<open>crc32_init\<close> has run, so that the lazy initialisation and its flag are part of the state.
  The lemmas prove the table-driven loop equal to the polynomial division bit by bit, and that a
  changed byte always changes the checksum.
\<close>

record crc_state =
  crc_table_initialized :: bool
  crc_table :: "u32 list"

definition crc_poly :: u32 where "crc_poly = 0xEDB88320"

text \<open>One turn of the inner loop of \<^verbatim>\<open>crc32_init\<close>: one step of the division.\<close>

definition crc_bit :: "u32 \<Rightarrow> u32" where
  "crc_bit crc = (if crc AND 1 \<noteq> 0 then (drop_bit 1 crc) XOR crc_poly else drop_bit 1 crc)"

definition crc_init_table :: "u32 list" where
  "crc_init_table = map (\<lambda>x. (crc_bit ^^ 8) (of_nat x)) [0..<256]"

definition crc32_init :: "crc_state \<Rightarrow> crc_state" where
  "crc32_init st =
     (if crc_table_initialized st then st
      else \<lparr>crc_table_initialized = True,
            crc_table = crc_init_table\<rparr>)"

definition crc_update :: "u32 list \<Rightarrow> u32 \<Rightarrow> u8 \<Rightarrow> u32" where
  "crc_update table crc c =
     (drop_bit 8 crc AND 0x00FFFFFF) XOR table ! unat ((crc XOR ucast c) AND 0xFF)"

fun crc32_loop :: "u32 list \<Rightarrow> bytes \<Rightarrow> u32 \<Rightarrow> u32" where
  "crc32_loop table [] crc = crc"
| "crc32_loop table (c # buf) crc = crc32_loop table buf (crc_update table crc c)"

text \<open>\<^verbatim>\<open>crc32\<close>; the buffer is \<^term>\<open>None\<close> for a null pointer.\<close>

definition crc32 :: "crc_state \<Rightarrow> bytes option \<Rightarrow> crc_state \<times> u32" where
  "crc32 st bufptr =
     (case bufptr of None \<Rightarrow> (st, 0)
      | Some buf \<Rightarrow>
          if length buf = 0 then (st, 0)
          else let st = crc32_init st in
               (st, crc32_loop (crc_table st) buf 0xFFFFFFFF XOR 0xFFFFFFFF))"

text \<open>\<^verbatim>\<open>crc32rev\<close> runs from the last byte to the first: \<open>n\<close> is \<^verbatim>\<open>i + 1\<close>.\<close>

fun crc32rev_loop :: "u32 list \<Rightarrow> bytes \<Rightarrow> nat \<Rightarrow> u32 \<Rightarrow> u32" where
  "crc32rev_loop table buf 0 crc = crc"
| "crc32rev_loop table buf (Suc i) crc = crc32rev_loop table buf i (crc_update table crc (buf ! i))"

definition crc32rev :: "crc_state \<Rightarrow> bytes option \<Rightarrow> crc_state \<times> u32" where
  "crc32rev st bufptr =
     (case bufptr of None \<Rightarrow> (st, 0)
      | Some buf \<Rightarrow>
          if length buf = 0 then (st, 0)
          else let st = crc32_init st in
               (st, crc32rev_loop (crc_table st) buf (length buf) 0xFFFFFFFF XOR 0xFFFFFFFF))"

subsection \<open>The reference: division one bit at a time\<close>

definition crc_byte :: "u32 \<Rightarrow> u8 \<Rightarrow> u32" where
  "crc_byte crc c = (crc_bit ^^ 8) (crc XOR ucast c)"

definition crc_spec :: "bytes \<Rightarrow> u32" where
  "crc_spec buf = (if buf = [] then 0 else foldl crc_byte 0xFFFFFFFF buf XOR 0xFFFFFFFF)"

text \<open>The states \<^verbatim>\<open>crc32_init\<close> can leave: the flag is set only once the table is filled.\<close>

definition crc_ok :: "crc_state \<Rightarrow> bool" where
  "crc_ok st \<longleftrightarrow> (crc_table_initialized st \<longrightarrow>
     crc_table st = crc_init_table)"

lemma crc32_init_ok: "crc_ok st \<Longrightarrow> crc_ok (crc32_init st)
   \<and> crc_table (crc32_init st) = crc_init_table"
  by (simp add: crc_ok_def crc32_init_def)

subsection \<open>The step is linear and injective\<close>

lemma crc_bit_alt: "crc_bit x = drop_bit 1 x XOR (if bit x 0 then crc_poly else 0)"
  by (simp add: crc_bit_def and_one_eq bit_0 odd_iff_mod_2_eq_one)

lemma crc_bit_xor: "crc_bit (x XOR y) = crc_bit x XOR crc_bit y"
  unfolding crc_bit_alt by (rule bit_word_eqI) (auto simp: bit_simps)

lemma crc_bits_xor: "(crc_bit ^^ n) (x XOR y) = (crc_bit ^^ n) x XOR (crc_bit ^^ n) y"
  by (induction n) (simp_all add: crc_bit_xor)

lemma crc_bit_low_zero: "\<not> bit x 0 \<Longrightarrow> crc_bit x = drop_bit 1 x"
  by (simp add: crc_bit_alt)

lemma crc_bits_low_zero: "(\<forall>i<n. \<not> bit x i) \<Longrightarrow> (crc_bit ^^ n) x = drop_bit n x"
proof (induction n)
  case 0
  then show ?case by simp
next
  case (Suc n)
  then have "(crc_bit ^^ n) x = drop_bit n x" by auto
  moreover have "\<not> bit (drop_bit n x) 0" using Suc.prems by (simp add: bit_drop_bit_eq)
  ultimately show ?case by (simp add: crc_bit_low_zero)
qed

lemma crc_bit_inj: "crc_bit x = crc_bit y \<Longrightarrow> x = y"
proof -
  assume eq: "crc_bit x = crc_bit y"
  have top: "bit (crc_bit z) 31 = bit z 0" for z
    using bit_imp_le_length [of z 32] by (auto simp: crc_bit_alt bit_simps crc_poly_def)
  have b0: "bit x 0 = bit y 0" using top [of x] top [of y] eq by simp
  then have "drop_bit 1 x = drop_bit 1 y" using eq unfolding crc_bit_alt
    by (simp only: word_xor_cancel_right)
  then have "bit x (Suc n) = bit y (Suc n)" for n
    by (metis bit_drop_bit_eq plus_1_eq_Suc comp_apply)
  with b0 have "bit x n = bit y n" for n by (cases n) auto
  then show ?thesis by (rule bit_word_eqI)
qed

lemma crc_bits_inj: "(crc_bit ^^ n) x = (crc_bit ^^ n) y \<Longrightarrow> x = y"
  by (induction n) (auto dest: crc_bit_inj)

subsection \<open>One table step is eight division steps\<close>

lemma crc_update_byte:
  assumes "table = crc_init_table"
  shows "crc_update table crc c = crc_byte crc c"
proof -
  define z where "z = crc XOR ucast c"
  have lt: "unat (z AND 0xFF) < 256"
  proof -
    have "z AND 0xFF = take_bit 8 z" by (simp add: take_bit_eq_mask mask_eq_exp_minus_1)
    then show ?thesis using take_bit_nat_less_exp [of 8 "unat z"] by (simp add: unsigned_take_bit_eq)
  qed
  have tbl: "table ! unat (z AND 0xFF) = (crc_bit ^^ 8) (z AND 0xFF)"
    unfolding assms crc_init_table_def using lt by (subst nth_map) auto
  have split: "z = (z AND NOT 0xFF) XOR (z AND 0xFF)"
    by (rule bit_word_eqI) (auto simp: bit_simps)
  have hi: "(crc_bit ^^ 8) (z AND NOT 0xFF) = drop_bit 8 (z AND NOT 0xFF)"
    by (rule crc_bits_low_zero) (auto simp: bit_simps numeral_eq_Suc less_Suc_eq)
  have "drop_bit 8 (z AND NOT 0xFF) = drop_bit 8 crc AND 0x00FFFFFF"
  proof (rule bit_word_eqI)
    fix n assume "n < LENGTH(32)"
    then show "bit (drop_bit 8 (z AND NOT 0xFF)) n = bit (drop_bit 8 crc AND 0x00FFFFFF) n"
      unfolding z_def by (auto simp: bit_simps dest: bit_imp_le_length)
  qed
  then have "crc_update table crc c = (crc_bit ^^ 8) ((z AND NOT 0xFF) XOR (z AND 0xFF))"
    unfolding crc_update_def z_def [symmetric] crc_bits_xor hi tbl by simp
  then show ?thesis using split by (simp add: crc_byte_def z_def)
qed

lemma crc32_loop_foldl:
  "table = crc_init_table \<Longrightarrow> crc32_loop table buf crc = foldl crc_byte crc buf"
  by (induction buf arbitrary: crc) (auto simp: crc_update_byte)

lemma crc32rev_loop_foldl:
  "table = crc_init_table \<Longrightarrow> n \<le> length buf \<Longrightarrow>
     crc32rev_loop table buf n crc = foldl crc_byte crc (rev (take n buf))"
  by (induction n arbitrary: crc) (auto simp: crc_update_byte take_Suc_conv_app_nth)

lemma crc32_spec: "crc_ok st \<Longrightarrow> snd (crc32 st (Some buf)) = crc_spec buf"
  using crc32_init_ok [of st] crc32_loop_foldl [of "crc_table (crc32_init st)" buf]
  by (simp add: crc32_def crc_spec_def Let_def)

lemma crc32rev_spec: "crc_ok st \<Longrightarrow> snd (crc32rev st (Some buf)) = crc_spec (rev buf)"
  using crc32_init_ok [of st] crc32rev_loop_foldl [of "crc_table (crc32_init st)" "length buf" buf]
  by (simp add: crc32rev_def crc_spec_def Let_def)

lemma crc32_ok: "crc_ok st \<Longrightarrow> crc_ok (fst (crc32 st bufptr))"
  using crc32_init_ok [of st] by (simp add: crc32_def Let_def split: option.split)

lemma crc_byte_inj: "crc_byte x c = crc_byte y c \<Longrightarrow> x = y"
  unfolding crc_byte_def by (drule crc_bits_inj) (simp only: word_xor_cancel_right)

lemma crc_byte_inj2: "crc_byte x c = crc_byte x d \<Longrightarrow> c = d"
proof -
  assume "crc_byte x c = crc_byte x d"
  then have "x XOR ucast c = x XOR ucast d" unfolding crc_byte_def by (rule crc_bits_inj)
  then have "(ucast c :: u32) = ucast d" by (simp only: word_xor_cancel_left)
  then show "c = d" by (rule ucast_u8_inj)
qed

lemma crc_foldl_inj: "foldl crc_byte x buf = foldl crc_byte y buf \<Longrightarrow> x = y"
  by (induction buf arbitrary: x y) (auto dest: crc_byte_inj)

subsection \<open>Properties\<close>

text \<open>C40: The table-driven checksum is the bitwise one: in every state the lazy initialisation can
  leave, \<^verbatim>\<open>crc32\<close> of a buffer is the CRC-32 division of its bytes one bit at a time, \<^verbatim>\<open>crc32rev\<close> the
  same of the reversed buffer, and a null pointer gives zero.\<close>
lemma crc32_equals_division:
  assumes "crc_ok st"
  shows "snd (crc32 st (Some buf)) = crc_spec buf \<and> snd (crc32rev st (Some buf)) = crc_spec (rev buf)
    \<and> snd (crc32 st None) = 0 \<and> crc_ok (fst (crc32 st (Some buf)))"
  using crc32_spec [OF assms] crc32rev_spec [OF assms] crc32_init_ok [OF assms] assms
  by (simp add: crc32_def Let_def)

lemma crc32_equals_division_witness:
  "snd (crc32 \<lparr>crc_table_initialized = False, crc_table = []\<rparr> (Some [0x61, 0x62])) = crc_spec [0x61, 0x62]
   \<and> snd (crc32rev \<lparr>crc_table_initialized = False, crc_table = []\<rparr> (Some [0x61, 0x62])) = crc_spec [0x62, 0x61]"
proof -
  have "crc_ok \<lparr>crc_table_initialized = False, crc_table = []\<rparr>" by (simp add: crc_ok_def)
  from crc32_equals_division [OF this, of "[0x61, 0x62]"] show ?thesis by simp
qed

text \<open>A single changed byte is always noticed: \<^verbatim>\<open>aergolite_commit_block\<close> recognises the header
  and the body it verified by their \<^verbatim>\<open>crc32\<close>, and two buffers of the same length that differ in one
  byte never have the same checksum.\<close>
lemma crc32_detects_changed_byte:
  assumes "crc_ok st" and "c \<noteq> d"
  shows "snd (crc32 st (Some (us @ c # vs))) \<noteq> snd (crc32 st (Some (us @ d # vs)))"
proof
  assume "snd (crc32 st (Some (us @ c # vs))) = snd (crc32 st (Some (us @ d # vs)))"
  then have "foldl crc_byte (crc_byte (foldl crc_byte 0xFFFFFFFF us) c) vs
      = foldl crc_byte (crc_byte (foldl crc_byte 0xFFFFFFFF us) d) vs"
    unfolding crc32_spec [OF assms(1)] crc_spec_def
    by (simp add: word_xor_cancel_right)
  then have "c = d" by (blast dest: crc_foldl_inj crc_byte_inj2)
  with assms(2) show False by contradiction
qed

lemma crc32_detects_changed_byte_witness:
  "snd (crc32 \<lparr>crc_table_initialized = False, crc_table = []\<rparr> (Some [1, 2, 3]))
     \<noteq> snd (crc32 \<lparr>crc_table_initialized = False, crc_table = []\<rparr> (Some [1, 7, 3]))"
  using crc32_detects_changed_byte [of "\<lparr>crc_table_initialized = False, crc_table = []\<rparr>" 2 7 "[1]" "[3]"]
  by (simp add: crc_ok_def)

end
