(* ===== verification/Sha256.thy ===== *)
theory Sha256
  imports Prelude
begin

section \<open>SHA-256\<close>

text \<open>
  \<^verbatim>\<open>common/sha256.c\<close>: the streaming hash used for block ids, transaction hashes, page hashes,
  address checksums and keys. The context is the code's struct with the 64-byte buffer, the fill
  level, the 64-bit length and the eight chaining words. The lemmas show that the streaming
  implementation computes the iterated compression of the padded message, however the message is
  cut into updates. The compression function itself is the code's; that it is a good hash function
  is not a statement of this development.
\<close>

record sha256_ctx =
  ctx_data :: bytes
  ctx_datalen :: nat
  ctx_bitlen :: u64
  ctx_state :: "u32 list"

subsection \<open>The macros\<close>

definition ROTRIGHT :: "u32 \<Rightarrow> nat \<Rightarrow> u32" where
  "ROTRIGHT a b = drop_bit b a OR push_bit (32 - b) a"

definition CH :: "u32 \<Rightarrow> u32 \<Rightarrow> u32 \<Rightarrow> u32" where
  "CH x y z = (x AND y) XOR (NOT x AND z)"

definition MAJ :: "u32 \<Rightarrow> u32 \<Rightarrow> u32 \<Rightarrow> u32" where
  "MAJ x y z = (x AND y) XOR (x AND z) XOR (y AND z)"

definition EP0 :: "u32 \<Rightarrow> u32" where
  "EP0 x = ROTRIGHT x 2 XOR ROTRIGHT x 13 XOR ROTRIGHT x 22"

definition EP1 :: "u32 \<Rightarrow> u32" where
  "EP1 x = ROTRIGHT x 6 XOR ROTRIGHT x 11 XOR ROTRIGHT x 25"

definition SIG0 :: "u32 \<Rightarrow> u32" where
  "SIG0 x = ROTRIGHT x 7 XOR ROTRIGHT x 18 XOR drop_bit 3 x"

definition SIG1 :: "u32 \<Rightarrow> u32" where
  "SIG1 x = ROTRIGHT x 17 XOR ROTRIGHT x 19 XOR drop_bit 10 x"

text \<open>The table of the round constants, one list per line of the table in the code.\<close>

definition kk :: "u32 list" where
  "kk = concat [
    [0x428a2f98, 0x71374491, 0xb5c0fbcf, 0xe9b5dba5, 0x3956c25b, 0x59f111f1, 0x923f82a4, 0xab1c5ed5],
    [0xd807aa98, 0x12835b01, 0x243185be, 0x550c7dc3, 0x72be5d74, 0x80deb1fe, 0x9bdc06a7, 0xc19bf174],
    [0xe49b69c1, 0xefbe4786, 0x0fc19dc6, 0x240ca1cc, 0x2de92c6f, 0x4a7484aa, 0x5cb0a9dc, 0x76f988da],
    [0x983e5152, 0xa831c66d, 0xb00327c8, 0xbf597fc7, 0xc6e00bf3, 0xd5a79147, 0x06ca6351, 0x14292967],
    [0x27b70a85, 0x2e1b2138, 0x4d2c6dfc, 0x53380d13, 0x650a7354, 0x766a0abb, 0x81c2c92e, 0x92722c85],
    [0xa2bfe8a1, 0xa81a664b, 0xc24b8b70, 0xc76c51a3, 0xd192e819, 0xd6990624, 0xf40e3585, 0x106aa070],
    [0x19a4c116, 0x1e376c08, 0x2748774c, 0x34b0bcb5, 0x391c0cb3, 0x4ed8aa4a, 0x5b9cca4f, 0x682e6ff3],
    [0x748f82ee, 0x78a5636f, 0x84c87814, 0x8cc70208, 0x90befffa, 0xa4506ceb, 0xbef9a3f7, 0xc67178f2]]"

subsection \<open>The compression\<close>

definition be32 :: "u8 \<Rightarrow> u8 \<Rightarrow> u8 \<Rightarrow> u8 \<Rightarrow> u32" where
  "be32 a b c d = push_bit 24 (ucast a) OR push_bit 16 (ucast b) OR push_bit 8 (ucast c) OR ucast d"

definition schedule_first :: "bytes \<Rightarrow> u32 list" where
  "schedule_first d = map (\<lambda>i. be32 (d ! (4 * i)) (d ! (4 * i + 1)) (d ! (4 * i + 2)) (d ! (4 * i + 3))) [0..<16]"

definition schedule_next :: "u32 list \<Rightarrow> u32 list" where
  "schedule_next m =
     (let i = length m in
      m @ [SIG1 (m ! (i - 2)) + m ! (i - 7) + SIG0 (m ! (i - 15)) + m ! (i - 16)])"

definition schedule :: "bytes \<Rightarrow> u32 list" where
  "schedule d = (schedule_next ^^ 48) (schedule_first d)"

type_synonym vars = "u32 \<times> u32 \<times> u32 \<times> u32 \<times> u32 \<times> u32 \<times> u32 \<times> u32"

definition sha_round :: "u32 list \<Rightarrow> vars \<Rightarrow> nat \<Rightarrow> vars" where
  "sha_round m v i = (case v of (a, b, c, d, e, f, g, h) \<Rightarrow>
     let t1 = h + EP1 e + CH e f g + kk ! i + m ! i;
         t2 = EP0 a + MAJ a b c
     in (t1 + t2, a, b, c, d + t1, e, f, g))"

definition compress :: "u32 list \<Rightarrow> bytes \<Rightarrow> u32 list" where
  "compress st d =
     (case foldl (sha_round (schedule d)) (st ! 0, st ! 1, st ! 2, st ! 3, st ! 4, st ! 5, st ! 6, st ! 7) [0..<64]
      of (a, b, c, d, e, f, g, h) \<Rightarrow>
        [st ! 0 + a, st ! 1 + b, st ! 2 + c, st ! 3 + d, st ! 4 + e, st ! 5 + f, st ! 6 + g, st ! 7 + h])"

definition sha256_transform :: "sha256_ctx \<Rightarrow> bytes \<Rightarrow> sha256_ctx" where
  "sha256_transform ctx d = ctx\<lparr>ctx_state := compress (ctx_state ctx) d\<rparr>"

subsection \<open>The streaming operations\<close>

definition sha_iv :: "u32 list" where
  "sha_iv = [0x6a09e667, 0xbb67ae85, 0x3c6ef372, 0xa54ff53a, 0x510e527f, 0x9b05688c, 0x1f83d9ab, 0x5be0cd19]"

text \<open>The buffer is not initialised; \<open>junk\<close> is what the stack holds.\<close>

definition sha256_init :: "bytes \<Rightarrow> sha256_ctx" where
  "sha256_init junk = \<lparr>ctx_data = junk, ctx_datalen = 0, ctx_bitlen = 0, ctx_state = sha_iv\<rparr>"

definition sha256_byte :: "sha256_ctx \<Rightarrow> u8 \<Rightarrow> sha256_ctx" where
  "sha256_byte ctx x =
     (let ctx = ctx\<lparr>ctx_data := (ctx_data ctx)[ctx_datalen ctx := x]\<rparr>;
          ctx = ctx\<lparr>ctx_datalen := ctx_datalen ctx + 1\<rparr>
      in if ctx_datalen ctx = 64 then
           (sha256_transform ctx (ctx_data ctx))\<lparr>ctx_bitlen := ctx_bitlen ctx + 512, ctx_datalen := 0\<rparr>
         else ctx)"

definition sha256_update :: "sha256_ctx \<Rightarrow> bytes \<Rightarrow> sha256_ctx" where
  "sha256_update ctx d = foldl sha256_byte ctx d"

text \<open>\<^verbatim>\<open>while (i < n) ctx->data[i++] = 0x00;\<close>\<close>

fun zero_fill :: "bytes \<Rightarrow> nat \<Rightarrow> nat \<Rightarrow> bytes" where
  "zero_fill d i 0 = d"
| "zero_fill d i (Suc n) = zero_fill (d[i := 0]) (i + 1) n"

definition put_length :: "bytes \<Rightarrow> u64 \<Rightarrow> bytes" where
  "put_length d n = d[63 := ucast n, 62 := ucast (drop_bit 8 n), 61 := ucast (drop_bit 16 n),
     60 := ucast (drop_bit 24 n), 59 := ucast (drop_bit 32 n), 58 := ucast (drop_bit 40 n),
     57 := ucast (drop_bit 48 n), 56 := ucast (drop_bit 56 n)]"

definition hash_bytes :: "u32 list \<Rightarrow> bytes" where
  "hash_bytes st = map (\<lambda>k. ucast (drop_bit (24 - (k mod 4) * 8) (st ! (k div 4)) AND 0xff)) [0..<32]"

definition sha256_final :: "sha256_ctx \<Rightarrow> bytes" where
  "sha256_final ctx =
     (let i = ctx_datalen ctx;
          d = (ctx_data ctx)[i := 0x80];
          ctx1 = (if ctx_datalen ctx < 56 then ctx\<lparr>ctx_data := zero_fill d (i + 1) (56 - (i + 1))\<rparr>
                  else let d = zero_fill d (i + 1) (64 - (i + 1));
                           c = sha256_transform (ctx\<lparr>ctx_data := d\<rparr>) d
                       in c\<lparr>ctx_data := zero_fill (ctx_data c) 0 56\<rparr>);
          ctx2 = ctx1\<lparr>ctx_bitlen := ctx_bitlen ctx1 + of_nat (ctx_datalen ctx1 * 8)\<rparr>;
          ctx3 = ctx2\<lparr>ctx_data := put_length (ctx_data ctx2) (ctx_bitlen ctx2)\<rparr>
      in hash_bytes (ctx_state (sha256_transform ctx3 (ctx_data ctx3))))"

definition sha256 :: "bytes \<Rightarrow> bytes" where
  "sha256 d = sha256_final (sha256_update (sha256_init (replicate 64 0)) d)"

subsection \<open>Specification: the compression iterated over the padded message\<close>

function blocks64 :: "bytes \<Rightarrow> bytes list" where
  "blocks64 xs = (if length xs < 64 then [] else take 64 xs # blocks64 (drop 64 xs))"
  by pat_completeness auto
termination by (relation "measure length") auto

declare blocks64.simps [simp del]

definition be64 :: "u64 \<Rightarrow> bytes" where
  "be64 n = map (\<lambda>k. ucast (drop_bit (56 - 8 * k) n)) [0..<8]"

definition sha_pad :: "bytes \<Rightarrow> bytes" where
  "sha_pad msg = msg @ 0x80 # replicate ((119 - length msg mod 64) mod 64) 0 @ be64 (of_nat (8 * length msg))"

definition sha256_spec :: "bytes \<Rightarrow> bytes" where
  "sha256_spec msg = hash_bytes (foldl compress sha_iv (blocks64 (sha_pad msg)))"

lemma blocks64_append: "64 dvd length xs \<Longrightarrow> blocks64 (xs @ ys) = blocks64 xs @ blocks64 ys"
proof (induction xs rule: blocks64.induct)
  case (1 xs)
  show ?case
  proof (cases "length xs < 64")
    case True
    then have "xs = []" using 1(2) by (auto dest: dvd_imp_le)
    then show ?thesis by (simp add: blocks64.simps [of "[]"])
  next
    case False
    then have "64 dvd length (drop 64 xs)" using 1(2) by (simp add: dvd_diff_nat)
    then have "blocks64 (drop 64 xs @ ys) = blocks64 (drop 64 xs) @ blocks64 ys" using 1(1) False by simp
    then show ?thesis using False by (simp add: blocks64.simps [of "xs @ ys"] blocks64.simps [of xs])
  qed
qed

lemma blocks64_one: "length xs = 64 \<Longrightarrow> blocks64 xs = [xs]"
  by (simp add: blocks64.simps [of xs] blocks64.simps [of "[]"])

lemma pad_zeros: "n < 64 \<Longrightarrow> (119 - n) mod 64 = (if n \<le> 55 then 55 - n else 119 - n)" for n :: nat
proof (cases "n \<le> 55")
  case True
  then have "119 - n = 64 + (55 - n)" by linarith
  then have "(119 - n) mod 64 = (55 - n) mod 64" by (simp only: mod_add_self1)
  then show ?thesis using True by simp
qed simp

lemma length_sha_pad: "64 dvd length (sha_pad msg)"
proof -
  have "length (sha_pad msg) = length msg + 9 + (119 - length msg mod 64) mod 64"
    by (simp add: sha_pad_def be64_def)
  moreover have "64 dvd n + 9 + (119 - n mod 64) mod 64" for n :: nat
  proof -
    define q r where "q = n div 64" and "r = n mod 64"
    have n: "n = 64 * q + r" and r: "r < 64" by (simp_all add: q_def r_def)
    have "n + 9 + (119 - r) mod 64 = (if r \<le> 55 then 64 * (q + 1) else 64 * (q + 2))"
      using pad_zeros [OF r] n r by simp
    moreover have "64 dvd (if r \<le> 55 then 64 * (q + 1) else 64 * (q + 2))" by simp
    ultimately show ?thesis unfolding r_def [symmetric] by (simp only:)
  qed
  ultimately show ?thesis by simp
qed

lemma length_compress: "length (compress st d) = 8"
  by (simp add: compress_def split: prod.splits)

lemma length_hash_bytes: "length (hash_bytes st) = 32"
  by (simp add: hash_bytes_def)

subsection \<open>The context represents the message so far\<close>

definition ctx_rep :: "sha256_ctx \<Rightarrow> bytes \<Rightarrow> bool" where
  "ctx_rep ctx msg \<longleftrightarrow> length (ctx_data ctx) = 64 \<and> ctx_datalen ctx < 64 \<and>
     (\<exists>pre. msg = pre @ take (ctx_datalen ctx) (ctx_data ctx) \<and> 64 dvd length pre
        \<and> ctx_bitlen ctx = of_nat (8 * length pre) \<and> ctx_state ctx = foldl compress sha_iv (blocks64 pre))"

lemma ctx_rep_init: "length junk = 64 \<Longrightarrow> ctx_rep (sha256_init junk) []"
  by (simp add: ctx_rep_def sha256_init_def blocks64.simps [of "[]"])

lemma ctx_rep_byte:
  assumes "ctx_rep ctx msg"
  shows "ctx_rep (sha256_byte ctx x) (msg @ [x])"
proof -
  define d where "d = (ctx_data ctx)[ctx_datalen ctx := x]"
  obtain pre where len: "length (ctx_data ctx) = 64" "ctx_datalen ctx < 64"
    and pre: "msg = pre @ take (ctx_datalen ctx) (ctx_data ctx)" "64 dvd length pre"
      "ctx_bitlen ctx = of_nat (8 * length pre)" "ctx_state ctx = foldl compress sha_iv (blocks64 pre)"
    using assms unfolding ctx_rep_def by blast
  have tk: "take (ctx_datalen ctx + 1) d = take (ctx_datalen ctx) (ctx_data ctx) @ [x]"
    using len by (simp add: d_def take_Suc_conv_app_nth)
  have ld: "length d = 64" using len by (simp add: d_def)
  show ?thesis
  proof (cases "ctx_datalen ctx + 1 = 64")
    case True
    then have msg: "msg @ [x] = pre @ d" using tk ld pre(1) by simp
    have "foldl compress sha_iv (blocks64 (pre @ d)) = compress (ctx_state ctx) d"
      using pre(2,4) ld by (simp add: blocks64_append blocks64_one)
    then show ?thesis unfolding ctx_rep_def using True msg ld pre(2,3) len
      by (auto simp: sha256_byte_def sha256_transform_def Let_def d_def intro!: exI [of _ "pre @ d"])
  next
    case False
    then show ?thesis unfolding ctx_rep_def using tk ld pre len
      by (auto simp: sha256_byte_def Let_def d_def [symmetric] intro!: exI [of _ pre])
  qed
qed

lemma ctx_rep_update: "ctx_rep ctx msg \<Longrightarrow> ctx_rep (sha256_update ctx d) (msg @ d)"
proof (induction d arbitrary: ctx msg)
  case Nil
  then show ?case by (simp add: sha256_update_def)
next
  case (Cons x d)
  then have "ctx_rep (sha256_update (sha256_byte ctx x) d) ((msg @ [x]) @ d)" by (blast intro: ctx_rep_byte)
  then show ?case by (simp add: sha256_update_def)
qed

lemma sha256_update_append: "sha256_update ctx (d1 @ d2) = sha256_update (sha256_update ctx d1) d2"
  by (simp add: sha256_update_def)

subsection \<open>Padding\<close>

lemma zero_fill_eq: "i + n \<le> length d \<Longrightarrow> zero_fill d i n = take i d @ replicate n 0 @ drop (i + n) d"
proof (induction n arbitrary: d i)
  case 0
  then show ?case by simp
next
  case (Suc n)
  then have "zero_fill (d[i := 0]) (i + 1) n = take (i + 1) (d[i := 0]) @ replicate n 0 @ drop (i + 1 + n) (d[i := 0])"
    by simp
  moreover have "take (i + 1) (d[i := 0]) = take i d @ [0]"
    using Suc.prems by (simp add: take_Suc_conv_app_nth)
  ultimately show ?case using Suc.prems by simp
qed

lemma length_zero_fill: "length (zero_fill d i n) = length d"
  by (induction n arbitrary: d i) auto

lemma take_zero_fill: "k \<le> i \<Longrightarrow> take k (zero_fill d i n) = take k d"
  by (induction n arbitrary: d i) auto

lemma put_length_eq:
  assumes "length d = 64"
  shows "put_length d n = take 56 d @ be64 n"
proof (rule nth_equalityI)
  show "length (put_length d n) = length (take 56 d @ be64 n)"
    using assms by (simp add: put_length_def be64_def)
next
  fix i assume "i < length (put_length d n)"
  then have "i < 56 \<or> i \<in> {56, 57, 58, 59, 60, 61, 62, 63}"
    using assms by (auto simp: put_length_def)
  then show "put_length d n ! i = (take 56 d @ be64 n) ! i"
  proof
    assume "i < 56"
    then show ?thesis using assms by (simp add: put_length_def nth_append)
  next
    assume "i \<in> {56, 57, 58, 59, 60, 61, 62, 63}"
    then show ?thesis using assms by (auto simp: put_length_def nth_append be64_def)
  qed
qed

lemma sha256_final_spec:
  assumes "ctx_rep ctx msg"
  shows "sha256_final ctx = sha256_spec msg"
proof -
  obtain pre where len: "length (ctx_data ctx) = 64" "ctx_datalen ctx < 64"
    and pre: "msg = pre @ take (ctx_datalen ctx) (ctx_data ctx)" "64 dvd length pre"
      "ctx_bitlen ctx = of_nat (8 * length pre)" "ctx_state ctx = foldl compress sha_iv (blocks64 pre)"
    using assms unfolding ctx_rep_def by blast
  define n where "n = ctx_datalen ctx"
  define t where "t = take n (ctx_data ctx)"
  define L :: u64 where "L = of_nat (8 * length msg)"
  have lmsg: "length msg = length pre + n" using pre(1) len by (simp add: n_def)
  have lmod: "length msg mod 64 = n" using lmsg pre(2) len by (auto simp: n_def elim!: dvdE)
  have bits: "ctx_bitlen ctx + of_nat (n * 8) = L" by (simp add: L_def pre(3) lmsg algebra_simps)
  have lt: "length t = n" using len by (simp add: t_def n_def)
  define d where "d = (ctx_data ctx)[n := 0x80]"
  have ld: "length d = 64" using len by (simp add: d_def)
  have tk: "take (n + 1) d = t @ [0x80]"
    using len by (simp add: d_def t_def n_def take_Suc_conv_app_nth)
  have zf: "zero_fill d (n + 1) (k - (n + 1)) = t @ 0x80 # replicate (k - (n + 1)) 0 @ drop k d"
    if "n + 1 \<le> k" "k \<le> 64" for k
    using zero_fill_eq [of "n + 1" "k - (n + 1)" d] that ld tk by simp
  have pad: "sha_pad msg = pre @ (t @ 0x80 # replicate ((119 - n) mod 64) 0 @ be64 L)"
    unfolding sha_pad_def lmod L_def [symmetric] by (simp add: pre(1) t_def n_def)
  have spec: "sha256_spec msg
      = hash_bytes (foldl compress (ctx_state ctx) (blocks64 (t @ 0x80 # replicate ((119 - n) mod 64) 0 @ be64 L)))"
    unfolding sha256_spec_def pad blocks64_append [OF pre(2)] pre(4) by simp
  show ?thesis
  proof (cases "n < 56")
    case True
    have "(119 - n) mod 64 = 55 - n" using pad_zeros [of n] True by simp
    moreover have "take 56 (zero_fill d (n + 1) (56 - (n + 1))) = t @ 0x80 # replicate (55 - n) 0"
      using zf [of 56] True lt by (simp add: take_Cons')
    moreover have "length (t @ 0x80 # replicate (55 - n) 0 @ be64 L) = 64"
      using True lt by (simp add: be64_def)
    ultimately show ?thesis unfolding spec using True bits ld
      by (simp add: sha256_final_def Let_def n_def [symmetric] d_def [symmetric] put_length_eq
          length_zero_fill sha256_transform_def blocks64_one)
  next
    case False
    have nn: "(119 - n) mod 64 = 63 - n + 56"
      using pad_zeros [of n] False len by (simp add: n_def)
    have b1: "zero_fill d (n + 1) (64 - (n + 1)) = t @ 0x80 # replicate (63 - n) 0"
      using zf [of 64] len ld by (simp add: n_def)
    have l1: "length (t @ 0x80 # replicate (63 - n) 0) = 64" using lt len by (simp add: n_def)
    have b2: "take 56 (zero_fill (zero_fill d (n + 1) (64 - (n + 1))) 0 56) = replicate 56 0"
      using ld by (simp add: zero_fill_eq length_zero_fill)
    have b3: "put_length (zero_fill (t @ 0x80 # replicate (63 - n) 0) 0 56) L = replicate 56 0 @ be64 L"
      using b2 ld b1 by (subst put_length_eq) (simp_all only: length_zero_fill l1)
    have l2: "length (replicate 56 0 @ be64 L) = 64" by (simp add: be64_def)
    have "t @ 0x80 # replicate ((119 - n) mod 64) 0 @ be64 L
        = (t @ 0x80 # replicate (63 - n) 0) @ (replicate 56 0 @ be64 L)"
      unfolding nn replicate_add by simp
    moreover have "blocks64 ((t @ 0x80 # replicate (63 - n) 0) @ (replicate 56 0 @ be64 L))
        = [t @ 0x80 # replicate (63 - n) 0, replicate 56 0 @ be64 L]"
      unfolding blocks64_append [of "t @ 0x80 # replicate (63 - n) 0", unfolded l1, OF dvd_refl]
        blocks64_one [OF l1] blocks64_one [OF l2] by simp
    ultimately have "blocks64 (t @ 0x80 # replicate ((119 - n) mod 64) 0 @ be64 L)
        = [t @ 0x80 # replicate (63 - n) 0, replicate 56 0 @ be64 L]" by (simp only:)
    then show ?thesis unfolding spec using False bits ld b1 b3
      by (simp add: sha256_final_def Let_def n_def [symmetric] d_def [symmetric] put_length_eq
          length_zero_fill sha256_transform_def)
  qed
qed

lemma sha256_eq_spec: "sha256 msg = sha256_spec msg"
  using sha256_final_spec [OF ctx_rep_update [OF ctx_rep_init, of "replicate 64 0" msg]]
  by (simp add: sha256_def)

lemma length_sha256 [simp]: "length (sha256 msg) = 32"
  by (simp add: sha256_eq_spec sha256_spec_def length_hash_bytes)

subsection \<open>Properties\<close>

text \<open>C35: Streaming is hashing: whatever the 64-byte buffer held before, and however the message is
  cut into calls of \<^verbatim>\<open>sha256_update\<close>, \<^verbatim>\<open>sha256_final\<close> returns the compression iterated over the
  padded message (a one bit, zeros, the length in bits on 64 bits), and the digest has 32 bytes.\<close>
lemma sha256_stream_spec:
  assumes "length junk = 64"
  shows "sha256_final (foldl sha256_update (sha256_init junk) parts) = sha256_spec (concat parts)
    \<and> sha256_spec (concat parts) = sha256 (concat parts) \<and> length (sha256_spec (concat parts)) = 32"
proof -
  have fold: "foldl sha256_update ctx parts = sha256_update ctx (concat parts)" for ctx
    by (induction parts arbitrary: ctx) (simp_all add: sha256_update_append, simp add: sha256_update_def)
  have "ctx_rep (sha256_update (sha256_init junk) (concat parts)) ([] @ concat parts)"
    by (rule ctx_rep_update [OF ctx_rep_init [OF assms]])
  then show ?thesis using sha256_final_spec unfolding fold
    by (simp add: sha256_eq_spec) (simp add: sha256_spec_def length_hash_bytes)
qed

lemma sha256_stream_spec_witness:
  "sha256_final (foldl sha256_update (sha256_init (replicate 64 7)) [[0x61], [0x62, 0x63]])
     = sha256_spec [0x61, 0x62, 0x63]"
  using sha256_stream_spec [of "replicate 64 7" "[[0x61], [0x62, 0x63]]"] by simp

end
