(* ===== verification/Base58.thy ===== *)
theory Base58
  imports Sha256 Checksum
begin

section \<open>Base58 and addresses\<close>

text \<open>
  \<^verbatim>\<open>common/base58.c\<close> and the functions of the core that turn a public key into an address and
  back. The encoder's buffer is a list of base-58 digits, its inner loop runs an index down from
  the end: when the index passes below zero it wraps to \<^verbatim>\<open>SIZE_MAX\<close> and the next access is outside
  the buffer, which is \<^term>\<open>None\<close> here. The decoder keeps its 32-bit limbs as numbers and writes
  the masks of the code as \<open>mod\<close> and \<open>div\<close> by powers of two. Characters are 7-bit or above as in
  the code, the digit table has 128 entries.
\<close>

subsection \<open>The tables\<close>

definition b58digits_map :: "int list" where
  "b58digits_map = [
  -1,-1,-1,-1,-1,-1,-1,-1, -1,-1,-1,-1,-1,-1,-1,-1,
  -1,-1,-1,-1,-1,-1,-1,-1, -1,-1,-1,-1,-1,-1,-1,-1,
  -1,-1,-1,-1,-1,-1,-1,-1, -1,-1,-1,-1,-1,-1,-1,-1,
  -1, 0, 1, 2, 3, 4, 5, 6,  7, 8,-1,-1,-1,-1,-1,-1,
  -1, 9,10,11,12,13,14,15, 16,-1,17,18,19,20,21,-1,
  22,23,24,25,26,27,28,29, 30,31,32,-1,-1,-1,-1,-1,
  -1,33,34,35,36,37,38,39, 40,41,42,43,-1,44,45,46,
  47,48,49,50,51,52,53,54, 55,56,57,-1,-1,-1,-1,-1]"

definition b58digits_ordered :: string where
  "b58digits_ordered = ''123456789ABCDEFGHJKLMNPQRSTUVWXYZabcdefghijkmnopqrstuvwxyz''"

text \<open>The value of a character, \<^term>\<open>None\<close> when the decoder gives up on it.\<close>

definition b58_digit :: "char \<Rightarrow> nat option" where
  "b58_digit c =
     (let u = of_char c :: nat in
      if u \<ge> 128 then None
      else if b58digits_map ! u = - 1 then None
      else Some (nat (b58digits_map ! u)))"

subsection \<open>The encoder\<close>

text \<open>
  \<^verbatim>\<open>for (carry = bin[i], j = size - 1; (j > high) || carry; j--)\<close>: the second argument is \<^verbatim>\<open>j + 1\<close>,
  so that \<open>0\<close> is the wrapped index. The result is the buffer and the final \<^verbatim>\<open>j\<close>.
\<close>

fun enc_inner :: "nat list \<Rightarrow> nat \<Rightarrow> nat \<Rightarrow> nat \<Rightarrow> (nat list \<times> nat) option" where
  "enc_inner buf 0 high carry = None"
| "enc_inner buf (Suc j) high carry =
     (if j > high \<or> carry \<noteq> 0 then
        let c = carry + 256 * buf ! j in enc_inner (buf[j := c mod 58]) j high (c div 58)
      else Some (buf, j))"

fun enc_outer :: "nat list \<Rightarrow> nat list \<Rightarrow> nat \<Rightarrow> nat list option" where
  "enc_outer [] buf high = Some buf"
| "enc_outer (x # bin) buf high =
     (case enc_inner buf (length buf) high x of None \<Rightarrow> None
      | Some (buf', j) \<Rightarrow> enc_outer bin buf' j)"

definition b58_size :: "nat \<Rightarrow> nat" where
  "b58_size n = n * 138 div 100 + 1"

text \<open>
  The outer option is the wrapped index; \<^term>\<open>Inl\<close> is the size needed when \<^verbatim>\<open>*b58sz\<close> is too
  small (the function returns false), \<^term>\<open>Inr\<close> the characters before the terminating zero.
\<close>

definition base58_encode :: "bytes \<Rightarrow> nat \<Rightarrow> (nat + string) option" where
  "base58_encode bin b58sz =
     (let zcount = length (takeWhile (\<lambda>x. x = 0) bin);
          size = b58_size (length bin - zcount)
      in case enc_outer (map unat (drop zcount bin)) (replicate size 0) (size - 1) of
           None \<Rightarrow> None
         | Some buf \<Rightarrow>
             let j = length (takeWhile (\<lambda>d. d = 0) buf) in
             if b58sz \<le> zcount + size - j then Some (Inl (zcount + size - j + 1))
             else Some (Inr (replicate zcount (CHR ''1'') @ map (\<lambda>d. b58digits_ordered ! d) (drop j buf))))"

subsection \<open>The decoder\<close>

text \<open>\<^verbatim>\<open>for (j = outisz; j--; )\<close>, from the last limb to the first; the result has the final carry.\<close>

fun dec_limbs :: "nat list \<Rightarrow> nat \<Rightarrow> nat list \<times> nat" where
  "dec_limbs [] c = ([], c)"
| "dec_limbs (x # xs) c =
     (let (ys, c1) = dec_limbs xs c; t = x * 58 + c1 in
      ((t mod 2 ^ 32) # ys, (t div 2 ^ 32) mod 64))"

text \<open>One character: fails on an invalid digit, on a carry out of the first limb, and when the first
  limb has bits above the \<open>left\<close> bytes it may use.\<close>

definition dec_char :: "nat \<Rightarrow> nat list \<Rightarrow> char \<Rightarrow> nat list option" where
  "dec_char left outi ch =
     (case b58_digit ch of None \<Rightarrow> None
      | Some c \<Rightarrow>
          let (outi', c') = dec_limbs outi c in
          if c' \<noteq> 0 then None
          else if left \<noteq> 0 \<and> outi' ! 0 div 2 ^ (left * 8) \<noteq> 0 then None
          else Some outi')"

fun dec_chars :: "nat \<Rightarrow> nat list \<Rightarrow> string \<Rightarrow> nat list option" where
  "dec_chars left outi [] = Some outi"
| "dec_chars left outi (ch # s) =
     (case dec_char left outi ch of None \<Rightarrow> None | Some outi' \<Rightarrow> dec_chars left outi' s)"

definition limb_bytes :: "nat \<Rightarrow> nat list" where
  "limb_bytes x = [x div 2 ^ 24 mod 256, x div 2 ^ 16 mod 256, x div 2 ^ 8 mod 256, x mod 256]"

definition dec_output :: "nat \<Rightarrow> nat list \<Rightarrow> nat list" where
  "dec_output left outi =
     (if left = 0 then concat (map limb_bytes outi)
      else drop (4 - left) (limb_bytes (outi ! 0)) @ concat (map limb_bytes (drop 1 outi)))"

text \<open>The buffer of \<open>binsz\<close> bytes and the size \<^verbatim>\<open>*binszp\<close> on return.\<close>

definition base58_decode :: "string \<Rightarrow> nat \<Rightarrow> (bytes \<times> nat) option" where
  "base58_decode b58 binsz =
     (let outisz = (binsz + 3) div 4;
          left = binsz mod 4;
          zerocount = length (takeWhile (\<lambda>c. c = CHR ''1'') b58)
      in case dec_chars left (replicate outisz 0) (drop zerocount b58) of
           None \<Rightarrow> None
         | Some outi \<Rightarrow>
             let bin = map of_nat (dec_output left outi) in
             Some (bin, binsz - length (takeWhile (\<lambda>x. x = 0) bin) + zerocount))"

subsection \<open>The digits\<close>

lemma b58_digit_map: "map b58_digit b58digits_ordered = map Some [0..<58]"
  by (simp add: b58_digit_def b58digits_ordered_def b58digits_map_def Let_def upt_rec)

lemma length_b58digits_ordered: "length b58digits_ordered = 58"
  by (simp add: b58digits_ordered_def)

lemma b58_digit_ordered: "d < 58 \<Longrightarrow> b58_digit (b58digits_ordered ! d) = Some d"
  using arg_cong [OF b58_digit_map, of "\<lambda>l. l ! d"] by (simp add: length_b58digits_ordered)

lemma b58_ordered_one: "d < 58 \<Longrightarrow> b58digits_ordered ! d = CHR ''1'' \<longleftrightarrow> d = 0"
proof -
  have "b58_digit (CHR ''1'') = Some 0" by (simp add: b58_digit_def b58digits_map_def Let_def)
  moreover have "b58digits_ordered ! 0 = CHR ''1''" by (simp add: b58digits_ordered_def)
  ultimately show "d < 58 \<Longrightarrow> b58digits_ordered ! d = CHR ''1'' \<longleftrightarrow> d = 0"
    using b58_digit_ordered [of d] by (metis option.inject)
qed

subsection \<open>The encoder computes the digits\<close>

lemma enc_inner_val:
  assumes "enc_inner buf p high carry = Some (buf', j)" and "p \<le> length buf"
    and "\<forall>d\<in>set buf. d < 58" and "\<forall>k. k \<le> high \<and> k < p \<longrightarrow> buf ! k = 0"
  shows "be_val 58 (take p buf') = 256 * be_val 58 (take p buf) + carry \<and> drop p buf' = drop p buf
    \<and> length buf' = length buf \<and> (\<forall>d\<in>set buf'. d < 58) \<and> (\<forall>k\<le>j. buf' ! k = 0) \<and> j < p"
  using assms
proof (induction p arbitrary: buf carry)
  case 0
  then show ?case by simp
next
  case (Suc i)
  show ?case
  proof (cases "i > high \<or> carry \<noteq> 0")
    case False
    then have r: "buf' = buf" "j = i" "carry = 0" "i \<le> high" using Suc.prems(1) by auto
    have z: "buf ! k = 0" if "k \<le> i" for k using Suc.prems(4) r(4) that by auto
    have "be_val 58 (take (Suc i) buf) = 0"
      by (rule be_val_all_zero) (use z in \<open>auto simp: in_set_conv_nth less_Suc_eq_le\<close>)
    then show ?thesis using Suc.prems(3) r z by auto
  next
    case True
    define c where "c = carry + 256 * buf ! i"
    define b1 where "b1 = buf[i := c mod 58]"
    have e: "enc_inner b1 i high (c div 58) = Some (buf', j)"
      using Suc.prems(1) True by (auto simp: b1_def c_def Let_def)
    have d1: "\<forall>d\<in>set b1. d < 58"
      using Suc.prems(3) by (auto simp: b1_def dest!: set_update_subset_insert [THEN subsetD])
    have len: "i \<le> length b1" "length b1 = length buf" using Suc.prems(2) by (auto simp: b1_def)
    have z1: "\<forall>k. k \<le> high \<and> k < i \<longrightarrow> b1 ! k = 0" using Suc.prems(4) by (simp add: b1_def)
    note IH = Suc.IH [OF e len(1) d1 z1]
    have i: "i < length buf" using Suc.prems(2) by simp
    have dr: "drop i buf' = c mod 58 # drop (Suc i) buf"
      using IH i by (simp add: b1_def drop_update_swap Cons_nth_drop_Suc [symmetric])
    have "take (Suc i) buf' = take i buf' @ [c mod 58]"
    proof -
      have "buf' = take i buf' @ c mod 58 # drop (Suc i) buf" using dr by (metis append_take_drop_id)
      moreover have "length (take i buf') = i" using IH i len by simp
      ultimately show ?thesis by (metis append_Cons append_Nil append_take_drop_id append_eq_append_conv
          length_append_singleton take_append diff_self_eq_0 take_Suc_conv_app_nth nth_append_length i IH len(2))
    qed
    moreover have "take (Suc i) buf = take i buf @ [buf ! i]" using i by (rule take_Suc_conv_app_nth)
    moreover have "58 * (c div 58) + c mod 58 = carry + 256 * buf ! i" by (simp add: c_def)
    moreover have "drop (Suc i) buf' = drop (Suc i) buf" using dr by (metis drop_Suc drop_tl list.sel(3))
    ultimately show ?thesis using IH len(2) by (auto simp: b1_def algebra_simps)
  qed
qed

text \<open>The index does not wrap when the number still fits below the first cell.\<close>

lemma enc_inner_returns:
  "256 * be_val 58 (take p buf) + carry < 58 ^ (p - 1) \<Longrightarrow> 0 < p \<Longrightarrow> p \<le> length buf \<Longrightarrow> high < length buf \<Longrightarrow>
     \<exists>r. enc_inner buf p high carry = Some r"
proof (induction p arbitrary: buf carry)
  case 0
  then show ?case by simp
next
  case (Suc i)
  show ?case
  proof (cases "i > high \<or> carry \<noteq> 0")
    case False
    then show ?thesis by simp
  next
    case True
    define c where "c = carry + 256 * buf ! i"
    have "take (Suc i) buf = take i buf @ [buf ! i]" using Suc.prems(3) by (simp add: take_Suc_conv_app_nth)
    then have v: "58 * (256 * be_val 58 (take i buf)) + c < 58 ^ i" using Suc.prems(1) by (simp add: c_def algebra_simps)
    have i0: "0 < i"
    proof (rule ccontr)
      assume "\<not> 0 < i"
      then have "c = 0" using v by simp
      with True \<open>\<not> 0 < i\<close> show False by (simp add: c_def)
    qed
    then obtain k where k: "i = Suc k" by (cases i) auto
    have "58 * (256 * be_val 58 (take i buf) + c div 58) \<le> 58 * (256 * be_val 58 (take i buf)) + c" by simp
    with v have "58 * (256 * be_val 58 (take i buf) + c div 58) < 58 * 58 ^ k" by (simp add: k)
    then have "256 * be_val 58 (take i (buf[i := c mod 58])) + c div 58 < 58 ^ (i - 1)" by (simp add: k)
    then have "\<exists>r. enc_inner (buf[i := c mod 58]) i high (c div 58) = Some r"
      using i0 Suc.prems by (intro Suc.IH) auto
    then show ?thesis using True by (auto simp: c_def Let_def)
  qed
qed

lemma enc_outer_val:
  assumes "\<forall>x\<in>set bin. x < 256" and "\<forall>d\<in>set buf. d < 58" and "\<forall>k\<le>high. buf ! k = 0"
    and "high < length buf"
    and "be_val 58 buf * 256 ^ length bin + be_val 256 bin < 58 ^ (length buf - 1)"
  shows "\<exists>buf'. enc_outer bin buf high = Some buf' \<and> length buf' = length buf \<and> (\<forall>d\<in>set buf'. d < 58)
    \<and> be_val 58 buf' = be_val 58 buf * 256 ^ length bin + be_val 256 bin"
  using assms
proof (induction bin arbitrary: buf high)
  case Nil
  then show ?case by simp
next
  case (Cons x bin)
  have split: "be_val 58 buf * 256 ^ length (x # bin) + be_val 256 (x # bin)
      = (256 * be_val 58 buf + x) * 256 ^ length bin + be_val 256 bin"
    by (simp add: be_val_Cons algebra_simps)
  have "256 * be_val 58 buf + x \<le> (256 * be_val 58 buf + x) * 256 ^ length bin + be_val 256 bin"
    by (simp add: trans_le_add1)
  then have "256 * be_val 58 (take (length buf) buf) + x < 58 ^ (length buf - 1)"
    using Cons.prems(5) unfolding split by simp
  then obtain buf1 j where e: "enc_inner buf (length buf) high x = Some (buf1, j)"
    using enc_inner_returns [of "length buf" buf x high] Cons.prems(4) by force
  have v: "be_val 58 buf1 = 256 * be_val 58 buf + x" "length buf1 = length buf" "\<forall>d\<in>set buf1. d < 58"
      "\<forall>k\<le>j. buf1 ! k = 0" "j < length buf"
    using enc_inner_val [OF e _ Cons.prems(2)] Cons.prems(3) by auto
  have "\<exists>buf'. enc_outer bin buf1 j = Some buf' \<and> length buf' = length buf1 \<and> (\<forall>d\<in>set buf'. d < 58)
      \<and> be_val 58 buf' = be_val 58 buf1 * 256 ^ length bin + be_val 256 bin"
    using Cons.prems v unfolding split by (intro Cons.IH) auto
  then show ?case unfolding split using e v by simp
qed

text \<open>The number of bytes for which the buffer of \<open>b58_size\<close> digits never fills its first cell.\<close>

definition b58_fits :: "nat \<Rightarrow> bool" where
  "b58_fits n \<longleftrightarrow> 256 ^ n \<le> (58::nat) ^ (b58_size n - 1)"

lemma b58_fits_address: "b58_fits 38"
  by (simp add: b58_fits_def b58_size_def)

lemma be_val_takeWhile_zero: "be_val b (dropWhile (\<lambda>d. d = 0) ds) = be_val b ds"
  by (induction ds) (auto simp: be_val_Cons)

lemma drop_length_takeWhile: "drop (length (takeWhile P xs)) xs = dropWhile P xs"
  by (induction xs) auto

lemma dropWhile_hd: "dropWhile P xs = [] \<or> \<not> P (hd (dropWhile P xs))"
  by (induction xs) auto

text \<open>What the encoder returns: one character per leading zero byte, then the digits of the number
  without leading zeros.\<close>

lemma base58_encode_digits:
  assumes "b58_fits (length (dropWhile (\<lambda>x. x = 0) bin))"
    and "length bin - length (dropWhile (\<lambda>x. x = 0) bin) + b58_size (length (dropWhile (\<lambda>x. x = 0) bin)) < b58sz"
  shows "\<exists>ds. base58_encode bin b58sz
        = Some (Inr (replicate (length bin - length (dropWhile (\<lambda>x. x = 0) bin)) (CHR ''1'')
                     @ map (\<lambda>d. b58digits_ordered ! d) ds))
    \<and> (\<forall>d\<in>set ds. d < 58) \<and> be_val 58 ds = be_val 256 (map unat bin) \<and> (ds = [] \<or> hd ds \<noteq> 0)"
proof -
  define tail where "tail = dropWhile (\<lambda>x. x = 0) bin"
  define z where "z = length (takeWhile (\<lambda>x. x = 0) bin)"
  have z: "z + length tail = length bin" "drop z bin = tail"
    unfolding z_def tail_def drop_length_takeWhile
    by (metis length_append takeWhile_dropWhile_id, rule refl)
  define size where "size = b58_size (length tail)"
  have byte: "\<forall>x\<in>set (map unat tail). x < 256" by (simp add: unat_byte_less)
  have "be_val 256 (map unat tail) < 256 ^ length (map unat tail)" by (rule be_val_less) (use byte in simp_all)
  then have "be_val 256 (map unat tail) < 58 ^ (size - 1)"
    using assms(1) by (simp add: b58_fits_def size_def tail_def)
  moreover have zero: "be_val 58 (replicate size 0) = 0" by (rule be_val_all_zero) simp
  moreover have "0 < size" by (simp add: size_def b58_size_def)
  ultimately obtain buf where b: "enc_outer (map unat tail) (replicate size 0) (size - 1) = Some buf"
      "length buf = size" "\<forall>d\<in>set buf. d < 58" "be_val 58 buf = be_val 256 (map unat tail)"
    using enc_outer_val [OF byte, of "replicate size 0" "size - 1"] by auto
  define ds where "ds = dropWhile (\<lambda>d. d = 0) buf"
  have v: "be_val 58 ds = be_val 256 (map unat bin)"
  proof -
    have "map unat tail = dropWhile (\<lambda>d. d = 0) (map unat bin)"
      unfolding tail_def by (induction bin) (auto simp: unat_eq_0)
    then show ?thesis using b(4) by (simp add: ds_def be_val_takeWhile_zero)
  qed
  have dd: "drop (length (takeWhile (\<lambda>d. d = 0) buf)) buf = ds" by (simp add: ds_def drop_length_takeWhile)
  have "\<not> b58sz \<le> z + size - length (takeWhile (\<lambda>d. d = 0) buf)" using assms(2) z(1) by (auto simp: size_def tail_def)
  moreover have lt: "length bin - z = length tail" using z(1) by simp
  ultimately have "base58_encode bin b58sz = Some (Inr (replicate z (CHR ''1'') @ map (\<lambda>d. b58digits_ordered ! d) ds))"
    unfolding base58_encode_def z_def [symmetric] Let_def lt size_def [symmetric]
    by (simp only: z(2) b(1) dd option.case if_False)
  moreover have "\<forall>d\<in>set ds. d < 58" using b(3) by (auto simp: ds_def dest: set_dropWhileD)
  moreover have "ds = [] \<or> hd ds \<noteq> 0" unfolding ds_def using dropWhile_hd [of "\<lambda>d. d = 0" buf] by auto
  moreover have "z = length bin - length tail" using z(1) by simp
  ultimately show ?thesis using v by (auto simp: tail_def)
qed

subsection \<open>The decoder computes the number\<close>

lemma dec_limbs_val:
  assumes "\<forall>x\<in>set xs. x < 2 ^ 32" and "c < 64"
  shows "\<exists>ys c'. dec_limbs xs c = (ys, c') \<and> length ys = length xs \<and> (\<forall>y\<in>set ys. y < 2 ^ 32) \<and> c' < 64
    \<and> c' * 2 ^ (32 * length xs) + be_val (2 ^ 32) ys = be_val (2 ^ 32) xs * 58 + c"
  using assms
proof (induction xs)
  case Nil
  then show ?case by simp
next
  case (Cons x xs)
  then obtain ys c1 where IH: "dec_limbs xs c = (ys, c1)" "length ys = length xs" "\<forall>y\<in>set ys. y < 2 ^ 32" "c1 < 64"
      "c1 * 2 ^ (32 * length xs) + be_val (2 ^ 32) ys = be_val (2 ^ 32) xs * 58 + c" by auto
  define t where "t = x * 58 + c1"
  have "x < 2 ^ 32" using Cons.prems by simp
  then have "t < 64 * 2 ^ 32" using IH(4) by (simp add: t_def)
  then have "t div 2 ^ 32 < 64" by (simp add: div_less_iff_less_mult)
  then have m: "(t div 2 ^ 32) mod 64 = t div 2 ^ 32" by simp
  define W :: nat where "W = 2 ^ 32"
  define B where "B = W ^ length xs"
  have BB: "(2::nat) ^ (32 * length xs) = B" by (simp add: B_def W_def power_mult)
  have "be_val W ((t mod W) # ys) = t mod W * B + be_val W ys" by (simp add: be_val_Cons IH(2) B_def)
  then have "t div W * (W * B) + be_val W ((t mod W) # ys) = (t div W * W + t mod W) * B + be_val W ys"
    by (simp only: distrib_right mult.assoc add.assoc)
  also have "\<dots> = x * 58 * B + (c1 * B + be_val W ys)" by (simp add: t_def algebra_simps)
  also have "c1 * B + be_val W ys = be_val W xs * 58 + c" using IH(5) unfolding BB W_def [symmetric] .
  finally have "t div W * (W * B) + be_val W ((t mod W) # ys) = be_val W (x # xs) * 58 + c"
    by (simp add: be_val_Cons B_def algebra_simps)
  moreover have "(2::nat) ^ (32 * length (x # xs)) = W * B" by (simp add: W_def BB [symmetric] power_add)
  ultimately have eq: "t div 2 ^ 32 * 2 ^ (32 * length (x # xs)) + be_val (2 ^ 32) ((t mod 2 ^ 32) # ys)
      = be_val (2 ^ 32) (x # xs) * 58 + c" unfolding W_def by (simp only:)
  have "dec_limbs (x # xs) c = ((t mod 2 ^ 32) # ys, t div 2 ^ 32)"
    unfolding dec_limbs.simps IH(1) Let_def prod.case t_def [symmetric] m ..
  with eq IH(2,3) \<open>t div 2 ^ 32 < 64\<close> show ?case
    by (intro exI [of _ "(t mod 2 ^ 32) # ys"] exI [of _ "t div 2 ^ 32"]) (simp del: dec_limbs.simps)
qed

lemma limb_count: "n mod 4 \<noteq> 0 \<Longrightarrow> n = 4 * ((n + 3) div 4 - 1) + n mod 4" for n :: nat
proof -
  assume r: "n mod 4 \<noteq> 0"
  have "n + 3 = n mod 4 + 3 + n div 4 * 4" by simp
  then have "(n + 3) div 4 = n div 4 + (n mod 4 + 3) div 4" by (metis div_mult_self3 zero_neq_numeral add.commute)
  moreover have "(n mod 4 + 3) div 4 = 1" using r mod_less_divisor [of 4 n] by (intro div_nat_eqI) auto
  ultimately show ?thesis by simp
qed
lemma limb_count_le: "n \<le> 4 * ((n + 3) div 4)" for n :: nat
  by linarith

lemma pow256: "(256::nat) ^ n = 2 ^ (8 * n)"
  by (simp add: power_mult)

lemma pow256_limbs: "(256::nat) ^ (4 * k + r) = 2 ^ (r * 8) * (2 ^ 32) ^ k"
proof -
  have "(256::nat) ^ (4 * k + r) = 2 ^ (8 * (4 * k + r))" by (rule pow256)
  also have "8 * (4 * k + r) = r * 8 + 32 * k" by simp
  finally show ?thesis by (simp only: power_add power_mult)
qed

lemma be_val_nth0_le: "xs \<noteq> [] \<Longrightarrow> xs ! 0 * b ^ (length xs - 1) \<le> be_val b xs"
  by (cases xs) (auto simp: be_val_Cons)

text \<open>A digit is accepted when the number stays within \<open>binsz\<close> bytes.\<close>

lemma dec_char_val:
  assumes d: "d < 58" and len: "length outi = (n + 3) div 4" and lim: "\<forall>x\<in>set outi. x < 2 ^ 32"
    and v: "be_val (2 ^ 32) outi * 58 + d < 256 ^ n"
  shows "\<exists>outi'. dec_char (n mod 4) outi (b58digits_ordered ! d) = Some outi' \<and> length outi' = length outi
    \<and> (\<forall>x\<in>set outi'. x < 2 ^ 32) \<and> be_val (2 ^ 32) outi' = be_val (2 ^ 32) outi * 58 + d"
proof -
  obtain ys c' where e: "dec_limbs outi d = (ys, c')" "length ys = length outi" "\<forall>y\<in>set ys. y < 2 ^ 32"
      "c' * 2 ^ (32 * length outi) + be_val (2 ^ 32) ys = be_val (2 ^ 32) outi * 58 + d"
    using dec_limbs_val [OF lim, of d] d by auto
  have "n \<le> 4 * length outi" unfolding len by (rule limb_count_le)
  then have le: "(256::nat) ^ n \<le> 2 ^ (32 * length outi)" unfolding pow256 by (intro power_increasing) auto
  define P where "P = (2::nat) ^ (32 * length outi)"
  have "c' * P + be_val (2 ^ 32) ys < P"
    using v le unfolding e(4) [symmetric] P_def [symmetric] by (rule order.strict_trans2)
  then have "c' * P < 1 * P" by linarith
  then have c0: "c' = 0" by (simp add: P_def)
  have top: "ys ! 0 div 2 ^ (n mod 4 * 8) = 0" if "n mod 4 \<noteq> 0"
  proof -
    have n: "n = 4 * (length ys - 1) + n mod 4" using that unfolding e(2) len by (rule limb_count)
    have "ys \<noteq> []" using that e(2) len by (cases ys) auto
    then have "ys ! 0 * (2 ^ 32) ^ (length ys - 1) < 256 ^ n"
      using be_val_nth0_le [of ys "2 ^ 32"] e(4) v c0 by simp
    also have "(256::nat) ^ n = 2 ^ (n mod 4 * 8) * (2 ^ 32) ^ (length ys - 1)"
      by (subst n) (rule pow256_limbs)
    finally have "ys ! 0 < 2 ^ (n mod 4 * 8)" by (simp only: mult_less_cancel2)
    then show ?thesis by (rule div_less)
  qed
  have "dec_char (n mod 4) outi (b58digits_ordered ! d) = Some ys"
    using e(1) c0 top d by (cases "n mod 4 = 0") (simp_all add: dec_char_def b58_digit_ordered)
  with e c0 show ?thesis by simp
qed

lemma dec_chars_val:
  assumes "\<forall>d\<in>set ds. d < 58" and "length outi = (n + 3) div 4" and "\<forall>x\<in>set outi. x < 2 ^ 32"
    and "be_val (2 ^ 32) outi * 58 ^ length ds + be_val 58 ds < 256 ^ n"
  shows "\<exists>outi'. dec_chars (n mod 4) outi (map (\<lambda>d. b58digits_ordered ! d) ds) = Some outi'
    \<and> length outi' = length outi \<and> (\<forall>x\<in>set outi'. x < 2 ^ 32)
    \<and> be_val (2 ^ 32) outi' = be_val (2 ^ 32) outi * 58 ^ length ds + be_val 58 ds"
  using assms
proof (induction ds arbitrary: outi)
  case Nil
  then show ?case by simp
next
  case (Cons d ds)
  have dsl: "\<forall>d\<in>set ds. d < 58" using Cons.prems(1) by simp
  define V where "V = be_val (2 ^ 32) outi"
  have split: "V * 58 ^ length (d # ds) + be_val 58 (d # ds) = (V * 58 + d) * 58 ^ length ds + be_val 58 ds"
    by (simp add: be_val_Cons algebra_simps)
  have lt: "(V * 58 + d) * 58 ^ length ds + be_val 58 ds < 256 ^ n" using Cons.prems(4) unfolding V_def [symmetric] split .
  have "V * 58 + d \<le> (V * 58 + d) * 58 ^ length ds + be_val 58 ds" by (simp add: trans_le_add1)
  then have "be_val (2 ^ 32) outi * 58 + d < 256 ^ n" using lt by (simp add: V_def)
  then obtain o1 where o1: "dec_char (n mod 4) outi (b58digits_ordered ! d) = Some o1" "length o1 = length outi"
      "\<forall>x\<in>set o1. x < 2 ^ 32" "be_val (2 ^ 32) o1 = V * 58 + d"
    using dec_char_val [of d outi n] Cons.prems unfolding V_def by (metis list.set_intros(1))
  have "\<exists>outi'. dec_chars (n mod 4) o1 (map (\<lambda>d. b58digits_ordered ! d) ds) = Some outi'
    \<and> length outi' = length o1 \<and> (\<forall>x\<in>set outi'. x < 2 ^ 32)
    \<and> be_val (2 ^ 32) outi' = be_val (2 ^ 32) o1 * 58 ^ length ds + be_val 58 ds"
    using dsl o1 lt Cons.prems(2) by (intro Cons.IH) (simp_all only:)
  then show ?case unfolding V_def [symmetric] split using o1 by simp
qed

lemma limb_bytes_val: "x < 2 ^ 32 \<Longrightarrow> be_val 256 (limb_bytes x) = x"
proof -
  assume "x < 2 ^ 32"
  then have "x div 16777216 mod 256 = x div 16777216" by simp
  then have v: "be_val 256 (limb_bytes x)
      = 16777216 * (x div 16777216) + (65536 * (x div 65536 mod 256) + (256 * (x div 256 mod 256) + x mod 256))"
    by (simp add: limb_bytes_def be_val_Cons)
  have "x mod (256 * 256) = 256 * (x div 256 mod 256) + x mod 256" by (rule mod_mult2_eq)
  then have "x mod 65536 = 256 * (x div 256 mod 256) + x mod 256" by simp
  moreover have "x mod (65536 * 256) = 65536 * (x div 65536 mod 256) + x mod 65536" by (rule mod_mult2_eq)
  then have "x mod 16777216 = 65536 * (x div 65536 mod 256) + x mod 65536" by simp
  moreover have "16777216 * (x div 16777216) + x mod 16777216 = x" by (rule mult_div_mod_eq)
  ultimately show ?thesis unfolding v by (simp only:)
qed

lemma limb_bytes_bound: "\<forall>b\<in>set (limb_bytes x). b < 256"
  by (simp add: limb_bytes_def)

lemma length_limb_bytes [simp]: "length (limb_bytes x) = 4"
  by (simp add: limb_bytes_def)

lemma concat_limbs_val:
  "\<forall>x\<in>set xs. x < 2 ^ 32 \<Longrightarrow> be_val 256 (concat (map limb_bytes xs)) = be_val (2 ^ 32) xs
     \<and> length (concat (map limb_bytes xs)) = 4 * length xs \<and> (\<forall>b\<in>set (concat (map limb_bytes xs)). b < 256)"
proof (induction xs)
  case Nil
  then show ?case by simp
next
  case (Cons x xs)
  then have IH: "be_val 256 (concat (map limb_bytes xs)) = be_val (2 ^ 32) xs"
      "length (concat (map limb_bytes xs)) = 4 * length xs" "\<forall>b\<in>set (concat (map limb_bytes xs)). b < 256" by auto
  have "be_val 256 (concat (map limb_bytes (x # xs))) = x * 256 ^ (4 * length xs) + be_val (2 ^ 32) xs"
    unfolding list.map concat.simps be_val_append IH(1,2) using Cons.prems by (simp only: limb_bytes_val list.set_intros ball_simps)
  moreover have "(256::nat) ^ (4 * length xs) = (2 ^ 32) ^ length xs" by (simp add: power_mult)
  ultimately show ?case using IH(2,3) limb_bytes_bound [of x] by (auto simp: be_val_Cons)
qed

lemma be_val_drop_zero:
  assumes "be_val b xs < b ^ k" and "k \<le> length xs" and "0 < b"
  shows "be_val b (drop (length xs - k) xs) = be_val b xs"
proof -
  have eq: "be_val b xs = be_val b (take (length xs - k) xs) * b ^ k + be_val b (drop (length xs - k) xs)"
    using be_val_append [of b "take (length xs - k) xs" "drop (length xs - k) xs"] assms(2) by simp
  then have "be_val b (take (length xs - k) xs) * b ^ k < 1 * b ^ k" using assms(1) by linarith
  then have "be_val b (take (length xs - k) xs) = 0" by (simp add: assms(3))
  with eq show ?thesis by simp
qed

lemma dec_output_val:
  assumes "length outi = (n + 3) div 4" and "\<forall>x\<in>set outi. x < 2 ^ 32" and "be_val (2 ^ 32) outi < 256 ^ n"
  shows "length (dec_output (n mod 4) outi) = n \<and> (\<forall>b\<in>set (dec_output (n mod 4) outi). b < 256)
    \<and> be_val 256 (dec_output (n mod 4) outi) = be_val (2 ^ 32) outi"
proof (cases "n mod 4 = 0")
  case True
  then have "4 * length outi = n" unfolding assms(1) by presburger
  with concat_limbs_val [OF assms(2)] True show ?thesis by (simp add: dec_output_def)
next
  case False
  then have "outi \<noteq> []" using assms(1) by (cases outi) auto
  then have cons: "outi = outi ! 0 # drop 1 outi" by (cases outi) auto
  define all_bytes where "all_bytes = concat (map limb_bytes outi)"
  note cl = concat_limbs_val [OF assms(2), folded all_bytes_def]
  have n: "n = 4 * (length outi - 1) + n mod 4" using False unfolding assms(1) by (rule limb_count)
  have "all_bytes = limb_bytes (outi ! 0) @ concat (map limb_bytes (drop 1 outi))"
    unfolding all_bytes_def by (subst cons) simp
  then have out: "dec_output (n mod 4) outi = drop (4 - n mod 4) all_bytes"
    using False by (simp add: dec_output_def)
  have k: "4 - n mod 4 = length all_bytes - n" using n cl \<open>outi \<noteq> []\<close> by (cases outi) auto
  have le: "n \<le> length all_bytes" using cl unfolding assms(1) by linarith
  have "be_val 256 (drop (length all_bytes - n) all_bytes) = be_val 256 all_bytes"
    using cl assms(3) le by (intro be_val_drop_zero) auto
  then show ?thesis unfolding out k using cl le by (auto dest: in_set_dropD)
qed

text \<open>The decoder recovers the bytes the encoder was given.\<close>

lemma base58_roundtrip:
  assumes fits: "b58_fits (length (dropWhile (\<lambda>x. x = 0) bin))"
    and sz: "length bin - length (dropWhile (\<lambda>x. x = 0) bin) + b58_size (length (dropWhile (\<lambda>x. x = 0) bin)) < b58sz"
  shows "\<exists>s. base58_encode bin b58sz = Some (Inr s) \<and> base58_decode s (length bin) = Some (bin, length bin)"
proof -
  define n where "n = length bin"
  define z where "z = length bin - length (dropWhile (\<lambda>x. x = 0) bin)"
  obtain ds where ds: "base58_encode bin b58sz
        = Some (Inr (replicate z (CHR ''1'') @ map (\<lambda>d. b58digits_ordered ! d) ds))"
      "\<forall>d\<in>set ds. d < 58" "be_val 58 ds = be_val 256 (map unat bin)" "ds = [] \<or> hd ds \<noteq> 0"
    using base58_encode_digits [OF fits sz] unfolding z_def by blast
  define s where "s = replicate z (CHR ''1'') @ map (\<lambda>d. b58digits_ordered ! d) ds"
  have tz: "length (takeWhile (\<lambda>x. x = 0) bin) = z"
    unfolding z_def by (metis add_diff_cancel_right' length_append takeWhile_dropWhile_id)
  have zs: "takeWhile (\<lambda>c. c = CHR ''1'') s = replicate z (CHR ''1'')"
  proof (cases ds)
    case Nil
    then show ?thesis unfolding s_def by (induction z) auto
  next
    case (Cons d ds')
    then have "b58digits_ordered ! d \<noteq> CHR ''1''" using ds(2,4) b58_ordered_one [of d] by auto
    then show ?thesis unfolding s_def Cons by (induction z) auto
  qed
  have val: "be_val 58 ds < 256 ^ n"
    using be_val_less [of 256 "map unat bin"] unfolding ds(3) n_def by simp
  have zero: "be_val (2 ^ 32) (replicate ((n + 3) div 4) 0) = 0" by (rule be_val_all_zero) simp
  obtain outi where o: "dec_chars (n mod 4) (replicate ((n + 3) div 4) 0) (map (\<lambda>d. b58digits_ordered ! d) ds) = Some outi"
      "length outi = (n + 3) div 4" "\<forall>x\<in>set outi. x < 2 ^ 32" "be_val (2 ^ 32) outi = be_val 58 ds"
    using dec_chars_val [OF ds(2), of "replicate ((n + 3) div 4) 0" n] val unfolding zero by auto
  have out: "length (dec_output (n mod 4) outi) = n" "\<forall>b\<in>set (dec_output (n mod 4) outi). b < 256"
      "be_val 256 (dec_output (n mod 4) outi) = be_val 58 ds"
    using dec_output_val [OF o(2,3)] val o(4) by simp_all
  have "dec_output (n mod 4) outi = map unat bin"
    using out by (intro be_val_inj [where b = 256]) (simp_all add: ds(3) n_def)
  then have bin: "map of_nat (dec_output (n mod 4) outi) = bin" by (simp add: map_idI)
  have "base58_decode s n = Some (bin, n - z + z)"
    unfolding base58_decode_def Let_def zs length_replicate
    using o(1) bin tz by (simp add: s_def)
  moreover have "z \<le> n" by (simp add: z_def n_def)
  ultimately show ?thesis using ds(1) by (simp add: s_def n_def)
qed

subsection \<open>Checked encoding and addresses\<close>

definition double_sha256 :: "bytes \<Rightarrow> bytes option" where
  "double_sha256 d = (if d = [] then None else Some (sha256 (sha256 d)))"

text \<open>
  \<^verbatim>\<open>for (i = 0; binc[i] == 0 && base58str[i] == '1'; i++)\<close> and the test after it. The string ends
  in a zero byte, the buffer does not: \<^term>\<open>None\<close> is a read past the buffer.
\<close>

fun check_zeros :: "string \<Rightarrow> bytes \<Rightarrow> bool option" where
  "check_zeros s [] = None"
| "check_zeros s (b # bs) =
     (let c = (case s of [] \<Rightarrow> CHR 0x00 | x # _ \<Rightarrow> x) in
      if b = 0 \<and> c = CHR ''1'' then check_zeros (tl s) bs
      else Some (\<not> (b = 0 \<or> c = CHR ''1'')))"

text \<open>\<open>bin\<close> is the whole buffer, \<open>binsz\<close> the size that is passed with it.\<close>

definition base58_check :: "string \<Rightarrow> bytes \<Rightarrow> nat \<Rightarrow> int option" where
  "base58_check s bin binsz =
     (if binsz < 4 then Some (- 4)
      else if length bin < binsz then None
      else case double_sha256 (take (binsz - 4) bin) of
          None \<Rightarrow> Some (- 2)
        | Some buf \<Rightarrow>
            if take 4 (drop (binsz - 4) bin) \<noteq> take 4 buf then Some (- 1)
            else case check_zeros s bin of
                None \<Rightarrow> None
              | Some ok \<Rightarrow> if ok then Some (uint (bin ! 0)) else Some (- 3))"

definition base58check_encode :: "bytes \<Rightarrow> u8 \<Rightarrow> nat \<Rightarrow> (nat + string) option" where
  "base58check_encode d ver b58c_sz =
     (let buf = ver # d in
      case double_sha256 buf of
        None \<Rightarrow> Some (Inl 0)
      | Some hash \<Rightarrow> base58_encode (buf @ take 4 hash) b58c_sz)"

definition PUBKEY_LENGTH :: nat where "PUBKEY_LENGTH = 33"
definition ADDRESS_LENGTH :: nat where "ADDRESS_LENGTH = 52"
definition ADDRESS_VERSION :: u8 where "ADDRESS_VERSION = 0x42"

text \<open>The address written and the value returned; the public key is its first 33 bytes.\<close>

definition pubkey_to_address :: "bytes \<Rightarrow> nat \<Rightarrow> (string \<times> int) option" where
  "pubkey_to_address pubkey address_size =
     (case base58check_encode (take 33 pubkey) ADDRESS_VERSION address_size of
        None \<Rightarrow> None
      | Some (Inl _) \<Rightarrow> Some ([], - 1)
      | Some (Inr s) \<Rightarrow> Some (s, int (length s) + 1))"

text \<open>\<^verbatim>\<open>decoded\<close> has 33 + 1 + 4 bytes. The inner option is the key, \<^term>\<open>None\<close> when the code returns
  \<^verbatim>\<open>FALSE\<close>.\<close>

definition address_to_pubkey :: "string \<Rightarrow> nat \<Rightarrow> bytes option option" where
  "address_to_pubkey address address_size =
     (if address_size \<noteq> ADDRESS_LENGTH then Some None
      else case base58_decode address (33 + 1 + 4) of
          None \<Rightarrow> Some None
        | Some (decoded, decsize) \<Rightarrow>
            (case base58_check address decoded decsize of
               None \<Rightarrow> None
             | Some res \<Rightarrow>
                 if res \<noteq> uint ADDRESS_VERSION then Some None
                 else Some (Some (take 33 (drop 1 decoded)))))"

subsection \<open>Hexadecimal\<close>

definition hexdigits :: string where "hexdigits = ''0123456789ABCDEF''"

definition to_hex :: "bytes \<Rightarrow> string" where
  "to_hex source = concat (map (\<lambda>c. [hexdigits ! unat (drop_bit 4 c AND 0xf), hexdigits ! unat (c AND 0xf)]) source)"

text \<open>\<^verbatim>\<open>sqlite3HexToInt\<close>: \<^verbatim>\<open>h += 9*(1&(h>>6)); return h & 0xf\<close>.\<close>

definition sqlite3HexToInt :: "char \<Rightarrow> u8" where
  "sqlite3HexToInt h = (let h = (of_char h :: u8) in (h + 9 * (1 AND drop_bit 6 h)) AND 0xf)"

text \<open>The source is read two characters at a time while \<^verbatim>\<open>source < end\<close>.\<close>

fun from_hex :: "string \<Rightarrow> bytes" where
  "from_hex [] = []"
| "from_hex [c1] = [push_bit 4 (sqlite3HexToInt c1) OR sqlite3HexToInt (CHR 0x00)]"
| "from_hex (c1 # c2 # s) = (push_bit 4 (sqlite3HexToInt c1) OR sqlite3HexToInt c2) # from_hex s"

definition parse_pubkey :: "string option \<Rightarrow> bytes option option" where
  "parse_pubkey pkstr =
     (case pkstr of None \<Rightarrow> Some None
      | Some s \<Rightarrow>
          if length s = 33 * 2 then Some (Some (from_hex s))
          else if length s = ADDRESS_LENGTH then address_to_pubkey s (length s)
          else Some None)"

subsection \<open>Node ids\<close>

definition str_bytes :: "string \<Rightarrow> bytes" where
  "str_bytes s = map of_char s"

definition generate_node_id_from_address :: "crc_state \<Rightarrow> string \<Rightarrow> int" where
  "generate_node_id_from_address st address =
     uint (snd (crc32 st (Some (str_bytes address))) AND 0x7fffffff)"

definition generate_node_id_from_pubkey :: "crc_state \<Rightarrow> bytes \<Rightarrow> int option" where
  "generate_node_id_from_pubkey st pubkey =
     (case pubkey_to_address pubkey 56 of None \<Rightarrow> None
      | Some (address, _) \<Rightarrow> Some (generate_node_id_from_address st address))"

subsection \<open>Addresses\<close>

lemma be_val_ge: "ds \<noteq> [] \<Longrightarrow> hd ds \<noteq> 0 \<Longrightarrow> b ^ (length ds - 1) \<le> be_val b ds"
  by (cases ds) (auto simp: be_val_Cons trans_le_add1)

text \<open>A number of 38 bytes that starts with the address version has exactly 52 digits.\<close>

lemma address_digits:
  assumes "\<forall>d\<in>set ds. d < 58" and "ds = [] \<or> hd ds \<noteq> 0" and "length bin = 37"
    and "be_val 58 ds = be_val 256 (0x42 # map unat (bin :: bytes))"
  shows "length ds = 52"
proof -
  define V where "V = be_val 256 (map unat bin)"
  have V: "V < 256 ^ 37" using be_val_less [of 256 "map unat bin"] assms(3) by (simp add: V_def)
  have v: "be_val 58 ds = 66 * 256 ^ 37 + V" using assms(3,4) by (simp add: be_val_Cons V_def)
  have up: "be_val 58 ds < 58 ^ length ds" using assms(1) by (intro be_val_less) auto
  have "\<not> length ds \<le> 51"
  proof
    assume "length ds \<le> 51"
    then have "(58::nat) ^ length ds \<le> 58 ^ 51" by (intro power_increasing) auto
    moreover have "(58::nat) ^ 51 \<le> 66 * 256 ^ 37" by simp
    ultimately show False using up v by linarith
  qed
  moreover have "\<not> 53 \<le> length ds"
  proof
    assume "53 \<le> length ds"
    then have "(58::nat) ^ 52 \<le> 58 ^ (length ds - 1)" by (intro power_increasing) linarith+
    moreover have "ds \<noteq> []" using \<open>53 \<le> length ds\<close> by auto
    moreover have "(58::nat) ^ (length ds - 1) \<le> be_val 58 ds" using assms(2) \<open>ds \<noteq> []\<close> by (intro be_val_ge) auto
    moreover have "67 * 256 ^ 37 \<le> (58::nat) ^ 52" by simp
    ultimately show False using V v by linarith
  qed
  ultimately show ?thesis by simp
qed

lemma address_roundtrip:
  assumes pk: "length pk = 33" and sz: "53 < sz"
  shows "\<exists>s. pubkey_to_address pk sz = Some (s, 53) \<and> length s = 52
           \<and> address_to_pubkey s (length s) = Some (Some pk)"
proof -
  define hash where "hash = sha256 (sha256 (0x42 # pk))"
  define bin where "bin = 0x42 # pk @ take 4 hash"
  have h: "length hash = 32" by (simp add: hash_def)
  have lb: "length bin = 38" using pk h by (simp add: bin_def)
  have nz: "dropWhile (\<lambda>x. x = 0) bin = bin" by (simp add: bin_def)
  have fit: "b58_fits (length (dropWhile (\<lambda>x. x = 0) bin))"
      "length bin - length (dropWhile (\<lambda>x. x = 0) bin) + b58_size (length (dropWhile (\<lambda>x. x = 0) bin)) < sz"
    unfolding nz lb using b58_fits_address sz by (simp_all add: b58_size_def)
  obtain s where s: "base58_encode bin sz = Some (Inr s)" "base58_decode s 38 = Some (bin, 38)"
    using base58_roundtrip [OF fit] lb by auto
  obtain ds where ds: "s = map (\<lambda>d. b58digits_ordered ! d) ds" "\<forall>d\<in>set ds. d < 58"
      "be_val 58 ds = be_val 256 (map unat bin)" "ds = [] \<or> hd ds \<noteq> 0"
    using base58_encode_digits [OF fit] s(1) unfolding nz by auto
  have len: "length s = 52"
    using address_digits [OF ds(2,4), of "pk @ take 4 hash"] ds(1,3) pk h by (simp add: bin_def)
  obtain d ds' where cons: "ds = d # ds'" using len ds(1) by (cases ds) auto
  then have first: "\<exists>c t. s = c # t \<and> c \<noteq> CHR ''1''" using ds b58_ordered_one [of d] by auto
  have zeros: "check_zeros s bin = Some True" using first by (auto simp: bin_def)
  have "base58_check s bin 38 = Some 0x42"
    using lb zeros pk h by (simp add: base58_check_def double_sha256_def bin_def hash_def take_Cons')
  then have "address_to_pubkey s (length s) = Some (Some pk)"
    using len s(2) pk by (simp add: address_to_pubkey_def ADDRESS_LENGTH_def ADDRESS_VERSION_def bin_def)
  moreover have "pubkey_to_address pk sz = Some (s, 53)"
    using s(1) len pk by (simp add: pubkey_to_address_def base58check_encode_def double_sha256_def
        ADDRESS_VERSION_def bin_def hash_def)
  ultimately show ?thesis using len by blast
qed

subsection \<open>Hexadecimal round trip\<close>

lemma nibble_hex:
  "n < 16 \<Longrightarrow> sqlite3HexToInt (hexdigits ! n) = of_nat n"
proof -
  assume "n < 16"
  then have "n \<in> set [0..<16]" by simp
  moreover have "\<forall>n\<in>set [0..<16]. sqlite3HexToInt (hexdigits ! n) = of_nat n"
    by (simp add: upt_rec sqlite3HexToInt_def hexdigits_def)
  ultimately show ?thesis by blast
qed

lemma and_15: "c AND 0xf = take_bit 4 c" for c :: u8
  by (simp add: take_bit_eq_mask mask_eq_exp_minus_1)

lemma nibbles_join: "push_bit 4 (drop_bit 4 c AND 0xf) OR (c AND 0xf) = c" for c :: u8
  unfolding and_15
  by (rule bit_word_eqI) (auto simp: bit_push_bit_iff bit_take_bit_iff bit_drop_bit_eq bit_or_iff)

lemma nibble_less: "unat (c AND 0xf) < 16" for c :: u8
  using take_bit_nat_less_exp [of 4 "unat c"] by (simp add: and_15 unsigned_take_bit_eq)

lemma from_hex_byte:
  "from_hex (hexdigits ! unat (drop_bit 4 c AND 0xf) # hexdigits ! unat (c AND 0xf) # s) = c # from_hex s"
  using nibbles_join [of c] by (simp only: from_hex.simps nibble_hex nibble_less of_nat_unat ucast_id)

lemma from_hex_to_hex: "from_hex (to_hex bs) = bs"
proof (induction bs)
  case (Cons b bs)
  have "to_hex (b # bs) = hexdigits ! unat (drop_bit 4 b AND 0xf) # hexdigits ! unat (b AND 0xf) # to_hex bs"
    by (simp only: to_hex_def list.map concat.simps append_Cons append_Nil)
  then show ?case using Cons by (simp only: from_hex_byte)
qed (simp add: to_hex_def)

subsection \<open>Properties\<close>

text \<open>C34: Every public key survives the trip through its address: \<^verbatim>\<open>pubkey_to_address\<close> with the 56-byte
  buffer the callers pass returns 53, the address has exactly \<^verbatim>\<open>ADDRESS_LENGTH\<close> characters, the
  encoder never runs below its buffer, and \<^verbatim>\<open>address_to_pubkey\<close> reads the same key back, checksum and
  leading-zero test included.\<close>
lemma pubkey_address_roundtrip:
  assumes "length pk = 33"
  shows "\<exists>s. pubkey_to_address pk 56 = Some (s, 53) \<and> length s = 52
           \<and> address_to_pubkey s (length s) = Some (Some pk)"
  by (rule address_roundtrip [OF assms]) simp

lemma pubkey_address_roundtrip_witness:
  "\<exists>s. pubkey_to_address (replicate 33 2) 56 = Some (s, 53) \<and> length s = 52
     \<and> address_to_pubkey s (length s) = Some (Some (replicate 33 2))"
  by (rule pubkey_address_roundtrip) simp

text \<open>C36: Decoding inverts encoding for byte strings of any length, leading zeros included, as long as
  the digits of the number fit below the first cell of the encoder's buffer: the encoder returns, and
  \<^verbatim>\<open>base58_decode\<close> with a buffer of the original size returns the bytes and reports that size.\<close>
lemma base58_decode_encode:
  assumes "b58_fits (length (dropWhile (\<lambda>x. x = 0) bin))"
    and "length bin - length (dropWhile (\<lambda>x. x = 0) bin) + b58_size (length (dropWhile (\<lambda>x. x = 0) bin)) < b58sz"
  shows "\<exists>s. base58_encode bin b58sz = Some (Inr s) \<and> base58_decode s (length bin) = Some (bin, length bin)"
  using assms by (rule base58_roundtrip)

lemma base58_decode_encode_witness:
  "\<exists>s. base58_encode [0, 0, 1, 2, 3, 4, 5, 6, 7, 8] 20 = Some (Inr s)
     \<and> base58_decode s 10 = Some ([0, 0, 1, 2, 3, 4, 5, 6, 7, 8], 10)"
proof -
  have "length [0, 0, 1, 2, 3, 4, 5, 6, 7, 8 :: u8] = 10" by simp
  moreover have "\<exists>s. base58_encode [0, 0, 1, 2, 3, 4, 5, 6, 7, 8] 20 = Some (Inr s)
     \<and> base58_decode s (length [0, 0, 1, 2, 3, 4, 5, 6, 7, 8 :: u8])
         = Some ([0, 0, 1, 2, 3, 4, 5, 6, 7, 8], length [0, 0, 1, 2, 3, 4, 5, 6, 7, 8 :: u8])"
    by (rule base58_decode_encode) (simp_all add: b58_fits_def b58_size_def)
  ultimately show ?thesis by (simp only:)
qed

text \<open>The inner loop of \<^verbatim>\<open>base58_encode\<close> has no test for the first cell: for a single byte of 58 or
  more (and whatever the output buffer) the index passes below zero, wraps to \<^verbatim>\<open>SIZE_MAX\<close>, and the
  loop goes on outside the buffer.\<close>
lemma base58_encode_index_wraps:
  assumes "58 \<le> unat b"
  shows "base58_encode [b] b58sz = None"
proof -
  have "b \<noteq> 0" using assms by auto
  moreover have "unat b div 58 div 58 = unat b div 3364" by (simp add: div_mult2_eq [symmetric])
  then have "unat b div 58 div 58 = 0" using unat_byte_less [of b] by (simp only: div_less)
  moreover have "0 < unat b div 58" using assms by (simp add: div_greater_zero_iff)
  moreover have "0 < unat b" using assms by linarith
  ultimately show ?thesis
    by (simp add: base58_encode_def b58_size_def numeral_2_eq_2 Let_def)
qed

lemma base58_encode_index_wraps_witness: "base58_encode [200] 56 = None"
  by (rule base58_encode_index_wraps) simp

text \<open>An address of 52 characters \<^verbatim>\<open>1\<close> decodes to the number zero with 52 leading zeros, so that
  \<^verbatim>\<open>base58_decode\<close> reports 52 bytes for its 38-byte buffer and \<^verbatim>\<open>base58_check\<close> hashes memory behind the
  buffer: \<^verbatim>\<open>address_to_pubkey\<close> reads out of bounds on an address that a user can type.\<close>
lemma address_of_ones_overreads:
  "address_to_pubkey (replicate 52 (CHR ''1'')) 52 = None"
proof -
  have ones: "takeWhile (\<lambda>c. c = CHR ''1'') (replicate 52 (CHR ''1'')) = replicate 52 (CHR ''1'')"
    by (simp add: takeWhile_eq_all_conv)
  have zeros: "takeWhile (\<lambda>x. x = 0) (replicate 38 (0 :: u8)) = replicate 38 0"
    by (simp add: takeWhile_eq_all_conv)
  have "dec_output 2 (replicate 10 0) = replicate 38 0"
  proof -
    have "limb_bytes 0 = [0, 0, 0, 0]" by (simp add: limb_bytes_def)
    then show ?thesis by (simp add: dec_output_def numeral_eq_Suc)
  qed
  then have "base58_decode (replicate 52 (CHR ''1'')) 38 = Some (replicate 38 0, 52)"
    by (simp add: base58_decode_def ones zeros)
  then show ?thesis by (simp add: address_to_pubkey_def ADDRESS_LENGTH_def base58_check_def)
qed

text \<open>A key written in hexadecimal reads back as the same bytes: \<^verbatim>\<open>from_hex\<close> inverts \<^verbatim>\<open>to_hex\<close>, and
  \<^verbatim>\<open>parse_pubkey\<close> accepts the hexadecimal form of every 33-byte key.\<close>
lemma hex_roundtrip:
  "from_hex (to_hex bs) = bs \<and> (length bs = 33 \<longrightarrow> parse_pubkey (Some (to_hex bs)) = Some (Some bs))"
proof -
  have "length (to_hex bs) = 2 * length bs" by (induction bs) (simp_all add: to_hex_def)
  then show ?thesis by (simp add: from_hex_to_hex parse_pubkey_def)
qed

lemma hex_roundtrip_witness:
  "from_hex (to_hex [0x1F, 0xA0]) = [0x1F, 0xA0] \<and> parse_pubkey (Some (to_hex (replicate 33 3))) = Some (Some (replicate 33 3))"
  using hex_roundtrip [of "[0x1F, 0xA0]"] hex_roundtrip [of "replicate 33 3"] by simp

end
