(* ===== verification/Txn_Log.thy ===== *)
theory Txn_Log
  imports Base58
begin

section \<open>Transactions\<close>

text \<open>
  The transaction functions of \<^verbatim>\<open>core/sqlite3.c\<close>. A transaction (\<^verbatim>\<open>log\<close>) is a binn list, a sequence
  of typed values that the code walks with \<^verbatim>\<open>binn_list_foreach\<close> and takes apart by type: the nonce
  is the 64-bit integer, the date the value of type date, the commands the strings, the node's key the
  value of the type \<^verbatim>\<open>BINN_PUBKEY\<close>, the signature the nested list, and \<open>true\<close> marks a special
  transaction. The container library itself (binn) is not part of the repository; only its list of
  typed values is modelled. \<^term>\<open>None\<close> as a result is an access the C code must not make: a null
  date, or a write past the buffer of the serialised text. Allocation is taken to succeed.
\<close>

datatype binn =
    Binn_Int64 int
  | Binn_Int32 int
  | Binn_Bool bool
  | Binn_Null
  | Binn_Str string
  | Binn_DateTime string
  | Binn_Blob bytes
  | Binn_Pubkey bytes
  | Binn_List "binn list"

subsection \<open>Row ids\<close>

definition aergoliteBuildRowId :: "32 word \<Rightarrow> u32 \<Rightarrow> u64" where
  "aergoliteBuildRowId node_id seq_num = push_bit 32 (scast node_id) OR ucast seq_num"

definition aergoliteNodeIdFromRowId :: "u64 \<Rightarrow> 32 word" where
  "aergoliteNodeIdFromRowId value = ucast (signed_drop_bit 32 value)"

definition aergoliteSeqFromRowId :: "u64 \<Rightarrow> u32" where
  "aergoliteSeqFromRowId value = ucast (value AND 0xFFFFFFFF)"

subsection \<open>Reading a transaction\<close>

fun get_transaction_nonce :: "binn list \<Rightarrow> int" where
  "get_transaction_nonce [] = 0"
| "get_transaction_nonce (Binn_Int64 n # log) = n"
| "get_transaction_nonce (_ # log) = get_transaction_nonce log"

datatype txn_item = TXN_PUBKEY | TXN_SIGNATURE | TXN_DATETIME | TXN_SQL

fun is_item :: "txn_item \<Rightarrow> binn \<Rightarrow> bool" where
  "is_item TXN_PUBKEY (Binn_Pubkey _) = True"
| "is_item TXN_SIGNATURE (Binn_List _) = True"
| "is_item TXN_DATETIME (Binn_DateTime _) = True"
| "is_item TXN_SQL (Binn_Str _) = True"
| "is_item _ _ = False"

fun get_transaction_item :: "binn list \<Rightarrow> txn_item \<Rightarrow> binn option" where
  "get_transaction_item [] item = None"
| "get_transaction_item (v # log) item = (if is_item item v then Some v else get_transaction_item log item)"

fun is_special_transaction :: "binn list \<Rightarrow> bool" where
  "is_special_transaction [] = False"
| "is_special_transaction (v # log) = (if v = Binn_Bool True then True else is_special_transaction log)"

fun txn_sql_count :: "binn list \<Rightarrow> nat" where
  "txn_sql_count [] = 0"
| "txn_sql_count (Binn_Str _ # log) = Suc (txn_sql_count log)"
| "txn_sql_count (_ # log) = txn_sql_count log"

subsection \<open>Access rights\<close>

definition to_lower :: "char \<Rightarrow> char" where
  "to_lower c = (let n = of_char c :: nat in if 65 \<le> n \<and> n \<le> 90 then char_of (n + 32) else c)"

text \<open>\<^verbatim>\<open>sqlite3_strnicmp(sql,"CALL",4)==0\<close>\<close>

definition starts_with_call :: "string \<Rightarrow> bool" where
  "starts_with_call sql = (map to_lower (take 4 sql) = ''call'')"

fun verify_txn_access_rights :: "bytes \<Rightarrow> binn list \<Rightarrow> bool \<Rightarrow> bytes \<Rightarrow> rc" where
  "verify_txn_access_rights admin_pubkey [] is_user_txn pubkey = SQLITE_OK"
| "verify_txn_access_rights admin_pubkey (Binn_Str sql # log) is_user_txn pubkey =
     (if is_user_txn then
        (if take 33 admin_pubkey \<noteq> take 33 pubkey then SQLITE_PERM
         else verify_txn_access_rights admin_pubkey log is_user_txn pubkey)
      else
        (if \<not> starts_with_call sql then SQLITE_PERM
         else verify_txn_access_rights admin_pubkey log is_user_txn pubkey))"
| "verify_txn_access_rights admin_pubkey (_ # log) is_user_txn pubkey =
     verify_txn_access_rights admin_pubkey log is_user_txn pubkey"

subsection \<open>The text that is signed\<close>

fun nat_dec :: "nat \<Rightarrow> string" where
  "nat_dec n = (if n < 10 then [char_of (48 + n)] else nat_dec (n div 10) @ [char_of (48 + n mod 10)])"

declare nat_dec.simps [simp del]

text \<open>\<^verbatim>\<open>%lld\<close>\<close>

definition int_dec :: "int \<Rightarrow> string" where
  "int_dec i = (if i < 0 then CHR ''-'' # nat_dec (nat (- i)) else nat_dec (nat i))"

text \<open>The first loop: the size of the buffer and the nonce, the last integer of the list.\<close>

fun serialize_size :: "binn list \<Rightarrow> nat \<Rightarrow> int \<Rightarrow> nat \<times> int" where
  "serialize_size [] sz nonce = (sz, nonce)"
| "serialize_size (Binn_Str s # log) sz nonce = serialize_size log (sz + length s + 2) nonce"
| "serialize_size (Binn_Int64 n # log) sz nonce = serialize_size log sz n"
| "serialize_size (_ # log) sz nonce = serialize_size log sz nonce"

fun serialize_sql :: "binn list \<Rightarrow> string" where
  "serialize_sql [] = []"
| "serialize_sql (Binn_Str s # log) = CHR 0x0A # s @ serialize_sql log"
| "serialize_sql (_ # log) = serialize_sql log"

definition serialize_transaction_to_string :: "binn list \<Rightarrow> string option" where
  "serialize_transaction_to_string log =
     (let (sz, nonce) = serialize_size log 64 0 in
      case get_transaction_item log TXN_DATETIME of
        Some (Binn_DateTime datetime) \<Rightarrow>
          (let data = int_dec nonce @ CHR 0x0A # datetime @ serialize_sql log in
           if length data + 1 \<le> sz then Some data else None)
      | _ \<Rightarrow> None)"

subsection \<open>Signatures on a transaction\<close>

text \<open>
  \<^verbatim>\<open>read_txn_sig\<close>: whether a user signed, the signature, and the user's key if the list has it. The
  list index of binn starts at 1, a missing item or an item of another type gives \<^verbatim>\<open>FALSE\<close>.
\<close>

definition binn_list_value :: "binn option \<Rightarrow> nat \<Rightarrow> binn option" where
  "binn_list_value l pos =
     (case l of Some (Binn_List xs) \<Rightarrow> if 0 < pos \<and> pos \<le> length xs then Some (xs ! (pos - 1)) else None
      | _ \<Rightarrow> None)"

definition binn_list_get_blob :: "binn option \<Rightarrow> nat \<Rightarrow> bytes option" where
  "binn_list_get_blob l pos = (case binn_list_value l pos of Some (Binn_Blob b) \<Rightarrow> Some b | _ \<Rightarrow> None)"

definition read_txn_sig :: "binn option \<Rightarrow> rc + (bool \<times> bytes \<times> bytes)" where
  "read_txn_sig sig =
     (case binn_list_value sig 1 of
        Some Binn_Null \<Rightarrow>
          (case binn_list_get_blob sig 2 of None \<Rightarrow> Inl SQLITE_INVALID
           | Some signature \<Rightarrow> Inr (False, signature, []))
      | Some (Binn_Bool True) \<Rightarrow>
          (case binn_list_get_blob sig 2 of None \<Rightarrow> Inl SQLITE_INVALID
           | Some user_pubkey \<Rightarrow>
               (case binn_list_get_blob sig 3 of None \<Rightarrow> Inl SQLITE_INVALID
                | Some signature \<Rightarrow> Inr (True, signature, user_pubkey)))
      | _ \<Rightarrow> Inl SQLITE_INVALID)"

definition store_signature_on_txn :: "binn list \<Rightarrow> bytes \<Rightarrow> int \<Rightarrow> bytes option \<Rightarrow> binn list" where
  "store_signature_on_txn log signature user_id pubkey =
     (let sig = (if user_id \<noteq> 0 then [Binn_Bool False, Binn_Int32 user_id]
                 else case pubkey of
                     Some pk \<Rightarrow> [Binn_Bool True, Binn_Blob pk]
                   | None \<Rightarrow> [Binn_Null])
      in log @ [Binn_List (sig @ [Binn_Blob signature])])"

subsection \<open>Facts on the walk over the items\<close>

lemma get_transaction_item_is_item: "get_transaction_item log item = Some v \<Longrightarrow> is_item item v"
  by (induction log) (auto split: if_splits)

lemma get_transaction_item_append:
  "get_transaction_item (log1 @ log2) item =
     (case get_transaction_item log1 item of Some v \<Rightarrow> Some v | None \<Rightarrow> get_transaction_item log2 item)"
  by (induction log1) auto

fun has_nonce :: "binn list \<Rightarrow> bool" where
  "has_nonce [] = False"
| "has_nonce (Binn_Int64 n # log) = True"
| "has_nonce (_ # log) = has_nonce log"

lemma get_transaction_nonce_has: "get_transaction_nonce log \<noteq> 0 \<Longrightarrow> has_nonce log"
  by (induction log rule: get_transaction_nonce.induct) auto

lemma serialize_size_eq:
  "serialize_size log sz n = (sz + fst (serialize_size log 0 0), if has_nonce log then snd (serialize_size log 0 0) else n)"
proof (induction log arbitrary: sz n)
  case Nil
  then show ?case by simp
next
  case (Cons v log)
  show ?case
  proof (cases v)
    case (Binn_Int64 i)
    then show ?thesis using Cons.IH [of sz i] Cons.IH [of 0 i] by simp
  next
    case (Binn_Str t)
    then show ?thesis using Cons.IH [of "sz + length t + 2" n] Cons.IH [of "length t + 2" 0] by simp
  qed (use Cons.IH [of sz n] in simp_all)
qed

text \<open>The length of the commands with their newlines never exceeds what was counted for them.\<close>

lemma length_serialize_sql: "length (serialize_sql log) \<le> fst (serialize_size log 0 0)"
proof (induction log)
  case Nil
  then show ?case by simp
next
  case (Cons v log)
  show ?case
  proof (cases v)
    case (Binn_Int64 i)
    then show ?thesis using Cons serialize_size_eq [of log 0 i] by simp
  next
    case (Binn_Str t)
    then show ?thesis using Cons serialize_size_eq [of log "length t + 2" 0] by simp
  qed (use Cons in simp_all)
qed

lemma length_nat_dec: "n < 10 ^ Suc k \<Longrightarrow> length (nat_dec n) \<le> Suc k"
proof (induction k arbitrary: n)
  case 0
  then show ?case by (simp add: nat_dec.simps [of n])
next
  case (Suc k)
  show ?case
  proof (cases "n < 10")
    case True
    then show ?thesis by (simp add: nat_dec.simps [of n])
  next
    case False
    have "n div 10 < 10 ^ Suc k" using Suc.prems by (simp add: div_less_iff_less_mult mult.commute)
    then have "length (nat_dec (n div 10)) \<le> Suc k" by (rule Suc.IH)
    then show ?thesis using False by (simp add: nat_dec.simps [of n])
  qed
qed

lemma length_int_dec: "- (2 ^ 63) \<le> i \<Longrightarrow> i < 2 ^ 63 \<Longrightarrow> length (int_dec i) \<le> 20"
  using length_nat_dec [of "nat (- i)" 18] length_nat_dec [of "nat i" 18]
  by (auto simp: int_dec_def nat_less_iff)

subsection \<open>Properties\<close>

text \<open>A row id packs the node id and the sequence number so that both are read back, whatever
  their values: \<^verbatim>\<open>aergoliteBuildRowId\<close> is inverted by \<^verbatim>\<open>aergoliteNodeIdFromRowId\<close> and
  \<^verbatim>\<open>aergoliteSeqFromRowId\<close>, negative node ids (sign-extended by the shift) included.\<close>
lemma rowid_roundtrip:
  "aergoliteNodeIdFromRowId (aergoliteBuildRowId node_id seq) = node_id
   \<and> aergoliteSeqFromRowId (aergoliteBuildRowId node_id seq) = seq"
proof
  show "aergoliteNodeIdFromRowId (aergoliteBuildRowId node_id seq) = node_id"
    by (rule bit_word_eqI)
      (auto simp: aergoliteNodeIdFromRowId_def aergoliteBuildRowId_def bit_simps dest: bit_imp_le_length)
  have m: "(0xFFFFFFFF :: u64) = mask 32" by (simp add: mask_eq_exp_minus_1)
  show "aergoliteSeqFromRowId (aergoliteBuildRowId node_id seq) = seq"
    unfolding aergoliteSeqFromRowId_def aergoliteBuildRowId_def m take_bit_eq_mask [symmetric]
    by (rule bit_word_eqI) (auto simp: bit_simps)
qed

text \<open>A signature stored on a transaction is the one that is read: after \<^verbatim>\<open>store_signature_on_txn\<close>
  (with no user id, as both signing functions call it) on a transaction that has no signature yet,
  \<^verbatim>\<open>read_txn_sig\<close> returns it together with the signer, and neither the nonce nor the text to be signed
  changes.\<close>
lemma signature_roundtrip:
  assumes "get_transaction_item log TXN_SIGNATURE = None"
  shows "read_txn_sig (get_transaction_item (store_signature_on_txn log sg 0 pubkey) TXN_SIGNATURE)
       = Inr (pubkey \<noteq> None, sg, case pubkey of None \<Rightarrow> [] | Some pk \<Rightarrow> pk)
    \<and> serialize_transaction_to_string (store_signature_on_txn log sg 0 pubkey) = serialize_transaction_to_string log
    \<and> get_transaction_nonce (store_signature_on_txn log sg 0 pubkey) = get_transaction_nonce log"
proof -
  have nn: "get_transaction_nonce (log @ [Binn_List l]) = get_transaction_nonce log" for l
    by (induction log rule: get_transaction_nonce.induct) auto
  have sz: "serialize_size (log @ [Binn_List l]) sz n = serialize_size log sz n" for l sz n
    by (induction log sz n rule: serialize_size.induct) auto
  have sql: "serialize_sql (log @ [Binn_List l]) = serialize_sql log" for l
    by (induction log rule: serialize_sql.induct) auto
  have dt: "get_transaction_item (log @ [Binn_List l]) TXN_DATETIME = get_transaction_item log TXN_DATETIME" for l
    by (simp add: get_transaction_item_append split: option.splits)
  show ?thesis
  proof (intro conjI)
    show "read_txn_sig (get_transaction_item (store_signature_on_txn log sg 0 pubkey) TXN_SIGNATURE)
       = Inr (pubkey \<noteq> None, sg, case pubkey of None \<Rightarrow> [] | Some pk \<Rightarrow> pk)"
      using assms by (cases pubkey)
        (simp_all add: store_signature_on_txn_def get_transaction_item_append read_txn_sig_def
          binn_list_get_blob_def binn_list_value_def)
    show "serialize_transaction_to_string (store_signature_on_txn log sg 0 pubkey) = serialize_transaction_to_string log"
      unfolding serialize_transaction_to_string_def store_signature_on_txn_def Let_def sz sql dt ..
    show "get_transaction_nonce (store_signature_on_txn log sg 0 pubkey) = get_transaction_nonce log"
      unfolding store_signature_on_txn_def Let_def nn ..
  qed
qed

lemma signature_roundtrip_witness:
  "read_txn_sig (get_transaction_item (store_signature_on_txn [Binn_Int64 1, Binn_Str ''x''] [7, 8] 0 None) TXN_SIGNATURE)
     = Inr (False, [7, 8], [])"
  using signature_roundtrip [of "[Binn_Int64 1, Binn_Str ''x'']" "[7, 8]" None] by simp

text \<open>C37: The buffer of \<^verbatim>\<open>serialize_transaction_to_string\<close> (64 bytes plus two more than each command)
  holds the text for every transaction whose date has at most 42 characters, as the dates this node
  writes do; nothing in the code bounds the date of a received transaction, and one with a date of 63
  characters and no command is written past the end of the buffer, before its signature is checked.\<close>
lemma serialize_buffer:
  assumes "get_transaction_item log TXN_DATETIME = Some (Binn_DateTime dt)"
    and "\<forall>n. Binn_Int64 n \<in> set log \<longrightarrow> - (2 ^ 63) \<le> n \<and> n < 2 ^ 63"
  shows "(length dt \<le> 42 \<longrightarrow> serialize_transaction_to_string log \<noteq> None)
    \<and> (63 \<le> length dt \<and> txn_sql_count log = 0 \<longrightarrow> serialize_transaction_to_string log = None)"
proof -
  obtain sz nonce where s: "serialize_size log 64 0 = (sz, nonce)" by (cases "serialize_size log 64 0") auto
  have sz: "sz = 64 + fst (serialize_size log 0 0)" using serialize_size_eq [of log 64 0] s by simp
  have "nonce = n \<or> Binn_Int64 nonce \<in> set log" if "serialize_size log a n = (b, nonce)" for a b n
    using that by (induction log a n rule: serialize_size.induct) auto
  from this [OF s] have range: "- (2 ^ 63) \<le> nonce \<and> nonce < 2 ^ 63" using assms(2) by auto
  have none: "fst (serialize_size log a n) = a" if "txn_sql_count log = 0" for a n
    using that by (induction log a n rule: serialize_size.induct) auto
  have "1 \<le> length (nat_dec k)" for k by (simp add: nat_dec.simps [of k])
  then have "1 \<le> length (int_dec nonce)" by (auto simp: int_dec_def intro: le_SucI)
  then show ?thesis using length_int_dec [of nonce] range length_serialize_sql [of log] assms(1) none [of 0 0]
    by (auto simp: serialize_transaction_to_string_def s sz)
qed

lemma serialize_buffer_witness:
  "serialize_transaction_to_string [Binn_Int64 1, Binn_DateTime (replicate 63 (CHR ''0''))] = None"
  using serialize_buffer [of "[Binn_Int64 1, Binn_DateTime (replicate 63 (CHR ''0''))]" "replicate 63 (CHR ''0'')"]
  by simp

end
