(* ===== verification/Authorizations.thy ===== *)
theory Authorizations
  imports Txn_Log Dyn_Array
begin

section \<open>Authorized nodes, signatures and votes\<close>

text \<open>
  The part of \<^verbatim>\<open>core/sqlite3.c\<close> that decides who may act: the list of authorizations of the node
  (\<^verbatim>\<open>this_node->authorizations\<close>), signature checks, transaction and authorization checks, and the votes
  on a block. \<^verbatim>\<open>libsecp256k1\<close> is not part of the repository: the four functions the code calls are
  the record \<open>secp256k1\<close>, a parameter. The table \<^verbatim>\<open>aergolite_nodes\<close> of the database, which
  \<^verbatim>\<open>aergolite_get_allowed_node\<close> reads, is the map \<open>allowed_nodes\<close> from node id to public key.
\<close>

record secp256k1 =
  ec_pubkey_parse :: "bytes \<Rightarrow> bool"
  signature_parse_compact :: "bytes \<Rightarrow> bool"
  ecdsa_verify :: "bytes \<Rightarrow> bytes \<Rightarrow> bytes \<Rightarrow> bool"
  ecdsa_sign :: "bytes \<Rightarrow> bytes \<Rightarrow> bytes option"

text \<open>What the library documents of a key pair: the public key parses, and a signature made with the
  secret key has 64 bytes, parses, and verifies.\<close>

definition key_pair :: "secp256k1 \<Rightarrow> bytes \<Rightarrow> bytes \<Rightarrow> bool" where
  "key_pair secp sk pk \<longleftrightarrow> ec_pubkey_parse secp pk \<and>
     (\<forall>h sg. ecdsa_sign secp sk h = Some sg \<longrightarrow>
        length sg = 64 \<and> signature_parse_compact secp sg \<and> ecdsa_verify secp sg h pk)"

record nodeauth =
  node_id :: int
  pk :: bytes
  auth_log :: "binn list"
  is_full_node :: bool
  since_block :: int
  last_nonce :: int
  saved_nonce :: int

record aergolite =
  this_id :: int
  has_privkey :: bool
  privkey :: bytes
  pubkey :: bytes
  admin_pubkey :: bytes
  authorizations :: "nodeauth list"
  allowed_nodes :: "int \<Rightarrow> bytes option"
  node_is_full :: bool
  current_local_nonce :: int
  max_active_nonce :: int
  last_processed_nonce :: int

subsection \<open>The authorization list\<close>

fun find_auth :: "nodeauth list \<Rightarrow> int \<Rightarrow> nodeauth option" where
  "find_auth [] nid = None"
| "find_auth (a # auths) nid = (if node_id a = nid then Some a else find_auth auths nid)"

fun find_auth_pk :: "nodeauth list \<Rightarrow> bytes \<Rightarrow> nodeauth option" where
  "find_auth_pk [] key = None"
| "find_auth_pk (a # auths) key = (if pk a = key then Some a else find_auth_pk auths key)"

text \<open>The loops that change the first entry with a node id.\<close>

fun update_first :: "int \<Rightarrow> (nodeauth \<Rightarrow> nodeauth) \<Rightarrow> nodeauth list \<Rightarrow> nodeauth list" where
  "update_first nid f [] = []"
| "update_first nid f (a # auths) = (if node_id a = nid then f a # auths else a # update_first nid f auths)"

definition aergolite_get_authorization :: "aergolite \<Rightarrow> int \<Rightarrow> rc + nodeauth" where
  "aergolite_get_authorization this_node nid =
     (case find_auth (authorizations this_node) nid of None \<Rightarrow> Inl SQLITE_NOTFOUND | Some auth \<Rightarrow> Inr auth)"

definition is_node_authorized :: "aergolite \<Rightarrow> bytes \<Rightarrow> bool \<times> int" where
  "is_node_authorized this_node key =
     (case find_auth_pk (authorizations this_node) key of None \<Rightarrow> (False, 0) | Some auth \<Rightarrow> (True, node_id auth))"

fun count_auths :: "bool \<Rightarrow> nodeauth list \<Rightarrow> nat" where
  "count_auths on_blockchain [] = 0"
| "count_auths on_blockchain (a # auths) =
     (if \<not> on_blockchain \<or> since_block a > 0 then 1 else 0) + count_auths on_blockchain auths"

definition aergolite_num_authorized_nodes :: "aergolite \<Rightarrow> bool \<Rightarrow> nat" where
  "aergolite_num_authorized_nodes this_node on_blockchain = count_auths on_blockchain (authorizations this_node)"

definition update_auth_first_block :: "aergolite \<Rightarrow> int \<Rightarrow> int \<Rightarrow> aergolite" where
  "update_auth_first_block this_node nid first_block =
     this_node\<lparr>authorizations := update_first nid (\<lambda>a. a\<lparr>since_block := first_block\<rparr>) (authorizations this_node)\<rparr>"

text \<open>The assignment to \<^verbatim>\<open>this_node->is_full_node\<close> is only reached when no entry matched.\<close>

definition update_auth_type :: "aergolite \<Rightarrow> int \<Rightarrow> string \<Rightarrow> aergolite" where
  "update_auth_type this_node nid type =
     (let full = (type = ''full'') in
      if find_auth (authorizations this_node) nid \<noteq> None then
        this_node\<lparr>authorizations := update_first nid (\<lambda>a. a\<lparr>is_full_node := full\<rparr>) (authorizations this_node)\<rparr>
      else if this_id this_node = nid then this_node\<lparr>node_is_full := full\<rparr>
      else this_node)"

definition update_auth_last_nonce :: "aergolite \<Rightarrow> int \<Rightarrow> int \<Rightarrow> aergolite" where
  "update_auth_last_nonce this_node nid nonce =
     this_node\<lparr>authorizations := update_first nid (\<lambda>a. a\<lparr>last_nonce := nonce\<rparr>) (authorizations this_node)\<rparr>"

definition save_auth_nonces :: "aergolite \<Rightarrow> aergolite" where
  "save_auth_nonces this_node =
     this_node\<lparr>authorizations := map (\<lambda>a. a\<lparr>saved_nonce := last_nonce a\<rparr>) (authorizations this_node)\<rparr>"

definition reload_auth_nonces :: "aergolite \<Rightarrow> aergolite" where
  "reload_auth_nonces this_node =
     this_node\<lparr>authorizations := map (\<lambda>a. a\<lparr>last_nonce := saved_nonce a\<rparr>) (authorizations this_node)\<rparr>"

definition clear_authorizations :: "aergolite \<Rightarrow> aergolite" where
  "clear_authorizations this_node = this_node\<lparr>authorizations := []\<rparr>"

subsection \<open>Signatures\<close>

text \<open>The key is given, or the id of the node whose key is looked up: in the list, then in the table.\<close>

definition aergolite_verify_raw :: "secp256k1 \<Rightarrow> aergolite \<Rightarrow> bytes \<Rightarrow> bytes + int \<Rightarrow> bytes \<Rightarrow> rc" where
  "aergolite_verify_raw secp this_node hash key sg =
     (case (case key of
              Inl k \<Rightarrow> Some k
            | Inr nid \<Rightarrow> (case aergolite_get_authorization this_node nid of
                  Inr auth \<Rightarrow> Some (pk auth)
                | Inl _ \<Rightarrow> allowed_nodes this_node nid)) of
        None \<Rightarrow> SQLITE_INVALID
      | Some k \<Rightarrow>
          if \<not> ec_pubkey_parse secp k then SQLITE_ERROR
          else if length sg \<noteq> 64 then SQLITE_INVALID
          else if \<not> signature_parse_compact secp sg then SQLITE_INVALID
          else if \<not> ecdsa_verify secp sg hash k then SQLITE_INVALID
          else SQLITE_OK)"

definition aergolite_verify :: "secp256k1 \<Rightarrow> aergolite \<Rightarrow> bytes \<Rightarrow> bytes + int \<Rightarrow> bytes \<Rightarrow> rc" where
  "aergolite_verify secp this_node msg key sg = aergolite_verify_raw secp this_node (sha256 msg) key sg"

definition aergolite_sign_raw :: "secp256k1 \<Rightarrow> aergolite \<Rightarrow> bytes \<Rightarrow> rc + bytes" where
  "aergolite_sign_raw secp this_node hash =
     (if \<not> has_privkey this_node then Inl SQLITE_EMPTY
      else case ecdsa_sign secp (privkey this_node) hash of None \<Rightarrow> Inl SQLITE_ERROR | Some sg \<Rightarrow> Inr sg)"

definition aergolite_sign :: "secp256k1 \<Rightarrow> aergolite \<Rightarrow> bytes \<Rightarrow> rc + bytes" where
  "aergolite_sign secp this_node msg = aergolite_sign_raw secp this_node (sha256 msg)"

subsection \<open>Creating and signing a transaction\<close>

text \<open>The nonce of the next local transaction, and the transaction with it: \<open>now\<close> is the current
  date, \<^term>\<open>None\<close> when it cannot be read. The log of the pager is \<^term>\<open>None\<close> while no transaction is open.\<close>

definition aergoliteStoreTransactionNonce :: "aergolite \<Rightarrow> binn list \<Rightarrow> aergolite \<times> binn list" where
  "aergoliteStoreTransactionNonce this_node log =
     (let nonce = (if current_local_nonce this_node = 0 then
                     (let last = (if max_active_nonce this_node = 0 then last_processed_nonce this_node
                                  else max_active_nonce this_node);
                          last = (if last < 0 then 0 else last)
                      in last + 1)
                   else current_local_nonce this_node + 1)
      in (this_node\<lparr>current_local_nonce := nonce\<rparr>,
          if nonce > 0 then log @ [Binn_Int64 nonce] else log))"

definition aergoliteCreateTransaction ::
  "aergolite \<Rightarrow> binn list option \<Rightarrow> string option \<Rightarrow> aergolite \<times> binn list \<times> rc" where
  "aergoliteCreateTransaction this_node plog now =
     (case plog of Some log \<Rightarrow> (this_node, log, SQLITE_OK)
      | None \<Rightarrow>
          (let (this_node, log) = aergoliteStoreTransactionNonce this_node [] in
           case now of None \<Rightarrow> (this_node, log, SQLITE_ERROR)
           | Some datetime \<Rightarrow>
               let log = log @ [Binn_DateTime datetime] in
               if current_local_nonce this_node = 1
               then (this_node, log @ [Binn_Pubkey (pubkey this_node)], SQLITE_OK)
               else (this_node, log, SQLITE_OK)))"

definition aergoliteStoreCommand ::
  "aergolite \<Rightarrow> binn list option \<Rightarrow> string option \<Rightarrow> string option \<Rightarrow> aergolite \<times> binn list option \<times> rc" where
  "aergoliteStoreCommand this_node plog now sql =
     (case sql of None \<Rightarrow> (this_node, plog, SQLITE_INTERNAL)
      | Some cmd \<Rightarrow>
          (let (this_node, log, rc) = aergoliteCreateTransaction this_node plog now in
           if rc \<noteq> SQLITE_OK then (this_node, Some log, rc)
           else (this_node, Some (log @ [Binn_Str cmd]), SQLITE_OK)))"

definition sign_txn_by_node :: "secp256k1 \<Rightarrow> aergolite \<Rightarrow> binn list \<Rightarrow> (binn list \<times> rc) option" where
  "sign_txn_by_node secp this_node log =
     (case serialize_transaction_to_string log of None \<Rightarrow> None
      | Some data \<Rightarrow>
          (case aergolite_sign secp this_node (str_bytes data) of
             Inl rc \<Rightarrow> Some (log, rc)
           | Inr signature \<Rightarrow> Some (store_signature_on_txn log signature 0 None, SQLITE_OK)))"

text \<open>\<^verbatim>\<open>stripchr\<close>: the text before the separator and the text after it.\<close>

definition stripchr :: "string \<Rightarrow> char \<Rightarrow> string \<times> string option" where
  "stripchr s separator =
     (case dropWhile (\<lambda>c. c \<noteq> separator) s of [] \<Rightarrow> (s, None)
      | _ # rest \<Rightarrow> (takeWhile (\<lambda>c. c \<noteq> separator) s, Some rest))"

text \<open>
  The user's signature comes from a Ledger device (\<open>ledger\<close>, when the node uses one) or from the
  application's callback, which answers with \<^verbatim>\<open><pubkey in hex>:<signature in hex>\<close>; both are outside
  the repository. The code does not test that the separator is there nor that the two parts fit the
  36 and 64 bytes it has for them.
\<close>

definition user_signature ::
  "(string \<Rightarrow> rc + (bytes \<times> bytes)) option \<Rightarrow> (string \<Rightarrow> rc + string) \<Rightarrow> string \<Rightarrow> (rc + (bytes \<times> bytes)) option" where
  "user_signature ledger callback data =
     (case ledger of Some device \<Rightarrow> Some (device data)
      | None \<Rightarrow>
          (case callback data of Inl rc \<Rightarrow> Some (Inl rc)
           | Inr result \<Rightarrow>
               (case stripchr result (CHR '':'') of
                  (pkhex, None) \<Rightarrow> None
                | (pkhex, Some sighex) \<Rightarrow>
                    if length pkhex \<le> 72 \<and> length sighex \<le> 128
                    then Some (Inr (take (length pkhex div 2) (from_hex pkhex),
                                    take (length sighex div 2) (from_hex sighex)))
                    else None)))"

definition sign_txn_by_user ::
  "secp256k1 \<Rightarrow> (string \<Rightarrow> rc + (bytes \<times> bytes)) option \<Rightarrow> (string \<Rightarrow> rc + string) \<Rightarrow> aergolite
     \<Rightarrow> binn list \<Rightarrow> (binn list \<times> rc) option" where
  "sign_txn_by_user secp ledger callback this_node log =
     (case serialize_transaction_to_string log of None \<Rightarrow> None
      | Some data \<Rightarrow>
          (case user_signature ledger callback data of None \<Rightarrow> None
           | Some (Inl rc) \<Rightarrow> Some (log, rc)
           | Some (Inr (pub, signature)) \<Rightarrow>
               (let rc = aergolite_verify secp this_node (str_bytes data) (Inl pub) signature in
                if rc \<noteq> SQLITE_OK then Some (log, rc)
                else
                  let rc = verify_txn_access_rights (admin_pubkey this_node) log True pub in
                  if rc \<noteq> SQLITE_OK then Some (log, rc)
                  else Some (store_signature_on_txn log signature 0 (Some pub), SQLITE_OK))))"

definition aergoliteCheckSignTransaction ::
  "secp256k1 \<Rightarrow> (string \<Rightarrow> rc + (bytes \<times> bytes)) option \<Rightarrow> (string \<Rightarrow> rc + string) \<Rightarrow> aergolite
     \<Rightarrow> binn list \<Rightarrow> (binn list \<times> rc) option" where
  "aergoliteCheckSignTransaction secp ledger callback this_node log =
     (let rc = (if has_privkey this_node
                then verify_txn_access_rights (admin_pubkey this_node) log False (pubkey this_node)
                else SQLITE_PERM) in
      case (if rc = SQLITE_OK then sign_txn_by_node secp this_node log
            else if rc = SQLITE_PERM then sign_txn_by_user secp ledger callback this_node log
            else Some (log, rc)) of
        None \<Rightarrow> None
      | Some (log, rc) \<Rightarrow>
          if rc = SQLITE_OK \<and> get_transaction_nonce log = 1
          then Some (log @ [Binn_Blob (pubkey this_node)], rc)
          else Some (log, rc))"

subsection \<open>Verifying a transaction\<close>

text \<open>The authorization the transaction is charged to: by the public key in the transaction when it
  has one, by the id it came with otherwise. \<open>Inr\<close> has the node's key and the entry.\<close>

definition txn_author :: "aergolite \<Rightarrow> int \<Rightarrow> binn list \<Rightarrow> (bytes \<times> nodeauth) option" where
  "txn_author this_node nid log =
     (case get_transaction_item log TXN_PUBKEY of
        Some (Binn_Pubkey key) \<Rightarrow> map_option (\<lambda>auth. (key, auth)) (find_auth_pk (authorizations this_node) key)
      | _ \<Rightarrow> map_option (\<lambda>auth. (pk auth, auth)) (find_auth (authorizations this_node) nid))"

definition aergolite_verify_transaction ::
  "secp256k1 \<Rightarrow> aergolite \<Rightarrow> int \<Rightarrow> binn list \<Rightarrow> (rc + int \<times> string) option" where
  "aergolite_verify_transaction secp this_node nid log =
     (let nonce = get_transaction_nonce log in
      if nonce = 1 \<and> get_transaction_item log TXN_PUBKEY = None then Some (Inl SQLITE_INVALID)
      else case txn_author this_node nid log of
        None \<Rightarrow> Some (Inl SQLITE_INVALID)
      | Some (node_pubkey, auth) \<Rightarrow>
          if nonce \<le> last_nonce auth then Some (Inl SQLITE_EXISTS)
          else case read_txn_sig (get_transaction_item log TXN_SIGNATURE) of
            Inl rc \<Rightarrow> Some (Inl rc)
          | Inr (is_user_txn, signature, user_pubkey) \<Rightarrow>
              (let key = (if is_user_txn then user_pubkey else node_pubkey) in
               case serialize_transaction_to_string log of
                 None \<Rightarrow> None
               | Some data \<Rightarrow>
                   (let rc = aergolite_verify secp this_node (str_bytes data) (Inl key) signature in
                    if rc \<noteq> SQLITE_OK then Some (Inl rc)
                    else
                      let rc = verify_txn_access_rights (admin_pubkey this_node) log is_user_txn key in
                      if rc \<noteq> SQLITE_OK then Some (Inl rc)
                      else case get_transaction_item log TXN_DATETIME of
                          Some (Binn_DateTime datetime) \<Rightarrow> Some (Inr (nonce, datetime))
                        | _ \<Rightarrow> None)))"

text \<open>The authorization of a node: a special transaction signed by the administrator.\<close>

definition aergolite_verify_authorization :: "secp256k1 \<Rightarrow> aergolite \<Rightarrow> binn list \<Rightarrow> rc option" where
  "aergolite_verify_authorization secp this_node log =
     (if \<not> is_special_transaction log then Some SQLITE_INVALID
      else case read_txn_sig (get_transaction_item log TXN_SIGNATURE) of
        Inl rc \<Rightarrow> Some rc
      | Inr (is_user_txn, signature, key) \<Rightarrow>
          if \<not> is_user_txn \<or> length key \<noteq> 33 then Some SQLITE_INVALID
          else if take 33 (admin_pubkey this_node) \<noteq> key then Some SQLITE_INVALID
          else case serialize_transaction_to_string log of
              None \<Rightarrow> None
            | Some data \<Rightarrow> Some (aergolite_verify secp this_node (str_bytes data) (Inl key) signature))"

text \<open>\<^verbatim>\<open>read_node_authorization\<close> of \<^verbatim>\<open>pragma add_node=[type:]address\<close>: the key and the node type.\<close>

definition is_valid_node_type :: "string \<Rightarrow> bool" where
  "is_valid_node_type type \<longleftrightarrow> type = ''full'' \<or> type = ''light''"

definition read_node_authorization :: "string option \<Rightarrow> (rc + bytes \<times> string) option" where
  "read_node_authorization sql =
     (case sql of None \<Rightarrow> Some (Inl SQLITE_INVALID)
      | Some sql \<Rightarrow>
          if length sql < 16 + 52 then Some (Inl SQLITE_INVALID)
          else if take 16 sql \<noteq> ''pragma add_node='' then Some (Inl SQLITE_NOTFOUND)
          else
            (case stripchr (drop 16 sql) (CHR '':'') of
               (arg, Some rest) \<Rightarrow>
                 if length arg > 12 \<or> \<not> is_valid_node_type arg then Some (Inl SQLITE_INVALID)
                 else if length rest \<noteq> ADDRESS_LENGTH then Some (Inl SQLITE_INVALID)
                 else (case address_to_pubkey rest (length rest) of
                         None \<Rightarrow> None
                       | Some None \<Rightarrow> Some (Inl SQLITE_INVALID)
                       | Some (Some key) \<Rightarrow> Some (Inr (key, arg)))
             | (arg, None) \<Rightarrow>
                 if length arg \<noteq> ADDRESS_LENGTH then Some (Inl SQLITE_INVALID)
                 else (case address_to_pubkey arg (length arg) of
                         None \<Rightarrow> None
                       | Some None \<Rightarrow> Some (Inl SQLITE_INVALID)
                       | Some (Some key) \<Rightarrow> Some (Inr (key, ''light'')))))"

definition read_authorized_pubkey :: "binn list \<Rightarrow> (rc + bytes \<times> string) option" where
  "read_authorized_pubkey log =
     (case get_transaction_item log TXN_SQL of
        Some (Binn_Str sql) \<Rightarrow> read_node_authorization (Some sql)
      | _ \<Rightarrow> Some (Inl SQLITE_INVALID))"

definition aergolite_new_authorization ::
  "crc_state \<Rightarrow> secp256k1 \<Rightarrow> aergolite \<Rightarrow> binn list \<Rightarrow> (aergolite \<times> rc) option" where
  "aergolite_new_authorization crc secp this_node log =
     (case read_authorized_pubkey log of None \<Rightarrow> None
      | Some (Inl rc) \<Rightarrow> Some (this_node, rc)
      | Some (Inr (key, type)) \<Rightarrow>
          if find_auth_pk (authorizations this_node) key \<noteq> None then Some (this_node, SQLITE_EXISTS)
          else case aergolite_verify_authorization secp this_node log of
              None \<Rightarrow> None
            | Some rc \<Rightarrow>
                if rc \<noteq> SQLITE_OK then Some (this_node, rc)
                else case generate_node_id_from_pubkey crc key of
                    None \<Rightarrow> None
                  | Some nid \<Rightarrow>
                      Some (this_node\<lparr>authorizations := authorizations this_node @
                              [\<lparr>node_id = nid, pk = key, auth_log = log, is_full_node = (type = ''full''),
                                since_block = 0, last_nonce = 0, saved_nonce = 0\<rparr>]\<rparr>, SQLITE_OK))"

subsection \<open>Voting rights and votes\<close>

definition can_vote_on_block :: "aergolite \<Rightarrow> int \<Rightarrow> int \<Rightarrow> bool" where
  "can_vote_on_block this_node nid block_height =
     (if nid = 0 then False
      else case aergolite_get_authorization this_node nid of
          Inl rc \<Rightarrow> False
        | Inr auth \<Rightarrow>
            if block_height = 1 then True
            else since_block auth > 0 \<and> block_height > since_block auth)"

fun count_active :: "nodeauth list \<Rightarrow> int \<Rightarrow> nat" where
  "count_active [] block_height = 0"
| "count_active (a # auths) block_height =
     (if since_block a > 0 \<and> block_height > since_block a then 1 else 0) + count_active auths block_height"

definition get_num_active_nodes :: "aergolite \<Rightarrow> int \<Rightarrow> nat" where
  "get_num_active_nodes this_node block_height =
     (if block_height = 1 then 1 else count_active (authorizations this_node) block_height)"

definition majority :: "nat \<Rightarrow> nat" where
  "majority x = x div 2 + 1"

text \<open>A vote as it is stored: the node id and the signature of the block id.\<close>

type_synonym vote_item = "int \<times> bytes"

fun count_votes :: "secp256k1 \<Rightarrow> aergolite \<Rightarrow> int \<Rightarrow> bytes \<Rightarrow> vote_item list \<Rightarrow> bool \<Rightarrow> nat" where
  "count_votes secp this_node block_height block_id [] in_state_update = 0"
| "count_votes secp this_node block_height block_id ((nid, sg) # votes) in_state_update =
     (if in_state_update \<or> can_vote_on_block this_node nid block_height then
        (if aergolite_verify_raw secp this_node block_id (Inr nid) sg = SQLITE_OK then 1 else 0)
      else 0)
     + count_votes secp this_node block_height block_id votes in_state_update"

definition verify_block_votes ::
  "secp256k1 \<Rightarrow> aergolite \<Rightarrow> int \<Rightarrow> bytes \<Rightarrow> vote_item list \<Rightarrow> bool \<Rightarrow> rc" where
  "verify_block_votes secp this_node block_height block_id votes in_state_update =
     (if count_votes secp this_node block_height block_id votes in_state_update
         < majority (get_num_active_nodes this_node block_height)
      then SQLITE_INVALID else SQLITE_OK)"

subsection \<open>Facts on the list\<close>

lemma find_auth_Some: "find_auth auths nid = Some a \<Longrightarrow> a \<in> set auths \<and> node_id a = nid"
  by (induction auths) (auto split: if_splits)

lemma find_auth_None: "find_auth auths nid = None \<longleftrightarrow> nid \<notin> node_id ` set auths"
  by (induction auths) auto

lemma find_auth_pk_Some: "find_auth_pk auths key = Some a \<Longrightarrow> a \<in> set auths \<and> pk a = key"
  by (induction auths) (auto split: if_splits)

lemma find_auth_distinct:
  "distinct (map node_id auths) \<Longrightarrow> a \<in> set auths \<Longrightarrow> find_auth auths (node_id a) = Some a"
  by (induction auths) auto

lemma update_first_ids: "(\<And>a. node_id (f a) = node_id a) \<Longrightarrow> map node_id (update_first nid f auths) = map node_id auths"
  by (induction auths) auto

lemma find_auth_update_first:
  "(\<And>a. node_id (f a) = node_id a) \<Longrightarrow> find_auth (update_first nid f auths) nid' =
     (if nid' = nid then map_option f (find_auth auths nid) else find_auth auths nid')"
  by (induction auths) auto

lemma count_active_filter:
  "count_active auths h = length (filter (\<lambda>a. since_block a > 0 \<and> h > since_block a) auths)"
  by (induction auths) auto

lemma find_auth_pk_None: "find_auth_pk auths key = None \<longleftrightarrow> key \<notin> pk ` set auths"
  by (induction auths) auto

lemma find_auth_append_new: "nid \<notin> node_id ` set auths \<Longrightarrow> node_id a = nid \<Longrightarrow> find_auth (auths @ [a]) nid = Some a"
  by (induction auths) auto

lemma read_txn_sig_not_OK: "read_txn_sig sig \<noteq> Inl SQLITE_OK"
  by (simp add: read_txn_sig_def split: option.splits binn.splits bool.splits)

lemma read_authorized_pubkey_not_OK: "read_authorized_pubkey log \<noteq> Some (Inl SQLITE_OK)"
  by (simp add: read_authorized_pubkey_def read_node_authorization_def Let_def
      split: option.splits binn.splits prod.splits)

subsection \<open>Valid votes\<close>

text \<open>The nodes that may vote at a height, and the votes that count.\<close>

definition active_ids :: "aergolite \<Rightarrow> int \<Rightarrow> int set" where
  "active_ids this_node h = node_id ` {a \<in> set (authorizations this_node). since_block a > 0 \<and> h > since_block a}"

definition valid_vote :: "secp256k1 \<Rightarrow> aergolite \<Rightarrow> int \<Rightarrow> bytes \<Rightarrow> vote_item \<Rightarrow> bool" where
  "valid_vote secp this_node h block_id v \<longleftrightarrow> can_vote_on_block this_node (fst v) h
     \<and> aergolite_verify_raw secp this_node block_id (Inr (fst v)) (snd v) = SQLITE_OK"

definition unique_ids :: "aergolite \<Rightarrow> bool" where
  "unique_ids this_node \<longleftrightarrow> distinct (map node_id (authorizations this_node))"

lemma count_votes_filter:
  "count_votes secp this_node h block_id votes False = length (filter (valid_vote secp this_node h block_id) votes)"
  by (induction votes) (auto simp: valid_vote_def)

lemma card_active_ids:
  "unique_ids this_node \<Longrightarrow> h \<noteq> 1 \<Longrightarrow> card (active_ids this_node h) = get_num_active_nodes this_node h"
proof -
  assume u: "unique_ids this_node" and h: "h \<noteq> 1"
  define P :: "nodeauth \<Rightarrow> bool" where "P = (\<lambda>a. since_block a > 0 \<and> h > since_block a)"
  have "distinct (map node_id (filter P (authorizations this_node)))"
    using u unfolding unique_ids_def by (rule distinct_map_filterI)
  then have "card (set (map node_id (filter P (authorizations this_node)))) = length (filter P (authorizations this_node))"
    by (metis distinct_card length_map)
  then show ?thesis using h unfolding get_num_active_nodes_def count_active_filter active_ids_def P_def by simp
qed

lemma can_vote_active: "can_vote_on_block this_node nid h \<Longrightarrow> h \<noteq> 1 \<Longrightarrow> nid \<in> active_ids this_node h"
  by (auto simp: can_vote_on_block_def aergolite_get_authorization_def active_ids_def
      dest!: find_auth_Some split: if_splits option.splits)

lemma finite_active_ids: "finite (active_ids this_node h)"
  by (simp add: active_ids_def)

text \<open>The distinct voters behind an accepted list are a majority of the active nodes.\<close>

lemma accepted_majority:
  assumes "verify_block_votes secp this_node h block_id votes False = SQLITE_OK"
    and "unique_ids this_node" and "h \<noteq> 1" and "distinct (map fst votes)"
  shows "\<exists>voters \<subseteq> active_ids this_node h. card (active_ids this_node h) < 2 * card voters
     \<and> (\<forall>n\<in>voters. \<exists>sg. (n, sg) \<in> set votes \<and> valid_vote secp this_node h block_id (n, sg))"
proof (intro exI conjI)
  define good where "good = filter (valid_vote secp this_node h block_id) votes"
  have "distinct (map fst good)" unfolding good_def using assms(4) by (rule distinct_map_filterI)
  then have "card (set (map fst good)) = length good" by (metis distinct_card length_map)
  moreover have "majority (get_num_active_nodes this_node h) \<le> length good"
    using assms(1) unfolding verify_block_votes_def count_votes_filter good_def by (auto split: if_splits)
  ultimately show "card (active_ids this_node h) < 2 * card (fst ` set good)"
    unfolding card_active_ids [OF assms(2,3)] majority_def by simp
  show "fst ` set good \<subseteq> active_ids this_node h"
    using can_vote_active [OF _ assms(3)] by (auto simp: good_def valid_vote_def)
  show "\<forall>n\<in>fst ` set good. \<exists>sg. (n, sg) \<in> set votes \<and> valid_vote secp this_node h block_id (n, sg)"
    by (auto simp: good_def)
qed

lemma majorities_meet:
  assumes "finite A" and "S \<subseteq> A" and "T \<subseteq> A" and "card A < 2 * card S" and "card A < 2 * card T"
  shows "S \<inter> T \<noteq> {}"
proof
  assume "S \<inter> T = {}"
  then have "card (S \<union> T) = card S + card T" using assms finite_subset by (intro card_Un_disjoint) auto
  moreover have "card (S \<union> T) \<le> card A" using assms by (intro card_mono) auto
  ultimately show False using assms by linarith
qed

subsection \<open>What acceptance of a transaction means\<close>

lemma verify_transaction_OK:
  "aergolite_verify_transaction secp this_node nid log = Some (Inr (nonce, datetime)) \<longleftrightarrow>
     nonce = get_transaction_nonce log \<and> \<not> (nonce = 1 \<and> get_transaction_item log TXN_PUBKEY = None)
     \<and> (\<exists>node_pubkey auth u sg up data.
          txn_author this_node nid log = Some (node_pubkey, auth) \<and> last_nonce auth < nonce
        \<and> read_txn_sig (get_transaction_item log TXN_SIGNATURE) = Inr (u, sg, up)
        \<and> serialize_transaction_to_string log = Some data
        \<and> aergolite_verify secp this_node (str_bytes data) (Inl (if u then up else node_pubkey)) sg = SQLITE_OK
        \<and> verify_txn_access_rights (admin_pubkey this_node) log u (if u then up else node_pubkey) = SQLITE_OK
        \<and> get_transaction_item log TXN_DATETIME = Some (Binn_DateTime datetime))"
proof (cases "txn_author this_node nid log")
  case None
  then show ?thesis by (auto simp: aergolite_verify_transaction_def Let_def)
next
  case (Some au)
  obtain node_pubkey auth where au: "au = (node_pubkey, auth)" by (cases au)
  show ?thesis
  proof (cases "read_txn_sig (get_transaction_item log TXN_SIGNATURE)")
    case (Inl rc)
    then show ?thesis using Some au by (auto simp: aergolite_verify_transaction_def Let_def)
  next
    case (Inr r)
    obtain u sg up where r: "r = (u, sg, up)" by (cases r)
    show ?thesis
    proof (cases "serialize_transaction_to_string log")
      case None
      then show ?thesis using \<open>txn_author this_node nid log = Some au\<close> au Inr r by (auto simp: aergolite_verify_transaction_def Let_def)
    next
      case (Some data)
      then show ?thesis using \<open>txn_author this_node nid log = Some au\<close> au Inr r
        by (auto simp: aergolite_verify_transaction_def Let_def split: option.splits binn.splits)
    qed
  qed
qed

subsection \<open>A concrete instance for the examples\<close>

text \<open>A signature scheme that satisfies what is documented of the library (and is not secure): the
  signature is the hash followed by the secret key.\<close>

definition example_secp :: secp256k1 where
  "example_secp = \<lparr>ec_pubkey_parse = (\<lambda>k. length k = 33), signature_parse_compact = (\<lambda>_. True),
     ecdsa_verify = (\<lambda>sg h k. sg = h @ tl k),
     ecdsa_sign = (\<lambda>sk h. if length h = 32 \<and> length sk = 32 then Some (h @ sk) else None)\<rparr>"

definition example_auth :: "int \<Rightarrow> int \<Rightarrow> nodeauth" where
  "example_auth i since = \<lparr>node_id = i, pk = 2 # replicate 32 (of_int i), auth_log = [], is_full_node = True,
     since_block = since, last_nonce = 0, saved_nonce = 0\<rparr>"

definition example_node :: aergolite where
  "example_node = \<lparr>this_id = 1, has_privkey = True, privkey = replicate 32 1, pubkey = 2 # replicate 32 1,
     admin_pubkey = 2 # replicate 32 9, authorizations = [example_auth 1 1, example_auth 2 1, example_auth 3 1],
     allowed_nodes = (\<lambda>_. None), node_is_full = True, current_local_nonce = 0, max_active_nonce = 0,
     last_processed_nonce = 0\<rparr>"

lemma example_key_pair: "length sk = 32 \<Longrightarrow> key_pair example_secp sk (2 # sk)"
  by (auto simp: key_pair_def example_secp_def split: if_splits)

lemmas example_simps = example_secp_def example_auth_def example_node_def aergolite_verify_raw_def
  aergolite_get_authorization_def can_vote_on_block_def get_num_active_nodes_def majority_def
  verify_block_votes_def unique_ids_def

lemma example_vote:
  "i \<in> {1, 2, 3} \<Longrightarrow> length block_id = 32 \<Longrightarrow>
     aergolite_verify_raw example_secp example_node block_id (Inr i) (block_id @ replicate 32 (of_int i)) = SQLITE_OK
     \<and> can_vote_on_block example_node i 2"
  by (auto simp: example_simps)

lemma example_votes:
  "length block_id = 32 \<Longrightarrow>
     verify_block_votes example_secp example_node 2 block_id
       [(1, block_id @ replicate 32 1), (2, block_id @ replicate 32 2)] False = SQLITE_OK"
  using example_vote [of 1 block_id] example_vote [of 2 block_id]
  by (simp add: verify_block_votes_def) (simp add: example_simps)

subsection \<open>Properties\<close>



text \<open>C29: \<^verbatim>\<open>verify_block_votes\<close> counts entries, not nodes: the vote of one node that may vote, repeated as
  often as the majority asks, makes any block it signed acceptable, however many nodes are active.\<close>
lemma repeated_vote_accepted:
  assumes "can_vote_on_block this_node nid h"
    and "aergolite_verify_raw secp this_node block_id (Inr nid) sg = SQLITE_OK"
    and "majority (get_num_active_nodes this_node h) \<le> k"
  shows "verify_block_votes secp this_node h block_id (replicate k (nid, sg)) in_state_update = SQLITE_OK"
proof -
  have "count_votes secp this_node h block_id (replicate n (nid, sg)) in_state_update = n" for n
    using assms(1,2) by (induction n) auto
  then show ?thesis using assms(3) by (simp add: verify_block_votes_def)
qed

lemma repeated_vote_accepted_witness:
  "verify_block_votes example_secp example_node 2 (replicate 32 7) (replicate 2 (3, replicate 32 7 @ replicate 32 3)) False
     = SQLITE_OK"
proof (rule repeated_vote_accepted)
  show "can_vote_on_block example_node 3 2" using example_vote [of 3 "replicate 32 7"] by simp
  show "aergolite_verify_raw example_secp example_node (replicate 32 7) (Inr 3) (replicate 32 7 @ replicate 32 3) = SQLITE_OK"
    using example_vote [of 3 "replicate 32 7"] by simp
  show "majority (get_num_active_nodes example_node 2) \<le> 2" by (simp add: example_simps)
qed


text \<open>A local transaction of a node with its own key, signed by the node.\<close>

definition example_log :: "binn list" where
  "example_log = [Binn_Int64 2, Binn_DateTime ''2020-01-01 00:00:00'', Binn_Str ''CALL f()'']"

lemma aergolite_sign_not_OK: "aergolite_sign secp this_node msg \<noteq> Inl SQLITE_OK"
  by (simp add: aergolite_sign_def aergolite_sign_raw_def split: option.splits)

lemma example_call: "starts_with_call ''CALL f()''"
  by code_simp

lemma sign_verify_node:
  assumes kp: "key_pair secp (privkey signer) (pubkey signer)"
    and sign: "sign_txn_by_node secp signer log = Some (stx, SQLITE_OK)"
    and nosig: "get_transaction_item log TXN_SIGNATURE = None"
    and author: "txn_author verifier nid log = Some (pubkey signer, auth)"
    and nonce: "last_nonce auth < get_transaction_nonce log" "get_transaction_nonce log = 1 \<longrightarrow> get_transaction_item log TXN_PUBKEY \<noteq> None"
    and rights: "verify_txn_access_rights (admin_pubkey verifier) log False (pubkey signer) = SQLITE_OK"
  shows "\<exists>datetime. aergolite_verify_transaction secp verifier nid stx = Some (Inr (get_transaction_nonce log, datetime))"
proof -
  obtain data sg where d: "serialize_transaction_to_string log = Some data"
      "aergolite_sign secp signer (str_bytes data) = Inr sg" "stx = log @ [Binn_List [Binn_Null, Binn_Blob sg]]"
    using sign aergolite_sign_not_OK by (auto simp: sign_txn_by_node_def store_signature_on_txn_def split: option.splits sum.splits)
  have eqs: "get_transaction_item stx it = get_transaction_item log it" if "it \<noteq> TXN_SIGNATURE" for it
    using that unfolding d(3) by (cases it) (auto simp: get_transaction_item_append split: option.splits)
  have nn: "get_transaction_nonce (l @ [Binn_List x]) = get_transaction_nonce l" for l x
    by (induction l rule: get_transaction_nonce.induct) auto
  have sz: "serialize_size (l @ [Binn_List x]) k n = serialize_size l k n" for l x k n
    by (induction l k n rule: serialize_size.induct) auto
  have sql: "serialize_sql (l @ [Binn_List x]) = serialize_sql l" for l x
    by (induction l rule: serialize_sql.induct) auto
  have rt: "verify_txn_access_rights a (l @ [Binn_List x]) u k = verify_txn_access_rights a l u k" for a l x u k
    by (induction a l u k rule: verify_txn_access_rights.induct) auto
  have ser: "serialize_transaction_to_string stx = Some data"
    using d(1) eqs [of TXN_DATETIME] unfolding serialize_transaction_to_string_def d(3) sz sql by simp
  have sig: "read_txn_sig (get_transaction_item stx TXN_SIGNATURE) = Inr (False, sg, [])"
    using nosig unfolding d(3)
    by (simp add: get_transaction_item_append read_txn_sig_def binn_list_get_blob_def binn_list_value_def)
  have v: "aergolite_verify secp verifier (str_bytes data) (Inl (pubkey signer)) sg = SQLITE_OK"
    using d(2) kp by (auto simp: aergolite_sign_def aergolite_sign_raw_def aergolite_verify_def
        aergolite_verify_raw_def key_pair_def split: if_splits option.splits)
  obtain datetime where dt: "get_transaction_item log TXN_DATETIME = Some (Binn_DateTime datetime)"
    using d(1) by (auto simp: serialize_transaction_to_string_def split: prod.splits option.splits binn.splits)
  have au: "txn_author verifier nid stx = Some (pubkey signer, auth)"
    using author eqs [of TXN_PUBKEY] by (simp add: txn_author_def)
  have "aergolite_verify_transaction secp verifier nid stx = Some (Inr (get_transaction_nonce log, datetime))"
    unfolding verify_transaction_OK using au nonce sig ser v dt rights eqs [of TXN_PUBKEY] eqs [of TXN_DATETIME]
    by (auto simp: d(3) nn rt)
  then show ?thesis by blast
qed

text \<open>C24: What a node signs the others accept: a transaction signed with the node's own key is accepted
  by every node that finds the signer's key as the author's, has seen only smaller nonces from it, and
  whose rules allow the commands to a node; it is accepted with the nonce the signer gave it.\<close>
lemma signed_transaction_verifies:
  assumes "key_pair secp (privkey signer) (pubkey signer)"
    and "sign_txn_by_node secp signer log = Some (stx, SQLITE_OK)"
    and "get_transaction_item log TXN_SIGNATURE = None"
    and "txn_author verifier nid log = Some (pubkey signer, auth)"
    and "last_nonce auth < get_transaction_nonce log"
    and "get_transaction_nonce log = 1 \<longrightarrow> get_transaction_item log TXN_PUBKEY \<noteq> None"
    and "verify_txn_access_rights (admin_pubkey verifier) log False (pubkey signer) = SQLITE_OK"
  shows "\<exists>datetime. aergolite_verify_transaction secp verifier nid stx = Some (Inr (get_transaction_nonce log, datetime))"
  using assms by (rule sign_verify_node)

lemma example_log_serialized: "\<exists>data. serialize_transaction_to_string example_log = Some data"
  by (simp add: example_log_def serialize_transaction_to_string_def int_dec_def nat_dec.simps)

lemma example_log_signed:
  "\<exists>stx. sign_txn_by_node example_secp example_node example_log = Some (stx, SQLITE_OK)"
  using example_log_serialized
  by (auto simp: sign_txn_by_node_def aergolite_sign_def aergolite_sign_raw_def example_node_def example_secp_def)

lemma example_signer: "key_pair example_secp (privkey example_node) (pubkey example_node)"
  using example_key_pair [of "replicate 32 1"] by (simp add: example_node_def)

lemma example_author: "txn_author example_node 1 example_log = Some (pubkey example_node, example_auth 1 1)"
  by (simp add: txn_author_def example_log_def example_node_def example_auth_def)

lemma signed_transaction_verifies_witness:
  "\<exists>stx datetime. sign_txn_by_node example_secp example_node example_log = Some (stx, SQLITE_OK)
     \<and> aergolite_verify_transaction example_secp example_node 1 stx = Some (Inr (2, datetime))"
proof -
  obtain stx where s: "sign_txn_by_node example_secp example_node example_log = Some (stx, SQLITE_OK)"
    using example_log_signed by blast
  have "\<exists>datetime. aergolite_verify_transaction example_secp example_node 1 stx
      = Some (Inr (get_transaction_nonce example_log, datetime))"
  proof (rule signed_transaction_verifies [OF _ s])
    show "key_pair example_secp (privkey example_node) (pubkey example_node)" by (rule example_signer)
    show "txn_author example_node 1 example_log = Some (pubkey example_node, example_auth 1 1)" by (rule example_author)
  qed (simp_all add: example_log_def example_auth_def example_call)
  with s show ?thesis by (auto simp: example_log_def)
qed

text \<open>C25: An accepted transaction can be replayed under any later nonce by anyone who has seen it: the nonce
  that is checked is the first integer of the list, the nonce that is signed is the last, so putting
  another integer in front of the items changes the one and not the other, and the signature still
  verifies.\<close>
lemma transaction_replay:
  assumes "aergolite_verify_transaction secp this_node nid log = Some (Inr (nonce, datetime))"
    and "0 < nonce" and "nonce < later"
  shows "aergolite_verify_transaction secp this_node nid (Binn_Int64 later # log) = Some (Inr (later, datetime))"
proof -
  have "get_transaction_nonce log = nonce" using assms(1) unfolding verify_transaction_OK by simp
  then have "has_nonce log" using assms(2) by (intro get_transaction_nonce_has) simp
  then have ser: "serialize_transaction_to_string (Binn_Int64 later # log) = serialize_transaction_to_string log"
  proof -
    have "serialize_size (Binn_Int64 later # log) 64 0 = serialize_size log 64 0"
      using serialize_size_eq [of log 64 later] serialize_size_eq [of log 64 0] \<open>has_nonce log\<close> by simp
    moreover have "serialize_sql (Binn_Int64 later # log) = serialize_sql log" by simp
    moreover have "get_transaction_item (Binn_Int64 later # log) TXN_DATETIME = get_transaction_item log TXN_DATETIME"
      by simp
    ultimately show ?thesis unfolding serialize_transaction_to_string_def by (simp only:)
  qed
  obtain node_pubkey auth u sg up data where old:
      "txn_author this_node nid log = Some (node_pubkey, auth)" "last_nonce auth < nonce"
      "read_txn_sig (get_transaction_item log TXN_SIGNATURE) = Inr (u, sg, up)"
      "serialize_transaction_to_string log = Some data"
      "aergolite_verify secp this_node (str_bytes data) (Inl (if u then up else node_pubkey)) sg = SQLITE_OK"
      "verify_txn_access_rights (admin_pubkey this_node) log u (if u then up else node_pubkey) = SQLITE_OK"
      "get_transaction_item log TXN_DATETIME = Some (Binn_DateTime datetime)"
    using assms(1) unfolding verify_transaction_OK by blast
  have items: "get_transaction_item (Binn_Int64 later # log) it = get_transaction_item log it" for it
    by (cases it) simp_all
  have author: "txn_author this_node nid (Binn_Int64 later # log) = txn_author this_node nid log"
    unfolding txn_author_def items ..
  have "last_nonce auth < later" "later \<noteq> 1" using old(2) assms(2,3) by simp_all
  then show ?thesis unfolding verify_transaction_OK ser items author
    using old by (auto intro!: exI [of _ node_pubkey] exI [of _ auth])
qed

lemma transaction_replay_witness:
  "\<exists>stx datetime. aergolite_verify_transaction example_secp example_node 1 (Binn_Int64 77 # stx) = Some (Inr (77, datetime))"
proof -
  obtain stx where s: "sign_txn_by_node example_secp example_node example_log = Some (stx, SQLITE_OK)"
    using example_log_signed by blast
  have "\<exists>datetime. aergolite_verify_transaction example_secp example_node 1 stx
      = Some (Inr (get_transaction_nonce example_log, datetime))"
  proof (rule sign_verify_node [OF _ s])
    show "key_pair example_secp (privkey example_node) (pubkey example_node)" by (rule example_signer)
    show "txn_author example_node 1 example_log = Some (pubkey example_node, example_auth 1 1)" by (rule example_author)
  qed (simp_all add: example_log_def example_auth_def example_call)
  then obtain datetime where "aergolite_verify_transaction example_secp example_node 1 stx = Some (Inr (2, datetime))"
    by (auto simp: example_log_def)
  from transaction_replay [OF this, of 77] show ?thesis by auto
qed

text \<open>C33: When a transaction carries a public key, the id of the node it is said to come from plays no part
  in its verification: \<^verbatim>\<open>aergolite_verify_transaction\<close> gives the same answer for every node id, and the
  callers then use the id they were given.\<close>
lemma pubkey_hides_node_id:
  assumes "get_transaction_item log TXN_PUBKEY \<noteq> None"
  shows "aergolite_verify_transaction secp this_node nid log = aergolite_verify_transaction secp this_node nid' log"
proof -
  have "txn_author this_node nid log = txn_author this_node nid' log"
    using assms get_transaction_item_is_item [of log TXN_PUBKEY]
    by (auto simp: txn_author_def split: option.splits binn.splits)
  then show ?thesis by (simp only: aergolite_verify_transaction_def)
qed

lemma pubkey_hides_node_id_witness:
  "aergolite_verify_transaction example_secp example_node 1 [Binn_Pubkey [2]]
     = aergolite_verify_transaction example_secp example_node 3 [Binn_Pubkey [2]]"
  by (rule pubkey_hides_node_id) simp

text \<open>Rolling a block back restores the nonces: whatever nonces the executed transactions left in the
  list since \<^verbatim>\<open>save_auth_nonces\<close>, \<^verbatim>\<open>reload_auth_nonces\<close> brings back every entry as it was saved.\<close>
lemma nonces_rollback:
  "map last_nonce (authorizations (reload_auth_nonces
       (foldl (\<lambda>n (i, k). update_auth_last_nonce n i k) (save_auth_nonces this_node) updates)))
     = map last_nonce (authorizations this_node)"
proof -
  have keep: "map saved_nonce (update_first i (\<lambda>a. a\<lparr>last_nonce := k\<rparr>) auths) = map saved_nonce auths" for i k auths
    by (induction auths) auto
  have fold: "map saved_nonce (authorizations (foldl (\<lambda>n (i, k). update_auth_last_nonce n i k) n updates))
      = map saved_nonce (authorizations n)" for n
  proof (induction updates arbitrary: n)
    case (Cons u us)
    then show ?case by (cases u) (simp add: update_auth_last_nonce_def keep)
  qed simp
  have "map saved_nonce (authorizations (foldl (\<lambda>n (i, k). update_auth_last_nonce n i k) (save_auth_nonces this_node) updates))
      = map last_nonce (authorizations this_node)"
    unfolding fold by (simp add: save_auth_nonces_def comp_def)
  moreover have "map last_nonce (authorizations (reload_auth_nonces n)) = map saved_nonce (authorizations n)" for n
    by (simp add: reload_auth_nonces_def)
  ultimately show ?thesis by (simp only:)
qed

text \<open>A new authorization gives no vote before it is in a block: when \<^verbatim>\<open>aergolite_new_authorization\<close>
  accepts, the administrator's key has signed the text of a special transaction, the entry is added once
  with \<^verbatim>\<open>since_block\<close> zero, no public key occurs twice, and (the new id being new) the node can vote at no
  height but the first until its block is recorded.\<close>
lemma new_authorization_accepted:
  assumes "aergolite_new_authorization crc secp this_node log = Some (this_node', SQLITE_OK)"
    and "distinct (map pk (authorizations this_node))"
  shows "\<exists>auth. authorizations this_node' = authorizations this_node @ [auth]
     \<and> since_block auth = 0 \<and> distinct (map pk (authorizations this_node'))
     \<and> is_special_transaction log
     \<and> (\<exists>data sg. serialize_transaction_to_string log = Some data
          \<and> ecdsa_verify secp sg (sha256 (str_bytes data)) (take 33 (admin_pubkey this_node)))
     \<and> (node_id auth \<notin> node_id ` set (authorizations this_node) \<and> h \<noteq> 1
          \<longrightarrow> \<not> can_vote_on_block this_node' (node_id auth) h)"
proof -
  obtain key type where k: "read_authorized_pubkey log = Some (Inr (key, type))"
    using assms(1) read_authorized_pubkey_not_OK [of log]
    by (auto simp: aergolite_new_authorization_def split: option.splits sum.splits)
  have new: "find_auth_pk (authorizations this_node) key = None"
      "aergolite_verify_authorization secp this_node log = Some SQLITE_OK"
    using assms(1) k by (auto simp: aergolite_new_authorization_def split: option.splits if_splits)
  obtain nid where nid: "generate_node_id_from_pubkey crc key = Some nid"
    using assms(1) k new by (auto simp: aergolite_new_authorization_def split: option.splits if_splits)
  define auth where "auth = \<lparr>node_id = nid, pk = key, auth_log = log, is_full_node = (type = ''full''),
                                since_block = 0, last_nonce = 0, saved_nonce = 0\<rparr>"
  have this': "authorizations this_node' = authorizations this_node @ [auth]"
    using assms(1) k new nid by (auto simp: aergolite_new_authorization_def auth_def)
  have "key \<notin> pk ` set (authorizations this_node)"
    using new(1) by (simp add: find_auth_pk_None)
  then have "distinct (map pk (authorizations this_node'))" using assms(2) by (simp add: this' auth_def)
  moreover have "is_special_transaction log \<and> (\<exists>data sg. serialize_transaction_to_string log = Some data
          \<and> ecdsa_verify secp sg (sha256 (str_bytes data)) (take 33 (admin_pubkey this_node)))"
    using new(2) read_txn_sig_not_OK [of "get_transaction_item log TXN_SIGNATURE"]
    by (auto simp: aergolite_verify_authorization_def aergolite_verify_def aergolite_verify_raw_def
        split: if_splits sum.splits option.splits)
  moreover have "\<not> can_vote_on_block this_node' (node_id auth) h"
    if "node_id auth \<notin> node_id ` set (authorizations this_node)" "h \<noteq> 1"
  proof -
    have "find_auth (authorizations this_node') (node_id auth) = Some auth"
      using that(1) unfolding this' by (intro find_auth_append_new) auto
    then show ?thesis using that(2) by (simp add: can_vote_on_block_def aergolite_get_authorization_def auth_def)
  qed
  ultimately show ?thesis using this' by (auto simp: auth_def)
qed


text \<open>The administrator's authorization of a new node whose key has the bytes 5, for the example.\<close>

lemma example_authorization:
  assumes "length s = 52" and "address_to_pubkey s 52 = Some (Some key)" and "pubkey_to_address key 56 = Some (s, 53)"
    and "find_auth_pk (authorizations example_node) key = None"
  shows "\<exists>log n'. aergolite_new_authorization crc example_secp example_node log = Some (n', SQLITE_OK)"
proof -
  define sql where "sql = ''pragma add_node='' @ ''light:'' @ s"
  define base where "base = [Binn_Int64 1, Binn_DateTime ''2020'', Binn_Str sql, Binn_Bool True]"
  have len: "length sql = 74" using assms(1) by (simp add: sql_def)
  obtain data where d: "serialize_transaction_to_string base = Some data"
    using len by (simp add: base_def serialize_transaction_to_string_def int_dec_def nat_dec.simps)
  define sg where "sg = sha256 (str_bytes data) @ replicate 32 9"
  define log where "log = base @ [Binn_List [Binn_Bool True, Binn_Blob (2 # replicate 32 9), Binn_Blob sg]]"
  have ser: "serialize_transaction_to_string log = Some data"
    using d by (simp add: log_def base_def serialize_transaction_to_string_def)
  have "aergolite_verify_authorization example_secp example_node log = Some SQLITE_OK"
    unfolding aergolite_verify_authorization_def ser
    by (simp add: log_def base_def read_txn_sig_def binn_list_get_blob_def binn_list_value_def sg_def
        example_node_def example_secp_def aergolite_verify_def aergolite_verify_raw_def)
  moreover have "read_authorized_pubkey log = Some (Inr (key, ''light''))"
    using assms(1,2) len by (simp add: log_def base_def read_authorized_pubkey_def read_node_authorization_def
        sql_def stripchr_def is_valid_node_type_def ADDRESS_LENGTH_def)
  moreover have "generate_node_id_from_pubkey crc key = Some (generate_node_id_from_address crc s)"
    using assms(3) by (simp add: generate_node_id_from_pubkey_def)
  ultimately have "\<exists>n'. aergolite_new_authorization crc example_secp example_node log = Some (n', SQLITE_OK)"
    using assms(4) by (simp add: aergolite_new_authorization_def)
  then show ?thesis by blast
qed

lemma new_authorization_accepted_witness:
  "\<exists>log n' auth. aergolite_new_authorization \<lparr>crc_table_initialized = False, crc_table = []\<rparr> example_secp example_node log = Some (n', SQLITE_OK)
     \<and> authorizations n' = authorizations example_node @ [auth] \<and> since_block auth = 0
     \<and> is_special_transaction log"
proof -
  obtain s where s: "pubkey_to_address (2 # replicate 32 5) 56 = Some (s, 53)" "length s = 52"
      "address_to_pubkey s (length s) = Some (Some (2 # replicate 32 5))"
    using address_roundtrip [of "2 # replicate 32 5" 56] by auto
  have "find_auth_pk (authorizations example_node) (2 # replicate 32 5) = None"
    by (simp add: example_node_def example_auth_def)
  then obtain log n' where "aergolite_new_authorization \<lparr>crc_table_initialized = False, crc_table = []\<rparr> example_secp example_node log = Some (n', SQLITE_OK)"
    using example_authorization [of s "2 # replicate 32 5" "\<lparr>crc_table_initialized = False, crc_table = []\<rparr>"] s by auto
  moreover have "distinct (map pk (authorizations example_node))" by (simp add: example_node_def example_auth_def)
  ultimately show ?thesis using new_authorization_accepted by blast
qed

end
