(* ===== verification/Block_Header.thy ===== *)
theory Block_Header
  imports Authorizations
begin

section \<open>Block headers\<close>

text \<open>
  The variable-length integers of \<^verbatim>\<open>core/sqlite3.c\<close> and the block header built from them
  (\<^verbatim>\<open>build_block_header\<close>, \<^verbatim>\<open>read_block_header\<close>): version, timestamp, height, three hashes and the id of
  the block's creator, signed by the creator. Unsigned integers are natural numbers below the bound
  of their C type. The binn map with the data and the signature is a record of two optional blobs.
  \<^term>\<open>None\<close> is a use of memory that was never written.
\<close>

subsection \<open>Variable-length integers\<close>

definition varintWrite32 :: "nat \<Rightarrow> bytes" where
  "varintWrite32 y = [of_nat (y div 2 ^ 24), of_nat (y div 2 ^ 16), of_nat (y div 2 ^ 8), of_nat y]"

definition sqlite4PutVarint64 :: "nat \<Rightarrow> bytes" where
  "sqlite4PutVarint64 x =
     (if x \<le> 240 then [of_nat x]
      else if x \<le> 2287 then
        let y = (x - 240) mod 2 ^ 32 in [of_nat (y div 256 + 241), of_nat (y mod 256)]
      else if x \<le> 67823 then
        let y = (x - 2288) mod 2 ^ 32 in [249, of_nat (y div 256), of_nat (y mod 256)]
      else
        let y = x mod 2 ^ 32; w = x div 2 ^ 32 in
        if w = 0 then
          (if y \<le> 16777215 then [250, of_nat (y div 2 ^ 16), of_nat (y div 2 ^ 8), of_nat y]
           else 251 # varintWrite32 y)
        else if w \<le> 255 then 252 # of_nat w # varintWrite32 y
        else if w \<le> 65535 then 253 # of_nat (w div 2 ^ 8) # of_nat w # varintWrite32 y
        else if w \<le> 16777215 then
          254 # of_nat (w div 2 ^ 16) # of_nat (w div 2 ^ 8) # of_nat w # varintWrite32 y
        else 255 # varintWrite32 w @ varintWrite32 y)"

text \<open>The bytes used and the value: no value when there are too few bytes (\<^verbatim>\<open>return 0\<close>).\<close>

definition sqlite4GetVarint64 :: "bytes \<Rightarrow> nat \<Rightarrow> nat \<times> nat option" where
  "sqlite4GetVarint64 zs n =
     (let z = (\<lambda>i. unat (zs ! i)) in
      if n < 1 then (0, None)
      else if z 0 \<le> 240 then (1, Some (z 0))
      else if z 0 \<le> 248 then
        if n < 2 then (0, None) else (2, Some ((z 0 - 241) * 256 + z 1 + 240))
      else if n < z 0 - 246 then (0, None)
      else if z 0 = 249 then (3, Some (2288 + 256 * z 1 + z 2))
      else if z 0 = 250 then (4, Some (z 1 * 2 ^ 16 + z 2 * 2 ^ 8 + z 3))
      else
        let x = z 1 * 2 ^ 24 + z 2 * 2 ^ 16 + z 3 * 2 ^ 8 + z 4 in
        if z 0 = 251 then (5, Some x)
        else if z 0 = 252 then (6, Some (x * 2 ^ 8 + z 5))
        else if z 0 = 253 then (7, Some (x * 2 ^ 16 + z 5 * 2 ^ 8 + z 6))
        else if z 0 = 254 then (8, Some (x * 2 ^ 24 + z 5 * 2 ^ 16 + z 6 * 2 ^ 8 + z 7))
        else (9, Some (x * 2 ^ 32 + (z 5 * 2 ^ 24 + z 6 * 2 ^ 16 + z 7 * 2 ^ 8 + z 8))))"

subsection \<open>Fixed-size fields\<close>

text \<open>\<^verbatim>\<open>*(int64*)p = now\<close> on a little-endian machine.\<close>

definition put_int64 :: "u64 \<Rightarrow> bytes" where
  "put_int64 v = map (\<lambda>i. ucast (drop_bit (8 * i) v)) [0..<8]"

definition get_int64 :: "bytes \<Rightarrow> u64" where
  "get_int64 bs = foldr (\<lambda>b acc. push_bit 8 acc OR ucast b) (take 8 bs) 0"

text \<open>An unsigned 64-bit value passed where the code expects an \<^verbatim>\<open>int\<close>.\<close>

definition int_of_uint64 :: "nat \<Rightarrow> int" where
  "int_of_uint64 n = sint (of_nat n :: 32 word)"

definition int64_of_uint64 :: "nat \<Rightarrow> int" where
  "int64_of_uint64 n = sint (of_nat n :: 64 word)"

definition uint64_of_int :: "int \<Rightarrow> nat" where
  "uint64_of_int i = unat (of_int i :: 64 word)"

subsection \<open>Building and reading a header\<close>

record header =
  header_data :: "bytes option"
  header_sig :: "bytes option"

record header_fields =
  hf_node_id :: int
  hf_timestamp :: u64
  hf_block_height :: int
  hf_prev_hash :: bytes
  hf_txns_hash :: bytes
  hf_state_hash :: bytes

definition header_bytes :: "u64 \<Rightarrow> int \<Rightarrow> bytes \<Rightarrow> bytes \<Rightarrow> bytes \<Rightarrow> int \<Rightarrow> bytes" where
  "header_bytes now block_height prev_hash txns_hash state_hash creator =
     1 # put_int64 now @ sqlite4PutVarint64 (uint64_of_int block_height) @ take 32 prev_hash
       @ txns_hash @ state_hash @ sqlite4PutVarint64 (uint64_of_int creator)"

text \<open>\<open>now\<close> is what the system clock gives, \<open>txns_hash\<close> and \<open>state_hash\<close> what the two hash functions
  write.\<close>

definition build_block_header ::
  "secp256k1 \<Rightarrow> aergolite \<Rightarrow> (rc + u64) \<Rightarrow> int \<Rightarrow> bytes \<Rightarrow> bytes \<Rightarrow> bytes \<Rightarrow> rc + header" where
  "build_block_header secp this_node clock block_height prev_hash txns_hash state_hash =
     (case clock of Inl rc \<Rightarrow> Inl rc
      | Inr now \<Rightarrow>
          (let d = header_bytes now block_height prev_hash txns_hash state_hash (this_id this_node) in
           case aergolite_sign secp this_node d of Inl rc \<Rightarrow> Inl rc
           | Inr signature \<Rightarrow> Inr \<lparr>header_data = Some d, header_sig = Some signature\<rparr>))"

text \<open>
  The result is the block id that is copied out before anything is verified (the first half of the
  signature, \<^term>\<open>None\<close> if the code returns before) and the fields or the error. The outer
  \<^term>\<open>None\<close> is the use of the creator's id when nothing is left to read it from:
  \<^verbatim>\<open>sqlite4GetVarint64\<close> then writes nothing, the sizes match, and the variable is used as it is.
\<close>

definition read_block_header ::
  "secp256k1 \<Rightarrow> aergolite \<Rightarrow> header \<Rightarrow> (bytes option \<times> (rc + header_fields)) option" where
  "read_block_header secp this_node hdr =
     (case header_data hdr of None \<Rightarrow> Some (None, Inl SQLITE_MISUSE)
      | Some d \<Rightarrow>
        (case header_sig hdr of None \<Rightarrow> Some (None, Inl SQLITE_MISUSE)
         | Some sg \<Rightarrow>
           (let size = length d in
            if size < 75 \<or> length sg \<noteq> 64 then Some (None, Inl SQLITE_MISUSE)
            else
              let blk = Some (take 32 sg) in
              if d ! 0 \<noteq> 1 then Some (blk, Inl SQLITE_INVALID)
              else
                let timestamp = get_int64 (drop 1 d); p = 9; (k, h) = sqlite4GetVarint64 (drop p d) (size - p) in
                (case h of None \<Rightarrow> None
                 | Some height \<Rightarrow>
                   let p = p + k in
                   if size - p < 32 then Some (blk, Inl SQLITE_INVALID)
                   else let prev = take 32 (drop p d); p = p + 32 in
                   if size - p < 32 then Some (blk, Inl SQLITE_INVALID)
                   else let txns = take 32 (drop p d); p = p + 32 in
                   if size - p < 32 then Some (blk, Inl SQLITE_INVALID)
                   else let st = take 32 (drop p d); p = p + 32; (k, c) = sqlite4GetVarint64 (drop p d) (size - p) in
                   if p + k \<noteq> size then Some (blk, Inl SQLITE_INVALID)
                   else (case c of None \<Rightarrow> None
                     | Some creator \<Rightarrow>
                       let node = int_of_uint64 creator;
                           rc = aergolite_verify secp this_node d (Inr node) sg in
                       if rc \<noteq> SQLITE_OK then Some (blk, Inl rc)
                       else Some (blk, Inr \<lparr>hf_node_id = node, hf_timestamp = timestamp,
                              hf_block_height = int64_of_uint64 height, hf_prev_hash = prev,
                              hf_txns_hash = txns, hf_state_hash = st\<rparr>))))))"

subsection \<open>Round trips\<close>

lemma unat_of_nat_byte: "unat (of_nat n :: u8) = n mod 256"
  by (simp add: unat_of_nat)

lemma base256_32: "y < 2 ^ 32 \<Longrightarrow>
   y div 2 ^ 24 mod 256 * 2 ^ 24 + y div 2 ^ 16 mod 256 * 2 ^ 16 + y div 2 ^ 8 mod 256 * 2 ^ 8 + y mod 256 = y" for y :: nat
  using limb_bytes_val [of y] by (simp add: limb_bytes_def be_val_Cons)

lemma base256_24: "y < 2 ^ 24 \<Longrightarrow>
   y div 2 ^ 16 mod 256 * 2 ^ 16 + y div 2 ^ 8 mod 256 * 2 ^ 8 + y mod 256 = y" for y :: nat
  using base256_32 [of y] by simp

lemma base256_16: "y < 2 ^ 16 \<Longrightarrow> y div 2 ^ 8 mod 256 * 2 ^ 8 + y mod 256 = y" for y :: nat
  using base256_24 [of y] by simp

lemma length_varint: "length (sqlite4PutVarint64 x) \<le> 9 \<and> 0 < length (sqlite4PutVarint64 x)"
  by (simp add: sqlite4PutVarint64_def varintWrite32_def Let_def)

lemma get_varint_tags:
  "5 \<le> n \<Longrightarrow> sqlite4GetVarint64 (251 # a # b # c # d # zs) n
     = (5, Some (unat a * 2 ^ 24 + unat b * 2 ^ 16 + unat c * 2 ^ 8 + unat d))"
  "6 \<le> n \<Longrightarrow> sqlite4GetVarint64 (252 # a # b # c # d # e # zs) n
     = (6, Some ((unat a * 2 ^ 24 + unat b * 2 ^ 16 + unat c * 2 ^ 8 + unat d) * 2 ^ 8 + unat e))"
  "7 \<le> n \<Longrightarrow> sqlite4GetVarint64 (253 # a # b # c # d # e # f # zs) n
     = (7, Some ((unat a * 2 ^ 24 + unat b * 2 ^ 16 + unat c * 2 ^ 8 + unat d) * 2 ^ 16 + unat e * 2 ^ 8 + unat f))"
  "8 \<le> n \<Longrightarrow> sqlite4GetVarint64 (254 # a # b # c # d # e # f # g # zs) n
     = (8, Some ((unat a * 2 ^ 24 + unat b * 2 ^ 16 + unat c * 2 ^ 8 + unat d) * 2 ^ 24
           + unat e * 2 ^ 16 + unat f * 2 ^ 8 + unat g))"
  "9 \<le> n \<Longrightarrow> sqlite4GetVarint64 (255 # a # b # c # d # e # f # g # h # zs) n
     = (9, Some ((unat a * 2 ^ 24 + unat b * 2 ^ 16 + unat c * 2 ^ 8 + unat d) * 2 ^ 32
           + (unat e * 2 ^ 24 + unat f * 2 ^ 16 + unat g * 2 ^ 8 + unat h)))"
  by (simp_all add: sqlite4GetVarint64_def)

lemma varint_roundtrip:
  assumes "x < 2 ^ 64" and "length (sqlite4PutVarint64 x) \<le> n"
  shows "sqlite4GetVarint64 (sqlite4PutVarint64 x @ rest) n = (length (sqlite4PutVarint64 x), Some x)"
proof -
  define y where "y = x mod 2 ^ 32"
  define w where "w = x div 2 ^ 32"
  have y: "y < 2 ^ 32" by (simp add: y_def)
  have w: "w < 2 ^ 32" using assms(1) by (simp add: w_def div_less_iff_less_mult)
  have x: "x = w * 2 ^ 32 + y" by (simp add: w_def y_def)
  have yd: "x mod 4294967296 = y" "x mod 2 ^ 32 = y" and wd: "x div 4294967296 = w" "x div 2 ^ 32 = w"
    by (simp_all add: y_def w_def)
  have ytop: "y div 16777216 mod 256 = y div 16777216" using y by simp
  note yb = base256_32 [OF y] ytop
  consider (a) "x \<le> 240" | (b) "240 < x" "x \<le> 2287" | (c) "2287 < x" "x \<le> 67823"
    | (d) "67823 < x" "w = 0" "y \<le> 16777215" | (e) "67823 < x" "w = 0" "16777215 < y"
    | (f) "67823 < x" "0 < w" "w \<le> 255" | (g) "67823 < x" "255 < w" "w \<le> 65535"
    | (h) "67823 < x" "65535 < w" "w \<le> 16777215" | (i) "67823 < x" "16777215 < w"
    by (metis not_le_imp_less neq0_conv)
  then show ?thesis
  proof cases
    case a
    then show ?thesis using assms(2) by (simp add: sqlite4PutVarint64_def sqlite4GetVarint64_def unat_of_nat_byte)
  next
    case b
    then have k: "(x - 240) mod 2 ^ 32 = x - 240" "(x - 240) div 256 \<le> 7" by auto
    then have "unat (of_nat ((x - 240) div 256 + 241) :: u8) = (x - 240) div 256 + 241"
      by (simp only: unat_of_nat_byte) simp
    moreover have "(x - 240) div 256 * 256 + (x - 240) mod 256 + 240 = x" using b by simp
    ultimately show ?thesis using b assms(2) k
      by (simp add: sqlite4PutVarint64_def sqlite4GetVarint64_def unat_of_nat_byte Let_def)
  next
    case c
    then have k: "(x - 2288) mod 2 ^ 32 = x - 2288" "(x - 2288) div 256 < 256" by auto
    then show ?thesis using c assms(2) mult_div_mod_eq [of 256 "x - 2288"]
      by (simp add: sqlite4PutVarint64_def sqlite4GetVarint64_def unat_of_nat_byte Let_def)
  next
    case d
    then have "x = y" using x by simp
    moreover have "\<not> x \<le> 240" "\<not> x \<le> 2287" "\<not> x \<le> 67823" using d(1) by linarith+
    ultimately show ?thesis using d assms(2) base256_24 [of y]
      by (simp add: sqlite4PutVarint64_def sqlite4GetVarint64_def unat_of_nat_byte Let_def y_def w_def)
  next
    case e
    then have xy: "x = y" using x by simp
    moreover from this have "\<not> x \<le> 16777215" "x < 4294967296" using e(3) y by simp_all
    ultimately have "sqlite4PutVarint64 x = 251 # varintWrite32 y"
      by (simp add: sqlite4PutVarint64_def Let_def)
    with xy show ?thesis using assms(2) yb by (simp add: get_varint_tags unat_of_nat_byte varintWrite32_def; linarith)
  next
    case f
    then have "sqlite4PutVarint64 x = 252 # of_nat w # varintWrite32 y"
      by (simp add: sqlite4PutVarint64_def Let_def yd wd)
    moreover have "w mod 256 = w" using f by simp
    ultimately show ?thesis using assms(2) yb x by (simp add: get_varint_tags unat_of_nat_byte varintWrite32_def; linarith)
  next
    case g
    then have "sqlite4PutVarint64 x = 253 # of_nat (w div 2 ^ 8) # of_nat w # varintWrite32 y"
      by (simp add: sqlite4PutVarint64_def Let_def yd wd)
    moreover have "w div 2 ^ 8 mod 256 * 2 ^ 8 + w mod 256 = w" using g by (intro base256_16) simp
    ultimately show ?thesis using assms(2) yb x by (simp add: get_varint_tags unat_of_nat_byte varintWrite32_def; linarith)
  next
    case h
    then have "sqlite4PutVarint64 x = 254 # of_nat (w div 2 ^ 16) # of_nat (w div 2 ^ 8) # of_nat w # varintWrite32 y"
      by (simp add: sqlite4PutVarint64_def Let_def yd wd)
    moreover have "w div 2 ^ 16 mod 256 * 2 ^ 16 + w div 2 ^ 8 mod 256 * 2 ^ 8 + w mod 256 = w"
      using h by (intro base256_24) simp
    ultimately show ?thesis using assms(2) yb x by (simp add: get_varint_tags unat_of_nat_byte varintWrite32_def; linarith)
  next
    case i
    then have "sqlite4PutVarint64 x = 255 # varintWrite32 w @ varintWrite32 y"
      by (simp add: sqlite4PutVarint64_def Let_def yd wd)
    moreover note base256_32 [OF w]
    ultimately show ?thesis using assms(2) yb x by (simp add: get_varint_tags unat_of_nat_byte varintWrite32_def; linarith)
  qed
qed

lemma int64_bytes:
  "foldr (\<lambda>b acc. push_bit 8 acc OR ucast b) (map (\<lambda>i. ucast (drop_bit (8 * i) v) :: u8) [k..<k + m]) 0
     = take_bit (8 * m) (drop_bit (8 * k) (v :: u64))"
proof (induction m arbitrary: k)
  case 0
  then show ?case by simp
next
  case (Suc m)
  have "[k..<k + Suc m] = k # [Suc k..<Suc k + m]" by (simp add: upt_conv_Cons)
  then have "foldr (\<lambda>b acc. push_bit 8 acc OR ucast b) (map (\<lambda>i. ucast (drop_bit (8 * i) v) :: u8) [k..<k + Suc m]) 0
      = push_bit 8 (take_bit (8 * m) (drop_bit (8 * Suc k) v)) OR ucast (ucast (drop_bit (8 * k) v) :: u8)"
    using Suc.IH [of "Suc k"] by (simp only: list.map foldr_Cons comp_def)
  also have "\<dots> = take_bit (8 * Suc m) (drop_bit (8 * k) v)"
    by (rule bit_word_eqI) (auto simp: bit_simps dest: bit_imp_le_length)
  finally show ?case .
qed

lemma get_put_int64: "get_int64 (put_int64 v @ rest) = v"
proof -
  have "take 8 (put_int64 v @ rest) = map (\<lambda>i. ucast (drop_bit (8 * i) v)) [0..<0 + 8]"
    by (simp add: put_int64_def)
  then have "get_int64 (put_int64 v @ rest) = take_bit (8 * 8) (drop_bit (8 * 0) v)"
    unfolding get_int64_def by (simp only: int64_bytes)
  then show ?thesis by (simp add: take_bit_word_eq_self)
qed

lemma signed_take_bit_small: "- (2 ^ n) \<le> i \<Longrightarrow> i < 2 ^ n \<Longrightarrow> signed_take_bit n i = i" for i :: int
  by (rule signed_take_bit_int_eq_self)

lemma int_of_uint64_of_int: "- (2 ^ 31) \<le> i \<Longrightarrow> i < 2 ^ 31 \<Longrightarrow> int_of_uint64 (uint64_of_int i) = i"
proof -
  assume i: "- (2 ^ 31) \<le> i" "i < 2 ^ 31"
  have "int_of_uint64 (uint64_of_int i) = sint (ucast (of_int i :: 64 word) :: 32 word)"
    by (simp add: int_of_uint64_def uint64_of_int_def)
  also have "\<dots> = signed_take_bit 31 (take_bit 64 i)"
    by (simp add: unsigned_of_int signed_of_int)
  also have "\<dots> = signed_take_bit 31 i" by (simp add: signed_take_bit_take_bit)
  also have "\<dots> = i" using i by (rule signed_take_bit_small)
  finally show ?thesis .
qed

lemma int64_of_uint64_of_int: "- (2 ^ 63) \<le> i \<Longrightarrow> i < 2 ^ 63 \<Longrightarrow> int64_of_uint64 (uint64_of_int i) = i"
proof -
  assume i: "- (2 ^ 63) \<le> i" "i < 2 ^ 63"
  have "int64_of_uint64 (uint64_of_int i) = sint (of_int i :: 64 word)"
    by (simp add: int64_of_uint64_def uint64_of_int_def)
  also have "\<dots> = signed_take_bit 63 i" by (simp add: signed_of_int)
  also have "\<dots> = i" using i by (rule signed_take_bit_small)
  finally show ?thesis .
qed

lemma uint64_of_int_less: "uint64_of_int i < 2 ^ 64"
  using unsigned_less [of "of_int i :: 64 word"] by (simp add: uint64_of_int_def)

subsection \<open>The header round trip\<close>

lemma drop_step: "drop p d = xs @ ys \<Longrightarrow> length xs = n \<Longrightarrow> drop (p + n) d = ys"
  by (metis add.commute append_eq_conv_conj drop_drop)

lemma length_put_int64: "length (put_int64 v) = 8"
  by (simp add: put_int64_def)

lemma read_header_bytes:
  assumes h: "- (2 ^ 63) \<le> height" "height < 2 ^ 63" and i: "- (2 ^ 31) \<le> nid" "nid < 2 ^ 31"
    and len: "length prev = 32" "length th = 32" "length sh = 32" and sg: "length sg = 64"
    and v: "aergolite_verify secp this_node (header_bytes now height prev th sh nid) (Inr nid) sg = SQLITE_OK"
  shows "read_block_header secp this_node
       \<lparr>header_data = Some (header_bytes now height prev th sh nid), header_sig = Some sg\<rparr>
     = Some (Some (take 32 sg), Inr \<lparr>hf_node_id = nid, hf_timestamp = now, hf_block_height = height,
          hf_prev_hash = prev, hf_txns_hash = th, hf_state_hash = sh\<rparr>)"
proof -
  define vh where "vh = sqlite4PutVarint64 (uint64_of_int height)"
  define vn where "vn = sqlite4PutVarint64 (uint64_of_int nid)"
  define d where "d = header_bytes now height prev th sh nid"
  define k where "k = length vh"
  have d: "d = 1 # put_int64 now @ vh @ prev @ th @ sh @ vn"
    using len by (simp add: d_def header_bytes_def vh_def vn_def)
  have size: "length d = 105 + k + length vn" using len by (simp add: d length_put_int64 k_def)
  have kpos: "0 < k" "0 < length vn" using length_varint by (simp_all add: k_def vh_def vn_def)
  have d9: "drop 9 d = vh @ prev @ th @ sh @ vn" by (simp add: d length_put_int64 numeral_eq_Suc)
  have dk: "drop (9 + k) d = prev @ th @ sh @ vn" by (rule drop_step [OF d9]) (simp add: k_def)
  note dk1 = drop_step [OF dk len(1)]
  note dk2 = drop_step [OF dk1 len(2)]
  note dk3 = drop_step [OF dk2 len(3)]
  have g1: "sqlite4GetVarint64 (drop 9 d) (length d - 9) = (k, Some (uint64_of_int height))"
    unfolding d9 k_def vh_def
    by (rule varint_roundtrip [OF uint64_of_int_less]) (simp add: size k_def vh_def)
  have g2: "sqlite4GetVarint64 (drop (9 + k + 32 + 32 + 32) d) (length d - (9 + k + 32 + 32 + 32))
      = (length vn, Some (uint64_of_int nid))"
    using varint_roundtrip [OF uint64_of_int_less, of nid "length d - (9 + k + 32 + 32 + 32)" "[]"]
    unfolding dk3 by (simp add: size vn_def)
  have ts: "get_int64 (drop 1 d) = now" by (simp add: d get_put_int64)
  have t: "take 32 (drop (9 + k) d) = prev" "take 32 (drop (9 + k + 32) d) = th" "take 32 (drop (9 + k + 32 + 32) d) = sh"
    unfolding dk dk1 dk2 using len by simp_all
  have d0: "d ! 0 = 1" by (simp add: d)
  have ge: "\<not> (length d < 75 \<or> length sg \<noteq> 64)" "\<not> length d - (9 + k) < 32" "\<not> length d - (9 + k + 32) < 32"
      "\<not> length d - (9 + k + 32 + 32) < 32" "9 + k + 32 + 32 + 32 + length vn = length d"
    using size sg kpos by simp_all
  show ?thesis
    unfolding d_def [symmetric] read_block_header_def
    using v unfolding d_def [symmetric]
    by (simp only: header.simps option.case Let_def ge g1 g2 ts t d0 prod.case if_False if_True simp_thms
        int_of_uint64_of_int [OF i] int64_of_uint64_of_int [OF h])
qed

lemma built_header_reads:
  assumes "key_pair secp (privkey builder) (pubkey builder)"
    and "build_block_header secp builder (Inr now) height prev th sh = Inr hdr"
    and "aergolite_get_authorization reader (this_id builder) = Inr auth" and "pk auth = pubkey builder"
    and "- (2 ^ 63) \<le> height" and "height < 2 ^ 63" and "- (2 ^ 31) \<le> this_id builder" and "this_id builder < 2 ^ 31"
    and "length prev = 32" and "length th = 32" and "length sh = 32"
  shows "\<exists>sg. header_sig hdr = Some sg \<and> read_block_header secp reader hdr
     = Some (Some (take 32 sg), Inr \<lparr>hf_node_id = this_id builder, hf_timestamp = now,
          hf_block_height = height, hf_prev_hash = prev, hf_txns_hash = th, hf_state_hash = sh\<rparr>)"
proof -
  define d where "d = header_bytes now height prev th sh (this_id builder)"
  obtain sg where sg: "aergolite_sign secp builder d = Inr sg" "hdr = \<lparr>header_data = Some d, header_sig = Some sg\<rparr>"
    using assms(2) by (auto simp: build_block_header_def d_def Let_def split: sum.splits)
  have "length sg = 64" "aergolite_verify secp reader d (Inr (this_id builder)) sg = SQLITE_OK"
    using sg(1) assms(1,3,4) by (auto simp: aergolite_sign_def aergolite_sign_raw_def aergolite_verify_def
        aergolite_verify_raw_def key_pair_def split: if_splits option.splits)
  then show ?thesis using read_header_bytes [OF assms(5-11)] sg(2) by (simp add: d_def)
qed

subsection \<open>Properties\<close>

text \<open>A varint reads back: for every 64-bit value, \<^verbatim>\<open>sqlite4GetVarint64\<close> applied to what
  \<^verbatim>\<open>sqlite4PutVarint64\<close> wrote, followed by anything, returns the value and the number of bytes written,
  which is at most nine.\<close>
lemma varint_get_put:
  assumes "x < 2 ^ 64"
  shows "sqlite4GetVarint64 (sqlite4PutVarint64 x @ rest) (length (sqlite4PutVarint64 x @ rest))
      = (length (sqlite4PutVarint64 x), Some x) \<and> length (sqlite4PutVarint64 x) \<le> 9"
  using varint_roundtrip [OF assms] length_varint by simp

lemma varint_get_put_witness:
  "sqlite4GetVarint64 (sqlite4PutVarint64 70000 @ [7]) (length (sqlite4PutVarint64 70000 @ [7]))
      = (length (sqlite4PutVarint64 70000), Some 70000) \<and> length (sqlite4PutVarint64 70000) \<le> 9"
  by (rule varint_get_put) simp

text \<open>C28: A header that a node builds is read by every node that knows the builder's key under its id: all
  fields (height, timestamp, the three hashes, the creator) come back as they were put in, the signature
  verifies, and the block id is the first half of the signature.\<close>
lemma header_roundtrip:
  assumes "key_pair secp (privkey builder) (pubkey builder)"
    and "build_block_header secp builder (Inr now) height prev th sh = Inr hdr"
    and "aergolite_get_authorization reader (this_id builder) = Inr auth" and "pk auth = pubkey builder"
    and "- (2 ^ 63) \<le> height" and "height < 2 ^ 63" and "- (2 ^ 31) \<le> this_id builder" and "this_id builder < 2 ^ 31"
    and "length prev = 32" and "length th = 32" and "length sh = 32"
  shows "\<exists>sg. header_sig hdr = Some sg \<and> read_block_header secp reader hdr
     = Some (Some (take 32 sg), Inr \<lparr>hf_node_id = this_id builder, hf_timestamp = now,
          hf_block_height = height, hf_prev_hash = prev, hf_txns_hash = th, hf_state_hash = sh\<rparr>)"
  by (rule built_header_reads [OF assms])

lemma header_roundtrip_witness:
  "\<exists>hdr sg. build_block_header example_secp example_node (Inr 5) 2 (replicate 32 1) (replicate 32 2) (replicate 32 3)
       = Inr hdr
     \<and> read_block_header example_secp example_node hdr
     = Some (Some (take 32 sg), Inr \<lparr>hf_node_id = 1, hf_timestamp = 5, hf_block_height = 2,
          hf_prev_hash = replicate 32 1, hf_txns_hash = replicate 32 2, hf_state_hash = replicate 32 3\<rparr>)"
proof -
  obtain hdr where h: "build_block_header example_secp example_node (Inr 5) 2 (replicate 32 1) (replicate 32 2)
      (replicate 32 3) = Inr hdr"
    by (auto simp: build_block_header_def Let_def aergolite_sign_def aergolite_sign_raw_def example_node_def example_secp_def)
  have id1: "this_id example_node = 1" by (simp add: example_node_def)
  have "\<exists>sg. header_sig hdr = Some sg \<and> read_block_header example_secp example_node hdr
     = Some (Some (take 32 sg), Inr \<lparr>hf_node_id = this_id example_node, hf_timestamp = 5,
          hf_block_height = 2, hf_prev_hash = replicate 32 1, hf_txns_hash = replicate 32 2, hf_state_hash = replicate 32 3\<rparr>)"
  proof (rule header_roundtrip [OF _ h])
    show "key_pair example_secp (privkey example_node) (pubkey example_node)"
      using example_key_pair [of "replicate 32 1"] by (simp add: example_node_def)
    show "aergolite_get_authorization example_node (this_id example_node) = Inr (example_auth 1 1)"
      by (simp add: aergolite_get_authorization_def example_node_def example_auth_def)
    show "pk (example_auth 1 1) = pubkey example_node" by (simp add: example_auth_def example_node_def)
  qed (simp_all add: id1)
  with h show ?thesis unfolding id1 by blast
qed

text \<open>A header whose data ends after the state hash is not rejected for its missing creator: nothing is
  written to the variable the creator's id is read into, the size test passes, and the signature is
  checked with an uninitialised node id.\<close>
lemma header_without_creator:
  assumes "length sg = 64" and "d = 1 # put_int64 now @ sqlite4PutVarint64 h @ hashes"
    and "h < 2 ^ 64" and "length hashes = 96"
  shows "read_block_header secp this_node \<lparr>header_data = Some d, header_sig = Some sg\<rparr> = None"
proof -
  define k where "k = length (sqlite4PutVarint64 h)"
  have size: "length d = 105 + k" using assms(2,4) by (simp add: length_put_int64 k_def)
  have d9: "drop 9 d = sqlite4PutVarint64 h @ hashes" unfolding assms(2) by (simp add: length_put_int64 numeral_eq_Suc)
  have g1: "sqlite4GetVarint64 (drop 9 d) (length d - 9) = (k, Some h)"
    unfolding d9 k_def by (rule varint_roundtrip [OF assms(3)]) (simp add: size k_def)
  have g2: "sqlite4GetVarint64 (drop (9 + k + 32 + 32 + 32) d) (length d - (9 + k + 32 + 32 + 32)) = (0, None)"
    by (simp add: sqlite4GetVarint64_def size)
  have d0: "d ! 0 = 1" using assms(2) by simp
  have ge: "\<not> (length d < 75 \<or> length sg \<noteq> 64)" "\<not> length d - (9 + k) < 32" "\<not> length d - (9 + k + 32) < 32"
      "\<not> length d - (9 + k + 32 + 32) < 32" "9 + k + 32 + 32 + 32 + 0 = length d"
    using size assms(1) by simp_all
  show ?thesis unfolding read_block_header_def
    by (simp only: header.simps option.case Let_def ge g1 g2 d0 prod.case if_False if_True simp_thms)
qed

lemma header_without_creator_witness:
  "read_block_header example_secp example_node \<lparr>header_data = Some (1 # put_int64 0 @ sqlite4PutVarint64 7 @ replicate 96 0),
     header_sig = Some (replicate 64 1)\<rparr> = None"
  by (rule header_without_creator [of _ _ 0 7 "replicate 96 0"]) simp_all

end
