(* ===== verification/Special_Commands.thy ===== *)
theory Special_Commands
  imports Authorizations
begin

section \<open>The commands of special transactions\<close>

text \<open>
  The administrator changes the network with pragmas carried by special transactions. This theory
  models the parsers of \<^verbatim>\<open>core/sqlite3.c\<close> for \<^verbatim>\<open>pragma node_type=<type>:<nodes>\<close> and
  \<^verbatim>\<open>pragma anchoring=<configuration>\<close>; \<^verbatim>\<open>pragma add_node\<close> is in \<open>Authorizations\<close>. The C code cuts the
  text in place at the separators; here the pieces are values. \<^term>\<open>None\<close> is the read out of bounds of
  \<^verbatim>\<open>address_to_pubkey\<close>.
\<close>

subsection \<open>Numbers and separators\<close>

text \<open>\<^verbatim>\<open>atoi\<close> of the C library on values that an \<^verbatim>\<open>int\<close> holds: blanks, a sign, digits.\<close>

definition is_digit :: "char \<Rightarrow> bool" where
  "is_digit c \<longleftrightarrow> (let n = of_char c :: nat in 48 \<le> n \<and> n \<le> 57)"

definition digits_value :: "string \<Rightarrow> nat" where
  "digits_value s = foldl (\<lambda>a c. a * 10 + (of_char c - 48)) 0 (takeWhile is_digit s)"

definition is_blank :: "char \<Rightarrow> bool" where
  "is_blank c \<longleftrightarrow> (let n = of_char c :: nat in n = 32 \<or> 9 \<le> n \<and> n \<le> 13)"

definition atoi :: "string \<Rightarrow> int" where
  "atoi s = (case dropWhile is_blank s of
       [] \<Rightarrow> 0
     | c # cs \<Rightarrow> if c = CHR ''-'' then - int (digits_value cs)
                else if c = CHR ''+'' then int (digits_value cs)
                else int (digits_value (c # cs)))"

text \<open>The pieces that \<^verbatim>\<open>while( item ){ next = stripchr(item,c); ... item = next; }\<close> visits.\<close>

fun split_chr :: "char \<Rightarrow> string \<Rightarrow> string list" where
  "split_chr c [] = [[]]"
| "split_chr c (x # xs) =
     (if x = c then [] # split_chr c xs
      else case split_chr c xs of [] \<Rightarrow> [[x]] | it # its \<Rightarrow> (x # it) # its)"

text \<open>\<^verbatim>\<open>stripstr\<close>: the text before the first occurrence of the separator and the text after it.\<close>

fun find_str :: "string \<Rightarrow> string \<Rightarrow> string \<Rightarrow> (string \<times> string) option" where
  "find_str sep before [] = (if sep = [] then Some (rev before, []) else None)"
| "find_str sep before (x # xs) =
     (if take (length sep) (x # xs) = sep then Some (rev before, drop (length sep) (x # xs))
      else find_str sep (x # before) xs)"

definition stripstr :: "string \<Rightarrow> string \<Rightarrow> (string \<times> string) option" where
  "stripstr mainstr separator = find_str separator [] mainstr"

subsection \<open>\<^verbatim>\<open>pragma node_type\<close>\<close>

text \<open>One item of the list: an address, \<^verbatim>\<open>*\<close> for all the authorized nodes (added as they are, without a
  look at what is in the list), \<^verbatim>\<open>default\<close>, or a node id.\<close>

definition node_type_item ::
  "aergolite \<Rightarrow> string \<Rightarrow> int list \<times> bool \<Rightarrow> (int list \<times> bool) option option" where
  "node_type_item this_node item st =
     (let (node_list, make_default) = st;
          add = (\<lambda>nid. if nid \<in> set node_list then (node_list, make_default) else (node_list @ [nid], make_default)) in
      if length item = ADDRESS_LENGTH then
        (case address_to_pubkey item (length item) of
           None \<Rightarrow> None
         | Some None \<Rightarrow> Some None
         | Some (Some key) \<Rightarrow>
             (let (found, nid) = is_node_authorized this_node key in
              if \<not> found \<or> nid = 0 then Some None else Some (Some (add nid))))
      else if item = ''*'' then
        Some (Some (node_list @ map node_id (authorizations this_node), make_default))
      else if item = ''default'' then Some (Some (node_list, True))
      else
        let nid = atoi item in
        if nid \<le> 0 then Some None
        else case aergolite_get_authorization this_node nid of
            Inl rc \<Rightarrow> Some None
          | Inr auth \<Rightarrow> Some (Some (add nid)))"

fun node_type_items :: "aergolite \<Rightarrow> string list \<Rightarrow> int list \<times> bool \<Rightarrow> (rc + int list \<times> bool) option" where
  "node_type_items this_node [] st = Some (Inr st)"
| "node_type_items this_node (item # items) st =
     (case node_type_item this_node item st of
        None \<Rightarrow> None
      | Some None \<Rightarrow> Some (Inl SQLITE_INVALID)
      | Some (Some st) \<Rightarrow> node_type_items this_node items st)"

definition read_pragma_node_type ::
  "aergolite \<Rightarrow> string option \<Rightarrow> (rc + string \<times> int list \<times> bool) option" where
  "read_pragma_node_type this_node sql =
     (case sql of None \<Rightarrow> Some (Inl SQLITE_INVALID)
      | Some sql \<Rightarrow>
          if length sql < 17 + 6 then Some (Inl SQLITE_INVALID)
          else if take 17 sql \<noteq> ''pragma node_type='' then Some (Inl SQLITE_NOTFOUND)
          else
            (case stripchr (drop 17 sql) (CHR '':'') of
               (type, None) \<Rightarrow> Some (Inl SQLITE_INVALID)
             | (type, Some items) \<Rightarrow>
                 if length type > 12 \<or> \<not> is_valid_node_type type then Some (Inl SQLITE_INVALID)
                 else
                   (case node_type_items this_node (split_chr (CHR '','') items) ([], False) of
                      None \<Rightarrow> None
                    | Some (Inl rc) \<Rightarrow> Some (Inl rc)
                    | Some (Inr (node_list, make_default)) \<Rightarrow> Some (Inr (type, node_list, make_default)))))"

subsection \<open>\<^verbatim>\<open>pragma anchoring\<close>\<close>

type_synonym raw_tcp_address = "string \<times> int"

text \<open>\<^verbatim>\<open>host:port\<close>, \<^verbatim>\<open>[host]:port\<close> or a port alone.\<close>

definition parse_tcp_address :: "string \<Rightarrow> raw_tcp_address option" where
  "parse_tcp_address address =
     (let (host, zport) =
        (case address of
           CHR ''['' # rest \<Rightarrow>
             (case stripchr rest (CHR '']'') of
                (h, Some (CHR '':'' # p)) \<Rightarrow> (h, Some p)
              | (h, _) \<Rightarrow> (h, None))
         | _ \<Rightarrow> stripchr address (CHR '':'')) in
      case zport of
        Some p \<Rightarrow> if length host > 63 then None else Some (host, atoi p)
      | None \<Rightarrow> if \<forall>c\<in>set host. is_digit c then Some (''0.0.0.0'', atoi host) else None)"

fun parse_tcp_addresses :: "string list \<Rightarrow> nat \<Rightarrow> raw_tcp_address list \<Rightarrow> raw_tcp_address list option" where
  "parse_tcp_addresses [] max_count arr = Some arr"
| "parse_tcp_addresses (a # addrs) max_count arr =
     (if length arr + 1 > max_count then None
      else case parse_tcp_address a of
          None \<Rightarrow> None
        | Some x \<Rightarrow> parse_tcp_addresses addrs max_count (arr @ [x]))"

definition parse_tcp_address_array :: "string \<Rightarrow> nat \<Rightarrow> raw_tcp_address list option" where
  "parse_tcp_address_array address max_count = parse_tcp_addresses (split_chr (CHR '','') address) max_count []"

datatype anchoring_interval = ANCHORING_BLOCKS | ANCHORING_HOURS | ANCHORING_MINUTES

record anchoring =
  anchoring_every :: int
  anchoring_type :: anchoring_interval
  contract_address :: string
  anchoring_servers :: "raw_tcp_address list"

definition interval_type :: "string \<Rightarrow> anchoring_interval option" where
  "interval_type arg =
     (if arg = ''block'' \<or> arg = ''blocks'' then Some ANCHORING_BLOCKS
      else if arg = ''hour'' \<or> arg = ''hours'' then Some ANCHORING_HOURS
      else if arg = ''minute'' \<or> arg = ''minutes'' then Some ANCHORING_MINUTES
      else None)"

definition parse_anchoring_config :: "string \<Rightarrow> rc + anchoring" where
  "parse_anchoring_config config =
     (if length config < 32 then Inl SQLITE_INVALID
      else if take 6 config \<noteq> ''every '' then Inl SQLITE_INVALID
      else case stripchr (drop 6 config) (CHR '' '') of
          (arg, None) \<Rightarrow> Inl SQLITE_INVALID
        | (arg, Some next) \<Rightarrow>
            (let interval = atoi arg in
             if interval \<le> 0 then Inl SQLITE_INVALID
             else case stripstr next '' on '' of
                 None \<Rightarrow> Inl SQLITE_INVALID
               | Some (arg, next) \<Rightarrow>
                   (case interval_type arg of
                      None \<Rightarrow> Inl SQLITE_INVALID
                    | Some ty \<Rightarrow>
                        (case stripchr next (CHR ''@'') of
                           (arg, None) \<Rightarrow> Inl SQLITE_INVALID
                         | (arg, Some next) \<Rightarrow>
                             if length arg > 63 then Inl SQLITE_INVALID
                             else case parse_tcp_address_array next 3 of
                                 None \<Rightarrow> Inl SQLITE_INVALID
                               | Some servers \<Rightarrow>
                                   Inr \<lparr>anchoring_every = interval, anchoring_type = ty,
                                        contract_address = arg, anchoring_servers = servers\<rparr>))))"

subsection \<open>What the parsers accept\<close>

lemma split_chr_not_Nil: "split_chr c s \<noteq> []"
  by (induction s) (auto split: list.splits)

lemma stripchr_Cons:
  "stripchr (x # xs) c = (if x = c then ([], Some xs) else map_prod ((#) x) id (stripchr xs c))"
  by (cases "dropWhile (\<lambda>y. y \<noteq> c) xs") (simp_all add: stripchr_def del: dropWhile_eq_Nil_conv)

lemma stripchr_Some: "stripchr s c = (a, Some r) \<Longrightarrow> s = a @ c # r"
proof (induction s arbitrary: a)
  case Nil
  then show ?case by (simp add: stripchr_def)
next
  case (Cons x xs)
  then show ?case by (cases "stripchr xs c") (auto simp: stripchr_Cons split: if_splits)
qed

text \<open>The pieces are those of the loop over \<^verbatim>\<open>stripchr\<close>.\<close>

lemma split_chr_stripchr:
  "split_chr c s = (case stripchr s c of (item, None) \<Rightarrow> [item] | (item, Some next) \<Rightarrow> item # split_chr c next)"
proof (induction s)
  case Nil
  then show ?case by (simp add: stripchr_def)
next
  case (Cons x xs)
  then show ?case by (cases "stripchr xs c") (auto simp: stripchr_Cons split: option.splits)
qed

lemma parse_tcp_addresses_length:
  "parse_tcp_addresses addrs max_count arr = Some res \<Longrightarrow> length arr \<le> max_count \<Longrightarrow>
     length res \<le> max_count \<and> length res = length arr + length addrs"
proof (induction addrs arbitrary: arr)
  case Nil
  then show ?case by simp
next
  case (Cons a addrs)
  then show ?case by (fastforce split: if_splits option.splits)
qed

lemma parse_tcp_address_host: "parse_tcp_address a = Some (host, port) \<Longrightarrow> length host \<le> 63"
  by (auto simp: parse_tcp_address_def Let_def split: prod.splits option.splits if_splits)

lemma parse_tcp_addresses_hosts:
  "parse_tcp_addresses addrs max_count arr = Some res \<Longrightarrow> \<forall>(h, p)\<in>set arr. length h \<le> 63 \<Longrightarrow>
     \<forall>(h, p)\<in>set res. length h \<le> 63"
proof (induction addrs arbitrary: arr)
  case Nil
  then show ?case by simp
next
  case (Cons a addrs)
  obtain x where x: "parse_tcp_address a = Some x" "parse_tcp_addresses addrs max_count (arr @ [x]) = Some res"
    using Cons.prems(1) by (auto split: if_splits option.splits)
  have "\<forall>(h, p)\<in>set (arr @ [x]). length h \<le> 63"
    using Cons.prems(2) parse_tcp_address_host [of a] x(1) by (cases x) auto
  with Cons.IH [OF x(2)] show ?case .
qed

lemma find_auth_id: "find_auth auths nid = Some a \<Longrightarrow> nid \<in> node_id ` set auths"
  using find_auth_None [of auths nid] by auto

lemma node_type_item_members:
  assumes "node_type_item this_node item (ids, d) = Some (Some (ids', d'))"
    and "\<forall>i\<in>set ids. i \<in> node_id ` set (authorizations this_node)"
  shows "\<forall>i\<in>set ids'. i \<in> node_id ` set (authorizations this_node)"
  using assms
  by (auto simp: node_type_item_def Let_def is_node_authorized_def aergolite_get_authorization_def
      dest!: find_auth_id find_auth_pk_Some split: if_splits option.splits prod.splits)

lemma node_type_items_members:
  "node_type_items this_node items (ids, d) = Some (Inr (ids', d')) \<Longrightarrow>
     \<forall>i\<in>set ids. i \<in> node_id ` set (authorizations this_node) \<Longrightarrow>
     \<forall>i\<in>set ids'. i \<in> node_id ` set (authorizations this_node)"
proof (induction items arbitrary: ids d)
  case Nil
  then show ?case by simp
next
  case (Cons it items)
  obtain ids2 d2 where s: "node_type_item this_node it (ids, d) = Some (Some (ids2, d2))"
      "node_type_items this_node items (ids2, d2) = Some (Inr (ids', d'))"
    using Cons.prems(1) by (auto split: option.splits prod.splits)
  show ?case by (rule Cons.IH [OF s(2) node_type_item_members [OF s(1) Cons.prems(2)]])
qed

text \<open>A command that changes node types only names authorized nodes: when \<^verbatim>\<open>read_pragma_node_type\<close>
  accepts, the type is a valid one, every id of the list is in the authorization list, and the list
  it parsed is the one between the separators.\<close>
lemma node_type_command_sound:
  assumes "read_pragma_node_type this_node (Some sql) = Some (Inr (type, ids, make_default))"
  shows "is_valid_node_type type \<and> (\<forall>i\<in>set ids. i \<in> node_id ` set (authorizations this_node))
     \<and> (\<exists>items. sql = ''pragma node_type='' @ type @ CHR '':'' # items)"
proof -
  obtain items where s: "take 17 sql = ''pragma node_type=''" "stripchr (drop 17 sql) (CHR '':'') = (type, Some items)"
      "is_valid_node_type type"
      "node_type_items this_node (split_chr (CHR '','') items) ([], False) = Some (Inr (ids, make_default))"
    using assms by (auto simp: read_pragma_node_type_def split: if_splits option.splits prod.splits sum.splits)
  have "drop 17 sql = type @ CHR '':'' # items" using s(2) by (rule stripchr_Some)
  with s(1) have "sql = ''pragma node_type='' @ type @ CHR '':'' # items"
    by (metis append_take_drop_id)
  moreover have "\<forall>i\<in>set ids. i \<in> node_id ` set (authorizations this_node)"
    by (rule node_type_items_members [OF s(4)]) simp
  ultimately show ?thesis using s(3) by blast
qed

lemma node_type_command_sound_witness:
  "read_pragma_node_type example_node (Some ''pragma node_type=full:1,*'') = Some (Inr (''full'', [1, 1, 2, 3], False))
   \<and> {1, 2, 3} \<subseteq> node_id ` set (authorizations example_node)"
proof -
  have "read_pragma_node_type example_node (Some ''pragma node_type=full:1,*'') = Some (Inr (''full'', [1, 1, 2, 3], False))"
    by (simp add: read_pragma_node_type_def stripchr_def is_valid_node_type_def node_type_item_def ADDRESS_LENGTH_def
        aergolite_get_authorization_def example_node_def example_auth_def atoi_def digits_value_def is_digit_def is_blank_def)
  with node_type_command_sound [OF this] show ?thesis by auto
qed

end
