(* ===== verification/Block_Core.thy ===== *)
theory Block_Core
  imports Block_Header Dyn_Array Checksum Special_Commands
begin

section \<open>Execution, verification and storage of blocks\<close>

text \<open>
  The block functions of \<^verbatim>\<open>core/sqlite3.c\<close>: a block is begun, its transactions are executed one by
  one on the worker connection under a savepoint, and the block is then built (by its producer) or
  verified (by the others), and committed or rolled back. What identifies the state of the database is
  the hash of the array of the page hashes; a block lists the pages it changed with their hashes.

  SQLite itself is a parameter: the record \<open>sqlite\<close> says what its connection to the contract database
  answers to the statements the code sends and which pages a change dirties. The type \<open>'db\<close> is the
  contents of that database. The state database is modelled by its three tables. A connection has
  at most one open transaction and, within it, at most one savepoint, as in the code. Allocation is
  taken to succeed, and the assertions are compiled out, as SQLite does by default; \<^term>\<open>None\<close> is an access
  of the C code through a null or uninitialised pointer.
\<close>

subsection \<open>Connections\<close>

record 'a conn =
  content :: 'a
  begun :: "'a option"
  savept :: "'a option"

text \<open>\<open>answer\<close> is what SQLite says when it can fail for reasons outside the program (a lock held by
  another connection, the disk).\<close>

definition sql_begin :: "rc \<Rightarrow> 'a conn \<Rightarrow> 'a conn \<times> rc" where
  "sql_begin answer c =
     (if begun c \<noteq> None then (c, SQLITE_ERROR)
      else if answer \<noteq> SQLITE_OK then (c, answer)
      else (c\<lparr>begun := Some (content c)\<rparr>, SQLITE_OK))"

definition sql_commit :: "rc \<Rightarrow> 'a conn \<Rightarrow> 'a conn \<times> rc" where
  "sql_commit answer c =
     (if begun c = None then (c, SQLITE_ERROR)
      else if answer \<noteq> SQLITE_OK then (c, answer)
      else (c\<lparr>begun := None, savept := None\<rparr>, SQLITE_OK))"

definition sql_rollback :: "'a conn \<Rightarrow> 'a conn" where
  "sql_rollback c =
     (case begun c of None \<Rightarrow> c | Some old \<Rightarrow> \<lparr>content = old, begun = None, savept = None\<rparr>)"

definition sql_savepoint :: "rc \<Rightarrow> 'a conn \<Rightarrow> 'a conn \<times> rc" where
  "sql_savepoint answer c =
     (if answer \<noteq> SQLITE_OK then (c, answer) else (c\<lparr>savept := Some (content c)\<rparr>, SQLITE_OK))"

definition sql_rollback_to :: "rc \<Rightarrow> 'a conn \<Rightarrow> 'a conn \<times> rc" where
  "sql_rollback_to answer c =
     (case savept c of None \<Rightarrow> (c, SQLITE_ERROR)
      | Some old \<Rightarrow> if answer \<noteq> SQLITE_OK then (c, answer) else (c\<lparr>content := old\<rparr>, SQLITE_OK))"

definition sql_release :: "rc \<Rightarrow> 'a conn \<Rightarrow> 'a conn \<times> rc" where
  "sql_release answer c =
     (if savept c = None then (c, SQLITE_ERROR)
      else if answer \<noteq> SQLITE_OK then (c, answer)
      else (c\<lparr>savept := None\<rparr>, SQLITE_OK))"

subsection \<open>Data\<close>

text \<open>A page of the list of modified pages: page number, height of the block, hash.\<close>

type_synonym page_row = "u32 \<times> int \<times> bytes"

record block_body =
  body_mod_pages :: "page_row list"
  body_txn_ids :: "u64 list"

record block_row =
  row_height :: int
  row_header :: header
  row_body :: "block_body option"
  row_votes :: "vote_item list"

record txn_row =
  txn_tid :: u64
  txn_block_height :: int
  txn_seq :: int
  txn_node_id :: int
  txn_nonce :: int
  txn_log :: "binn list"

text \<open>The tables of the state database: \<^verbatim>\<open>page_state\<close> in the order of its key, \<^verbatim>\<open>blocks\<close> and
  \<^verbatim>\<open>transactions\<close> in the order of insertion.\<close>

record state_tables =
  page_state :: "page_row list"
  block_rows :: "block_row list"
  txn_rows :: "txn_row list"

text \<open>A row of the table \<^verbatim>\<open>aergolite_nodes\<close>: id, key, authorization, first block, type, last nonce.\<close>

type_synonym node_row = "int \<times> bytes \<times> binn list \<times> int \<times> string \<times> int"

record 'db sqlite =
  lib :: secp256k1
  clock :: "rc + u64"
  header_binn :: "header \<Rightarrow> bytes"
  body_binn :: "block_body \<Rightarrow> bytes"
  sql_exec :: "'db \<Rightarrow> int \<Rightarrow> string \<Rightarrow> 'db \<times> rc"
  sql_insert_node :: "'db \<Rightarrow> node_row \<Rightarrow> 'db \<times> rc"
  sql_set_type :: "'db \<Rightarrow> string \<Rightarrow> int \<Rightarrow> 'db \<times> rc \<times> nat"
  sql_set_nonce :: "'db \<Rightarrow> int \<Rightarrow> int \<Rightarrow> 'db \<times> rc \<times> nat"
  sql_set_config :: "'db \<Rightarrow> string \<Rightarrow> string \<Rightarrow> 'db \<times> rc \<times> nat"
  nodes_table :: "'db \<Rightarrow> node_row list"
  dirty_pages :: "'db \<Rightarrow> (u32 \<times> bytes) list"
  page_size :: nat
  pager_write :: "'db \<Rightarrow> u32 \<Rightarrow> rc"
  put_page :: "'db \<Rightarrow> u32 \<Rightarrow> bytes \<Rightarrow> 'db"
  get_page :: "'db \<Rightarrow> u32 \<Rightarrow> rc + bytes"
  local_log :: "binn list list"
  worker_answer :: "'db \<Rightarrow> string \<Rightarrow> rc"
  state_answer :: "state_tables \<Rightarrow> string \<Rightarrow> rc"

text \<open>\<^verbatim>\<open>struct block active_block\<close> of the core: height zero when no block is open.\<close>

record active_block =
  ab_height :: int
  ab_prev_hash :: bytes
  ab_id :: bytes
  ab_header_id :: u32
  ab_body_id :: u32
  ab_verify_ok :: bool
  ab_txn_count :: int

definition no_block :: active_block where
  "no_block = \<lparr>ab_height = 0, ab_prev_hash = replicate 32 0, ab_id = replicate 32 0, ab_header_id = 0,
     ab_body_id = 0, ab_verify_ok = False, ab_txn_count = 0\<rparr>"

text \<open>
  The rest of \<^verbatim>\<open>struct aergolite\<close>; \<open>node\<close> holds the fields of the record \<open>aergolite\<close>. The null
  pointer for a list is \<^term>\<open>None\<close>; \<open>fired\<close> is the sequence of calls of the application's
  \<^verbatim>\<open>transaction_notification\<close> function.
\<close>

record 'db engine =
  node :: aergolite
  crc :: crc_state
  worker_db :: "'db conn"
  state_db :: "state_tables conn"
  block_height :: int
  block_id :: bytes
  active :: active_block
  pages_hashes :: "bytes list"
  mod_pages :: "(u32 \<times> bytes) list option"
  txn_ids :: "u64 list option"
  processed_local_txns :: "(int \<times> string) list option"
  nodes_changed :: bool
  config_changed :: bool
  wal_consensus_empty :: bool
  last_sent_nonce :: int
  last_sent_frame :: nat
  fired :: "(int \<times> string) list"

subsection \<open>Transaction ids\<close>

definition build_transaction_id :: "int \<Rightarrow> int \<Rightarrow> u64" where
  "build_transaction_id nid nonce = push_bit 32 (word_of_int nid) OR word_of_int nonce"

abbreviation FAILED_TXN :: u64 where "FAILED_TXN \<equiv> 0x8000000000000000"

text \<open>\<^verbatim>\<open>value.vint64 & 0x7fffffffffffffff\<close> and \<^verbatim>\<open>value.vint64<0\<close>\<close>

definition txn_id_of :: "u64 \<Rightarrow> u64" where
  "txn_id_of v = v AND 0x7fffffffffffffff"

definition txn_failed :: "u64 \<Rightarrow> bool" where
  "txn_failed v \<longleftrightarrow> bit v 63"

definition calc_txns_hash :: "u64 list \<Rightarrow> bytes" where
  "calc_txns_hash ids = sha256 (concat (map put_int64 ids))"

subsection \<open>Modified pages and the state hash\<close>

text \<open>
  \<^verbatim>\<open>mod_pages\<close> is an array sorted by page number, \<^verbatim>\<open>pages_hashes\<close> an array indexed by page number less
  one; the lists are what the arrays of \<open>Dyn_Array\<close> hold below 32768 pages.
\<close>

fun log_page :: "u32 \<Rightarrow> bytes \<Rightarrow> (u32 \<times> bytes) list \<Rightarrow> (u32 \<times> bytes) list" where
  "log_page pgno h [] = [(pgno, h)]"
| "log_page pgno h ((q, g) # ps) =
     (if pgno = q then (pgno, h) # ps
      else if pgno < q then (pgno, h) # (q, g) # ps
      else (q, g) # log_page pgno h ps)"

definition log_modified_page :: "'db engine \<Rightarrow> u32 \<Rightarrow> bytes \<Rightarrow> 'db engine \<times> rc" where
  "log_modified_page e pgno pData =
     (case mod_pages e of None \<Rightarrow> (e, SQLITE_NOMEM)
      | Some ps \<Rightarrow> (e\<lparr>mod_pages := Some (log_page pgno (sha256 pData) ps)\<rparr>, SQLITE_OK))"

fun log_modified_pages :: "(u32 \<times> bytes) list \<Rightarrow> 'db engine \<Rightarrow> 'db engine \<times> rc" where
  "log_modified_pages [] e = (e, SQLITE_OK)"
| "log_modified_pages ((pgno, pData) # ps) e =
     (let (e, rc) = log_modified_page e pgno pData in
      if rc \<noteq> SQLITE_OK then (e, rc) else log_modified_pages ps e)"

definition collect_modified_pages :: "'db sqlite \<Rightarrow> 'db engine \<Rightarrow> 'db engine \<times> rc" where
  "collect_modified_pages sql e = log_modified_pages (dirty_pages sql (content (worker_db e))) e"

definition serialize_modified_pages :: "'db engine \<Rightarrow> int \<Rightarrow> page_row list" where
  "serialize_modified_pages e height =
     (case mod_pages e of None \<Rightarrow> [] | Some ps \<Rightarrow> map (\<lambda>(pgno, h). (pgno, height, h)) ps)"

fun compare_pages :: "page_row list \<Rightarrow> (u32 \<times> bytes) list \<Rightarrow> rc" where
  "compare_pages ((pgno, height, hash) # rows) ((q, g) # ps) =
     (if pgno \<noteq> q then SQLITE_INVALID
      else if hash \<noteq> g then SQLITE_INVALID
      else compare_pages rows ps)"
| "compare_pages _ _ = SQLITE_OK"

definition compare_modified_pages :: "'db engine \<Rightarrow> page_row list \<Rightarrow> rc" where
  "compare_modified_pages e list =
     (case mod_pages e of None \<Rightarrow> SQLITE_INVALID
      | Some ps \<Rightarrow> if length list \<noteq> length ps then SQLITE_INVALID else compare_pages list ps)"

text \<open>\<^verbatim>\<open>array_set\<close> at the index \<^verbatim>\<open>pgno - 1\<close>, which is negative for page zero.\<close>

definition set_page_hash :: "bytes list \<Rightarrow> u32 \<Rightarrow> bytes \<Rightarrow> bytes list option" where
  "set_page_hash hashes pgno h =
     (if pgno = 0 then None else Some (set_list (replicate 32 0) hashes (unat pgno - 1) h))"

fun set_page_hashes :: "bytes list \<Rightarrow> (u32 \<times> bytes) list \<Rightarrow> bytes list \<times> rc" where
  "set_page_hashes hashes [] = (hashes, SQLITE_OK)"
| "set_page_hashes hashes ((pgno, h) # ps) =
     (case set_page_hash hashes pgno h of None \<Rightarrow> (hashes, SQLITE_NOMEM)
      | Some hashes' \<Rightarrow> set_page_hashes hashes' ps)"

definition update_pages_hash_list :: "'db engine \<Rightarrow> 'db engine \<times> rc" where
  "update_pages_hash_list e =
     (case mod_pages e of None \<Rightarrow> (e, SQLITE_OK)
      | Some ps \<Rightarrow>
          (let (hashes, rc) = set_page_hashes (pages_hashes e) ps in (e\<lparr>pages_hashes := hashes\<rparr>, rc)))"

definition calc_state_hash :: "'db engine \<Rightarrow> bytes" where
  "calc_state_hash e = sha256 (concat (pages_hashes e))"

definition calc_new_state_hash :: "'db engine \<Rightarrow> rc + bytes" where
  "calc_new_state_hash e =
     (case mod_pages e of None \<Rightarrow> Inr (sha256 (concat (pages_hashes e)))
      | Some ps \<Rightarrow>
          (let (array, rc) = set_page_hashes (pages_hashes e) ps in
           if rc \<noteq> SQLITE_OK then Inl rc else Inr (sha256 (concat array))))"

definition check_page :: "'db engine \<Rightarrow> u32 \<Rightarrow> bytes \<Rightarrow> rc" where
  "check_page e pgno data =
     (if pgno = 1 \<and> pages_hashes e = [] then SQLITE_OK
      else if pgno \<noteq> 0 \<and> unat pgno \<le> length (pages_hashes e)
              \<and> pages_hashes e ! (unat pgno - 1) = sha256 data then SQLITE_OK
      else SQLITE_INVALID)"

text \<open>\<^verbatim>\<open>INSERT OR REPLACE INTO page_state\<close>, and the loop over the list: it stops at the first failure.\<close>

fun put_page_state :: "page_row \<Rightarrow> page_row list \<Rightarrow> page_row list" where
  "put_page_state row [] = [row]"
| "put_page_state row (r # rows) =
     (if fst row = fst r then row # rows
      else if fst row < fst r then row # r # rows
      else r # put_page_state row rows)"

fun save_pages :: "'db sqlite \<Rightarrow> page_row list \<Rightarrow> state_tables \<Rightarrow> state_tables \<times> rc" where
  "save_pages sql [] t = (t, SQLITE_OK)"
| "save_pages sql (row # rows) t =
     (let rc = state_answer sql t ''INSERT OR REPLACE INTO page_state'' in
      if rc \<noteq> SQLITE_OK then (t, rc)
      else save_pages sql rows (t\<lparr>page_state := put_page_state row (page_state t)\<rparr>))"

definition save_modified_pages :: "'db sqlite \<Rightarrow> 'db engine \<Rightarrow> page_row list \<Rightarrow> 'db engine \<times> rc" where
  "save_modified_pages sql e list =
     (if list = [] then (e, SQLITE_ERROR)
      else let (t, rc) = save_pages sql list (content (state_db e)) in
           (e\<lparr>state_db := (state_db e)\<lparr>content := t\<rparr>\<rparr>, rc))"

text \<open>\<^verbatim>\<open>load_pages_hash_list\<close> reads the table back into the array.\<close>

fun load_hashes :: "bytes list \<Rightarrow> page_row list \<Rightarrow> bytes list \<times> rc" where
  "load_hashes hashes [] = (hashes, SQLITE_OK)"
| "load_hashes hashes ((pgno, height, h) # rows) =
     (if length h \<noteq> 32 then (hashes, SQLITE_INVALID)
      else case set_page_hash hashes pgno h of None \<Rightarrow> (hashes, SQLITE_NOMEM)
         | Some hashes' \<Rightarrow> load_hashes hashes' rows)"

definition load_pages_hash_list :: "'db engine \<Rightarrow> 'db engine \<times> rc" where
  "load_pages_hash_list e =
     (let (hashes, rc) = load_hashes [] (page_state (content (state_db e))) in
      (e\<lparr>pages_hashes := hashes\<rparr>, rc))"

definition load_modified_pages :: "'db engine \<Rightarrow> int \<Rightarrow> rc + page_row list" where
  "load_modified_pages e from_height =
     (let rows = filter (\<lambda>(pgno, height, h). height \<ge> from_height) (page_state (content (state_db e))) in
      if \<exists>(pgno, height, h)\<in>set rows. length h \<noteq> 32 then Inl SQLITE_ERROR else Inr rows)"

subsection \<open>Executing a transaction\<close>

abbreviation set_worker :: "'db engine \<Rightarrow> 'db \<Rightarrow> 'db engine" where
  "set_worker e db \<equiv> e\<lparr>worker_db := (worker_db e)\<lparr>content := db\<rparr>\<rparr>"

definition aergolite_insert_allowed_node ::
  "'db sqlite \<Rightarrow> 'db engine \<Rightarrow> int \<Rightarrow> bytes \<Rightarrow> binn list \<Rightarrow> string \<Rightarrow> int \<Rightarrow> 'db engine \<times> rc" where
  "aergolite_insert_allowed_node sql e nid key auth type nonce =
     (if \<not> is_valid_node_type type then (e, SQLITE_INVALID)
      else let e = e\<lparr>nodes_changed := True\<rparr>;
               (db, rc) = sql_insert_node sql (content (worker_db e)) (nid, key, auth, ab_height (active e), type, nonce)
           in (set_worker e db, rc))"

definition update_node_type :: "'db sqlite \<Rightarrow> 'db engine \<Rightarrow> int \<Rightarrow> string \<Rightarrow> 'db engine \<times> rc" where
  "update_node_type sql e nid type =
     (let (db, rc, changes) = sql_set_type sql (content (worker_db e)) type nid; e = set_worker e db in
      if rc \<noteq> SQLITE_OK then (e, rc)
      else if changes = 0 then (e, SQLITE_PERM)
      else (e\<lparr>nodes_changed := True\<rparr>, SQLITE_OK))"

definition update_node_last_nonce :: "'db sqlite \<Rightarrow> 'db engine \<Rightarrow> int \<Rightarrow> int \<Rightarrow> 'db engine \<times> rc" where
  "update_node_last_nonce sql e nid nonce =
     (let (db, rc, changes) = sql_set_nonce sql (content (worker_db e)) nonce nid; e = set_worker e db in
      if rc \<noteq> SQLITE_OK then (e, rc)
      else if changes = 0 then (e, SQLITE_PERM)
      else (e, SQLITE_OK))"

fun update_node_types :: "'db sqlite \<Rightarrow> int list \<Rightarrow> string \<Rightarrow> 'db engine \<Rightarrow> 'db engine \<times> rc" where
  "update_node_types sql [] type e = (e, SQLITE_OK)"
| "update_node_types sql (nid # nids) type e =
     (let (e, rc) = update_node_type sql e nid type in
      if rc \<noteq> SQLITE_OK then (e, SQLITE_INVALID) else update_node_types sql nids type e)"

text \<open>A command that is none of the three pragmas ends with the error of the last parser, \<^verbatim>\<open>rc\<close>.\<close>

definition execute_special_transaction ::
  "'db sqlite \<Rightarrow> 'db engine \<Rightarrow> binn list \<Rightarrow> ('db engine \<times> rc) option" where
  "execute_special_transaction sql e txn =
     (case get_transaction_item txn TXN_SQL of
        Some (Binn_Str cmd) \<Rightarrow>
          (case read_node_authorization (Some cmd) of
             None \<Rightarrow> None
           | Some (Inr (key, type)) \<Rightarrow>
               (case generate_node_id_from_pubkey (crc e) key of
                  None \<Rightarrow> None
                | Some nid \<Rightarrow> Some (aergolite_insert_allowed_node sql e nid key txn type 0))
           | Some (Inl _) \<Rightarrow>
               (case read_pragma_node_type (node e) (Some cmd) of
                  None \<Rightarrow> None
                | Some (Inr (type, nids, make_default)) \<Rightarrow>
                    (let (e, rc) = update_node_types sql nids type e in
                     if rc \<noteq> SQLITE_OK then Some (e, SQLITE_INVALID)
                     else Some (if make_default then e\<lparr>config_changed := True\<rparr> else e, rc))
                | Some (Inl rc) \<Rightarrow>
                    if take 17 cmd = ''pragma anchoring='' then
                      (case parse_anchoring_config (drop 17 cmd) of
                         Inl rc \<Rightarrow> Some (e, rc)
                       | Inr _ \<Rightarrow>
                           (let (db, rc, changes) = sql_set_config sql (content (worker_db e)) ''anchoring'' (drop 17 cmd);
                                e = set_worker e db in
                            if rc \<noteq> SQLITE_OK then Some (e, rc)
                            else if changes = 0 then Some (e, SQLITE_PERM)
                            else Some (e\<lparr>config_changed := True\<rparr>, SQLITE_OK)))
                    else Some (e, rc)))
      | _ \<Rightarrow> Some (e, SQLITE_INVALID))"

definition starts_with :: "string \<Rightarrow> string \<Rightarrow> bool" where
  "starts_with word cmd \<longleftrightarrow> map to_lower (take (length word) cmd) = map to_lower word"

text \<open>\<open>k\<close> is the number of commands seen before this one.\<close>

fun exec_commands :: "'db sqlite \<Rightarrow> int \<Rightarrow> nat \<Rightarrow> nat \<Rightarrow> binn list \<Rightarrow> 'db \<Rightarrow> 'db \<times> rc" where
  "exec_commands sql nid num_sql_cmds k [] db = (db, SQLITE_OK)"
| "exec_commands sql nid num_sql_cmds k (Binn_Str cmd # log) db =
     (let k = k + 1 in
      if k = 1 \<and> starts_with ''BEGIN'' cmd \<or> k = num_sql_cmds \<and> starts_with ''COMMIT'' cmd
      then exec_commands sql nid num_sql_cmds k log db
      else let (db, rc) = sql_exec sql db nid cmd in
           if rc \<noteq> SQLITE_OK then (db, rc) else exec_commands sql nid num_sql_cmds k log db)"
| "exec_commands sql nid num_sql_cmds k (_ # log) db = exec_commands sql nid num_sql_cmds k log db"

text \<open>\<^verbatim>\<open>INSERT INTO transactions\<close>: the id is the primary key; a transaction without a date is the null
  pointer given to \<^verbatim>\<open>strlen\<close>.\<close>

definition save_transaction ::
  "'db sqlite \<Rightarrow> 'db engine \<Rightarrow> int \<Rightarrow> int \<Rightarrow> u64 \<Rightarrow> int \<Rightarrow> int \<Rightarrow> binn list \<Rightarrow> ('db engine \<times> rc) option" where
  "save_transaction sql e height seq tid nid nonce log =
     (if get_transaction_item log TXN_DATETIME = None then None
      else let t = content (state_db e); rc = state_answer sql t ''INSERT INTO transactions'' in
        if tid \<in> txn_tid ` set (txn_rows t) then Some (e, SQLITE_ERROR)
        else if rc \<noteq> SQLITE_OK then Some (e, rc)
        else Some (e\<lparr>state_db := (state_db e)\<lparr>content := t\<lparr>txn_rows := txn_rows t @
            [\<lparr>txn_tid = tid, txn_block_height = height, txn_seq = seq, txn_node_id = nid, txn_nonce = nonce,
              txn_log = log\<rparr>]\<rparr>\<rparr>\<rparr>, SQLITE_OK))"

definition aergolite_save_transaction ::
  "'db sqlite \<Rightarrow> 'db engine \<Rightarrow> int \<Rightarrow> int \<Rightarrow> int \<Rightarrow> int \<Rightarrow> binn list \<Rightarrow> ('db engine \<times> rc) option" where
  "aergolite_save_transaction sql e height seq nid nonce log =
     (case aergolite_verify_transaction (lib sql) (node e) nid log of
        None \<Rightarrow> None
      | Some (Inl rc) \<Rightarrow> Some (e, rc)
      | Some (Inr (tnonce, datetime)) \<Rightarrow>
          if tnonce \<noteq> nonce then Some (e, SQLITE_INVALID)
          else save_transaction sql e height seq (build_transaction_id nid nonce) nid nonce log)"

abbreviation worker_says :: "'db sqlite \<Rightarrow> 'db engine \<Rightarrow> string \<Rightarrow> rc" where
  "worker_says sql e cmd \<equiv> worker_answer sql (content (worker_db e)) cmd"

abbreviation state_says :: "'db sqlite \<Rightarrow> 'db engine \<Rightarrow> string \<Rightarrow> rc" where
  "state_says sql e cmd \<equiv> state_answer sql (content (state_db e)) cmd"

text \<open>\<^verbatim>\<open>loc_rollback\<close>: the chain of four statements, which stops at the first that fails.\<close>

definition rollback_savepoints :: "'db sqlite \<Rightarrow> 'db engine \<Rightarrow> 'db engine" where
  "rollback_savepoints sql e =
     (let (w, rc) = sql_rollback_to (worker_says sql e ''ROLLBACK TO SAVEPOINT txn'') (worker_db e);
          e = e\<lparr>worker_db := w\<rparr> in
      if rc \<noteq> SQLITE_OK then e
      else let (w, rc) = sql_release (worker_says sql e ''RELEASE SAVEPOINT txn'') (worker_db e);
               e = e\<lparr>worker_db := w\<rparr> in
      if rc \<noteq> SQLITE_OK then e
      else let (s, rc) = sql_rollback_to (state_says sql e ''ROLLBACK TO SAVEPOINT txn'') (state_db e);
               e = e\<lparr>state_db := s\<rparr> in
      if rc \<noteq> SQLITE_OK then e
      else let (s, rc) = sql_release (state_says sql e ''RELEASE SAVEPOINT txn'') (state_db e) in
           e\<lparr>state_db := s\<rparr>)"

definition fail_code :: "rc \<Rightarrow> rc" where
  "fail_code rc = (if rc = SQLITE_OK then SQLITE_ERROR else rc)"

text \<open>\<^verbatim>\<open>loc_done\<close>: the transaction is recorded by full nodes, the nonce updated, the savepoints released.\<close>

definition close_transaction :: "'db sqlite \<Rightarrow> 'db engine \<Rightarrow> int \<Rightarrow> int \<Rightarrow> 'db engine \<times> rc" where
  "close_transaction sql e nid nonce =
     (let (e, rc) = update_node_last_nonce sql e nid nonce in
      if rc \<noteq> SQLITE_OK then (rollback_savepoints sql e, rc)
      else let (w, rc) = sql_release (worker_says sql e ''RELEASE SAVEPOINT txn'') (worker_db e);
               (s, rc2) = sql_release (state_says sql e ''RELEASE SAVEPOINT txn'') (state_db e);
               e = e\<lparr>worker_db := w, state_db := s\<rparr> in
           if rc \<noteq> SQLITE_OK \<or> rc2 \<noteq> SQLITE_OK then (rollback_savepoints sql e, fail_code rc)
           else (e\<lparr>active := (active e)\<lparr>ab_txn_count := ab_txn_count (active e) + 1\<rparr>\<rparr>, rc))"

definition finish_transaction ::
  "'db sqlite \<Rightarrow> 'db engine \<Rightarrow> int \<Rightarrow> int \<Rightarrow> u64 \<Rightarrow> binn list \<Rightarrow> ('db engine \<times> rc) option" where
  "finish_transaction sql e nid nonce tid list =
     (case (if node_is_full (node e)
            then save_transaction sql e (ab_height (active e)) (ab_txn_count (active e) + 1) tid nid nonce list
            else Some (e, SQLITE_OK)) of
        None \<Rightarrow> None
      | Some (e, rc) \<Rightarrow>
          if rc \<noteq> SQLITE_OK then Some (rollback_savepoints sql e, SQLITE_BUSY)
          else Some (close_transaction sql e nid nonce))"

definition execute_transaction ::
  "'db sqlite \<Rightarrow> 'db engine \<Rightarrow> int \<Rightarrow> int \<Rightarrow> u64 \<Rightarrow> binn list \<Rightarrow> ('db engine \<times> rc) option" where
  "execute_transaction sql e nid nonce tid list =
     (let (w, rc) = sql_savepoint (worker_says sql e ''SAVEPOINT txn'') (worker_db e); e = e\<lparr>worker_db := w\<rparr> in
      if rc \<noteq> SQLITE_OK then Some (e, SQLITE_BUSY)
      else let (s, rc) = sql_savepoint (state_says sql e ''SAVEPOINT txn'') (state_db e); e = e\<lparr>state_db := s\<rparr> in
      if rc \<noteq> SQLITE_OK then
        let (w, _) = sql_release (worker_says sql e ''RELEASE SAVEPOINT txn'') (worker_db e) in
        Some (e\<lparr>worker_db := w\<rparr>, SQLITE_BUSY)
      else
        case (if is_special_transaction list then execute_special_transaction sql e list
              else let (db, rc) = exec_commands sql nid (txn_sql_count list) 0 list (content (worker_db e)) in
                   Some (set_worker e db, rc)) of
          None \<Rightarrow> None
        | Some (e, rc) \<Rightarrow>
            if rc \<noteq> SQLITE_OK then Some (rollback_savepoints sql e, rc)
            else finish_transaction sql e nid nonce tid list)"

definition add_local_txn_status :: "'db engine \<Rightarrow> int \<Rightarrow> string \<Rightarrow> 'db engine" where
  "add_local_txn_status e nonce status =
     e\<lparr>processed_local_txns := Some ((case processed_local_txns e of None \<Rightarrow> [] | Some l \<Rightarrow> l) @ [(nonce, status)])\<rparr>"

text \<open>\<^verbatim>\<open>binn_list_add_int64\<close> on the list of ids; it does nothing on a null list.\<close>

definition add_txn_id :: "'db engine \<Rightarrow> u64 \<Rightarrow> 'db engine" where
  "add_txn_id e tid = e\<lparr>txn_ids := map_option (\<lambda>l. l @ [tid]) (txn_ids e)\<rparr>"

definition aergolite_execute_transaction ::
  "'db sqlite \<Rightarrow> 'db engine \<Rightarrow> int \<Rightarrow> int \<Rightarrow> binn list \<Rightarrow> ('db engine \<times> rc) option" where
  "aergolite_execute_transaction sql e nid nonce list =
     (let tid = build_transaction_id nid nonce in
      case execute_transaction sql e nid nonce tid list of
        None \<Rightarrow> None
      | Some (e, rc) \<Rightarrow>
          if rc = SQLITE_BUSY \<or> rc = SQLITE_PERM then Some (e, rc)
          else
            let e = (if rc = SQLITE_OK then add_txn_id e tid
                     else let e = add_txn_id e (tid OR FAILED_TXN);
                              e = e\<lparr>active := (active e)\<lparr>ab_txn_count := ab_txn_count (active e) + 1\<rparr>\<rparr>
                          in fst (update_node_last_nonce sql e nid nonce));
                e = (if nid = this_id (node e)
                     then add_local_txn_status e nonce (if rc = SQLITE_OK then ''included'' else ''rejected'')
                     else e)
            in Some (e\<lparr>node := update_auth_last_nonce (node e) nid nonce\<rparr>, rc))"

subsection \<open>Begin and rollback\<close>

definition aergolite_prepare_db :: "'db sqlite \<Rightarrow> 'db engine \<Rightarrow> 'db engine \<times> rc" where
  "aergolite_prepare_db sql e =
     (let (db, rc) = sql_exec sql (content (worker_db e)) (- 1) ''CREATE TABLE IF NOT EXISTS aergolite_nodes (node_id INTEGER PRIMARY KEY, pubkey BLOB, authorization BLOB, since_block INTEGER, type TEXT, last_nonce INTEGER)''; e = set_worker e db in
      if rc \<noteq> SQLITE_OK then (e, rc)
      else let (db, rc) = sql_exec sql (content (worker_db e)) (- 1) ''CREATE TABLE IF NOT EXISTS aergolite_config (key TEXT PRIMARY KEY, value) WITHOUT ROWID''; e = set_worker e db in
      if rc \<noteq> SQLITE_OK then (e, rc)
      else let (db, rc) = sql_exec sql (content (worker_db e)) (- 1) ''CREATE TABLE IF NOT EXISTS aergolite_stored_procedures (name TEXT PRIMARY KEY, is_function BOOL NOT NULL, code TEXT NOT NULL)'' in
      (set_worker e db, rc))"

definition cleanup_block :: "'db engine \<Rightarrow> 'db engine" where
  "cleanup_block e = e\<lparr>mod_pages := None, txn_ids := None, processed_local_txns := None, active := no_block\<rparr>"

definition aergolite_rollback_block :: "'db engine \<Rightarrow> 'db engine" where
  "aergolite_rollback_block e =
     (let e = (if ab_height (active e) > 0
               then e\<lparr>worker_db := sql_rollback (worker_db e), state_db := sql_rollback (state_db e)\<rparr> else e);
          e = cleanup_block e;
          e = fst (load_pages_hash_list e)
      in e\<lparr>node := reload_auth_nonces (node e)\<rparr>)"

definition aergolite_begin_block :: "'db sqlite \<Rightarrow> 'db engine \<Rightarrow> 'db engine \<times> rc" where
  "aergolite_begin_block sql e =
     (let e = e\<lparr>nodes_changed := False, config_changed := False\<rparr>;
          (w, rc) = sql_begin (worker_says sql e ''BEGIN IMMEDIATE'') (worker_db e); e = e\<lparr>worker_db := w\<rparr> in
      if rc \<noteq> SQLITE_OK then (e, SQLITE_BUSY)
      else let (s, rc) = sql_begin (state_says sql e ''BEGIN'') (state_db e); e = e\<lparr>state_db := s\<rparr> in
      if rc \<noteq> SQLITE_OK then (e\<lparr>worker_db := sql_rollback (worker_db e)\<rparr>, SQLITE_BUSY)
      else
        let e = e\<lparr>active := no_block\<lparr>ab_height := block_height e + 1, ab_prev_hash := block_id e\<rparr>\<rparr>;
            (e, rc) = (if ab_height (active e) = 1 then aergolite_prepare_db sql e else (e, SQLITE_OK)) in
        if rc \<noteq> SQLITE_OK then (aergolite_rollback_block e, rc)
        else (e\<lparr>mod_pages := Some [], txn_ids := Some [], node := save_auth_nonces (node e)\<rparr>, SQLITE_OK))"

subsection \<open>Creating a block\<close>

text \<open>The two identifiers that \<^verbatim>\<open>aergolite_commit_block\<close> compares.\<close>

definition identify_block :: "'db sqlite \<Rightarrow> 'db engine \<Rightarrow> header \<Rightarrow> block_body \<Rightarrow> 'db engine \<times> u32 \<times> u32" where
  "identify_block sql e hdr body =
     (let (c, header_id) = crc32 (crc e) (Some (header_binn sql hdr));
          (c, body_id) = crc32 c (Some (body_binn sql body))
      in (e\<lparr>crc := c\<rparr>, header_id, body_id))"

definition aergolite_create_block ::
  "'db sqlite \<Rightarrow> 'db engine \<Rightarrow> ('db engine \<times> (rc + int \<times> header \<times> block_body \<times> bytes)) option" where
  "aergolite_create_block sql e =
     (case (mod_pages e, txn_ids e) of
        (Some _, Some ids) \<Rightarrow>
          if ids = [] then Some (aergolite_rollback_block e, Inl SQLITE_EMPTY)
          else
            let height = ab_height (active e); (e, rc) = collect_modified_pages sql e in
            if rc \<noteq> SQLITE_OK then Some (aergolite_rollback_block e, Inl rc)
            else
              let body = \<lparr>body_mod_pages = serialize_modified_pages e height, body_txn_ids = ids\<rparr> in
              (case calc_new_state_hash e of Inl _ \<Rightarrow> None
               | Inr state_hash \<Rightarrow>
                  (case build_block_header (lib sql) (node e) (clock sql) height (ab_prev_hash (active e))
                          (calc_txns_hash ids) state_hash of
                     Inl rc \<Rightarrow> Some (aergolite_rollback_block e, Inl rc)
                   | Inr hdr \<Rightarrow>
                      (case header_sig hdr of None \<Rightarrow> None
                       | Some sg \<Rightarrow>
                          (let (e, header_id, body_id) = identify_block sql e hdr body;
                               bid = take 32 sg in
                           Some (e\<lparr>active := (active e)\<lparr>ab_header_id := header_id, ab_body_id := body_id,
                                    ab_verify_ok := True, ab_id := bid\<rparr>\<rparr>,
                                 Inr (height, hdr, body, bid))))))
      | _ \<Rightarrow> Some (e, Inl SQLITE_MISUSE))"

subsection \<open>Verifying a block\<close>

definition aergolite_verify_block_header ::
  "'db sqlite \<Rightarrow> 'db engine \<Rightarrow> header \<Rightarrow> block_body \<Rightarrow> (rc + int \<times> int \<times> bytes) option" where
  "aergolite_verify_block_header sql e hdr body =
     (case read_block_header (lib sql) (node e) hdr of
        None \<Rightarrow> None
      | Some (_, Inl rc) \<Rightarrow> Some (Inl rc)
      | Some (None, Inr f) \<Rightarrow> None
      | Some (Some bid, Inr f) \<Rightarrow>
          if calc_txns_hash (body_txn_ids body) \<noteq> hf_txns_hash f then Some (Inl SQLITE_INVALID)
          else Some (Inr (hf_node_id f, hf_block_height f, bid)))"

definition aergolite_verify_block ::
  "'db sqlite \<Rightarrow> 'db engine \<Rightarrow> header \<Rightarrow> block_body \<Rightarrow> ('db engine \<times> (rc + bytes)) option" where
  "aergolite_verify_block sql e hdr body =
     (if mod_pages e = None \<or> txn_ids e = None then Some (e, Inl SQLITE_MISUSE)
      else case read_block_header (lib sql) (node e) hdr of
        None \<Rightarrow> None
      | Some (blk, res) \<Rightarrow>
          (let e = (case blk of None \<Rightarrow> e | Some i \<Rightarrow> e\<lparr>active := (active e)\<lparr>ab_id := i\<rparr>\<rparr>) in
           case res of Inl rc \<Rightarrow> Some (e, Inl rc)
           | Inr f \<Rightarrow>
              if hf_block_height f \<noteq> block_height e + 1 then Some (e, Inl SQLITE_INVALID)
              else if hf_prev_hash f \<noteq> block_id e then Some (e, Inl SQLITE_INVALID)
              else
                let (e, rc) = collect_modified_pages sql e in
                if rc \<noteq> SQLITE_OK then Some (aergolite_rollback_block e, Inl rc)
                else let rc = compare_modified_pages e (body_mod_pages body) in
                if rc \<noteq> SQLITE_OK then Some (aergolite_rollback_block e, Inl rc)
                else
                  (case calc_new_state_hash e of Inl rc \<Rightarrow> Some (aergolite_rollback_block e, Inl rc)
                   | Inr hash \<Rightarrow>
                      if hash \<noteq> hf_state_hash f then Some (aergolite_rollback_block e, Inl SQLITE_INVALID)
                      else
                        let (e, header_id, body_id) = identify_block sql e hdr body in
                        Some (e\<lparr>active := (active e)\<lparr>ab_header_id := header_id, ab_body_id := body_id,
                                 ab_verify_ok := True\<rparr>\<rparr>, Inr (ab_id (active e))))))"

subsection \<open>Committing a block\<close>

text \<open>\<^verbatim>\<open>INSERT INTO blocks\<close>: the height is the primary key.\<close>

definition save_block :: "'db sqlite \<Rightarrow> 'db engine \<Rightarrow> block_row \<Rightarrow> 'db engine \<times> rc" where
  "save_block sql e row =
     (let t = content (state_db e); rc = state_says sql e ''INSERT INTO blocks'' in
      if row_height row \<in> row_height ` set (block_rows t) then (e, SQLITE_ERROR)
      else if rc \<noteq> SQLITE_OK then (e, rc)
      else (e\<lparr>state_db := (state_db e)\<lparr>content := t\<lparr>block_rows := block_rows t @ [row]\<rparr>\<rparr>\<rparr>, SQLITE_OK))"

definition get_last_processed_nonce :: "'db engine \<Rightarrow> int" where
  "get_last_processed_nonce e =
     (case aergolite_get_authorization (node e) (this_id (node e)) of Inl _ \<Rightarrow> 0 | Inr auth \<Rightarrow> last_nonce auth)"

definition update_authorizations :: "'db sqlite \<Rightarrow> 'db engine \<Rightarrow> 'db engine" where
  "update_authorizations sql e =
     e\<lparr>node := foldl (\<lambda>n (nid, key, auth, first_block, type, nonce).
                        update_auth_first_block (update_auth_type n nid type) nid first_block)
                (node e) (nodes_table sql (content (worker_db e)))\<rparr>"

definition fire_transaction_notifications :: "'db engine \<Rightarrow> 'db engine" where
  "fire_transaction_notifications e =
     (case processed_local_txns e of None \<Rightarrow> e | Some l \<Rightarrow> e\<lparr>fired := fired e @ l\<rparr>)"

text \<open>Both connections are committed, the worker first.\<close>

definition commit_both :: "'db sqlite \<Rightarrow> 'db engine \<Rightarrow> 'db engine \<times> rc" where
  "commit_both sql e =
     (let (w, rc) = sql_commit (worker_says sql e ''COMMIT'') (worker_db e); e = e\<lparr>worker_db := w\<rparr> in
      if rc \<noteq> SQLITE_OK then (e, rc)
      else let (s, rc) = sql_commit (state_says sql e ''COMMIT'') (state_db e) in (e\<lparr>state_db := s\<rparr>, rc))"

text \<open>The application of the block: the pages, their hashes, the row of the block.\<close>

definition store_block :: "'db sqlite \<Rightarrow> 'db engine \<Rightarrow> header \<Rightarrow> block_body \<Rightarrow> vote_item list \<Rightarrow> 'db engine \<times> rc" where
  "store_block sql e hdr body votes =
     (let (e, rc) = save_modified_pages sql e (body_mod_pages body) in
      if rc \<noteq> SQLITE_OK then (e, SQLITE_BUSY)
      else let (e, rc) = update_pages_hash_list e in
      if rc \<noteq> SQLITE_OK then (e, rc)
      else let (e, rc) = save_block sql e \<lparr>row_height = ab_height (active e), row_header = hdr,
                               row_body = Some body, row_votes = votes\<rparr> in
      if rc \<noteq> SQLITE_OK then (e, rc)
      else commit_both sql e)"

definition aergolite_commit_block ::
  "'db sqlite \<Rightarrow> 'db engine \<Rightarrow> header \<Rightarrow> block_body \<Rightarrow> vote_item list \<Rightarrow> 'db engine \<times> rc" where
  "aergolite_commit_block sql e hdr body votes =
     (if mod_pages e = None \<or> txn_ids e = None then (e, SQLITE_MISUSE)
      else if ab_height (active e) \<le> 0 then (e, SQLITE_MISUSE)
      else if \<not> ab_verify_ok (active e) then (e, SQLITE_MISUSE)
      else let (e, header_id, body_id) = identify_block sql e hdr body in
      if header_id \<noteq> ab_header_id (active e) then (e, SQLITE_MISUSE)
      else if body_id \<noteq> ab_body_id (active e) then (e, SQLITE_MISUSE)
      else let rc = compare_modified_pages e (body_mod_pages body) in
      if rc \<noteq> SQLITE_OK then (aergolite_rollback_block e, rc)
      else let (e, rc) = store_block sql e hdr body votes in
      if rc \<noteq> SQLITE_OK then (aergolite_rollback_block e, rc)
      else
        let e = e\<lparr>block_height := ab_height (active e), block_id := ab_id (active e)\<rparr>;
            e = e\<lparr>node := (node e)\<lparr>last_processed_nonce := get_last_processed_nonce e\<rparr>, wal_consensus_empty := False\<rparr>;
            e = cleanup_block e;
            e = (if nodes_changed e then update_authorizations sql e else e);
            e = fire_transaction_notifications e
        in (e, SQLITE_OK))"

definition aergolite_apply_block ::
  "'db sqlite \<Rightarrow> 'db engine \<Rightarrow> header \<Rightarrow> block_body \<Rightarrow> vote_item list \<Rightarrow> ('db engine \<times> rc) option" where
  "aergolite_apply_block sql e hdr body votes =
     (case aergolite_verify_block sql e hdr body of
        None \<Rightarrow> None
      | Some (e, Inl rc) \<Rightarrow> Some (e, rc)
      | Some (e, Inr _) \<Rightarrow> Some (aergolite_commit_block sql e hdr body votes))"

subsection \<open>Blocks of the past and the state at start\<close>

definition aergolite_save_block ::
  "'db sqlite \<Rightarrow> 'db engine \<Rightarrow> header \<Rightarrow> block_body \<Rightarrow> vote_item list \<Rightarrow> ('db engine \<times> rc) option" where
  "aergolite_save_block sql e hdr body votes =
     (let (s, rc) = sql_begin (state_says sql e ''BEGIN'') (state_db e); e = e\<lparr>state_db := s\<rparr> in
      if rc \<noteq> SQLITE_OK then Some (e, SQLITE_BUSY)
      else
        let failed = (\<lambda>e rc. Some (e\<lparr>state_db := sql_rollback (state_db e)\<rparr>, rc)) in
        case aergolite_verify_block_header sql e hdr body of
          None \<Rightarrow> None
        | Some (Inl rc) \<Rightarrow> failed e rc
        | Some (Inr (nid, height, bid)) \<Rightarrow>
            (let rc = verify_block_votes (lib sql) (node e) height bid votes False in
             if rc \<noteq> SQLITE_OK then failed e rc
             else let (e, rc) = save_block sql e \<lparr>row_height = height, row_header = hdr, row_body = Some body,
                                                 row_votes = votes\<rparr> in
             if rc \<noteq> SQLITE_OK then failed e rc
             else let (s, rc) = sql_commit (state_says sql e ''COMMIT'') (state_db e); e = e\<lparr>state_db := s\<rparr> in
             if rc \<noteq> SQLITE_OK then failed e rc else Some (e, SQLITE_OK)))"

text \<open>\<^verbatim>\<open>load_block\<close>: the row with the greatest height, or with the given one. The height goes through
  \<^verbatim>\<open>sqlite3_column_int\<close>, 32 bits.\<close>

definition column_int :: "int \<Rightarrow> int" where
  "column_int h = sint (word_of_int h :: 32 word)"

definition load_last_block :: "'db engine \<Rightarrow> block_row option" where
  "load_last_block e =
     List.find (\<lambda>r. \<forall>r'\<in>set (block_rows (content (state_db e))). row_height r' \<le> row_height r)
       (block_rows (content (state_db e)))"

text \<open>\<^verbatim>\<open>db_query\<close> answers \<^verbatim>\<open>SQLITE_OK\<close> when there is no row: the pointers are then null, \<^term>\<open>None\<close> here. The
  heights \<^verbatim>\<open>LOAD_BLOCK_LAST\<close> and \<^verbatim>\<open>LOAD_BLOCK_ALL\<close> both end with the last row.\<close>

definition aergolite_get_block :: "'db engine \<Rightarrow> int \<Rightarrow> rc + block_row option" where
  "aergolite_get_block e height =
     (if height = - 1 \<or> height = - 2 then Inr (load_last_block e)
      else if height < 0 then Inl SQLITE_MISUSE
      else if height = 0 then Inr None
      else Inr (List.find (\<lambda>r. row_height r = height) (block_rows (content (state_db e)))))"

definition aergolite_get_transaction :: "'db engine \<Rightarrow> u64 \<Rightarrow> rc + txn_row option" where
  "aergolite_get_transaction e tid =
     (if sint tid \<le> 0 then Inl SQLITE_MISUSE
      else Inr (List.find (\<lambda>t. txn_tid t = tid) (txn_rows (content (state_db e)))))"

fun new_authorizations :: "'db sqlite \<Rightarrow> binn list list \<Rightarrow> 'db engine \<Rightarrow> ('db engine \<times> rc) option" where
  "new_authorizations sql [] e = Some (e, SQLITE_OK)"
| "new_authorizations sql (log # logs) e =
     (if is_special_transaction log then
        (case aergolite_new_authorization (crc e) (lib sql) (node e) log of
           None \<Rightarrow> None
         | Some (n, rc) \<Rightarrow>
             if rc = SQLITE_OK \<or> rc = SQLITE_EXISTS then new_authorizations sql logs (e\<lparr>node := n\<rparr>)
             else Some (e\<lparr>node := n\<rparr>, rc))
      else new_authorizations sql logs e)"

fun load_node_rows :: "'db sqlite \<Rightarrow> node_row list \<Rightarrow> 'db engine \<Rightarrow> 'db engine option" where
  "load_node_rows sql [] e = Some e"
| "load_node_rows sql ((nid, key, auth, first_block, type, nonce) # rows) e =
     (case aergolite_new_authorization (crc e) (lib sql) (node e) auth of
        None \<Rightarrow> None
      | Some (n, rc) \<Rightarrow>
          (let n = (if rc = SQLITE_OK \<or> rc = SQLITE_EXISTS
                    then update_auth_last_nonce (update_auth_type (update_auth_first_block n nid first_block) nid type) nid nonce
                    else n)
           in load_node_rows sql rows (e\<lparr>node := n\<rparr>)))"

definition reload_authorizations :: "'db sqlite \<Rightarrow> 'db engine \<Rightarrow> 'db engine option" where
  "reload_authorizations sql e = load_node_rows sql (nodes_table sql (content (worker_db e))) e"

text \<open>The authorizations of the local log first: an error there ends the load.\<close>

definition load_authorizations :: "'db sqlite \<Rightarrow> 'db engine \<Rightarrow> 'db engine option" where
  "load_authorizations sql e =
     (case new_authorizations sql (local_log sql) e of None \<Rightarrow> None
      | Some (e, rc) \<Rightarrow>
          if rc \<noteq> SQLITE_OK \<and> rc \<noteq> SQLITE_EMPTY then Some e else reload_authorizations sql e)"

definition aergolite_load_current_state ::
  "'db sqlite \<Rightarrow> 'db engine \<Rightarrow> ('db engine \<times> (rc + int \<times> block_row)) option" where
  "aergolite_load_current_state sql e =
     (let (e', rc) = load_pages_hash_list e; e = e' in
      if rc \<noteq> SQLITE_OK then Some (e, Inl rc)
      else case load_last_block e of None \<Rightarrow> Some (e, Inl SQLITE_EMPTY)
      | Some row \<Rightarrow>
        if column_int (row_height row) = 0 then Some (e, Inl SQLITE_EMPTY)
        else
          let hash = calc_state_hash e in
          (case read_block_header (lib sql) (node e) (row_header row) of
             None \<Rightarrow> None
           | Some (_, Inl rc) \<Rightarrow> Some (e, Inl rc)
           | Some (None, Inr f) \<Rightarrow> None
           | Some (Some bid, Inr f) \<Rightarrow>
               if hash \<noteq> hf_state_hash f then Some (e, Inl SQLITE_INVALID)
               else (case load_authorizations sql e of
                   None \<Rightarrow> None
                 | Some e \<Rightarrow>
                     (let rc = verify_block_votes (lib sql) (node e) (column_int (row_height row)) bid (row_votes row) False in
                      if rc \<noteq> SQLITE_OK then Some (e, Inl rc)
                      else Some (e\<lparr>block_height := hf_block_height f, block_id := bid\<rparr>, Inr (hf_block_height f, row))))))"

text \<open>\<^verbatim>\<open>aergolite_verify_history\<close>: the rows from the last to the first, with the height and previous hash
  of the block above. A row without votes has fewer bytes than the code wants.\<close>

fun verify_rows :: "'db sqlite \<Rightarrow> aergolite \<Rightarrow> block_row list \<Rightarrow> int \<Rightarrow> bytes \<Rightarrow> rc option" where
  "verify_rows sql n [] last_height prev_hash = Some SQLITE_OK"
| "verify_rows sql n (row # rows) last_height prev_hash =
     (if row_votes row = [] then Some SQLITE_INVALID
      else case read_block_header (lib sql) n (row_header row) of
        None \<Rightarrow> None
      | Some (_, Inl rc) \<Rightarrow> Some SQLITE_INVALID
      | Some (None, Inr f) \<Rightarrow> None
      | Some (Some bid, Inr f) \<Rightarrow>
          if row_height row \<noteq> hf_block_height f \<or> row_height row \<le> 0 then Some SQLITE_INVALID
          else if last_height > 0 \<and> row_height row \<noteq> last_height - 1 then Some SQLITE_NOTFOUND
          else if last_height > 0 \<and> bid \<noteq> prev_hash then Some SQLITE_INVALID
          else
            let rc = verify_block_votes (lib sql) n (hf_block_height f) bid (row_votes row) False in
            if rc \<noteq> SQLITE_OK then Some rc
            else verify_rows sql n rows (row_height row) (hf_prev_hash f))"

definition aergolite_verify_history :: "'db sqlite \<Rightarrow> 'db engine \<Rightarrow> rc option" where
  "aergolite_verify_history sql e =
     verify_rows sql (node e) (rev (sort_key row_height (block_rows (content (state_db e))))) 0 (replicate 32 0)"

subsection \<open>Receiving the state of another node\<close>

definition rollback_both :: "'db engine \<Rightarrow> 'db engine" where
  "rollback_both e = e\<lparr>worker_db := sql_rollback (worker_db e), state_db := sql_rollback (state_db e)\<rparr>"

definition aergolite_cancel_state_update :: "'db engine \<Rightarrow> 'db engine" where
  "aergolite_cancel_state_update e = rollback_both (e\<lparr>mod_pages := None\<rparr>)"

definition aergolite_begin_state_update :: "'db sqlite \<Rightarrow> 'db engine \<Rightarrow> 'db engine \<times> rc" where
  "aergolite_begin_state_update sql e =
     (let e = e\<lparr>mod_pages := Some []\<rparr>;
          (w, rc) = sql_begin (worker_says sql e ''BEGIN EXCLUSIVE'') (worker_db e); e = e\<lparr>worker_db := w\<rparr> in
      if rc \<noteq> SQLITE_OK then (aergolite_cancel_state_update e, rc)
      else let (s, rc) = sql_begin (state_says sql e ''BEGIN IMMEDIATE'') (state_db e); e = e\<lparr>state_db := s\<rparr> in
      if rc \<noteq> SQLITE_OK then (aergolite_cancel_state_update e, rc) else (e, SQLITE_OK))"

text \<open>\<^verbatim>\<open>write_page_data\<close> copies the bytes over the buffer of the page, whatever their number: \<^term>\<open>None\<close> is the
  write behind the end of the buffer.\<close>

definition write_page_data :: "'db sqlite \<Rightarrow> 'db \<Rightarrow> u32 \<Rightarrow> bytes \<Rightarrow> ('db \<times> rc) option" where
  "write_page_data sql db pgno data =
     (let rc = pager_write sql db pgno in
      if rc \<noteq> SQLITE_OK then Some (db, rc)
      else if length data > page_size sql then None
      else Some (put_page sql db pgno data, SQLITE_OK))"

definition aergolite_update_db_page :: "'db sqlite \<Rightarrow> 'db engine \<Rightarrow> u32 \<Rightarrow> bytes \<Rightarrow> ('db engine \<times> rc) option" where
  "aergolite_update_db_page sql e pgno data =
     (case write_page_data sql (content (worker_db e)) pgno data of None \<Rightarrow> None
      | Some (db, rc) \<Rightarrow> Some (set_worker e db, rc))"

text \<open>Reading the state for another node; the caller's buffer has \<open>buflen\<close> bytes.\<close>

definition aergolite_begin_state_read :: "'db sqlite \<Rightarrow> 'db engine \<Rightarrow> 'db engine \<times> rc" where
  "aergolite_begin_state_read sql e =
     (let (w, rc) = sql_begin (worker_says sql e ''BEGIN'') (worker_db e) in (e\<lparr>worker_db := w\<rparr>, rc))"

definition aergolite_end_state_read :: "'db engine \<Rightarrow> 'db engine" where
  "aergolite_end_state_read e = e\<lparr>worker_db := sql_rollback (worker_db e)\<rparr>"

definition aergolite_get_db_page :: "'db sqlite \<Rightarrow> 'db engine \<Rightarrow> u32 \<Rightarrow> nat \<Rightarrow> (rc + bytes) option" where
  "aergolite_get_db_page sql e pgno buflen =
     (case get_page sql (content (worker_db e)) pgno of
        Inl rc \<Rightarrow> Some (Inl rc)
      | Inr data \<Rightarrow> if page_size sql > buflen then None else Some (Inr data))"

text \<open>The checks on the pages, the state and the votes, and what is written when they pass.\<close>

definition check_state_update ::
  "'db sqlite \<Rightarrow> 'db engine \<Rightarrow> header_fields \<Rightarrow> bytes \<Rightarrow> vote_item list \<Rightarrow> page_row list \<Rightarrow> 'db engine \<times> rc" where
  "check_state_update sql e f bid votes list =
     (let (e, rc) = collect_modified_pages sql e in
      if rc \<noteq> SQLITE_OK then (e, rc)
      else let rc = compare_modified_pages e list in
      if rc \<noteq> SQLITE_OK then (e, rc)
      else case calc_new_state_hash e of Inl rc \<Rightarrow> (e, rc)
      | Inr hash \<Rightarrow>
          if hash \<noteq> hf_state_hash f then (e, SQLITE_INVALID)
          else (e, verify_block_votes (lib sql) (node e) (hf_block_height f) bid votes True))"

definition write_state_update ::
  "'db sqlite \<Rightarrow> 'db engine \<Rightarrow> header_fields \<Rightarrow> header \<Rightarrow> vote_item list \<Rightarrow> page_row list \<Rightarrow> 'db engine \<times> rc" where
  "write_state_update sql e f hdr votes list =
     (let (e, rc) = save_modified_pages sql e list in
      if rc \<noteq> SQLITE_OK then (e, rc)
      else let (e, rc) = update_pages_hash_list e in
      if rc \<noteq> SQLITE_OK then (e, rc)
      else let (e, rc) = save_block sql e \<lparr>row_height = hf_block_height f, row_header = hdr, row_body = None,
                                           row_votes = votes\<rparr> in
      if rc \<noteq> SQLITE_OK then (e, rc) else commit_both sql e)"

definition state_update_failed :: "'db sqlite \<Rightarrow> 'db engine \<Rightarrow> rc \<Rightarrow> ('db engine \<times> rc) option" where
  "state_update_failed sql e rc =
     (case aergolite_load_current_state sql (rollback_both e) of
        None \<Rightarrow> None
      | Some (e, _) \<Rightarrow> Some (e\<lparr>mod_pages := None\<rparr>, rc))"

definition aergolite_apply_state_update ::
  "'db sqlite \<Rightarrow> 'db engine \<Rightarrow> header \<Rightarrow> vote_item list \<Rightarrow> page_row list \<Rightarrow> ('db engine \<times> rc) option" where
  "aergolite_apply_state_update sql e hdr votes list =
     (if mod_pages e = None then Some (e, SQLITE_MISUSE)
      else case read_block_header (lib sql) (node e) hdr of
        None \<Rightarrow> None
      | Some (_, Inl rc) \<Rightarrow> state_update_failed sql e rc
      | Some (None, Inr f) \<Rightarrow> None
      | Some (Some bid, Inr f) \<Rightarrow>
          (let (e, rc) = check_state_update sql e f bid votes list in
           if rc \<noteq> SQLITE_OK then state_update_failed sql e rc
           else let (e, rc) = write_state_update sql e f hdr votes list in
           if rc \<noteq> SQLITE_OK then state_update_failed sql e rc
           else
             case reload_authorizations sql (e\<lparr>block_height := hf_block_height f, block_id := bid\<rparr>) of
               None \<Rightarrow> None
             | Some e \<Rightarrow>
                 Some (e\<lparr>node := (node e)\<lparr>last_processed_nonce := get_last_processed_nonce e\<rparr>,
                         wal_consensus_empty := False, mod_pages := None\<rparr>, SQLITE_OK)))"

subsection \<open>Local transactions\<close>

text \<open>\<open>local_log\<close> holds the transactions of the local write-ahead log in the order of their frames, which are
  numbered from one; the search starts at the frame of the last one that was sent.\<close>

definition aergolite_get_local_transaction ::
  "'db sqlite \<Rightarrow> 'db engine \<Rightarrow> int \<Rightarrow> 'db engine \<times> (rc + int \<times> binn list)" where
  "aergolite_get_local_transaction sql e nonce =
     (if max_active_nonce (node e) = 0 then (e, Inl SQLITE_EMPTY)
      else
        let nonce = (if nonce \<le> last_processed_nonce (node e) then last_processed_nonce (node e) + 1 else nonce);
            frame = (if nonce < last_sent_nonce e then 0 else last_sent_frame e) in
        case List.find (\<lambda>(i, log). frame \<le> i \<and> (nonce = 0 \<or> get_transaction_nonce log = nonce))
               (List.enumerate 1 (local_log sql)) of
          Some (i, log) \<Rightarrow>
            (e\<lparr>last_sent_nonce := get_transaction_nonce log, last_sent_frame := i\<rparr>,
             Inr (get_transaction_nonce log, log))
        | None \<Rightarrow> (e, Inl (if nonce = 0 \<or> local_log sql = [] then SQLITE_EMPTY else SQLITE_NOTFOUND)))"

end
