(* ===== verification/Block_Facts.thy ===== *)
theory Block_Facts
  imports Block_Core
begin

section \<open>Facts on blocks: rollback, commit, agreement\<close>

text \<open>
  What the functions of \<open>Block_Core\<close> guarantee: a rolled back block leaves no trace, a committed block
  extends the chain and brings the database to the state its header names, a node verifies the block
  that another node in the same state created, and the array of page hashes is the one a restart
  reads back from the state database.
\<close>

subsection \<open>What the execution of transactions leaves alone\<close>

lemma begun_simps [simp]:
  "begun (fst (sql_savepoint a c)) = begun c"
  "begun (fst (sql_rollback_to a c)) = begun c"
  "begun (fst (sql_release a c)) = begun c"
  by (simp_all add: sql_savepoint_def sql_rollback_to_def sql_release_def split: option.split)

definition same_auths :: "aergolite \<Rightarrow> aergolite \<Rightarrow> bool" where
  "same_auths n n' \<longleftrightarrow> n'\<lparr>authorizations := []\<rparr> = n\<lparr>authorizations := []\<rparr>
     \<and> map (\<lambda>a. a\<lparr>last_nonce := 0\<rparr>) (authorizations n') = map (\<lambda>a. a\<lparr>last_nonce := 0\<rparr>) (authorizations n)"

definition frame :: "'db engine \<Rightarrow> 'db engine \<Rightarrow> bool" where
  "frame e e' \<longleftrightarrow> begun (worker_db e') = begun (worker_db e) \<and> begun (state_db e') = begun (state_db e)
     \<and> ab_height (active e') = ab_height (active e) \<and> ab_prev_hash (active e') = ab_prev_hash (active e)
     \<and> block_height e' = block_height e \<and> block_id e' = block_id e \<and> pages_hashes e' = pages_hashes e
     \<and> mod_pages e' = mod_pages e \<and> fired e' = fired e \<and> crc e' = crc e
     \<and> (txn_ids e' = None \<longleftrightarrow> txn_ids e = None) \<and> same_auths (node e) (node e')"

lemma same_auths_refl [simp]: "same_auths n n"
  by (simp add: same_auths_def)

lemma same_auths_trans: "same_auths a b \<Longrightarrow> same_auths b c \<Longrightarrow> same_auths a c"
  by (simp add: same_auths_def)

lemma frame_refl [simp]: "frame e e"
  by (simp add: frame_def)

lemma frame_trans [trans]: "frame a b \<Longrightarrow> frame b c \<Longrightarrow> frame a c"
  by (auto simp: frame_def intro: same_auths_trans)

lemma same_auths_nonce: "same_auths n (update_auth_last_nonce n nid nonce)"
proof -
  have "map (\<lambda>a. a\<lparr>last_nonce := 0\<rparr>) (update_first nid (\<lambda>a. a\<lparr>last_nonce := nonce\<rparr>) l)
      = map (\<lambda>a. a\<lparr>last_nonce := 0\<rparr>) l" for l
    by (induction l) auto
  then show ?thesis by (simp add: same_auths_def update_auth_last_nonce_def)
qed

lemma frame_dbs:
  "begun w = begun (worker_db e) \<Longrightarrow> begun s = begun (state_db e) \<Longrightarrow>
     frame e (e\<lparr>worker_db := w, state_db := s\<rparr>)"
  "begun w = begun (worker_db e) \<Longrightarrow> frame e (e\<lparr>worker_db := w\<rparr>)"
  "begun s = begun (state_db e) \<Longrightarrow> frame e (e\<lparr>state_db := s\<rparr>)"
  by (simp_all add: frame_def)

lemma frame_fields [simp]:
  "frame e (e'\<lparr>nodes_changed := b\<rparr>) = frame e e'" "frame e (e'\<lparr>config_changed := b\<rparr>) = frame e e'"
  "frame e (e'\<lparr>processed_local_txns := p\<rparr>) = frame e e'"
  "frame e (e'\<lparr>active := (active e')\<lparr>ab_txn_count := c\<rparr>\<rparr>) = frame e e'"
  "frame e (set_worker e' db) = frame e e'"
  by (simp_all add: frame_def)

lemma frame_node [simp]: "frame e e' \<Longrightarrow> frame e (e'\<lparr>node := update_auth_last_nonce (node e') nid nonce\<rparr>)"
  by (auto simp: frame_def intro: same_auths_trans same_auths_nonce)

lemma frame_add_txn_id [simp]: "frame e (add_txn_id e' tid) = frame e e'"
  by (simp add: frame_def add_txn_id_def)

lemma frame_status [simp]: "frame e (add_local_txn_status e' nonce s) = frame e e'"
  by (simp add: add_local_txn_status_def)

lemma frame_rollback_savepoints: "frame e (rollback_savepoints sql e)"
  by (simp add: rollback_savepoints_def Let_def case_prod_beta frame_def)

lemma frame_nonce: "frame e (fst (update_node_last_nonce sql e nid nonce))"
  by (simp add: update_node_last_nonce_def Let_def split: prod.split)

lemma frame_type: "frame e (fst (update_node_type sql e nid type))"
  by (simp add: update_node_type_def Let_def frame_def split: prod.split)

lemma frame_types: "frame e (fst (update_node_types sql nids type e))"
proof (induction nids arbitrary: e)
  case Nil
  then show ?case by simp
next
  case (Cons nid nids)
  show ?case using frame_type [of e sql nid type] Cons.IH
    by (auto simp: Let_def split: prod.split intro: frame_trans)
qed

lemma frame_insert: "frame e (fst (aergolite_insert_allowed_node sql e nid key auth type nonce))"
  by (simp add: aergolite_insert_allowed_node_def Let_def frame_def split: prod.split)

lemmas frame_nonceD = frame_nonce [of e sql nid nonce for e sql nid nonce, THEN frame_trans]

lemma frame_pairs:
  "update_node_types sql nids type e = (e', rc) \<Longrightarrow> frame e e'"
  "update_node_last_nonce sql e nid nonce = (e', rc) \<Longrightarrow> frame e e'"
  "aergolite_insert_allowed_node sql e nid key auth type nonce = (e', rc) \<Longrightarrow> frame e e'"
  using frame_types [of e sql nids type] frame_nonce [of e sql nid nonce]
    frame_insert [of e sql nid key auth type nonce] by simp_all

lemma frame_special:
  "execute_special_transaction sql e txn = Some (e', rc) \<Longrightarrow> frame e e'"
  by (auto simp: execute_special_transaction_def Let_def dest: frame_pairs
      split: option.splits binn.splits sum.splits prod.splits if_splits)

lemma frame_save_transaction:
  "save_transaction sql e height seq tid nid nonce log = Some (e', rc) \<Longrightarrow> frame e e'"
  by (auto simp: save_transaction_def Let_def frame_def split: if_splits)

lemma frame_rollback_savepoints': "frame e e' \<Longrightarrow> frame e (rollback_savepoints sql e')"
  by (rule frame_trans [OF _ frame_rollback_savepoints])

lemma frame_close: "frame e (fst (close_transaction sql e nid nonce))"
proof -
  define e2 where "e2 = fst (update_node_last_nonce sql e nid nonce)"
  have 2: "frame e e2" unfolding e2_def by (rule frame_nonce)
  have 3: "frame e (e2\<lparr>worker_db := fst (sql_release a (worker_db e2)), state_db := fst (sql_release b (state_db e2))\<rparr>)" for a b
    by (rule frame_trans [OF 2]) (simp add: frame_dbs)
  show ?thesis unfolding close_transaction_def Let_def case_prod_beta e2_def [symmetric]
    using 2 by (auto simp: 3 frame_rollback_savepoints') (simp add: frame_def)
qed

lemma frame_finish: "finish_transaction sql e nid nonce tid l = Some (e', rc) \<Longrightarrow> frame e e'"
proof -
  assume fin: "finish_transaction sql e nid nonce tid l = Some (e', rc)"
  define r where "r = (if node_is_full (node e)
      then save_transaction sql e (ab_height (active e)) (ab_txn_count (active e) + 1) tid nid nonce l
      else Some (e, SQLITE_OK))"
  obtain e1 rc1 where 1: "r = Some (e1, rc1)"
      "(if rc1 \<noteq> SQLITE_OK then (rollback_savepoints sql e1, SQLITE_BUSY) else close_transaction sql e1 nid nonce) = (e', rc)"
    using fin unfolding finish_transaction_def r_def [symmetric] by (cases r) (auto split: if_splits)
  have "frame e e1" using 1(1) frame_save_transaction unfolding r_def by (auto split: if_splits)
  moreover have "frame e1 e'"
    using 1(2) frame_close [of e1 sql nid nonce] frame_rollback_savepoints [of e1 sql]
    by (cases "rc1 = SQLITE_OK") auto
  ultimately show ?thesis by (rule frame_trans)
qed

lemma frame_execute:
  assumes "execute_transaction sql e nid nonce tid l = Some (e', rc)"
  shows "frame e e'"
proof -
  define e1 where "e1 = e\<lparr>worker_db := fst (sql_savepoint (worker_says sql e ''SAVEPOINT txn'') (worker_db e))\<rparr>"
  define e2 where "e2 = e1\<lparr>state_db := fst (sql_savepoint (state_says sql e1 ''SAVEPOINT txn'') (state_db e1))\<rparr>"
  have 1: "frame e e1" unfolding e1_def by (rule frame_dbs) simp
  have 2: "frame e e2" unfolding e2_def by (rule frame_trans [OF 1 frame_dbs(3)]) simp
  have 3: "frame e (e2\<lparr>worker_db := fst (sql_release a (worker_db e2))\<rparr>)" for a
    by (rule frame_trans [OF 2 frame_dbs(2)]) simp
  define r where "r = (if is_special_transaction l then execute_special_transaction sql e2 l
      else Some (set_worker e2 (fst (exec_commands sql nid (txn_sql_count l) 0 l (content (worker_db e2)))),
                 snd (exec_commands sql nid (txn_sql_count l) 0 l (content (worker_db e2)))))"
  have 4: "frame e e3" if "r = Some (e3, rc3)" for e3 rc3
    using that frame_special [of sql e2 l e3 rc3, THEN frame_trans [OF 2]] 2 unfolding r_def by (auto split: if_splits)
  have "e' = e1 \<or> (\<exists>a. e' = e2\<lparr>worker_db := fst (sql_release a (worker_db e2))\<rparr>)
      \<or> (\<exists>e3 rc3. r = Some (e3, rc3) \<and> (e' = rollback_savepoints sql e3
              \<or> finish_transaction sql e3 nid nonce tid l = Some (e', rc)))"
    using assms unfolding execute_transaction_def Let_def case_prod_beta e1_def [symmetric] e2_def [symmetric]
      r_def [symmetric]
    by (auto split: if_splits option.splits)
  then show ?thesis
    using 1 3 4 frame_rollback_savepoints' frame_trans [OF 4 frame_finish] by blast
qed

lemma frame_aergolite_execute:
  assumes "aergolite_execute_transaction sql e nid nonce l = Some (e', rc)"
  shows "frame e e'"
proof -
  obtain e1 where 1: "execute_transaction sql e nid nonce (build_transaction_id nid nonce) l = Some (e1, rc)"
    using assms unfolding aergolite_execute_transaction_def Let_def by (auto split: option.splits if_splits)
  have f1: "frame e e1" using 1 by (rule frame_execute)
  define e2 where "e2 = (if rc = SQLITE_OK then add_txn_id e1 (build_transaction_id nid nonce)
      else fst (update_node_last_nonce sql ((add_txn_id e1 (build_transaction_id nid nonce OR FAILED_TXN))
                  \<lparr>active := (active (add_txn_id e1 (build_transaction_id nid nonce OR FAILED_TXN)))
                     \<lparr>ab_txn_count := ab_txn_count (active (add_txn_id e1 (build_transaction_id nid nonce OR FAILED_TXN))) + 1\<rparr>\<rparr>)
                nid nonce))"
  have f2: "frame e e2" using f1 unfolding e2_def by (auto intro: frame_trans [OF _ frame_nonce])
  show ?thesis
    using assms f1 f2 unfolding aergolite_execute_transaction_def 1 Let_def
    by (auto simp: e2_def [symmetric] split: if_splits)
qed

subsection \<open>Rolling a block back\<close>

text \<open>The loop of \<^verbatim>\<open>verify_block\<close> and \<^verbatim>\<open>create_new_block\<close>: node id, nonce and items of each transaction.\<close>

fun execute_all :: "'db sqlite \<Rightarrow> (int \<times> int \<times> binn list) list \<Rightarrow> 'db engine \<Rightarrow> 'db engine option" where
  "execute_all sql [] e = Some e"
| "execute_all sql ((nid, nonce, log) # txns) e =
     (case aergolite_execute_transaction sql e nid nonce log of
        None \<Rightarrow> None
      | Some (e, rc) \<Rightarrow> execute_all sql txns e)"

lemma frame_execute_all: "execute_all sql txns e = Some e' \<Longrightarrow> frame e e'"
proof (induction txns arbitrary: e)
  case Nil
  then show ?case by simp
next
  case (Cons t txns)
  obtain nid nonce log where t: "t = (nid, nonce, log)" by (cases t)
  obtain e1 rc where "aergolite_execute_transaction sql e nid nonce log = Some (e1, rc)"
      "execute_all sql txns e1 = Some e'"
    using Cons.prems by (auto simp: t split: option.splits)
  then show ?case using Cons.IH frame_aergolite_execute by (blast intro: frame_trans)
qed

lemma prepare_db_frame:
  "frame e (fst (aergolite_prepare_db sql e))" "node (fst (aergolite_prepare_db sql e)) = node e"
  by (simp_all add: aergolite_prepare_db_def Let_def case_prod_beta)

lemma begin_block_OK:
  assumes "aergolite_begin_block sql e = (e1, SQLITE_OK)"
  shows "begun (worker_db e1) = Some (content (worker_db e)) \<and> begun (state_db e1) = Some (content (state_db e))
     \<and> begun (worker_db e) = None \<and> begun (state_db e) = None
     \<and> ab_height (active e1) = block_height e + 1 \<and> ab_prev_hash (active e1) = block_id e
     \<and> block_height e1 = block_height e \<and> block_id e1 = block_id e \<and> pages_hashes e1 = pages_hashes e
     \<and> mod_pages e1 = Some [] \<and> txn_ids e1 = Some [] \<and> node e1 = save_auth_nonces (node e)"
proof -
  define e0 where "e0 = e\<lparr>nodes_changed := False, config_changed := False\<rparr>"
  define wr where "wr = sql_begin (worker_says sql e0 ''BEGIN IMMEDIATE'') (worker_db e0)"
  define ea where "ea = e0\<lparr>worker_db := fst wr\<rparr>"
  define sr where "sr = sql_begin (state_says sql ea ''BEGIN'') (state_db ea)"
  define eb where "eb = ea\<lparr>state_db := fst sr, active := no_block\<lparr>ab_height := block_height e + 1, ab_prev_hash := block_id e\<rparr>\<rparr>"
  define pr where "pr = (if ab_height (active eb) = 1 then aergolite_prepare_db sql eb else (eb, SQLITE_OK))"
  have eb: "block_height eb = block_height e" "block_id eb = block_id e" "node eb = node e" "pages_hashes eb = pages_hashes e"
    "worker_db eb = fst wr" "state_db eb = fst sr" by (simp_all add: eb_def ea_def e0_def)
  have ok: "snd wr = SQLITE_OK \<and> snd sr = SQLITE_OK \<and> snd pr = SQLITE_OK
      \<and> e1 = (fst pr)\<lparr>mod_pages := Some [], txn_ids := Some [], node := save_auth_nonces (node (fst pr))\<rparr>"
    using assms
    unfolding aergolite_begin_block_def Let_def case_prod_beta e0_def [symmetric] wr_def [symmetric] ea_def [symmetric]
      sr_def [symmetric]
    by (simp add: pr_def eb_def ea_def e0_def split: if_splits)
  have fr: "frame eb (fst pr)" "node (fst pr) = node e"
    unfolding pr_def by (simp_all add: prepare_db_frame eb)
  have w: "begun (worker_db e) = None" "begun (fst wr) = Some (content (worker_db e))"
    using ok unfolding wr_def sql_begin_def e0_def by (auto split: if_splits)
  have st: "begun (state_db e) = None" "begun (fst sr) = Some (content (state_db e))"
    using ok unfolding sr_def sql_begin_def ea_def e0_def by (auto split: if_splits)
  have "ab_height (active eb) = block_height e + 1" "ab_prev_hash (active eb) = block_id e" by (simp_all add: eb_def)
  with fr w st eb ok show ?thesis by (simp add: frame_def)
qed

lemma load_pages_frame [simp]:
  "worker_db (fst (load_pages_hash_list e)) = worker_db e" "state_db (fst (load_pages_hash_list e)) = state_db e"
  "node (fst (load_pages_hash_list e)) = node e" "block_height (fst (load_pages_hash_list e)) = block_height e"
  "block_id (fst (load_pages_hash_list e)) = block_id e" "active (fst (load_pages_hash_list e)) = active e"
  "mod_pages (fst (load_pages_hash_list e)) = mod_pages e" "txn_ids (fst (load_pages_hash_list e)) = txn_ids e"
  "fired (fst (load_pages_hash_list e)) = fired e"
  "pages_hashes (fst (load_pages_hash_list e)) = fst (load_hashes [] (page_state (content (state_db e))))"
  by (simp_all add: load_pages_hash_list_def case_prod_beta)

lemma cleanup_block_fields [simp]:
  "worker_db (cleanup_block e) = worker_db e" "state_db (cleanup_block e) = state_db e"
  "node (cleanup_block e) = node e" "block_height (cleanup_block e) = block_height e"
  "block_id (cleanup_block e) = block_id e" "active (cleanup_block e) = no_block"
  "mod_pages (cleanup_block e) = None" "txn_ids (cleanup_block e) = None"
  "processed_local_txns (cleanup_block e) = None" "fired (cleanup_block e) = fired e"
  "pages_hashes (cleanup_block e) = pages_hashes e" "nodes_changed (cleanup_block e) = nodes_changed e"
  by (simp_all add: cleanup_block_def)

lemma rollback_block_open:
  "ab_height (active e) > 0 \<Longrightarrow> aergolite_rollback_block e =
     (fst (load_pages_hash_list (cleanup_block
        (e\<lparr>worker_db := sql_rollback (worker_db e), state_db := sql_rollback (state_db e)\<rparr>))))\<lparr>node := reload_auth_nonces (node e)\<rparr>"
  unfolding aergolite_rollback_block_def Let_def by simp

lemma rollback_block_closed:
  "\<not> ab_height (active e) > 0 \<Longrightarrow> aergolite_rollback_block e =
     (fst (load_pages_hash_list (cleanup_block e)))\<lparr>node := reload_auth_nonces (node e)\<rparr>"
  unfolding aergolite_rollback_block_def Let_def by simp

lemma rollback_block_fields:
  "block_height (aergolite_rollback_block e) = block_height e" "block_id (aergolite_rollback_block e) = block_id e"
  "active (aergolite_rollback_block e) = no_block" "mod_pages (aergolite_rollback_block e) = None"
  "txn_ids (aergolite_rollback_block e) = None" "fired (aergolite_rollback_block e) = fired e"
  "node (aergolite_rollback_block e) = reload_auth_nonces (node e)"
  by (cases "ab_height (active e) > 0"; simp add: rollback_block_open rollback_block_closed)+

lemma rollback_block_dbs:
  assumes "ab_height (active e) > 0"
  shows "worker_db (aergolite_rollback_block e) = sql_rollback (worker_db e)"
    and "state_db (aergolite_rollback_block e) = sql_rollback (state_db e)"
    and "pages_hashes (aergolite_rollback_block e) = fst (load_hashes [] (page_state (content (sql_rollback (state_db e)))))"
  by (simp_all add: rollback_block_open [OF assms])

lemma sql_rollback_begun: "begun c = Some old \<Longrightarrow> sql_rollback c = \<lparr>content = old, begun = None, savept = None\<rparr>"
  by (simp add: sql_rollback_def)

lemma same_auths_restore:
  assumes "same_auths (save_auth_nonces n) n'"
  shows "reload_auth_nonces n' = save_auth_nonces n"
proof -
  have "map (\<lambda>a. a\<lparr>last_nonce := saved_nonce a\<rparr>) l' = map (\<lambda>a. a\<lparr>last_nonce := saved_nonce a\<rparr>) l"
    if "map (\<lambda>a. a\<lparr>last_nonce := 0\<rparr>) l' = map (\<lambda>a. a\<lparr>last_nonce := 0\<rparr>) l" for l l' :: "nodeauth list"
  proof -
    have a: "map (\<lambda>a. a\<lparr>last_nonce := saved_nonce a\<rparr>) l = map (\<lambda>a. a\<lparr>last_nonce := saved_nonce a\<rparr>) (map (\<lambda>a. a\<lparr>last_nonce := 0\<rparr>) l)"
      for l :: "nodeauth list" by simp
    note a [of l']
    also note that
    also note a [of l, symmetric]
    finally show ?thesis .
  qed
  then have "map (\<lambda>a. a\<lparr>last_nonce := saved_nonce a\<rparr>) (authorizations n')
      = map (\<lambda>a. a\<lparr>last_nonce := saved_nonce a\<rparr>) (authorizations (save_auth_nonces n))"
    using assms unfolding same_auths_def by blast
  then have "authorizations (reload_auth_nonces n') = authorizations (save_auth_nonces n)"
    by (simp add: reload_auth_nonces_def save_auth_nonces_def comp_def)
  moreover have "(reload_auth_nonces n')\<lparr>authorizations := []\<rparr> = (save_auth_nonces n)\<lparr>authorizations := []\<rparr>"
    using assms by (simp add: same_auths_def reload_auth_nonces_def)
  ultimately show ?thesis by (cases "reload_auth_nonces n'"; cases "save_auth_nonces n") simp
qed


subsection \<open>Committing\<close>

lemma set_page_hashes_calc:
  assumes "mod_pages e = Some ps"
  shows "calc_new_state_hash e = Inr h \<longleftrightarrow>
     snd (set_page_hashes (pages_hashes e) ps) = SQLITE_OK \<and> h = sha256 (concat (fst (set_page_hashes (pages_hashes e) ps)))"
  using assms by (auto simp: calc_new_state_hash_def case_prod_beta Let_def)

definition frame_pages :: "'db engine \<Rightarrow> 'db engine \<Rightarrow> bool" where
  "frame_pages e e' \<longleftrightarrow> worker_db e' = worker_db e \<and> state_db e' = state_db e \<and> node e' = node e
     \<and> block_height e' = block_height e \<and> block_id e' = block_id e \<and> pages_hashes e' = pages_hashes e
     \<and> ab_height (active e') = ab_height (active e) \<and> ab_prev_hash (active e') = ab_prev_hash (active e)
     \<and> txn_ids e' = txn_ids e \<and> fired e' = fired e \<and> (mod_pages e' = None \<longleftrightarrow> mod_pages e = None)"

lemma log_modified_pages_eq:
  "log_modified_pages ps e = (case mod_pages e of
      None \<Rightarrow> (e, if ps = [] then SQLITE_OK else SQLITE_NOMEM)
    | Some l \<Rightarrow> (e\<lparr>mod_pages := Some (foldl (\<lambda>l (pgno, d). log_page pgno (sha256 d) l) l ps)\<rparr>, SQLITE_OK))"
proof (induction ps arbitrary: e)
  case Nil
  then show ?case by (cases "mod_pages e") auto
next
  case (Cons p ps)
  then show ?case by (cases p; cases "mod_pages e") (auto simp: log_modified_page_def)
qed

definition collected :: "'db sqlite \<Rightarrow> 'db engine \<Rightarrow> (u32 \<times> bytes) list" where
  "collected sql e = foldl (\<lambda>l (pgno, d). log_page pgno (sha256 d) l) (case mod_pages e of None \<Rightarrow> [] | Some l \<Rightarrow> l)
                       (dirty_pages sql (content (worker_db e)))"

lemma collect_modified_pages_eq:
  "mod_pages e \<noteq> None \<Longrightarrow> collect_modified_pages sql e = (e\<lparr>mod_pages := Some (collected sql e)\<rparr>, SQLITE_OK)"
  by (auto simp: collect_modified_pages_def collected_def log_modified_pages_eq)

text \<open>Acceptance by \<^verbatim>\<open>aergolite_verify_block\<close>.\<close>

definition identified :: "'db sqlite \<Rightarrow> 'db engine \<Rightarrow> header \<Rightarrow> block_body \<Rightarrow> 'db engine \<Rightarrow> bool" where
  "identified sql e hdr body e' \<longleftrightarrow> crc e' = crc (fst (identify_block sql e hdr body))
     \<and> (ab_header_id (active e'), ab_body_id (active e')) = snd (identify_block sql e hdr body)"

lemma identify_crc:
  "crc e1 = crc e \<Longrightarrow> snd (identify_block sql e1 hdr body) = snd (identify_block sql e hdr body)
     \<and> crc (fst (identify_block sql e1 hdr body)) = crc (fst (identify_block sql e hdr body))"
  by (simp add: identify_block_def case_prod_beta Let_def)

lemma verify_block_OK:
  assumes "aergolite_verify_block sql e hdr body = Some (e', Inr bid)"
  shows "\<exists>f i. read_block_header (lib sql) (node e) hdr = Some (i, Inr f)
     \<and> hf_block_height f = block_height e + 1 \<and> hf_prev_hash f = block_id e
     \<and> mod_pages e \<noteq> None \<and> txn_ids e \<noteq> None
     \<and> compare_modified_pages (e\<lparr>mod_pages := Some (collected sql e)\<rparr>) (body_mod_pages body) = SQLITE_OK
     \<and> snd (set_page_hashes (pages_hashes e) (collected sql e)) = SQLITE_OK
     \<and> hf_state_hash f = sha256 (concat (fst (set_page_hashes (pages_hashes e) (collected sql e))))
     \<and> bid = ab_id (active e') \<and> (i \<noteq> None \<longrightarrow> i = Some bid)
     \<and> mod_pages e' = Some (collected sql e) \<and> frame_pages e e' \<and> ab_verify_ok (active e')
     \<and> identified sql e hdr body e'"
proof -
  have m: "mod_pages e \<noteq> None" "txn_ids e \<noteq> None"
    using assms by (auto simp: aergolite_verify_block_def split: if_splits)
  obtain i res where r: "read_block_header (lib sql) (node e) hdr = Some (i, res)"
    using assms m by (auto simp: aergolite_verify_block_def split: option.splits)
  define e0 where "e0 = (case i of None \<Rightarrow> e | Some i \<Rightarrow> e\<lparr>active := (active e)\<lparr>ab_id := i\<rparr>\<rparr>)"
  have e0: "frame_pages e e0" "mod_pages e0 = mod_pages e" "collected sql e0 = collected sql e"
      "pages_hashes e0 = pages_hashes e" "block_height e0 = block_height e" "block_id e0 = block_id e"
      "i \<noteq> None \<longrightarrow> i = Some (ab_id (active e0))"
    by (auto simp: e0_def frame_pages_def collected_def split: option.split)
  define e1 where "e1 = e0\<lparr>mod_pages := Some (collected sql e)\<rparr>"
  have c: "collect_modified_pages sql e0 = (e1, SQLITE_OK)"
    using collect_modified_pages_eq [of e0 sql] m by (simp add: e0 e1_def)
  obtain f where f: "res = Inr f" "hf_block_height f = block_height e + 1" "hf_prev_hash f = block_id e"
      "compare_modified_pages e1 (body_mod_pages body) = SQLITE_OK" "calc_new_state_hash e1 = Inr (hf_state_hash f)"
      "(let (e, header_id, body_id) = identify_block sql e1 hdr body in
        Some (e\<lparr>active := (active e)\<lparr>ab_header_id := header_id, ab_body_id := body_id, ab_verify_ok := True\<rparr>\<rparr>,
              Inr (ab_id (active e)) :: rc + bytes)) = Some (e', Inr bid)"
    using assms m r c unfolding aergolite_verify_block_def e0_def [symmetric]
    by (auto simp: e0 e0_def [symmetric] Let_def split: if_splits sum.splits)
  have "mod_pages e1 = Some (collected sql e)" "pages_hashes e1 = pages_hashes e" by (simp_all add: e1_def e0)
  with f(5) have h: "snd (set_page_hashes (pages_hashes e) (collected sql e)) = SQLITE_OK
     \<and> hf_state_hash f = sha256 (concat (fst (set_page_hashes (pages_hashes e) (collected sql e))))"
    by (simp add: set_page_hashes_calc [of e1 "collected sql e"])
  have "crc e1 = crc e" by (auto simp: e1_def e0_def split: option.split)
  from identify_crc [OF this, of sql hdr body] f(6) have idd: "identified sql e hdr body e'"
    by (auto simp: identified_def case_prod_beta Let_def prod_eq_iff)
  have "compare_modified_pages (e\<lparr>mod_pages := Some (collected sql e)\<rparr>) (body_mod_pages body) = SQLITE_OK"
    using f(4) by (simp add: compare_modified_pages_def e1_def)
  with f h m r e0 idd show ?thesis
    by (auto simp: identify_block_def case_prod_beta Let_def e1_def frame_pages_def intro!: exI [of _ f])
qed

lemma read_header_not_OK: "read_block_header secp n hdr \<noteq> Some (i, Inl SQLITE_OK)"
  unfolding read_block_header_def Let_def by (auto split: option.splits if_splits prod.splits)

lemma set_page_hashes_code: "snd (set_page_hashes hs ps) = SQLITE_OK \<or> snd (set_page_hashes hs ps) = SQLITE_NOMEM"
  by (induction hs ps rule: set_page_hashes.induct) (auto split: option.split)

lemma verify_block_not_OK: "aergolite_verify_block sql e hdr body \<noteq> Some (e', Inl SQLITE_OK)"
  using read_header_not_OK [of "lib sql" "node e" hdr]
  unfolding aergolite_verify_block_def calc_new_state_hash_def case_prod_beta Let_def
  by (auto split: option.splits sum.splits if_splits prod.splits)

text \<open>What a successful store leaves behind.\<close>

lemma save_pages_OK:
  "save_pages sql rows t = (t', SQLITE_OK) \<Longrightarrow>
     t' = t\<lparr>page_state := foldl (\<lambda>ps row. put_page_state row ps) (page_state t) rows\<rparr>"
proof (induction rows arbitrary: t)
  case Nil
  then show ?case by simp
next
  case (Cons row rows)
  then show ?case by (fastforce simp: Let_def split: if_splits)
qed

lemma save_modified_pages_OK:
  assumes "save_modified_pages sql e rows = (e', SQLITE_OK)"
  shows "e' = e\<lparr>state_db := (state_db e)\<lparr>content := (content (state_db e))
     \<lparr>page_state := foldl (\<lambda>ps row. put_page_state row ps) (page_state (content (state_db e))) rows\<rparr>\<rparr>\<rparr>"
  using assms save_pages_OK [of sql rows "content (state_db e)"]
  by (cases "save_pages sql rows (content (state_db e))") (auto simp: save_modified_pages_def split: if_splits)

lemma save_block_OK:
  "save_block sql e row = (e', SQLITE_OK) \<Longrightarrow>
     e' = e\<lparr>state_db := (state_db e)\<lparr>content := (content (state_db e))\<lparr>block_rows := block_rows (content (state_db e)) @ [row]\<rparr>\<rparr>\<rparr>
     \<and> row_height row \<notin> row_height ` set (block_rows (content (state_db e)))"
  by (auto simp: save_block_def Let_def split: if_splits)

lemma commit_both_OK:
  "commit_both sql e = (e', SQLITE_OK) \<Longrightarrow>
     e' = e\<lparr>worker_db := (worker_db e)\<lparr>begun := None, savept := None\<rparr>,
            state_db := (state_db e)\<lparr>begun := None, savept := None\<rparr>\<rparr>
     \<and> begun (worker_db e) \<noteq> None \<and> begun (state_db e) \<noteq> None"
  by (auto simp: commit_both_def sql_commit_def case_prod_beta Let_def split: if_splits)

lemma store_block_OK:
  assumes "store_block sql e hdr body votes = (e', SQLITE_OK)" and "mod_pages e = Some ps"
  shows "snd (set_page_hashes (pages_hashes e) ps) = SQLITE_OK
     \<and> e' = e\<lparr>worker_db := (worker_db e)\<lparr>begun := None, savept := None\<rparr>,
          state_db := \<lparr>content = \<lparr>
              page_state = foldl (\<lambda>ps row. put_page_state row ps) (page_state (content (state_db e))) (body_mod_pages body),
              block_rows = block_rows (content (state_db e)) @ [\<lparr>row_height = ab_height (active e), row_header = hdr,
                               row_body = Some body, row_votes = votes\<rparr>],
              txn_rows = txn_rows (content (state_db e))\<rparr>, begun = None, savept = None\<rparr>,
          pages_hashes := fst (set_page_hashes (pages_hashes e) ps)\<rparr>"
proof -
  define e1 where "e1 = fst (save_modified_pages sql e (body_mod_pages body))"
  define e2 where "e2 = fst (update_pages_hash_list e1)"
  define row where "row = \<lparr>row_height = ab_height (active e2), row_header = hdr, row_body = Some body, row_votes = votes\<rparr>"
  define e3 where "e3 = fst (save_block sql e2 row)"
  have ok: "snd (save_modified_pages sql e (body_mod_pages body)) = SQLITE_OK"
      "snd (update_pages_hash_list e1) = SQLITE_OK" "snd (save_block sql e2 row) = SQLITE_OK"
      "commit_both sql e3 = (e', SQLITE_OK)"
    using assms(1) unfolding store_block_def case_prod_beta Let_def e1_def [symmetric] e2_def [symmetric]
      row_def [symmetric] e3_def [symmetric] by (auto split: if_splits)
  have 1: "save_modified_pages sql e (body_mod_pages body) = (e1, SQLITE_OK)"
      "save_block sql e2 row = (e3, SQLITE_OK)"
    using ok by (auto simp: e1_def e3_def prod_eq_iff)
  note e1 = save_modified_pages_OK [OF 1(1)] and e3 = save_block_OK [OF 1(2)] and e4 = commit_both_OK [OF ok(4)]
  have e2: "e2 = e1\<lparr>pages_hashes := fst (set_page_hashes (pages_hashes e) ps)\<rparr>"
      "snd (set_page_hashes (pages_hashes e) ps) = SQLITE_OK"
    using ok(2) assms(2) unfolding e2_def by (auto simp: update_pages_hash_list_def e1 case_prod_beta)
  have "active e2 = active e" by (simp add: e2 e1)
  with e2 e1 e3 e4 show ?thesis unfolding row_def by (cases e) (auto simp: assms)
qed

lemma update_authorizations_fields [simp]:
  "worker_db (update_authorizations sql e) = worker_db e" "state_db (update_authorizations sql e) = state_db e"
  "block_height (update_authorizations sql e) = block_height e" "block_id (update_authorizations sql e) = block_id e"
  "pages_hashes (update_authorizations sql e) = pages_hashes e" "active (update_authorizations sql e) = active e"
  "mod_pages (update_authorizations sql e) = mod_pages e" "fired (update_authorizations sql e) = fired e"
  "processed_local_txns (update_authorizations sql e) = processed_local_txns e" "txn_ids (update_authorizations sql e) = txn_ids e"
  by (simp_all add: update_authorizations_def)

lemma commit_block_OK:
  assumes "aergolite_commit_block sql e hdr body votes = (e', SQLITE_OK)"
  shows "\<exists>ps. mod_pages e = Some ps \<and> compare_modified_pages e (body_mod_pages body) = SQLITE_OK
     \<and> ab_height (active e) > 0 \<and> ab_verify_ok (active e)
     \<and> snd (set_page_hashes (pages_hashes e) ps) = SQLITE_OK
     \<and> pages_hashes e' = fst (set_page_hashes (pages_hashes e) ps)
     \<and> worker_db e' = (worker_db e)\<lparr>begun := None, savept := None\<rparr>
     \<and> state_db e' = \<lparr>content = \<lparr>
              page_state = foldl (\<lambda>ps row. put_page_state row ps) (page_state (content (state_db e))) (body_mod_pages body),
              block_rows = block_rows (content (state_db e)) @ [\<lparr>row_height = ab_height (active e), row_header = hdr,
                               row_body = Some body, row_votes = votes\<rparr>],
              txn_rows = txn_rows (content (state_db e))\<rparr>, begun = None, savept = None\<rparr>
     \<and> block_height e' = ab_height (active e) \<and> block_id e' = ab_id (active e)
     \<and> active e' = no_block \<and> mod_pages e' = None \<and> txn_ids e' = None \<and> fired e' = fired e"
proof -
  define e0 where "e0 = fst (identify_block sql e hdr body)"
  have e0: "e0 = e\<lparr>crc := crc e0\<rparr>"
    by (simp add: e0_def identify_block_def case_prod_beta Let_def)
  have same: "mod_pages e0 = mod_pages e" "active e0 = active e" "pages_hashes e0 = pages_hashes e"
      "worker_db e0 = worker_db e" "state_db e0 = state_db e" "fired e0 = fired e"
    by (subst e0, simp)+
  define r where "r = store_block sql e0 hdr body votes"
  have ok: "mod_pages e \<noteq> None" "ab_height (active e) > 0" "ab_verify_ok (active e)"
      "compare_modified_pages e0 (body_mod_pages body) = SQLITE_OK" "snd r = SQLITE_OK"
    using assms unfolding aergolite_commit_block_def case_prod_beta Let_def e0_def [symmetric] r_def [symmetric]
    by (simp_all add: same split: if_splits)
  obtain ps where ps: "mod_pages e0 = Some ps" using ok(1) same by auto
  have r: "store_block sql e0 hdr body votes = (fst r, SQLITE_OK)" using ok(5) by (simp add: r_def prod_eq_iff)
  note st = store_block_OK [OF r ps]
  define ea where "ea = (fst r)\<lparr>block_height := ab_height (active (fst r)), block_id := ab_id (active (fst r))\<rparr>"
  define eb where "eb = cleanup_block (ea\<lparr>node := (node ea)\<lparr>last_processed_nonce := get_last_processed_nonce ea\<rparr>, wal_consensus_empty := False\<rparr>)"
  have e': "e' = fire_transaction_notifications (if nodes_changed eb then update_authorizations sql eb else eb)"
    using assms ok same unfolding aergolite_commit_block_def case_prod_beta Let_def e0_def [symmetric] r_def [symmetric]
    by (simp add: ea_def eb_def split: if_splits)
  have "processed_local_txns eb = None" by (simp add: eb_def)
  then have e'': "e' = (if nodes_changed eb then update_authorizations sql eb else eb)"
    unfolding e' by (simp add: fire_transaction_notifications_def)
  have cmp: "compare_modified_pages e (body_mod_pages body) = SQLITE_OK"
    using ok(4) by (simp add: compare_modified_pages_def same)
  have "active (fst r) = active e" "fired (fst r) = fired e" using st by (simp_all add: same)
  then show ?thesis using st ps ok cmp unfolding e'' by (simp add: eb_def ea_def same)
qed

subsection \<open>Properties of commit\<close>

lemma read_header_id: "read_block_header secp n hdr = Some (i, Inr f) \<Longrightarrow> i \<noteq> None"
  unfolding read_block_header_def Let_def by (auto split: option.splits if_splits prod.splits)

text \<open>C8: A block that is applied extends the chain of the node: its header is well signed, names the next
  height and the id of the last block, and the hash of the database state that the node holds after the
  commit is the one in the header; the block becomes the last one, its row is added to the table, and
  both transactions are closed.\<close>
lemma applied_block_extends_chain:
  assumes "aergolite_apply_block sql e hdr body votes = Some (e', SQLITE_OK)"
    and "ab_height (active e) = block_height e + 1"
  shows "\<exists>f bid. read_block_header (lib sql) (node e) hdr = Some (Some bid, Inr f)
     \<and> hf_block_height f = block_height e + 1 \<and> hf_prev_hash f = block_id e
     \<and> hf_state_hash f = calc_state_hash e'
     \<and> block_height e' = hf_block_height f \<and> block_id e' = bid
     \<and> block_rows (content (state_db e')) = block_rows (content (state_db e)) @
          [\<lparr>row_height = hf_block_height f, row_header = hdr, row_body = Some body, row_votes = votes\<rparr>]
     \<and> begun (worker_db e') = None \<and> begun (state_db e') = None"
proof -
  obtain e1 bid where v: "aergolite_verify_block sql e hdr body = Some (e1, Inr bid)"
      "aergolite_commit_block sql e1 hdr body votes = (e', SQLITE_OK)"
    using assms(1) verify_block_not_OK [of sql e hdr body] by (auto simp: aergolite_apply_block_def split: option.splits sum.splits)
  note c = commit_block_OK [OF v(2)]
  obtain f i where f: "read_block_header (lib sql) (node e) hdr = Some (i, Inr f)"
     "hf_block_height f = block_height e + 1" "hf_prev_hash f = block_id e"
     "hf_state_hash f = sha256 (concat (fst (set_page_hashes (pages_hashes e) (collected sql e))))"
     "bid = ab_id (active e1)" "i \<noteq> None \<longrightarrow> i = Some bid" "mod_pages e1 = Some (collected sql e)" "frame_pages e e1"
    using verify_block_OK [OF v(1)] by blast
  have "i = Some bid" using read_header_id [OF f(1)] f(6) by simp
  then show ?thesis using f c assms(2)
    by (intro exI [of _ f] exI [of _ bid]) (auto simp: frame_pages_def calc_state_hash_def)
qed

lemma store_block_fired: "fired (fst (store_block sql e hdr body votes)) = fired e"
proof -
  have 1: "fired (fst (save_modified_pages sql e rows)) = fired e" for e rows
    by (simp add: save_modified_pages_def case_prod_beta)
  have 2: "fired (fst (update_pages_hash_list e)) = fired e" for e
    by (simp add: update_pages_hash_list_def case_prod_beta split: option.split)
  have 3: "fired (fst (save_block sql e row)) = fired e" for e row
    by (simp add: save_block_def Let_def)
  have 4: "fired (fst (commit_both sql e)) = fired e" for e
    by (simp add: commit_both_def case_prod_beta Let_def)
  show ?thesis unfolding store_block_def case_prod_beta Let_def by (simp add: 1 2 3 4)
qed

text \<open>The application is never told about the transactions of a committed block: \<^verbatim>\<open>aergolite_commit_block\<close>
  tests \<^verbatim>\<open>processed_local_txns\<close> for the notification after \<^verbatim>\<open>cleanup_block\<close> has freed the list, so
  whatever the list held, no call of \<^verbatim>\<open>transaction_notification\<close> is made.\<close>
lemma commit_never_notifies:
  "fired (fst (aergolite_commit_block sql e hdr body votes)) = fired e"
proof -
  have "fired (fst (identify_block sql e hdr body)) = fired e"
    by (simp add: identify_block_def case_prod_beta Let_def)
  then show ?thesis
    unfolding aergolite_commit_block_def case_prod_beta Let_def
    by (simp add: rollback_block_fields store_block_fired fire_transaction_notifications_def)
qed

subsection \<open>The array of page hashes and the table\<close>

text \<open>The hash at an index, zeros where the array has none.\<close>

definition hash_at :: "bytes list \<Rightarrow> nat \<Rightarrow> bytes" where
  "hash_at hs i = (if i < length hs then hs ! i else replicate 32 0)"

lemma hashes_eqI: "length hs = length hs' \<Longrightarrow> (\<And>i. hash_at hs i = hash_at hs' i) \<Longrightarrow> hs = hs'"
  by (rule nth_equalityI) (simp_all add: hash_at_def, metis)

lemma hash_at_set_list:
  "hash_at (set_list (replicate 32 0) hs i h) j = (if j = i then h else hash_at hs j)"
  "length (set_list (replicate 32 0) hs i h) = max (length hs) (Suc i)"
  by (auto simp: set_list_def hash_at_def nth_append nth_Cons' nth_list_update)

text \<open>Both loops are folds of the same assignment when the pages are numbered from one.\<close>

definition write_hashes :: "bytes list \<Rightarrow> (u32 \<times> bytes) list \<Rightarrow> bytes list" where
  "write_hashes hs ps = foldl (\<lambda>hs (p, h). set_list (replicate 32 0) hs (unat p - 1) h) hs ps"

lemma set_page_hashes_write:
  "snd (set_page_hashes hs ps) = SQLITE_OK \<Longrightarrow>
     fst (set_page_hashes hs ps) = write_hashes hs ps \<and> (\<forall>p\<in>fst ` set ps. p \<noteq> 0)"
  by (induction hs ps rule: set_page_hashes.induct)
    (auto simp: write_hashes_def set_page_hash_def split: option.splits if_splits)

lemma load_hashes_write:
  "(\<forall>(p, ht, h)\<in>set rows. p \<noteq> 0 \<and> length h = 32) \<Longrightarrow>
     load_hashes hs rows = (write_hashes hs (map (\<lambda>(p, ht, h). (p, h)) rows), SQLITE_OK)"
  by (induction hs rows rule: load_hashes.induct) (auto simp: write_hashes_def set_page_hash_def)

lemma write_hashes_Cons:
  "write_hashes hs ((p, h) # ps) = write_hashes (set_list (replicate 32 0) hs (unat p - 1) h) ps"
  by (simp add: write_hashes_def)

lemma write_hashes_snoc:
  "write_hashes hs (ps @ [(p, h)]) = set_list (replicate 32 0) (write_hashes hs ps) (unat p - 1) h"
  by (simp add: write_hashes_def)

lemma unat_pred_inj: "p \<noteq> 0 \<Longrightarrow> q \<noteq> 0 \<Longrightarrow> unat p - 1 = unat q - 1 \<Longrightarrow> p = q" for p q :: u32
proof -
  assume "p \<noteq> 0" "q \<noteq> 0" "unat p - 1 = unat q - 1"
  moreover from this have "unat p > 0" "unat q > 0" by (simp_all add: unat_gt_0)
  ultimately have "unat p = unat q" by linarith
  then show "p = q" by (rule unsigned_word_eqI)
qed

lemma set_list_commute:
  "i \<noteq> j \<Longrightarrow> set_list (replicate 32 0) (set_list (replicate 32 0) hs i h) j k
     = set_list (replicate 32 0) (set_list (replicate 32 0) hs j k) i h" for hs :: "bytes list"
  by (rule hashes_eqI) (auto simp: hash_at_set_list)

lemma set_list_twice:
  "set_list (replicate 32 0) (set_list (replicate 32 0) hs i h) i k = set_list (replicate 32 0) hs i k" for hs :: "bytes list"
  by (rule hashes_eqI) (auto simp: hash_at_set_list)

lemma write_hashes_late:
  "p \<noteq> 0 \<Longrightarrow> \<forall>q\<in>fst ` set ps. q \<noteq> 0 \<and> q \<noteq> p \<Longrightarrow>
     set_list (replicate 32 0) (write_hashes hs ps) (unat p - 1) h = write_hashes (set_list (replicate 32 0) hs (unat p - 1) h) ps"
proof (induction ps arbitrary: hs)
  case Nil
  then show ?case by (simp add: write_hashes_def)
next
  case (Cons x ps)
  obtain q g where x: "x = (q, g)" by (cases x)
  have "unat q - 1 \<noteq> unat p - 1" using Cons.prems unat_pred_inj [of q p] by (auto simp: x)
  then have "set_list (replicate 32 0) (set_list (replicate 32 0) hs (unat q - 1) g) (unat p - 1) h
     = set_list (replicate 32 0) (set_list (replicate 32 0) hs (unat p - 1) h) (unat q - 1) g"
    by (rule set_list_commute)
  with Cons show ?case by (simp add: x write_hashes_Cons)
qed

text \<open>The rows of \<^verbatim>\<open>page_state\<close> are in the order of the key; the pages are numbered from one and the hashes
  have 32 bytes.\<close>

definition row_pages :: "page_row list \<Rightarrow> (u32 \<times> bytes) list" where
  "row_pages rows = map (\<lambda>(p, ht, h). (p, h)) rows"

definition good_rows :: "page_row list \<Rightarrow> bool" where
  "good_rows rows \<longleftrightarrow> sorted_wrt (<) (map fst rows) \<and> (\<forall>(p, ht, h)\<in>set rows. p \<noteq> 0 \<and> length h = 32)"

lemma set_put_page_state: "set (put_page_state row rows) \<subseteq> insert row (set rows)"
  by (induction rows) auto

lemma good_rows_put:
  "good_rows rows \<Longrightarrow> fst row \<noteq> 0 \<Longrightarrow> length (snd (snd row)) = 32 \<Longrightarrow> good_rows (put_page_state row rows)"
proof (induction rows)
  case Nil
  then show ?case by (cases row) (auto simp: good_rows_def)
next
  case (Cons r rows)
  have "good_rows (put_page_state row rows)" using Cons by (auto simp: good_rows_def)
  moreover have "\<forall>x\<in>set (put_page_state row rows). x = row \<or> x \<in> set rows"
    using set_put_page_state [of row rows] by auto
  ultimately show ?case using Cons.prems by (cases row; cases r) (fastforce simp: good_rows_def)
qed

lemma write_hashes_put:
  "good_rows rows \<Longrightarrow> p \<noteq> 0 \<Longrightarrow>
     write_hashes hs (row_pages (put_page_state (p, ht, h) rows))
       = set_list (replicate 32 0) (write_hashes hs (row_pages rows)) (unat p - 1) h"
proof (induction rows arbitrary: hs)
  case Nil
  then show ?case by (simp add: row_pages_def write_hashes_def)
next
  case (Cons r rows)
  obtain q ht' g where r: "r = (q, ht', g)" by (cases r)
  have rest: "\<forall>q'\<in>fst ` set (row_pages rows). q' \<noteq> 0 \<and> q < q'" "q \<noteq> 0" "good_rows rows"
    using Cons.prems(1) by (auto simp: r good_rows_def row_pages_def)
  consider (eq) "p = q" | (less) "p < q" | (gt) "p \<noteq> q" "\<not> p < q" by blast
  then show ?case
  proof cases
    case eq
    then have "set_list (replicate 32 0) (write_hashes (set_list (replicate 32 0) hs (unat q - 1) g) (row_pages rows)) (unat p - 1) h
       = write_hashes (set_list (replicate 32 0) hs (unat q - 1) h) (row_pages rows)"
      using write_hashes_late [of p "row_pages rows"] rest Cons.prems(2) by (force simp: set_list_twice)
    with eq show ?thesis by (simp add: r row_pages_def write_hashes_Cons)
  next
    case less
    have "\<forall>q'\<in>fst ` set (row_pages (r # rows)). q' \<noteq> 0 \<and> q' \<noteq> p"
      using rest less by (auto simp: r row_pages_def dest: order_less_trans)
    from write_hashes_late [OF Cons.prems(2) this, of hs h] show ?thesis
      using less by (simp add: r row_pages_def write_hashes_Cons less_imp_neq)
  next
    case gt
    with Cons.IH [OF rest(3) Cons.prems(2)] show ?thesis by (simp add: r row_pages_def write_hashes_Cons)
  qed
qed

lemma write_hashes_puts:
  "good_rows rows \<Longrightarrow> \<forall>(p, ht, h)\<in>set new. p \<noteq> 0 \<and> length h = 32 \<Longrightarrow>
     good_rows (foldl (\<lambda>ps row. put_page_state row ps) rows new)
     \<and> write_hashes hs (row_pages (foldl (\<lambda>ps row. put_page_state row ps) rows new))
       = write_hashes (write_hashes hs (row_pages rows)) (row_pages new)"
proof (induction new arbitrary: rows)
  case Nil
  then show ?case by (simp add: row_pages_def write_hashes_def)
next
  case (Cons r new)
  obtain p ht h where r: "r = (p, ht, h)" by (cases r)
  have g: "good_rows (put_page_state r rows)" using Cons.prems by (intro good_rows_put) (auto simp: r)
  have w: "write_hashes hs (row_pages (put_page_state r rows))
      = set_list (replicate 32 0) (write_hashes hs (row_pages rows)) (unat p - 1) h"
    unfolding r using Cons.prems by (intro write_hashes_put) (auto simp: r)
  from Cons.IH [OF g] Cons.prems(2) show ?case
    by (simp add: w) (simp add: r row_pages_def write_hashes_Cons)
qed

lemma compare_pages_rows:
  "compare_pages list ps = SQLITE_OK \<Longrightarrow> length list = length ps \<Longrightarrow> row_pages list = ps"
  by (induction list ps rule: compare_pages.induct) (auto simp: row_pages_def split: if_splits)

text \<open>A restart finds the state that was committed: when the array of page hashes is what
  \<^verbatim>\<open>load_pages_hash_list\<close> reads from the table \<^verbatim>\<open>page_state\<close>, it is again so after a commit, because the
  code writes the same pages to both, and replaces the rows of the pages that were there.\<close>
lemma commit_keeps_page_table:
  assumes "aergolite_commit_block sql e hdr body votes = (e', SQLITE_OK)"
    and "good_rows (page_state (content (state_db e)))"
    and "load_pages_hash_list e = (e, SQLITE_OK)"
    and "\<forall>(p, ht, h)\<in>set (body_mod_pages body). length h = 32"
  shows "good_rows (page_state (content (state_db e'))) \<and> load_pages_hash_list e' = (e', SQLITE_OK)"
proof -
  obtain ps where c: "mod_pages e = Some ps" "compare_modified_pages e (body_mod_pages body) = SQLITE_OK"
     "snd (set_page_hashes (pages_hashes e) ps) = SQLITE_OK"
     "pages_hashes e' = fst (set_page_hashes (pages_hashes e) ps)"
     "page_state (content (state_db e')) = foldl (\<lambda>ps row. put_page_state row ps) (page_state (content (state_db e))) (body_mod_pages body)"
    using commit_block_OK [OF assms(1)] by auto
  have ps: "row_pages (body_mod_pages body) = ps"
    using c(1,2) by (intro compare_pages_rows) (auto simp: compare_modified_pages_def split: if_splits)
  note w = set_page_hashes_write [OF c(3)]
  have nz: "\<forall>(p, ht, h)\<in>set (body_mod_pages body). p \<noteq> 0 \<and> length h = 32"
    using w assms(4) by (auto simp: ps [symmetric] row_pages_def)
  define rows where "rows = page_state (content (state_db e))"
  have load: "load_hashes [] rs = (write_hashes [] (row_pages rs), SQLITE_OK)" if "good_rows rs" for rs
    using load_hashes_write [of rs "[]"] that by (auto simp: good_rows_def row_pages_def)
  have eq: "pages_hashes e = write_hashes [] (row_pages rows)"
    using arg_cong [OF assms(3), of "\<lambda>r. pages_hashes (fst r)"] load [OF assms(2)] by (simp add: rows_def)
  note puts = write_hashes_puts [OF assms(2) nz, of "[]"]
  have "pages_hashes e' = write_hashes [] (row_pages (page_state (content (state_db e'))))"
    using puts w eq unfolding c(4,5) ps rows_def by simp
  moreover have "good_rows (page_state (content (state_db e')))" using puts by (simp add: c(5))
  ultimately show ?thesis using load by (simp add: load_pages_hash_list_def)
qed

subsection \<open>A block created by one node is verified by the others\<close>

lemma compare_serialized: "compare_pages (map (\<lambda>(p, h). (p, ht, h)) ps) ps = SQLITE_OK"
  by (induction ps) auto

lemma create_block_OK:
  assumes "aergolite_create_block sql e = Some (e', Inr (height, hdr, body, bid))"
  shows "\<exists>state_hash sg. mod_pages e \<noteq> None \<and> height = ab_height (active e)
     \<and> body_mod_pages body = map (\<lambda>(p, h). (p, height, h)) (collected sql e)
     \<and> txn_ids e = Some (body_txn_ids body) \<and> body_txn_ids body \<noteq> []
     \<and> snd (set_page_hashes (pages_hashes e) (collected sql e)) = SQLITE_OK
     \<and> state_hash = sha256 (concat (fst (set_page_hashes (pages_hashes e) (collected sql e))))
     \<and> build_block_header (lib sql) (node e) (clock sql) height (ab_prev_hash (active e))
          (calc_txns_hash (body_txn_ids body)) state_hash = Inr hdr
     \<and> header_sig hdr = Some sg \<and> bid = take 32 sg"
proof -
  obtain ps ids where m: "mod_pages e = Some ps" "txn_ids e = Some ids" "ids \<noteq> []"
    using assms by (auto simp: aergolite_create_block_def split: option.splits if_splits)
  define e1 where "e1 = e\<lparr>mod_pages := Some (collected sql e)\<rparr>"
  have c: "collect_modified_pages sql e = (e1, SQLITE_OK)"
    using collect_modified_pages_eq [of e sql] m by (simp add: e1_def)
  define b where "b = \<lparr>body_mod_pages = serialize_modified_pages e1 (ab_height (active e)), body_txn_ids = ids\<rparr>"
  obtain h where h: "calc_new_state_hash e1 = Inr h"
    using assms m c by (auto simp: aergolite_create_block_def Let_def split: sum.splits)
  obtain hdr' where hd: "build_block_header (lib sql) (node e) (clock sql) (ab_height (active e)) (ab_prev_hash (active e))
      (calc_txns_hash ids) h = Inr hdr'"
    using assms m c h by (auto simp: aergolite_create_block_def Let_def e1_def split: sum.splits)
  obtain sg where sg: "header_sig hdr' = Some sg"
    using assms m c h hd by (auto simp: aergolite_create_block_def Let_def e1_def split: option.splits)
  have "height = ab_height (active e)" "hdr = hdr'" "body = b" "bid = take 32 sg"
    using assms m c h hd sg by (auto simp: aergolite_create_block_def Let_def e1_def b_def case_prod_beta)
  moreover have "serialize_modified_pages e1 (ab_height (active e)) = map (\<lambda>(p, h). (p, ab_height (active e), h)) (collected sql e)"
    by (simp add: serialize_modified_pages_def e1_def)
  moreover have "snd (set_page_hashes (pages_hashes e) (collected sql e)) = SQLITE_OK
     \<and> h = sha256 (concat (fst (set_page_hashes (pages_hashes e) (collected sql e))))"
    using h set_page_hashes_calc [of e1 "collected sql e" h] by (simp add: e1_def)
  ultimately show ?thesis using m hd sg by (auto simp: b_def)
qed

lemma created_verifies:
  assumes "aergolite_create_block sqlA eA = Some (eA', Inr (height, hdr, body, bid))"
    and "key_pair (lib sqlA) (privkey (node eA)) (pubkey (node eA))" and "lib sqlB = lib sqlA"
    and "aergolite_get_authorization (node eB) (this_id (node eA)) = Inr auth" and "pk auth = pubkey (node eA)"
    and "ab_height (active eA) = block_height eB + 1" and "ab_prev_hash (active eA) = block_id eB"
    and "pages_hashes eB = pages_hashes eA" and "collected sqlB eB = collected sqlA eA"
    and "mod_pages eB \<noteq> None" and "txn_ids eB \<noteq> None"
    and "0 \<le> block_height eB" and "block_height eB < 2 ^ 62" and "length (block_id eB) = 32"
    and "- (2 ^ 31) \<le> this_id (node eA)" and "this_id (node eA) < 2 ^ 31"
  shows "\<exists>eB'. aergolite_verify_block sqlB eB hdr body = Some (eB', Inr bid)"
proof -
  define th where "th = calc_txns_hash (body_txn_ids body)"
  define sh where "sh = sha256 (concat (fst (set_page_hashes (pages_hashes eA) (collected sqlA eA))))"
  obtain sg where c: "height = block_height eB + 1"
     "body_mod_pages body = map (\<lambda>(p, h). (p, height, h)) (collected sqlA eA)"
     "snd (set_page_hashes (pages_hashes eA) (collected sqlA eA)) = SQLITE_OK"
     "build_block_header (lib sqlA) (node eA) (clock sqlA) height (block_id eB) th sh = Inr hdr"
     "header_sig hdr = Some sg" "bid = take 32 sg"
    using create_block_OK [OF assms(1)] assms(6,7) unfolding th_def sh_def by metis
  obtain now where now: "clock sqlA = Inr now"
    using c(4) by (auto simp: build_block_header_def split: sum.splits)
  have "\<exists>sg. header_sig hdr = Some sg \<and> read_block_header (lib sqlA) (node eB) hdr
     = Some (Some (take 32 sg), Inr \<lparr>hf_node_id = this_id (node eA), hf_timestamp = now,
          hf_block_height = height, hf_prev_hash = block_id eB, hf_txns_hash = th, hf_state_hash = sh\<rparr>)"
    by (rule built_header_reads [OF assms(2) c(4) [unfolded now] assms(4,5)])
      (use assms(12-16) c(1) in \<open>simp_all add: th_def sh_def calc_txns_hash_def\<close>)
  then have r: "read_block_header (lib sqlB) (node eB) hdr
     = Some (Some bid, Inr \<lparr>hf_node_id = this_id (node eA), hf_timestamp = now,
          hf_block_height = height, hf_prev_hash = block_id eB, hf_txns_hash = th, hf_state_hash = sh\<rparr>)"
    using c(5,6) assms(3) by auto
  define e0 where "e0 = eB\<lparr>active := (active eB)\<lparr>ab_id := bid\<rparr>\<rparr>"
  define e1 where "e1 = e0\<lparr>mod_pages := Some (collected sqlA eA)\<rparr>"
  have "collected sqlB e0 = collected sqlB eB" by (simp add: collected_def e0_def)
  then have col: "collect_modified_pages sqlB e0 = (e1, SQLITE_OK)"
    using collect_modified_pages_eq [of e0 sqlB] assms(9,10) by (simp add: e0_def e1_def)
  have cmp: "compare_modified_pages e1 (body_mod_pages body) = SQLITE_OK"
    by (simp add: compare_modified_pages_def e1_def c(2) compare_serialized)
  have "calc_new_state_hash e1 = Inr sh"
    using c(3) set_page_hashes_calc [of e1 "collected sqlA eA" sh] assms(8) by (simp add: e1_def e0_def sh_def)
  with r col cmp c(1) assms(10,11) show ?thesis
    unfolding aergolite_verify_block_def
    by (simp add: e0_def [symmetric] case_prod_beta Let_def) (simp add: e0_def e1_def identify_block_def case_prod_beta Let_def)
qed

text \<open>C9: What one node builds the others verify: the block that \<^verbatim>\<open>aergolite_create_block\<close> makes is accepted
  by \<^verbatim>\<open>aergolite_verify_block\<close> of a node that knows the builder's key, has the same last block and page
  hashes, and whose execution of the transactions changed the same pages; both agree on the id.\<close>
lemma created_block_verifies:
  assumes "aergolite_create_block sqlA eA = Some (eA', Inr (height, hdr, body, bid))"
    and "key_pair (lib sqlA) (privkey (node eA)) (pubkey (node eA))" and "lib sqlB = lib sqlA"
    and "aergolite_get_authorization (node eB) (this_id (node eA)) = Inr auth" and "pk auth = pubkey (node eA)"
    and "ab_height (active eA) = block_height eB + 1" and "ab_prev_hash (active eA) = block_id eB"
    and "pages_hashes eB = pages_hashes eA" and "collected sqlB eB = collected sqlA eA"
    and "mod_pages eB \<noteq> None" and "txn_ids eB \<noteq> None"
    and "0 \<le> block_height eB" and "block_height eB < 2 ^ 62" and "length (block_id eB) = 32"
    and "- (2 ^ 31) \<le> this_id (node eA)" and "this_id (node eA) < 2 ^ 31"
  shows "\<exists>eB'. aergolite_verify_block sqlB eB hdr body = Some (eB', Inr bid)"
  by (rule created_verifies [OF assms])

subsection \<open>Two databases, two commits\<close>

lemma save_pages_all:
  "(\<And>t. state_answer sql t ''INSERT OR REPLACE INTO page_state'' = SQLITE_OK) \<Longrightarrow>
     save_pages sql rows t = (t\<lparr>page_state := foldl (\<lambda>ps row. put_page_state row ps) (page_state t) rows\<rparr>, SQLITE_OK)"
  by (induction rows arbitrary: t) simp_all

text \<open>The commit of a block is not atomic: when the state database refuses its \<^verbatim>\<open>COMMIT\<close> after the worker
  database has done its own, \<^verbatim>\<open>aergolite_commit_block\<close> reports the failure and rolls back, but only the
  state database goes back; the contract database keeps the block that the node does not have, outside
  any transaction.\<close>
lemma commit_not_atomic:
  assumes "mod_pages e = Some ps" and "txn_ids e \<noteq> None" and "ab_height (active e) > 0" and "ab_verify_ok (active e)"
    and "snd (identify_block sql e hdr body) = (ab_header_id (active e), ab_body_id (active e))"
    and "compare_modified_pages e (body_mod_pages body) = SQLITE_OK" and "body_mod_pages body \<noteq> []"
    and "snd (set_page_hashes (pages_hashes e) ps) = SQLITE_OK"
    and "ab_height (active e) \<notin> row_height ` set (block_rows (content (state_db e)))"
    and "begun (worker_db e) = Some w" and "begun (state_db e) = Some s"
    and "worker_answer sql (content (worker_db e)) ''COMMIT'' = SQLITE_OK"
    and "\<And>t cmd. state_answer sql t cmd = (if cmd = ''COMMIT'' then SQLITE_BUSY else SQLITE_OK)"
  shows "\<exists>e'. aergolite_commit_block sql e hdr body votes = (e', SQLITE_BUSY)
     \<and> content (worker_db e') = content (worker_db e) \<and> begun (worker_db e') = None
     \<and> content (state_db e') = s \<and> begun (state_db e') = None
     \<and> block_height e' = block_height e \<and> block_id e' = block_id e"
proof -
  define e0 where "e0 = fst (identify_block sql e hdr body)"
  have e0: "e0 = e\<lparr>crc := crc e0\<rparr>"
    by (simp add: e0_def identify_block_def case_prod_beta Let_def)
  have same: "mod_pages e0 = mod_pages e" "active e0 = active e" "pages_hashes e0 = pages_hashes e"
      "worker_db e0 = worker_db e" "state_db e0 = state_db e" "block_height e0 = block_height e" "block_id e0 = block_id e"
    by (subst e0, simp)+
  define r where "r = store_block sql e0 hdr body votes"
  have r: "snd r = SQLITE_BUSY \<and> worker_db (fst r) = (worker_db e)\<lparr>begun := None, savept := None\<rparr>
      \<and> begun (state_db (fst r)) = Some s \<and> active (fst r) = active e
      \<and> block_height (fst r) = block_height e \<and> block_id (fst r) = block_id e"
    unfolding r_def store_block_def
    using assms(1,7,8,9,10,11,12)
    by (simp add: save_modified_pages_def save_pages_all [of sql] assms(13) update_pages_hash_list_def save_block_def
        commit_both_def sql_commit_def case_prod_beta Let_def same)
  have ids: "fst (snd (identify_block sql e hdr body)) = ab_header_id (active e)"
      "snd (snd (identify_block sql e hdr body)) = ab_body_id (active e)" using assms(5) by simp_all
  have cmp: "compare_modified_pages e0 (body_mod_pages body) = SQLITE_OK"
    using assms(6) by (simp add: compare_modified_pages_def same)
  have "aergolite_commit_block sql e hdr body votes = (aergolite_rollback_block (fst r), SQLITE_BUSY)"
    using assms(1-4) r unfolding aergolite_commit_block_def case_prod_beta Let_def ids e0_def [symmetric]
    by (simp add: same cmp r_def [symmetric])
  moreover have "ab_height (active (fst r)) > 0" using r assms(3) by simp
  ultimately show ?thesis using r
    by (simp add: rollback_block_dbs rollback_block_fields sql_rollback_def)
qed

text \<open>The block that was verified is the one the engine has open, so that its commit can only fail for
  reasons outside the program.\<close>

lemma verify_block_ids:
  assumes "aergolite_verify_block sql e hdr body = Some (e', Inr bid)" and "crc_ok (crc e)"
  shows "snd (identify_block sql e' hdr body) = (ab_header_id (active e'), ab_body_id (active e'))
     \<and> crc_ok (crc e')"
proof -
  have id: "snd (identify_block sql x hdr body) = (crc_spec (header_binn sql hdr), crc_spec (body_binn sql body))
      \<and> crc_ok (crc (fst (identify_block sql x hdr body)))" if "crc_ok (crc x)" for x
    using that crc32_ok [of "crc x" "Some (header_binn sql hdr)"]
      crc32_ok [of "fst (crc32 (crc x) (Some (header_binn sql hdr)))" "Some (body_binn sql body)"]
    by (simp add: identify_block_def case_prod_beta Let_def crc32_spec)
  have "identified sql e hdr body e'" using verify_block_OK [OF assms(1)] by blast
  with id [OF assms(2)] id [of e'] show ?thesis by (auto simp: identified_def)
qed

lemma verified_commits:
  assumes "aergolite_verify_block sql e hdr body = Some (e', Inr bid)" and "crc_ok (crc e)"
    and "begun (worker_db e) = Some w" and "begun (state_db e) = Some s" and "ab_height (active e) > 0"
    and "ab_height (active e) \<notin> row_height ` set (block_rows (content (state_db e)))" and "body_mod_pages body \<noteq> []"
    and "\<And>db cmd. worker_answer sql db cmd = SQLITE_OK" and "\<And>t cmd. state_answer sql t cmd = SQLITE_OK"
  shows "\<exists>e2. aergolite_commit_block sql e' hdr body votes = (e2, SQLITE_OK)"
proof -
  have v: "mod_pages e' = Some (collected sql e)" "frame_pages e e'" "ab_verify_ok (active e')" "txn_ids e \<noteq> None"
      "compare_modified_pages (e\<lparr>mod_pages := Some (collected sql e)\<rparr>) (body_mod_pages body) = SQLITE_OK"
      "snd (set_page_hashes (pages_hashes e) (collected sql e)) = SQLITE_OK"
    using verify_block_OK [OF assms(1)] by blast+
  note ids = verify_block_ids [OF assms(1,2)]
  define e0 where "e0 = fst (identify_block sql e' hdr body)"
  have e0: "e0 = e'\<lparr>crc := crc e0\<rparr>"
    by (simp add: e0_def identify_block_def case_prod_beta Let_def)
  have same: "mod_pages e0 = mod_pages e'" "active e0 = active e'" "pages_hashes e0 = pages_hashes e'"
      "worker_db e0 = worker_db e'" "state_db e0 = state_db e'"
    by (subst e0, simp)+
  have cmp: "compare_modified_pages e0 (body_mod_pages body) = SQLITE_OK"
    using v(1,5) by (simp add: compare_modified_pages_def same)
  have fr: "worker_db e' = worker_db e" "state_db e' = state_db e" "pages_hashes e' = pages_hashes e"
      "ab_height (active e') = ab_height (active e)" "txn_ids e' = txn_ids e" using v(2) by (simp_all add: frame_pages_def)
  have st: "snd (store_block sql e0 hdr body votes) = SQLITE_OK"
    unfolding store_block_def using assms(3-7) v(1,6)
    by (simp add: save_modified_pages_def save_pages_all [of sql] assms(8,9) update_pages_hash_list_def save_block_def
        commit_both_def sql_commit_def case_prod_beta Let_def same fr)
  have ids': "fst (snd (identify_block sql e' hdr body)) = ab_header_id (active e')"
      "snd (snd (identify_block sql e' hdr body)) = ab_body_id (active e')" using ids by simp_all
  have "snd (aergolite_commit_block sql e' hdr body votes) = SQLITE_OK"
    using st v assms(5) unfolding aergolite_commit_block_def case_prod_beta Let_def ids' e0_def [symmetric]
    by (simp add: same cmp fr)
  then show ?thesis by (metis prod.collapse)
qed

text \<open>C10: A block that was verified can be committed: when the two transactions are open, the state database
  has no block of that height, the block changes some page, and SQLite answers \<^verbatim>\<open>SQLITE_OK\<close>, then after
  \<^verbatim>\<open>aergolite_verify_block\<close> accepted a block, \<^verbatim>\<open>aergolite_commit_block\<close> of that block succeeds.\<close>

lemma verified_block_commits:
  assumes "aergolite_verify_block sql e hdr body = Some (e', Inr bid)" and "crc_ok (crc e)"
    and "begun (worker_db e) = Some w" and "begun (state_db e) = Some s" and "ab_height (active e) > 0"
    and "ab_height (active e) \<notin> row_height ` set (block_rows (content (state_db e)))" and "body_mod_pages body \<noteq> []"
    and "\<And>db cmd. worker_answer sql db cmd = SQLITE_OK" and "\<And>t cmd. state_answer sql t cmd = SQLITE_OK"
  shows "\<exists>e2. aergolite_commit_block sql e' hdr body votes = (e2, SQLITE_OK)"
  by (rule verified_commits [OF assms])


subsection \<open>Concrete blocks\<close>

text \<open>A database that is a number, counting the statements executed on it; its only page is the first.\<close>

definition example_sql :: "nat sqlite" where
  "example_sql = \<lparr>lib = example_secp, clock = Inr 5, header_binn = (\<lambda>_. []), body_binn = (\<lambda>_. []),
     sql_exec = (\<lambda>db _ _. (db + 1, SQLITE_OK)), sql_insert_node = (\<lambda>db _. (db + 1, SQLITE_OK)),
     sql_set_type = (\<lambda>db _ _. (db + 1, SQLITE_OK, 1)), sql_set_nonce = (\<lambda>db _ _. (db + 1, SQLITE_OK, 1)),
     sql_set_config = (\<lambda>db _ _. (db + 1, SQLITE_OK, 1)), nodes_table = (\<lambda>_. []),
     dirty_pages = (\<lambda>db. [(1, [of_nat db])]), page_size = 4096,
     pager_write = (\<lambda>_ _. SQLITE_OK), put_page = (\<lambda>db _ _. db + 1), get_page = (\<lambda>db _. Inr [of_nat db]), local_log = [],
     worker_answer = (\<lambda>_ _. SQLITE_OK), state_answer = (\<lambda>_ _. SQLITE_OK)\<rparr>"

definition example_engine :: "nat engine" where
  "example_engine = \<lparr>node = example_node, crc = \<lparr>crc_table_initialized = False, crc_table = []\<rparr>,
     worker_db = \<lparr>content = 7, begun = None, savept = None\<rparr>,
     state_db = \<lparr>content = \<lparr>page_state = [], block_rows = [], txn_rows = []\<rparr>, begun = None, savept = None\<rparr>,
     block_height = 1, block_id = replicate 32 4, active = no_block, pages_hashes = [], mod_pages = None,
     txn_ids = None, processed_local_txns = None, nodes_changed = False, config_changed = False,
     wal_consensus_empty = True, last_sent_nonce = 0, last_sent_frame = 0, fired = []\<rparr>"

text \<open>The engine in the middle of its second block, with one transaction executed.\<close>

definition example_open :: "nat engine" where
  "example_open = example_engine\<lparr>worker_db := \<lparr>content = 8, begun = Some 7, savept = None\<rparr>,
     state_db := (state_db example_engine)\<lparr>begun := Some (content (state_db example_engine))\<rparr>,
     active := no_block\<lparr>ab_height := 2, ab_prev_hash := replicate 32 4\<rparr>,
     mod_pages := Some [], txn_ids := Some [build_transaction_id 2 1]\<rparr>"

lemmas example_block_simps = example_sql_def example_engine_def example_open_def no_block_def

definition example_begun :: "nat engine" where
  "example_begun = fst (aergolite_begin_block example_sql example_engine)"

lemma example_begins: "aergolite_begin_block example_sql example_engine = (example_begun, SQLITE_OK)"
  by (simp add: prod_eq_iff example_begun_def)
    (simp add: aergolite_begin_block_def sql_begin_def example_block_simps Let_def)

definition example_write :: "binn list" where
  "example_write = [Binn_Int64 1, Binn_DateTime ''2020-01-01'', Binn_Str ''INSERT'']"

lemma example_executes:
  "\<exists>e2. execute_all example_sql [(2, 1, example_write)] example_begun = Some e2 \<and> content (worker_db e2) \<noteq> 7"
proof -
  have b: "example_begun = example_open\<lparr>worker_db := \<lparr>content = 7, begun = Some 7, savept = None\<rparr>, txn_ids := Some [],
      node := save_auth_nonces example_node\<rparr>"
    by (simp add: example_begun_def aergolite_begin_block_def sql_begin_def example_block_simps Let_def)
  have "\<exists>e2 rc. aergolite_execute_transaction example_sql example_begun 2 1 example_write = Some (e2, rc)
      \<and> content (worker_db e2) = 9"
    unfolding b
    by (simp add: aergolite_execute_transaction_def execute_transaction_def Let_def sql_savepoint_def
        example_write_def finish_transaction_def close_transaction_def add_txn_id_def to_lower_def
        save_transaction_def update_node_last_nonce_def sql_release_def starts_with_def
        update_auth_last_nonce_def save_auth_nonces_def example_node_def example_block_simps)
  then show ?thesis by auto
qed


lemma example_creates:
  "\<exists>e' hdr body bid. aergolite_create_block example_sql example_open = Some (e', Inr (2, hdr, body, bid))
     \<and> body_mod_pages body = [(1, 2, sha256 [8])]"
  by (simp add: aergolite_create_block_def collect_modified_pages_def log_modified_page_def calc_new_state_hash_def
      build_block_header_def Let_def aergolite_sign_def aergolite_sign_raw_def example_node_def example_secp_def
      serialize_modified_pages_def set_page_hash_def identify_block_def case_prod_beta example_block_simps)

lemma created_block_verifies_witness:
  "\<exists>eA' hdr body bid eB'. aergolite_create_block example_sql example_open = Some (eA', Inr (2, hdr, body, bid))
     \<and> aergolite_verify_block example_sql example_open hdr body = Some (eB', Inr bid)"
proof -
  obtain eA' hdr body bid where c: "aergolite_create_block example_sql example_open = Some (eA', Inr (2, hdr, body, bid))"
    using example_creates by blast
  have "\<exists>eB'. aergolite_verify_block example_sql example_open hdr body = Some (eB', Inr bid)"
    by (rule created_block_verifies [OF c, where auth = "example_auth 1 1"])
      (use example_key_pair [of "replicate 32 1"] in
        \<open>simp_all add: example_block_simps example_node_def example_auth_def aergolite_get_authorization_def\<close>)
  with c show ?thesis by blast
qed

lemma example_verifies:
  "\<exists>hdr body bid e'. aergolite_verify_block example_sql example_open hdr body = Some (e', Inr bid)
     \<and> body_mod_pages body = [(1, 2, sha256 [8])]"
proof -
  obtain eA' hdr body bid where c: "aergolite_create_block example_sql example_open = Some (eA', Inr (2, hdr, body, bid))"
      "body_mod_pages body = [(1, 2, sha256 [8])]"
    using example_creates by blast
  have "\<exists>eB'. aergolite_verify_block example_sql example_open hdr body = Some (eB', Inr bid)"
    by (rule created_verifies [OF c(1), where auth = "example_auth 1 1"])
      (use example_key_pair [of "replicate 32 1"] in
        \<open>simp_all add: example_block_simps example_node_def example_auth_def aergolite_get_authorization_def\<close>)
  with c show ?thesis by blast
qed

lemma example_ready:
  "crc_ok (crc example_open)" "begun (worker_db example_open) = Some 7"
  "begun (state_db example_open) = Some (content (state_db example_engine))" "ab_height (active example_open) = 2"
  "block_rows (content (state_db example_open)) = []"
  "worker_answer example_sql = (\<lambda>_ _. SQLITE_OK)" "state_answer example_sql = (\<lambda>_ _. SQLITE_OK)"
  by (simp_all add: example_block_simps crc_ok_def)

lemma verified_block_commits_witness:
  "\<exists>hdr body e' bid e2. aergolite_verify_block example_sql example_open hdr body = Some (e', Inr bid)
     \<and> aergolite_commit_block example_sql e' hdr body [] = (e2, SQLITE_OK)"
proof -
  obtain hdr body bid e' where v: "aergolite_verify_block example_sql example_open hdr body = Some (e', Inr bid)"
      "body_mod_pages body = [(1, 2, sha256 [8])]" using example_verifies by blast
  have "\<exists>e2. aergolite_commit_block example_sql e' hdr body [] = (e2, SQLITE_OK)"
    by (rule verified_block_commits [OF v(1) example_ready(1,2,3)]) (simp_all add: example_ready v)
  with v show ?thesis by blast
qed

lemma example_commits:
  "\<exists>hdr body e' bid e2. aergolite_verify_block example_sql example_open hdr body = Some (e', Inr bid)
     \<and> aergolite_commit_block example_sql e' hdr body [] = (e2, SQLITE_OK) \<and> body_mod_pages body = [(1, 2, sha256 [8])]"
proof -
  obtain hdr body bid e' where v: "aergolite_verify_block example_sql example_open hdr body = Some (e', Inr bid)"
      "body_mod_pages body = [(1, 2, sha256 [8])]" using example_verifies by blast
  have "\<exists>e2. aergolite_commit_block example_sql e' hdr body [] = (e2, SQLITE_OK)"
    by (rule verified_commits [OF v(1) example_ready(1,2,3)]) (simp_all add: example_ready v)
  with v show ?thesis by blast
qed

lemma applied_block_extends_chain_witness:
  "\<exists>hdr body e'. aergolite_apply_block example_sql example_open hdr body [] = Some (e', SQLITE_OK) \<and> block_height e' = 2"
proof -
  obtain hdr body e1 bid e' where v: "aergolite_verify_block example_sql example_open hdr body = Some (e1, Inr bid)"
      "aergolite_commit_block example_sql e1 hdr body [] = (e', SQLITE_OK)" using example_commits by blast
  have a: "aergolite_apply_block example_sql example_open hdr body [] = Some (e', SQLITE_OK)"
    by (simp add: aergolite_apply_block_def v)
  have "ab_height (active example_open) = block_height example_open + 1" by (simp add: example_block_simps)
  from applied_block_extends_chain [OF a this] have "block_height e' = block_height example_open + 1" by auto
  moreover have "block_height example_open = 1" by (simp add: example_block_simps)
  ultimately show ?thesis using a by auto
qed

lemma commit_keeps_page_table_witness:
  "\<exists>hdr body e1 e2. aergolite_commit_block example_sql e1 hdr body [] = (e2, SQLITE_OK)
     \<and> load_pages_hash_list e2 = (e2, SQLITE_OK)"
proof -
  obtain hdr body e1 bid e2 where v: "aergolite_verify_block example_sql example_open hdr body = Some (e1, Inr bid)"
      "aergolite_commit_block example_sql e1 hdr body [] = (e2, SQLITE_OK)" "body_mod_pages body = [(1, 2, sha256 [8])]"
    using example_commits by blast
  have fr: "frame_pages example_open e1" using verify_block_OK [OF v(1)] by blast
  have "good_rows (page_state (content (state_db e2))) \<and> load_pages_hash_list e2 = (e2, SQLITE_OK)"
    by (rule commit_keeps_page_table [OF v(2)])
      (use fr in \<open>simp_all add: frame_pages_def example_block_simps good_rows_def load_pages_hash_list_def v\<close>)
  with v show ?thesis by blast
qed

text \<open>An engine ready to commit, on a state database that will not.\<close>

definition example_busy :: "nat sqlite" where
  "example_busy = example_sql\<lparr>state_answer := (\<lambda>t cmd. if cmd = ''COMMIT'' then SQLITE_BUSY else SQLITE_OK)\<rparr>"

definition example_ready_block :: "nat engine" where
  "example_ready_block = example_open\<lparr>active := (active example_open)\<lparr>ab_verify_ok := True\<rparr>, mod_pages := Some [(1, [])]\<rparr>"

lemma commit_not_atomic_witness:
  "\<exists>e'. aergolite_commit_block example_busy example_ready_block \<lparr>header_data = None, header_sig = None\<rparr>
        \<lparr>body_mod_pages = [(1, 2, [])], body_txn_ids = []\<rparr> [] = (e', SQLITE_BUSY)
     \<and> content (worker_db e') = 8 \<and> block_height e' = 1"
proof -
  have "\<exists>e'. aergolite_commit_block example_busy example_ready_block \<lparr>header_data = None, header_sig = None\<rparr>
        \<lparr>body_mod_pages = [(1, 2, [])], body_txn_ids = []\<rparr> [] = (e', SQLITE_BUSY)
     \<and> content (worker_db e') = content (worker_db example_ready_block) \<and> begun (worker_db e') = None
     \<and> content (state_db e') = content (state_db example_engine) \<and> begun (state_db e') = None
     \<and> block_height e' = block_height example_ready_block \<and> block_id e' = block_id example_ready_block"
    by (rule commit_not_atomic [where ps = "[(1, [])]" and w = 7])
      (simp_all add: example_ready_block_def example_busy_def example_block_simps identify_block_def crc32_def
        compare_modified_pages_def set_page_hash_def)
  then show ?thesis by (auto simp: example_ready_block_def example_block_simps)
qed

end
