(* ===== verification/Plugin_State.thy ===== *)
theory Plugin_State
  imports Block_Core "HOL-Library.Monad_Syntax"
begin

section \<open>The consensus plugin: its state, its messages, its blocks\<close>

text \<open>
  The data of \<^verbatim>\<open>plugins/no-leader\<close>: \<^verbatim>\<open>struct plugin\<close> with its lists of peers, requests, transactions,
  blocks and votes, the messages that nodes exchange, and the small functions that all parts of the
  plugin share. The plugin runs on one thread with an event loop; each handler is a function from the
  state to the state, in the option type where the C code may follow a null pointer.

  Objects that the code compares by pointer (blocks, requests, connections) carry an address. A list
  of C is a list here (\<^verbatim>\<open>llist_add\<close> appends, \<^verbatim>\<open>llist_remove\<close> removes the object of that address); that
  the operations of \<open>Linked_List\<close> do this is proved there. What lies outside the repository is a
  parameter: the VRF library, the write to a socket, the random numbers, and the floating-point scaling.
\<close>

subsection \<open>Messages\<close>

text \<open>A message is a map from parameters to values; the numbers are those of \<^verbatim>\<open>no-leader.h\<close>.\<close>

datatype param =
    PLUGIN_CMD | PLUGIN_VERSION | PLUGIN_PORT | PLUGIN_NODE_ID | PLUGIN_NODE_INFO | PLUGIN_CPU | PLUGIN_OS
  | PLUGIN_HOSTNAME | PLUGIN_APP | PLUGIN_RANDOM | PLUGIN_PUBKEY | PLUGIN_SIGNATURE | PLUGIN_TID | PLUGIN_NONCE
  | PLUGIN_SQL_CMDS | PLUGIN_PGNO | PLUGIN_DBPAGE | PLUGIN_STATE | PLUGIN_HEIGHT | PLUGIN_HEADER | PLUGIN_BODY
  | PLUGIN_MOD_PAGES | PLUGIN_HASH | PLUGIN_ROUND | PLUGIN_VOTES | PLUGIN_PROOF | PLUGIN_AUTHORIZATION | PLUGIN_PEERS | PLUGIN_TEXT

text \<open>A header is stored either as a map or as a blob that holds its bytes.\<close>

datatype val =
    V_Int int | V_Str string | V_Blob bytes
  | V_Header_Blob header | V_Header_Map header | V_Body block_body
  | V_Votes "vote_item list" | V_Pages "page_row list" | V_Log "binn list" | V_Logs "binn list list"
  | V_Peers "(string \<times> int) list"

type_synonym message = "param \<rightharpoonup> val"

abbreviation PLUGIN_CMD_ID :: int where "PLUGIN_CMD_ID \<equiv> 0xCD01"
abbreviation PLUGIN_ID_CONFLICT :: int where "PLUGIN_ID_CONFLICT \<equiv> 0xCD04"
abbreviation PLUGIN_GET_PEERS :: int where "PLUGIN_GET_PEERS \<equiv> 0xCD11"
abbreviation PLUGIN_PEER_LIST :: int where "PLUGIN_PEER_LIST \<equiv> 0xCD12"
abbreviation PLUGIN_CMD_PING :: int where "PLUGIN_CMD_PING \<equiv> 0xCD21"
abbreviation PLUGIN_CMD_PONG :: int where "PLUGIN_CMD_PONG \<equiv> 0xCD22"
abbreviation PLUGIN_BUSY :: int where "PLUGIN_BUSY \<equiv> 0xCD23"
abbreviation PLUGIN_REQUEST_STATE_DIFF :: int where "PLUGIN_REQUEST_STATE_DIFF \<equiv> 0xDB01"
abbreviation PLUGIN_UPTODATE :: int where "PLUGIN_UPTODATE \<equiv> 0xDB02"
abbreviation PLUGIN_DB_PAGE :: int where "PLUGIN_DB_PAGE \<equiv> 0xDB03"
abbreviation PLUGIN_APPLY_UPDATE :: int where "PLUGIN_APPLY_UPDATE \<equiv> 0xDB04"
abbreviation PLUGIN_NEW_TRANSACTION :: int where "PLUGIN_NEW_TRANSACTION \<equiv> 0x7001"
abbreviation PLUGIN_GET_MEMPOOL :: int where "PLUGIN_GET_MEMPOOL \<equiv> 0x7011"
abbreviation PLUGIN_GET_TRANSACTION :: int where "PLUGIN_GET_TRANSACTION \<equiv> 0x7031"
abbreviation PLUGIN_REQUESTED_TRANSACTION :: int where "PLUGIN_REQUESTED_TRANSACTION \<equiv> 0x7032"
abbreviation PLUGIN_TXN_NOTFOUND :: int where "PLUGIN_TXN_NOTFOUND \<equiv> 0x7033"
abbreviation PLUGIN_NEW_BLOCK :: int where "PLUGIN_NEW_BLOCK \<equiv> 0xB021"
abbreviation PLUGIN_BLOCK_VOTE :: int where "PLUGIN_BLOCK_VOTE \<equiv> 0xB022"
abbreviation PLUGIN_GET_BLOCK :: int where "PLUGIN_GET_BLOCK \<equiv> 0xB041"
abbreviation PLUGIN_REQUESTED_BLOCK :: int where "PLUGIN_REQUESTED_BLOCK \<equiv> 0xB042"
abbreviation PLUGIN_BLOCK_NOTFOUND :: int where "PLUGIN_BLOCK_NOTFOUND \<equiv> 0xB043"
abbreviation PLUGIN_AUTHORIZATIONS :: int where "PLUGIN_AUTHORIZATIONS \<equiv> 0xA001"

text \<open>Reading a parameter that is absent, or has another type, gives zero or a null pointer.\<close>

definition msg_int :: "message \<Rightarrow> param \<Rightarrow> int" where
  "msg_int m k = (case m k of Some (V_Int i) \<Rightarrow> i | _ \<Rightarrow> 0)"

definition msg_str :: "message \<Rightarrow> param \<Rightarrow> string option" where
  "msg_str m k = (case m k of Some (V_Str s) \<Rightarrow> Some s | _ \<Rightarrow> None)"

definition msg_blob :: "message \<Rightarrow> param \<Rightarrow> bytes option" where
  "msg_blob m k = (case m k of Some (V_Blob b) \<Rightarrow> Some b | _ \<Rightarrow> None)"

definition msg_header_blob :: "message \<Rightarrow> param \<Rightarrow> header option" where
  "msg_header_blob m k = (case m k of Some (V_Header_Blob h) \<Rightarrow> Some h | _ \<Rightarrow> None)"

definition msg_header_map :: "message \<Rightarrow> param \<Rightarrow> header option" where
  "msg_header_map m k = (case m k of Some (V_Header_Map h) \<Rightarrow> Some h | _ \<Rightarrow> None)"

definition msg_body :: "message \<Rightarrow> param \<Rightarrow> block_body option" where
  "msg_body m k = (case m k of Some (V_Body b) \<Rightarrow> Some b | _ \<Rightarrow> None)"

definition msg_votes :: "message \<Rightarrow> param \<Rightarrow> vote_item list option" where
  "msg_votes m k = (case m k of Some (V_Votes v) \<Rightarrow> Some v | _ \<Rightarrow> None)"

definition msg_pages :: "message \<Rightarrow> param \<Rightarrow> page_row list option" where
  "msg_pages m k = (case m k of Some (V_Pages v) \<Rightarrow> Some v | _ \<Rightarrow> None)"

definition msg_log :: "message \<Rightarrow> param \<Rightarrow> binn list option" where
  "msg_log m k = (case m k of Some (V_Log l) \<Rightarrow> Some l | _ \<Rightarrow> None)"

definition msg_logs :: "message \<Rightarrow> param \<Rightarrow> binn list list option" where
  "msg_logs m k = (case m k of Some (V_Logs l) \<Rightarrow> Some l | _ \<Rightarrow> None)"

lemmas msg_defs = msg_int_def msg_str_def msg_blob_def msg_header_blob_def msg_header_map_def msg_body_def
  msg_votes_def msg_pages_def msg_log_def msg_logs_def

subsection \<open>State\<close>

text \<open>The states of a connection and of the synchronisation, and the timers of the event loop.\<close>

datatype db_state =
    DB_STATE_UNKNOWN | DB_STATE_SYNCHRONIZING | DB_STATE_IN_SYNC | DB_STATE_LOCAL_CHANGES | DB_STATE_OUTDATED
  | DB_STATE_ERROR

datatype timer =
    State_Update_Timer | Process_Transactions_Timer | New_Block_Timer | Block_Wait_Timer
  | After_Connections_Timer | Reconnect_Timer | Core_Timer

record tcp_address =
  tcp_host :: string
  tcp_port :: int
  is_broadcast :: bool
  reconnect_interval :: int

record peer =
  conn :: nat
  peer_id :: int
  peer_pubkey :: bytes
  is_authorized :: bool
  peer_is_full :: bool
  authorization_sent :: bool
  conn_state :: int
  host :: string
  device :: "string list"
  is_closing :: bool
  remote_port :: int
  bind_port :: int
  node_info :: "string option"
  conn_id :: "(int \<rightharpoonup> u64)"
  id_conflict :: "(nat \<times> nat) option"

record transaction =
  t_node_id :: int
  t_nonce :: int
  t_id :: u64
  t_datetime :: string
  t_log :: "binn list"
  t_block_height :: int

record block_vote =
  v_node_id :: int
  v_round :: int
  v_height :: int
  v_block_id :: bytes
  v_sig :: bytes

text \<open>\<open>temp_votes\<close> and \<open>num_votes\<close> are arrays indexed by the round; a null body is \<^term>\<open>None\<close>. In the
  serialised votes the round is an optional third element that nothing reads; it is left out.\<close>

record block =
  b_addr :: nat
  b_height :: int
  b_id :: bytes
  b_header :: header
  b_body :: "block_body option"
  b_votes :: "vote_item list"
  b_vrf_proof :: bytes
  b_vrf_output :: bytes
  wait_time :: nat
  temp_votes :: "int \<Rightarrow> block_vote list"
  num_votes :: "int \<Rightarrow> int"
  downloading_txns :: bool

text \<open>\<open>r_timer\<close> is the interval of the timer of the request, once started.\<close>

record request =
  r_addr :: nat
  r_block_height :: int
  r_transaction_id :: u64
  r_height :: int
  r_seq :: int
  contacted_nodes :: "int list"
  r_timer :: "nat option"

record 'db plugin =
  core :: "'db engine"
  my_id :: int
  my_pubkey :: bytes
  my_bind_port :: int
  discovery :: "tcp_address list"
  reconnect_timer_enabled :: bool
  peers :: "peer list"
  total_authorized_nodes :: nat
  active_authorized_nodes :: nat
  my_is_authorized :: bool
  my_is_full :: bool
  requests :: "request list"
  mempool :: "transaction list"
  special_txn :: "binn list list"
  nonces :: "(int \<times> int) list option"
  current_block :: "block option"
  new_blocks :: "block list"
  open_block :: "nat option"
  block_votes :: "block_vote list"
  last_created_block_height :: int
  last_vote_height :: int
  last_vote_round :: int
  block_interval :: nat
  block_vrf_proof :: bytes
  block_vrf_output :: bytes
  timers :: "timer \<Rightarrow> nat option"
  is_updating_state :: bool
  contacted_node_id :: int
  state_update_contacted_nodes :: "int list option"
  state_update_failed_nodes :: "int list option"
  downloading_block_bodies :: bool
  sync_down_state :: db_state
  sync_up_state :: db_state
  next_addr :: nat
  drawn :: nat
  sent :: "(nat \<times> message) list"

text \<open>
  \<open>vrf_prove\<close> gives the proof for a message, \<open>vrf_proof_to_hash\<close> its output, \<open>vrf_verify\<close> the output when
  the proof is valid; \<open>scale n d l\<close> is the conversion to an unsigned integer of \<^verbatim>\<open>n / 0xFFFFFFFF * d + l\<close>
  in double precision; \<open>write_ok\<close> says whether the socket takes the message; \<open>randomness\<close> is the
  sequence of random numbers; \<open>local_ip\<close> says whether an address is one of this device, \<open>numeric_ip\<close> whether it needs
  no name resolution, \<open>connect_ok\<close> whether a connection attempt can start; \<open>device_info\<close> (processor, system, host name, application) and \<open>own_info\<close>
  describe this device.
\<close>

record net =
  vrf_prove :: "bytes \<Rightarrow> string \<Rightarrow> bytes option"
  vrf_proof_to_hash :: "bytes \<Rightarrow> bytes option"
  vrf_verify :: "bytes \<Rightarrow> bytes \<Rightarrow> string \<Rightarrow> bytes option"
  scale :: "nat \<Rightarrow> nat \<Rightarrow> nat \<Rightarrow> nat"
  write_ok :: "nat \<Rightarrow> message \<Rightarrow> bool"
  randomness :: "nat \<Rightarrow> u32"
  local_ip :: "string \<Rightarrow> bool"
  numeric_ip :: "string \<Rightarrow> bool"
  connect_ok :: "nat \<Rightarrow> bool"
  device_info :: "string list"
  own_info :: "string option"

abbreviation this_node :: "'db plugin \<Rightarrow> aergolite" where
  "this_node p \<equiv> node (core p)"

definition current_height :: "'db plugin \<Rightarrow> int" where
  "current_height p = (case current_block p of None \<Rightarrow> 0 | Some b \<Rightarrow> b_height b)"

definition timer_active :: "'db plugin \<Rightarrow> timer \<Rightarrow> bool" where
  "timer_active p t \<longleftrightarrow> timers p t \<noteq> None"

definition timer_start :: "'db plugin \<Rightarrow> timer \<Rightarrow> nat \<Rightarrow> 'db plugin" where
  "timer_start p t interval = p\<lparr>timers := (timers p)(t := Some interval)\<rparr>"

definition timer_stop :: "'db plugin \<Rightarrow> timer \<Rightarrow> 'db plugin" where
  "timer_stop p t = p\<lparr>timers := (timers p)(t := None)\<rparr>"

definition random_number :: "net \<Rightarrow> 'db plugin \<Rightarrow> nat \<Rightarrow> nat \<Rightarrow> 'db plugin \<times> nat" where
  "random_number net p lower upper =
     (p\<lparr>drawn := drawn p + 1\<rparr>, unat (randomness net (drawn p)) mod (upper - lower + 1) + lower)"

subsection \<open>Peers\<close>

text \<open>\<^verbatim>\<open>node_from_socket\<close>, and the update of one peer.\<close>

definition node_from_socket :: "'db plugin \<Rightarrow> nat \<Rightarrow> peer option" where
  "node_from_socket p c = List.find (\<lambda>n. conn n = c) (peers p)"

definition update_peer :: "'db plugin \<Rightarrow> nat \<Rightarrow> (peer \<Rightarrow> peer) \<Rightarrow> 'db plugin" where
  "update_peer p c f = p\<lparr>peers := map (\<lambda>n. if conn n = c then f n else n) (peers p)\<rparr>"

text \<open>The states \<^verbatim>\<open>STATE_CONN_NONE\<close>, \<^verbatim>\<open>STATE_CONN_LOST\<close> and \<^verbatim>\<open>STATE_ERROR\<close> do not send.\<close>

definition send_peer_message :: "net \<Rightarrow> 'db plugin \<Rightarrow> peer \<Rightarrow> message \<Rightarrow> 'db plugin \<times> bool" where
  "send_peer_message net p n m =
     (if is_closing n then (p, False)
      else if conn_state n \<in> {0, 4, 7} then (p, False)
      else if write_ok net (conn n) m then (p\<lparr>sent := sent p @ [(conn n, m)]\<rparr>, True)
      else (p, False))"

definition disconnect_peer :: "'db plugin \<Rightarrow> nat \<Rightarrow> 'db plugin" where
  "disconnect_peer p c = update_peer p c (\<lambda>n. n\<lparr>is_closing := True\<rparr>)"

text \<open>The loop over the authorized peers that ends every broadcast, and the one over a list of messages.\<close>

fun send_to_authorized :: "net \<Rightarrow> message \<Rightarrow> peer list \<Rightarrow> 'db plugin \<Rightarrow> 'db plugin" where
  "send_to_authorized net m [] p = p"
| "send_to_authorized net m (n # ns) p =
     send_to_authorized net m ns (if is_authorized n then fst (send_peer_message net p n m) else p)"

fun send_all :: "net \<Rightarrow> peer \<Rightarrow> message list \<Rightarrow> 'db plugin \<Rightarrow> 'db plugin" where
  "send_all net n [] p = p"
| "send_all net n (m # ms) p = send_all net n ms (fst (send_peer_message net p n m))"

definition count_authorized_nodes :: "'db plugin \<Rightarrow> 'db plugin" where
  "count_authorized_nodes p =
     p\<lparr>total_authorized_nodes := aergolite_num_authorized_nodes (this_node p) False,
       active_authorized_nodes := aergolite_num_authorized_nodes (this_node p) True\<rparr>"

text \<open>\<^verbatim>\<open>plugin_update_nodes_types\<close>: the first peer with the id, or else this node.\<close>

fun set_first_type :: "int \<Rightarrow> bool \<Rightarrow> peer list \<Rightarrow> peer list option" where
  "set_first_type nid full [] = None"
| "set_first_type nid full (n # ns) =
     (if peer_id n = nid then Some (n\<lparr>peer_is_full := full\<rparr> # ns) else map_option ((#) n) (set_first_type nid full ns))"

definition plugin_update_nodes_types_cb :: "nodeauth \<Rightarrow> 'db plugin \<Rightarrow> 'db plugin" where
  "plugin_update_nodes_types_cb auth p =
     (case set_first_type (node_id auth) (is_full_node auth) (peers p) of
        Some ns \<Rightarrow> p\<lparr>peers := ns\<rparr>
      | None \<Rightarrow> if my_id p = node_id auth then p\<lparr>my_is_full := is_full_node auth\<rparr> else p)"

definition plugin_update_nodes_types :: "'db plugin \<Rightarrow> 'db plugin" where
  "plugin_update_nodes_types p = fold plugin_update_nodes_types_cb (authorizations (this_node p)) p"

definition reset_node_state :: "'db plugin \<Rightarrow> 'db plugin" where
  "reset_node_state p =
     (let p = (if sync_down_state p = DB_STATE_SYNCHRONIZING \<or> sync_down_state p = DB_STATE_IN_SYNC
               then p\<lparr>sync_down_state := DB_STATE_UNKNOWN\<rparr> else p)
      in if sync_up_state p = DB_STATE_SYNCHRONIZING then p\<lparr>sync_up_state := DB_STATE_LOCAL_CHANGES\<rparr> else p)"

subsection \<open>Lists of blocks\<close>

text \<open>\<^verbatim>\<open>block_from\<close> follows a pointer into \<^verbatim>\<open>new_blocks\<close>.\<close>

definition block_from :: "'db plugin \<Rightarrow> nat \<Rightarrow> block option" where
  "block_from p a = List.find (\<lambda>b. b_addr b = a) (new_blocks p)"

definition update_block :: "'db plugin \<Rightarrow> nat \<Rightarrow> (block \<Rightarrow> block) \<Rightarrow> 'db plugin" where
  "update_block p a f = p\<lparr>new_blocks := map (\<lambda>b. if b_addr b = a then f b else b) (new_blocks p)\<rparr>"

definition remove_block :: "'db plugin \<Rightarrow> nat \<Rightarrow> 'db plugin" where
  "remove_block p a = p\<lparr>new_blocks := filter (\<lambda>b. b_addr b \<noteq> a) (new_blocks p)\<rparr>"

definition discard_new_blocks :: "'db plugin \<Rightarrow> 'db plugin" where
  "discard_new_blocks p = p\<lparr>new_blocks := []\<rparr>"

text \<open>The loop starts again after every removal, and so removes all of them.\<close>

definition discard_uncommitted_blocks :: "'db plugin \<Rightarrow> 'db plugin" where
  "discard_uncommitted_blocks p = p\<lparr>new_blocks := filter (\<lambda>b. \<not> b_height b \<le> current_height p) (new_blocks p)\<rparr>"

text \<open>The ids that \<^verbatim>\<open>binn_map_list(body, BODY_TXN_IDS)\<close> iterates over; a null body has none.\<close>

definition block_txn_ids :: "block \<Rightarrow> u64 list" where
  "block_txn_ids b = (case b_body b of None \<Rightarrow> [] | Some body \<Rightarrow> body_txn_ids body)"

definition rollback_block :: "'db plugin \<Rightarrow> 'db plugin" where
  "rollback_block p = p\<lparr>core := aergolite_rollback_block (core p), open_block := None\<rparr>"

end
