(* ===== verification/Mempool.thy ===== *)
theory Mempool
  imports Plugin_State
begin

section \<open>Transactions waiting for a block\<close>

text \<open>
  The mempool of \<^verbatim>\<open>transactions.c\<close>: the list of the transactions that are known and not yet in an old
  block, and the array of the last nonce of each node that the creation of a block uses. A transaction
  enters when it verifies and its nonce is above the last one of its node; it stays until two blocks
  after the one that included it, to answer the requests of other nodes.
\<close>

subsection \<open>Lookup and removal\<close>

definition find_mempool :: "'db plugin \<Rightarrow> u64 \<Rightarrow> transaction option" where
  "find_mempool p tid = List.find (\<lambda>t. t_id t = tid) (mempool p)"

text \<open>\<^verbatim>\<open>discard_mempool_transaction\<close> on the first transaction of the list that has the property.\<close>

fun discard_first :: "(transaction \<Rightarrow> bool) \<Rightarrow> transaction list \<Rightarrow> transaction list" where
  "discard_first P [] = []"
| "discard_first P (t # ts) = (if P t then ts else t # discard_first P ts)"

text \<open>The loop starts again after every removal, and so removes all of them.\<close>

definition check_mempool_transaction_cb :: "nodeauth \<Rightarrow> 'db plugin \<Rightarrow> 'db plugin" where
  "check_mempool_transaction_cb auth p =
     p\<lparr>mempool := filter (\<lambda>t. \<not> (t_node_id t = node_id auth \<and> t_nonce t \<le> last_nonce auth \<and> t_block_height t = 0))
                    (mempool p)\<rparr>"

definition check_mempool_transactions :: "'db plugin \<Rightarrow> 'db plugin" where
  "check_mempool_transactions p = fold check_mempool_transaction_cb (authorizations (this_node p)) p"

definition count_mempool_unused_txns :: "'db plugin \<Rightarrow> nat" where
  "count_mempool_unused_txns p = length (filter (\<lambda>t. t_block_height t = 0) (mempool p))"

subsection \<open>Storing a transaction\<close>

text \<open>The transaction that is stored or was already there.\<close>

definition store_transaction_on_mempool ::
  "'db sqlite \<Rightarrow> 'db plugin \<Rightarrow> int \<Rightarrow> int \<Rightarrow> binn list \<Rightarrow> ('db plugin \<times> rc \<times> transaction option) option" where
  "store_transaction_on_mempool sql p nid nonce log =
     (let tid = build_transaction_id nid nonce in
      case find_mempool p tid of
        Some txn \<Rightarrow> Some (p, SQLITE_EXISTS, Some txn)
      | None \<Rightarrow>
          (case aergolite_get_authorization (this_node p) nid of
             Inl rc \<Rightarrow> Some (p, rc, None)
           | Inr auth \<Rightarrow>
               if nonce \<le> last_nonce auth then Some (p, SQLITE_INVALID, None)
               else do {
                 res \<leftarrow> aergolite_verify_transaction (lib sql) (this_node p) nid log;
                 case res of
                   Inl rc \<Rightarrow> Some (p, rc, None)
                 | Inr (tnonce, datetime) \<Rightarrow>
                     if tnonce \<noteq> nonce then Some (p, SQLITE_INVALID, None)
                     else let txn = \<lparr>t_node_id = nid, t_nonce = nonce, t_id = tid, t_datetime = datetime,
                                    t_log = log, t_block_height = 0\<rparr> in
                          Some (p\<lparr>mempool := mempool p @ [txn]\<rparr>, SQLITE_OK, Some txn)
               }))"

subsection \<open>The array of last nonces\<close>

fun set_last_nonce :: "int \<Rightarrow> int \<Rightarrow> (int \<times> int) list \<Rightarrow> (int \<times> int) list" where
  "set_last_nonce nid nonce [] = [(nid, nonce)]"
| "set_last_nonce nid nonce ((i, n) # items) =
     (if i = nid then (i, nonce) # items else (i, n) # set_last_nonce nid nonce items)"

definition update_last_nonce_array :: "'db plugin \<Rightarrow> int \<Rightarrow> int \<Rightarrow> 'db plugin" where
  "update_last_nonce_array p nid nonce =
     p\<lparr>nonces := Some (set_last_nonce nid nonce (case nonces p of None \<Rightarrow> [] | Some l \<Rightarrow> l))\<rparr>"

definition build_last_nonce_array_cb :: "nodeauth \<Rightarrow> 'db plugin \<Rightarrow> 'db plugin" where
  "build_last_nonce_array_cb auth p =
     (if list_ex (\<lambda>t. t_node_id t = node_id auth \<and> t_block_height t = 0) (mempool p)
      then update_last_nonce_array p (node_id auth) (last_nonce auth) else p)"

definition build_last_nonce_array :: "'db plugin \<Rightarrow> 'db plugin" where
  "build_last_nonce_array p =
     fold build_last_nonce_array_cb (authorizations (this_node p)) (p\<lparr>nonces := None\<rparr>)"

text \<open>A node that the array does not have may start with nonce one.\<close>

definition is_next_nonce :: "'db plugin \<Rightarrow> int \<Rightarrow> int \<Rightarrow> bool" where
  "is_next_nonce p nid nonce =
     (let items = (case nonces p of None \<Rightarrow> [] | Some l \<Rightarrow> l) in
      if list_ex (\<lambda>(i, n). i = nid \<and> nonce = n + 1) items then True
      else \<not> list_ex (\<lambda>(i, n). i = nid) items \<and> nonce = 1)"

subsection \<open>Sending transactions\<close>

text \<open>The message has no log when the pointer is null.\<close>

definition txn_message :: "int \<Rightarrow> int \<Rightarrow> int \<Rightarrow> binn list option \<Rightarrow> message" where
  "txn_message cmd nid nonce log =
     [PLUGIN_CMD \<mapsto> V_Int cmd, PLUGIN_NODE_ID \<mapsto> V_Int nid, PLUGIN_NONCE \<mapsto> V_Int nonce]
        (PLUGIN_SQL_CMDS := map_option V_Log log)"

text \<open>\<^verbatim>\<open>tx1\<close> stays zero when the query of \<^verbatim>\<open>aergolite_get_transaction\<close> has no row.\<close>

definition on_get_transaction :: "net \<Rightarrow> 'db plugin \<Rightarrow> peer \<Rightarrow> message \<Rightarrow> 'db plugin" where
  "on_get_transaction net p n msg =
     (let tid = word_of_int (msg_int msg PLUGIN_TID);
          found = (\<lambda>nid nonce log. fst (send_peer_message net p n (txn_message PLUGIN_REQUESTED_TRANSACTION nid nonce log)));
          res = (case find_mempool p tid of
                   Some txn \<Rightarrow> Inr (t_node_id txn, t_nonce txn, Some (t_log txn))
                 | None \<Rightarrow>
                     if my_is_full p then
                       (case aergolite_get_transaction (core p) tid of
                          Inl rc \<Rightarrow> Inl rc
                        | Inr None \<Rightarrow> Inr (0, 0, None)
                        | Inr (Some row) \<Rightarrow> Inr (txn_node_id row, txn_nonce row, Some (txn_log row)))
                     else Inl SQLITE_NOTFOUND)
      in case res of
           Inr (nid, nonce, log) \<Rightarrow> found nid nonce log
         | Inl rc \<Rightarrow> if rc = SQLITE_NOTFOUND
                     then fst (send_peer_message net p n [PLUGIN_CMD \<mapsto> V_Int PLUGIN_TXN_NOTFOUND]) else p)"

definition new_txn_message :: "transaction \<Rightarrow> message" where
  "new_txn_message txn = txn_message PLUGIN_NEW_TRANSACTION (t_node_id txn) (t_nonce txn) (Some (t_log txn))"

definition send_mempool_transactions :: "net \<Rightarrow> 'db plugin \<Rightarrow> peer \<Rightarrow> 'db plugin" where
  "send_mempool_transactions net p n = send_all net n (map new_txn_message (mempool p)) p"

definition on_get_mempool_transactions :: "net \<Rightarrow> 'db plugin \<Rightarrow> peer \<Rightarrow> message \<Rightarrow> 'db plugin" where
  "on_get_mempool_transactions net p n msg = send_mempool_transactions net p n"

definition broadcast_transaction :: "net \<Rightarrow> 'db plugin \<Rightarrow> transaction \<Rightarrow> 'db plugin \<times> rc" where
  "broadcast_transaction net p txn =
     (if peers p = [] then (p, SQLITE_ERROR)
      else let p = p\<lparr>sync_up_state := DB_STATE_SYNCHRONIZING\<rparr> in
           (send_to_authorized net (new_txn_message txn) (peers p) p, SQLITE_OK))"

end
