(* ===== verification/Block_Producer.thy ===== *)
theory Block_Producer
  imports Mempool
begin

section \<open>Who may create a block, and when\<close>

text \<open>
  \<^verbatim>\<open>block_producer.c\<close> and the part of \<^verbatim>\<open>consensus.c\<close> that builds a block: the wait interval that a node
  derives from the output of its verifiable random function, the conditions for starting the timer,
  and the creation of the block from the transactions of the mempool.
\<close>

subsection \<open>Wait intervals\<close>

text \<open>The random number is read from bytes 10 to 13 of the output, little-endian; the bounds are unsigned
  32-bit integers.\<close>

definition output_number :: "bytes \<Rightarrow> nat" where
  "output_number vrf_output =
     unat (vrf_output ! 10) + 2 ^ 8 * unat (vrf_output ! 11) + 2 ^ 16 * unat (vrf_output ! 12)
       + 2 ^ 24 * unat (vrf_output ! 13)"

definition calculate_wait_interval :: "net \<Rightarrow> bytes \<Rightarrow> nat \<Rightarrow> nat \<Rightarrow> nat" where
  "calculate_wait_interval net vrf_output total_nodes interval =
     (let lower = interval div 10; upper = interval div 2 * total_nodes in
      scale net (output_number vrf_output) (unat (word_of_nat upper - word_of_nat lower :: u32)) lower)"

definition block_seed :: "int \<Rightarrow> string" where
  "block_seed height = ''block'' @ int_dec height @ ''production''"

definition calculate_node_wait_interval :: "net \<Rightarrow> 'db plugin \<Rightarrow> int \<Rightarrow> 'db plugin \<times> nat" where
  "calculate_node_wait_interval net p height =
     (case vrf_prove net (privkey (this_node p)) (block_seed height) of
        None \<Rightarrow> (p, 0x7FFFFFFF)
      | Some proof_bytes \<Rightarrow>
          (case vrf_proof_to_hash net proof_bytes of
             None \<Rightarrow> (p, 0x7FFFFFFF)
           | Some output \<Rightarrow>
               (p\<lparr>block_vrf_proof := proof_bytes, block_vrf_output := output\<rparr>,
                calculate_wait_interval net output (total_authorized_nodes p) (block_interval p))))"

definition get_block_wait_interval :: "'db plugin \<Rightarrow> nat" where
  "get_block_wait_interval p = block_interval p div 2"

definition verify_proof :: "net \<Rightarrow> 'db plugin \<Rightarrow> int \<Rightarrow> int \<Rightarrow> bytes \<Rightarrow> rc + bytes" where
  "verify_proof net p height nid proof_bytes =
     (case aergolite_get_authorization (this_node p) nid of
        Inl rc \<Rightarrow> Inl rc
      | Inr auth \<Rightarrow>
          (case vrf_verify net proof_bytes (pk auth) (block_seed height) of
             None \<Rightarrow> Inl SQLITE_INVALID
           | Some output \<Rightarrow> Inr output))"

subsection \<open>Conditions\<close>

definition has_nodes_for_consensus :: "'db plugin \<Rightarrow> int \<Rightarrow> bool" where
  "has_nodes_for_consensus p height =
     (if \<not> can_vote_on_block (this_node p) (my_id p) height then False
      else let count = 1 + length (filter (\<lambda>n. can_vote_on_block (this_node p) (peer_id n) height) (peers p)) in
           \<not> count < majority (active_authorized_nodes p))"

definition can_create_block :: "'db plugin \<Rightarrow> 'db plugin \<times> bool" where
  "can_create_block p =
     (let height = (case current_block p of None \<Rightarrow> 1 | Some b \<Rightarrow> b_height b + 1);
          p = count_authorized_nodes p in
      if total_authorized_nodes p < 1 then (p, False) else (p, has_nodes_for_consensus p height))"

definition start_new_block_timer :: "net \<Rightarrow> 'db plugin \<Rightarrow> 'db plugin" where
  "start_new_block_timer net p =
     (if sync_down_state p \<noteq> DB_STATE_IN_SYNC then p
      else if last_created_block_height p = current_height p + 1 then p
      else if count_mempool_unused_txns p = 0 then p
      else let (p, ok) = can_create_block p in
      if \<not> ok then p
      else if \<not> timer_active p New_Block_Timer then
        let (p, interval) = calculate_node_wait_interval net p (current_height p + 1);
            interval = (if current_height p = 0 then 10 else interval) in
        timer_start p New_Block_Timer interval
      else p)"

subsection \<open>Creating a block\<close>

text \<open>One pass over the mempool: up to the first transaction that can be included and whose execution
  does not answer \<^verbatim>\<open>SQLITE_PERM\<close>.\<close>

fun next_transaction ::
  "'db sqlite \<Rightarrow> 'db plugin \<Rightarrow> transaction list \<Rightarrow> ('db plugin \<times> transaction option) option" where
  "next_transaction sql p [] = Some (p, None)"
| "next_transaction sql p (txn # txns) =
     (if t_block_height txn = 0 \<and> is_next_nonce p (t_node_id txn) (t_nonce txn) then
        do {
          (e, rc) \<leftarrow> aergolite_execute_transaction sql (core p) (t_node_id txn) (t_nonce txn) (t_log txn);
          (let p = p\<lparr>core := e\<rparr> in
           if rc = SQLITE_PERM then next_transaction sql p txns else Some (p, Some txn))
        }
      else next_transaction sql p txns)"

definition mark_used :: "u64 \<Rightarrow> 'db plugin \<Rightarrow> 'db plugin" where
  "mark_used tid p = p\<lparr>mempool := map (\<lambda>t. if t_id t = tid then t\<lparr>t_block_height := - 1\<rparr> else t) (mempool p)\<rparr>"

lemma next_transaction_mempool:
  "next_transaction sql p txns = Some (p', r) \<Longrightarrow>
     mempool p' = mempool p \<and> nonces p' = nonces p \<and> (\<forall>t. r = Some t \<longrightarrow> t \<in> set txns \<and> t_block_height t = 0)"
proof (induction txns arbitrary: p)
  case Nil
  then show ?case by simp
next
  case (Cons t ts)
  have rec: "mempool p' = mempool q \<and> nonces p' = nonces q \<and> (\<forall>u. r = Some u \<longrightarrow> u \<in> set (t # ts) \<and> t_block_height u = 0)"
    if "next_transaction sql q ts = Some (p', r)" for q using Cons.IH [OF that] by simp
  show ?case
  proof (cases "t_block_height t = 0 \<and> is_next_nonce p (t_node_id t) (t_nonce t)")
    case True
    then obtain e rc where e: "aergolite_execute_transaction sql (core p) (t_node_id t) (t_nonce t) (t_log t) = Some (e, rc)"
        "(if rc = SQLITE_PERM then next_transaction sql (p\<lparr>core := e\<rparr>) ts else Some (p\<lparr>core := e\<rparr>, Some t)) = Some (p', r)"
      using Cons.prems by (auto simp: bind_eq_Some_conv Let_def)
    with True rec [of "p\<lparr>core := e\<rparr>"] show ?thesis by (cases "rc = SQLITE_PERM") auto
  next
    case False
    with Cons.prems rec [of p] show ?thesis by auto
  qed
qed

lemma mark_used_fewer:
  "t \<in> set ts \<Longrightarrow> t_block_height t = 0 \<Longrightarrow>
     length (filter (\<lambda>t. t_block_height t = 0) (map (\<lambda>u. if t_id u = t_id t then u\<lparr>t_block_height := - 1\<rparr> else u) ts))
       < length (filter (\<lambda>t. t_block_height t = 0) ts)"
proof (induction ts)
  case Nil
  then show ?case by simp
next
  case (Cons u ts)
  have le: "length (filter (\<lambda>t. t_block_height t = 0) (map (\<lambda>u. if t_id u = t_id t then u\<lparr>t_block_height := - 1\<rparr> else u) us))
       \<le> length (filter (\<lambda>t. t_block_height t = 0) us)" for us
    by (induction us) (auto simp del: length_filter_map)
  show ?case using Cons le [of ts] by (auto simp: less_Suc_eq_le simp del: length_filter_map)
qed

text \<open>The loop with \<^verbatim>\<open>goto loc_again\<close>: every turn but the last uses up a transaction.\<close>

function include_transactions :: "'db sqlite \<Rightarrow> 'db plugin \<Rightarrow> nat \<Rightarrow> ('db plugin \<times> nat) option" where
  "include_transactions sql p k =
     do {
       (p', r) \<leftarrow> next_transaction sql p (mempool p);
       (case r of
          None \<Rightarrow> Some (p', k)
        | Some txn \<Rightarrow>
            include_transactions sql
              (mark_used (t_id txn) (update_last_nonce_array p' (t_node_id txn) (t_nonce txn))) (k + 1))
     }"
  by pat_completeness auto
termination
proof (relation "measure (\<lambda>(sql, p, k). count_mempool_unused_txns p)", goal_cases)
  case 1
  then show ?case by simp
next
  case (2 sql p k pr p' r txn)
  then have "next_transaction sql p (mempool p) = Some (p', Some txn)" by simp
  from next_transaction_mempool [OF this] show ?case
    by (simp add: count_mempool_unused_txns_def mark_used_def update_last_nonce_array_def mark_used_fewer del: length_filter_map)
qed

definition reset_used :: "'db plugin \<Rightarrow> 'db plugin" where
  "reset_used p =
     p\<lparr>mempool := map (\<lambda>t. if t_block_height t = - 1 then t\<lparr>t_block_height := 0\<rparr> else t) (mempool p)\<rparr>"

text \<open>The result is a null pointer, the value \<^verbatim>\<open>-1\<close>, or the block.\<close>

datatype created = No_Block | Nothing_To_Do | Created block

definition create_new_block :: "'db sqlite \<Rightarrow> 'db plugin \<Rightarrow> ('db plugin \<times> created) option" where
  "create_new_block sql p =
     (if count_mempool_unused_txns p = 0 then Some (p, Nothing_To_Do)
      else let (p, ok) = can_create_block p in
      if \<not> ok then Some (p, Nothing_To_Do)
      else
        let p = build_last_nonce_array p; a = next_addr p; p = p\<lparr>next_addr := a + 1\<rparr>;
            (e, rc) = aergolite_begin_block sql (core p); p = p\<lparr>core := e\<rparr> in
        if rc \<noteq> SQLITE_OK then Some (p\<lparr>nonces := None\<rparr>, No_Block)
        else do {
          (p, k) \<leftarrow> include_transactions sql p 0;
          (let p = reset_used p in
           if k = 0 then Some (p\<lparr>core := aergolite_rollback_block (core p), nonces := None\<rparr>, No_Block)
           else do {
             (e, res) \<leftarrow> aergolite_create_block sql (core p);
             (let p = p\<lparr>core := e, nonces := None\<rparr> in
              case res of
                Inl rc \<Rightarrow> Some (p, No_Block)
              | Inr (height, hdr, body, bid) \<Rightarrow>
                  Some (p\<lparr>last_created_block_height := height\<rparr>,
                        Created \<lparr>b_addr = a, b_height = height, b_id = bid, b_header = hdr, b_body = Some body,
                          b_votes = [], b_vrf_proof = block_vrf_proof p, b_vrf_output = block_vrf_output p,
                          wait_time = 0, temp_votes = (\<lambda>_. []), num_votes = (\<lambda>_. 0), downloading_txns = False\<rparr>))
           })
        })"

end
