(* ===== verification/Requests.thy ===== *)
theory Requests
  imports Block_Producer
begin

section \<open>Requests of transactions and blocks\<close>

text \<open>
  \<^verbatim>\<open>requests.c\<close>: what a node does not have it asks from one peer after the other, chosen at random among
  the connected authorized ones it has not asked yet, until one answers or none is left. A request is
  an object with an address, its own timer and its list of contacted nodes. Its memory is only released
  by the close callback of its timer, so that a write through the pointer of a finished request is
  without effect. The queries on the state database are taken to succeed.
\<close>

subsection \<open>Selecting a node\<close>

definition candidates :: "'db plugin \<Rightarrow> int list \<Rightarrow> int list" where
  "candidates p excluded = map peer_id (filter (\<lambda>n. is_authorized n \<and> peer_id n \<notin> set excluded) (peers p))"

text \<open>The id is drawn; the node returned is the first connection with that id.\<close>

definition select_random_connected_node_not_in_list ::
  "net \<Rightarrow> 'db plugin \<Rightarrow> int list \<Rightarrow> 'db plugin \<times> peer option" where
  "select_random_connected_node_not_in_list net p excluded =
     (let list = candidates p excluded in
      if list = [] then (p, None)
      else let (p, num) = random_number net p 0 (length list - 1) in
           (p, List.find (\<lambda>n. peer_id n = list ! num) (peers p)))"

subsection \<open>Requests\<close>

definition find_request :: "'db plugin \<Rightarrow> nat \<Rightarrow> request option" where
  "find_request p a = List.find (\<lambda>r. r_addr r = a) (requests p)"

definition update_request :: "'db plugin \<Rightarrow> nat \<Rightarrow> (request \<Rightarrow> request) \<Rightarrow> 'db plugin" where
  "update_request p a f = p\<lparr>requests := map (\<lambda>r. if r_addr r = a then f r else r) (requests p)\<rparr>"

text \<open>\<^verbatim>\<open>request_transaction_finished\<close> and \<^verbatim>\<open>request_block_finished\<close> are the same code.\<close>

definition request_finished :: "'db plugin \<Rightarrow> nat \<Rightarrow> 'db plugin" where
  "request_finished p a = p\<lparr>requests := filter (\<lambda>r. r_addr r \<noteq> a) (requests p)\<rparr>"

definition get_transaction_message :: "u64 \<Rightarrow> message" where
  "get_transaction_message tid = [PLUGIN_CMD \<mapsto> V_Int PLUGIN_GET_TRANSACTION, PLUGIN_TID \<mapsto> V_Int (sint tid)]"

definition get_block_message :: "int \<Rightarrow> message" where
  "get_block_message height = [PLUGIN_CMD \<mapsto> V_Int PLUGIN_GET_BLOCK, PLUGIN_HEIGHT \<mapsto> V_Int height]"

text \<open>\<^verbatim>\<open>request_transaction_to_node\<close> and \<^verbatim>\<open>request_block_to_node\<close>, which differ in the message.\<close>

definition request_to_node :: "net \<Rightarrow> 'db plugin \<Rightarrow> peer \<Rightarrow> message \<Rightarrow> 'db plugin \<times> rc" where
  "request_to_node net p n m =
     (let (p, ok) = send_peer_message net p n m in (p, if ok then SQLITE_OK else SQLITE_ERROR))"

text \<open>
  \<^verbatim>\<open>request_transaction_next\<close> and \<^verbatim>\<open>request_block_next\<close> are the same loop around the sending function.
  \<open>contacted\<close> is the array of the request; every turn adds the node it selects.
\<close>

lemma select_mono:
  assumes "select_random_connected_node_not_in_list net p excluded = (p', Some n)"
  shows "p' = p\<lparr>drawn := drawn p + 1\<rparr> \<and> peer_id n \<in> set (candidates p excluded) \<and> n \<in> set (peers p)"
proof -
  define l where "l = candidates p excluded"
  define i where "i = unat (randomness net (drawn p)) mod (length l - 1 - 0 + 1) + 0"
  have l: "l \<noteq> []" "p' = p\<lparr>drawn := drawn p + 1\<rparr>" "List.find (\<lambda>n. peer_id n = l ! i) (peers p) = Some n"
    using assms by (auto simp: select_random_connected_node_not_in_list_def random_number_def Let_def l_def i_def split: if_splits)
  have "i < length l" using l(1) by (simp add: i_def)
  moreover have "peer_id n = l ! i" "n \<in> set (peers p)" using l(3) by (auto simp: find_Some_iff)
  ultimately show ?thesis using l(2) by (auto simp: l_def [symmetric])
qed

lemma candidates_fewer:
  assumes "i \<in> set (candidates p excluded)" and "peers p' = peers p"
  shows "length (candidates p' (excluded @ [i])) < length (candidates p excluded)"
proof -
  have c: "candidates p' (excluded @ [i]) = filter (\<lambda>j. j \<noteq> i) (candidates p excluded)"
    unfolding candidates_def assms(2) filter_map filter_filter by (rule arg_cong [of _ _ "map peer_id"]) (auto intro!: filter_cong)
  show ?thesis unfolding c by (rule length_filter_less [OF assms(1)]) simp
qed

lemma request_to_node_peers [simp]: "peers (fst (request_to_node net p n m)) = peers p"
  by (simp add: request_to_node_def send_peer_message_def Let_def case_prod_beta)

function contact_next :: "net \<Rightarrow> message \<Rightarrow> 'db plugin \<Rightarrow> int list \<Rightarrow> 'db plugin \<times> int list option" where
  "contact_next net m p contacted =
     (case select_random_connected_node_not_in_list net p contacted of
        (p', None) \<Rightarrow> (p', None)
      | (p', Some n) \<Rightarrow>
          (let contacted' = contacted @ [peer_id n] in
           if snd (request_to_node net p' n m) \<noteq> SQLITE_OK
           then contact_next net m (fst (request_to_node net p' n m)) contacted'
           else (fst (request_to_node net p' n m), Some contacted')))"
  by pat_completeness auto
termination
proof (relation "measure (\<lambda>(net, m, p, contacted). length (candidates p contacted))", goal_cases)
  case 1
  then show ?case by simp
next
  case (2 net m p contacted p' r n c')
  then have sel: "select_random_connected_node_not_in_list net p contacted = (p', Some n)" by simp
  from select_mono [OF this] show ?case
    using candidates_fewer [of "peer_id n" p contacted "fst (request_to_node net p' n m)"] 2 by simp
qed

declare contact_next.simps [simp del]

definition request_next :: "net \<Rightarrow> message \<Rightarrow> 'db plugin \<Rightarrow> nat \<Rightarrow> 'db plugin" where
  "request_next net m p a =
     (case find_request p a of None \<Rightarrow> p
      | Some r \<Rightarrow>
          (case contact_next net m p (contacted_nodes r) of
             (p', None) \<Rightarrow> request_finished p' a
           | (p', Some contacted) \<Rightarrow> update_request p' a (\<lambda>r. r\<lparr>contacted_nodes := contacted\<rparr>)))"

definition request_transaction_next :: "net \<Rightarrow> 'db plugin \<Rightarrow> nat \<Rightarrow> 'db plugin" where
  "request_transaction_next net p a =
     (case find_request p a of None \<Rightarrow> p
      | Some r \<Rightarrow> request_next net (get_transaction_message (r_transaction_id r)) p a)"

definition request_block_next :: "net \<Rightarrow> 'db plugin \<Rightarrow> nat \<Rightarrow> 'db plugin" where
  "request_block_next net p a =
     (case find_request p a of None \<Rightarrow> p
      | Some r \<Rightarrow> request_next net (get_block_message (r_block_height r)) p a)"

text \<open>The timers repeat; starting the timer of a request that is already closed has no effect.\<close>

definition start_request_timer :: "'db plugin \<Rightarrow> nat \<Rightarrow> nat \<Rightarrow> 'db plugin" where
  "start_request_timer p a interval = update_request p a (\<lambda>r. r\<lparr>r_timer := Some interval\<rparr>)"

definition request_transaction_timer_cb :: "net \<Rightarrow> 'db plugin \<Rightarrow> nat \<Rightarrow> 'db plugin" where
  "request_transaction_timer_cb net p a = request_transaction_next net p a"

definition request_block_timer_cb :: "net \<Rightarrow> 'db plugin \<Rightarrow> nat \<Rightarrow> 'db plugin" where
  "request_block_timer_cb net p a = request_block_next net p a"

definition add_request :: "'db plugin \<Rightarrow> request \<Rightarrow> 'db plugin" where
  "add_request p r = p\<lparr>requests := requests p @ [r], next_addr := next_addr p + 1\<rparr>"

definition new_request :: "'db plugin \<Rightarrow> request" where
  "new_request p = \<lparr>r_addr = next_addr p, r_block_height = 0, r_transaction_id = 0, r_height = 0, r_seq = 0,
     contacted_nodes = [], r_timer = None\<rparr>"

subsection \<open>Transactions\<close>

definition find_transaction_request :: "'db plugin \<Rightarrow> u64 \<Rightarrow> request option" where
  "find_transaction_request p tid = List.find (\<lambda>r. r_transaction_id r = tid) (requests p)"

definition requested_transaction_arrived :: "'db plugin \<Rightarrow> u64 \<Rightarrow> 'db plugin \<times> bool" where
  "requested_transaction_arrived p tid =
     (case find_transaction_request p tid of None \<Rightarrow> (p, False)
      | Some r \<Rightarrow> (request_finished p (r_addr r), True))"

text \<open>The result is the address of the request, or the null pointer when there is one already.\<close>

definition request_transaction :: "net \<Rightarrow> 'db plugin \<Rightarrow> u64 \<Rightarrow> 'db plugin \<times> nat option" where
  "request_transaction net p tid =
     (case find_transaction_request p tid of
        Some r \<Rightarrow> (p, None)
      | None \<Rightarrow>
          (let r = (new_request p)\<lparr>r_transaction_id := tid\<rparr>;
               p = request_transaction_next net (add_request p r) (r_addr r)
           in (start_request_timer p (r_addr r) 500, Some (r_addr r))))"

subsection \<open>Blocks\<close>

definition requested_block_arrived :: "'db plugin \<Rightarrow> int \<Rightarrow> bool \<Rightarrow> 'db plugin \<times> bool" where
  "requested_block_arrived p height stop =
     (case List.find (\<lambda>r. r_block_height r = height) (requests p) of None \<Rightarrow> (p, False)
      | Some r \<Rightarrow> (if stop then request_finished p (r_addr r) else p, True))"

definition request_block :: "net \<Rightarrow> 'db plugin \<Rightarrow> int \<Rightarrow> 'db plugin" where
  "request_block net p height =
     (case List.find (\<lambda>r. r_block_height r = height) (requests p) of
        Some r \<Rightarrow> p
      | None \<Rightarrow>
          (let r = (new_request p)\<lparr>r_block_height := height\<rparr>;
               p = request_block_next net (add_request p r) (r_addr r)
           in start_request_timer p (r_addr r) 1500))"

subsection \<open>Missing blocks\<close>

text \<open>The first height of the range that has no row; the scan goes down in steps of 512.\<close>

definition first_missing :: "block_row list \<Rightarrow> int \<Rightarrow> int \<Rightarrow> int option" where
  "first_missing rows start final = List.find (\<lambda>h. h \<notin> row_height ` set rows) [start..final]"

function scan_missing :: "block_row list \<Rightarrow> int \<Rightarrow> int option" where
  "scan_missing rows final =
     (if final \<le> 0 then None
      else case first_missing rows (max 1 (final - 512)) final of
             Some h \<Rightarrow> Some h
           | None \<Rightarrow> scan_missing rows (final - 512))"
  by pat_completeness auto
termination by (relation "measure (\<lambda>(rows, final). nat final)") auto

declare scan_missing.simps [simp del]

text \<open>\<^verbatim>\<open>count(*)=max(height)\<close>, which is null and so zero for the empty table, and the block without body.\<close>

definition has_all_blocks :: "block_row list \<Rightarrow> bool" where
  "has_all_blocks rows \<longleftrightarrow> rows \<noteq> [] \<and> int (length rows) = Max (row_height ` set rows)"

definition last_without_body :: "block_row list \<Rightarrow> int \<Rightarrow> int option" where
  "last_without_body rows last_retrieved =
     (let heights = map row_height (filter (\<lambda>r. row_height r < last_retrieved \<and> row_body r = None) rows) in
      if heights = [] then None else Some (Max (set heights)))"

definition check_blocks_without_body :: "net \<Rightarrow> 'db plugin \<Rightarrow> int \<Rightarrow> 'db plugin" where
  "check_blocks_without_body net p last_retrieved =
     (case last_without_body (block_rows (content (state_db (core p)))) last_retrieved of
        None \<Rightarrow> p | Some height \<Rightarrow> request_block net p height)"

text \<open>\<^verbatim>\<open>db_query_int64\<close> answers \<^verbatim>\<open>SQLITE_OK\<close> only when there is a row.\<close>

definition request_missing_blocks :: "'db sqlite \<Rightarrow> net \<Rightarrow> 'db plugin \<Rightarrow> int \<Rightarrow> 'db plugin option" where
  "request_missing_blocks sql net p last_retrieved =
     (case current_block p of None \<Rightarrow> Some p
      | Some blk \<Rightarrow>
          (let rows = block_rows (content (state_db (core p)));
               (p, last_retrieved) = (if last_retrieved = 0 then (p\<lparr>downloading_block_bodies := False\<rparr>, b_height blk)
                                      else (p, last_retrieved)) in
           if downloading_block_bodies p then Some (check_blocks_without_body net p last_retrieved)
           else case (if has_all_blocks rows then None else scan_missing rows (last_retrieved - 1)) of
             Some height \<Rightarrow> Some (request_block net p height)
           | None \<Rightarrow> do {
               rc \<leftarrow> aergolite_verify_history sql (core p);
               (if rc \<noteq> SQLITE_OK then Some p
                else Some (check_blocks_without_body net (p\<lparr>downloading_block_bodies := True\<rparr>) (b_height blk + 1)))
             }))"

text \<open>Every transaction of the block is requested; a null request is written to.\<close>

fun request_block_transactions :: "net \<Rightarrow> int \<Rightarrow> u64 list \<Rightarrow> int \<Rightarrow> 'db plugin \<Rightarrow> 'db plugin option" where
  "request_block_transactions net height [] seq p = Some p"
| "request_block_transactions net height (v # vs) seq p =
     (let seq = seq + 1; (p, request) = request_transaction net p (txn_id_of v) in
      case request of None \<Rightarrow> None
      | Some a \<Rightarrow> request_block_transactions net height vs seq
                    (update_request p a (\<lambda>r. r\<lparr>r_height := height, r_seq := seq\<rparr>)))"

text \<open>The header is read from the parameter \<^verbatim>\<open>PLUGIN_STATE\<close>, as a blob.\<close>

definition on_requested_block :: "'db sqlite \<Rightarrow> net \<Rightarrow> 'db plugin \<Rightarrow> message \<Rightarrow> 'db plugin option" where
  "on_requested_block sql net p msg =
     (let height = msg_int msg PLUGIN_HEIGHT in
      case (msg_header_blob msg PLUGIN_STATE, msg_body msg PLUGIN_BODY, msg_votes msg PLUGIN_VOTES) of
        (Some hdr, Some body, Some votes) \<Rightarrow>
          if height \<le> 0 then Some p
          else let (p, requested) = requested_block_arrived p height False in
          if \<not> requested then Some p
          else do {
            (e, rc) \<leftarrow> aergolite_save_block sql (core p) hdr body votes;
            (let p = p\<lparr>core := e\<rparr> in
             if rc \<noteq> SQLITE_OK then Some p
             else do {
               p \<leftarrow> request_block_transactions net height (body_txn_ids body) 0 p;
               request_missing_blocks sql net (fst (requested_block_arrived p height True)) height
             })
          }
      | _ \<Rightarrow> Some p)"

text \<open>The header is sent in the parameter \<^verbatim>\<open>PLUGIN_HEADER\<close>. When the query finds no block the code sends what
  the null pointers give: no header, no body, no votes.\<close>

definition block_message :: "int \<Rightarrow> (header \<times> block_body option \<times> vote_item list) option \<Rightarrow> message" where
  "block_message height blk =
     [PLUGIN_CMD \<mapsto> V_Int PLUGIN_REQUESTED_BLOCK, PLUGIN_HEIGHT \<mapsto> V_Int height]
       (PLUGIN_HEADER := map_option (\<lambda>(h, b, v). V_Header_Blob h) blk,
        PLUGIN_BODY := Option.bind blk (\<lambda>(h, b, v). map_option V_Body b),
        PLUGIN_VOTES := map_option (\<lambda>(h, b, v). V_Votes v) blk)"

definition on_get_block :: "net \<Rightarrow> 'db plugin \<Rightarrow> peer \<Rightarrow> message \<Rightarrow> 'db plugin" where
  "on_get_block net p n msg =
     (let height = msg_int msg PLUGIN_HEIGHT;
          answer = (\<lambda>m. fst (send_peer_message net p n m)) in
      if height \<le> 0 then p
      else case (if height = current_height p then
                   Inr (map_option (\<lambda>b. (b_header b, b_body b, b_votes b)) (current_block p))
                 else if my_is_full p then
                   (case aergolite_get_block (core p) height of
                      Inl rc \<Rightarrow> Inl rc
                    | Inr row \<Rightarrow> Inr (map_option (\<lambda>r. (row_header r, row_body r, row_votes r)) row))
                 else Inl SQLITE_NOTFOUND) of
             Inr blk \<Rightarrow> answer (block_message height blk)
           | Inl rc \<Rightarrow> if rc = SQLITE_NOTFOUND then answer [PLUGIN_CMD \<mapsto> V_Int PLUGIN_BLOCK_NOTFOUND] else p)"

subsection \<open>What requests leave alone\<close>

definition req_frame :: "'db plugin \<Rightarrow> 'db plugin \<Rightarrow> bool" where
  "req_frame p p' \<longleftrightarrow> p' = p\<lparr>requests := requests p', next_addr := next_addr p', drawn := drawn p', sent := sent p'\<rparr>
     \<and> next_addr p \<le> next_addr p'"

lemma req_frame_refl [simp]: "req_frame p p"
  by (simp add: req_frame_def)

lemma req_frame_trans [trans]:
  assumes "req_frame p q" and "req_frame q r"
  shows "req_frame p r"
proof -
  have "r = q\<lparr>requests := requests r, next_addr := next_addr r, drawn := drawn r, sent := sent r\<rparr>"
    using assms(2) by (simp add: req_frame_def)
  also have "\<dots> = p\<lparr>requests := requests r, next_addr := next_addr r, drawn := drawn r, sent := sent r\<rparr>"
    using assms(1) by (subst (1) req_frame_def [of p q, THEN iffD1, THEN conjunct1]) simp_all
  finally show ?thesis using assms by (simp add: req_frame_def)
qed

lemma req_frame_fields:
  assumes "req_frame p p'"
  shows "core p' = core p" "my_id p' = my_id p" "peers p' = peers p" "new_blocks p' = new_blocks p"
    "mempool p' = mempool p" "open_block p' = open_block p" "current_block p' = current_block p"
    "block_votes p' = block_votes p" "last_vote_height p' = last_vote_height p" "last_vote_round p' = last_vote_round p"
    "sync_down_state p' = sync_down_state p" "timers p' = timers p" "is_updating_state p' = is_updating_state p"
    "total_authorized_nodes p' = total_authorized_nodes p" "active_authorized_nodes p' = active_authorized_nodes p"
    "current_height p' = current_height p" "next_addr p \<le> next_addr p'"
    "last_created_block_height p' = last_created_block_height p" "nonces p' = nonces p"
    "contacted_node_id p' = contacted_node_id p"
  using assms unfolding req_frame_def current_height_def
  by (cases p; cases p'; simp)+

lemma req_frame_sent: "req_frame p (p\<lparr>sent := s\<rparr>)" "req_frame p (p\<lparr>drawn := d\<rparr>)" "req_frame p (p\<lparr>requests := r\<rparr>)"
  by (simp_all add: req_frame_def)

lemma req_frame_send: "req_frame p (fst (send_peer_message net p n m))"
  by (simp add: send_peer_message_def req_frame_sent)

lemma req_frame_send_authorized: "req_frame p (send_to_authorized net m ns p)"
proof (induction ns arbitrary: p)
  case Nil
  then show ?case by simp
next
  case (Cons n ns)
  show ?case using Cons [of "if is_authorized n then fst (send_peer_message net p n m) else p"] req_frame_send [of p net n m]
    by (auto intro: req_frame_trans)
qed

lemma req_frame_send_all: "req_frame p (send_all net n ms p)"
proof (induction ms arbitrary: p)
  case Nil
  then show ?case by simp
next
  case (Cons m ms)
  show ?case using Cons [of "fst (send_peer_message net p n m)"] req_frame_send [of p net n m]
    by (auto intro: req_frame_trans)
qed

lemma req_frame_select: "req_frame p (fst (select_random_connected_node_not_in_list net p excluded))"
  by (simp add: select_random_connected_node_not_in_list_def random_number_def Let_def req_frame_sent)

lemma req_frame_to_node: "req_frame p (fst (request_to_node net p n m))"
  by (simp add: request_to_node_def case_prod_beta Let_def req_frame_send)

lemma req_frame_contact: "req_frame p (fst (contact_next net m p contacted))"
proof (induction net m p contacted rule: contact_next.induct)
  case (1 net m p contacted)
  obtain p' r where s: "select_random_connected_node_not_in_list net p contacted = (p', r)" by (cases "select_random_connected_node_not_in_list net p contacted")
  have f: "req_frame p p'" using req_frame_select [of p net contacted] by (simp add: s)
  show ?case
  proof (cases r)
    case None
    with s f show ?thesis by (subst contact_next.simps) simp
  next
    case (Some n)
    have "req_frame p (fst (request_to_node net p' n m))" using req_frame_trans [OF f req_frame_to_node] .
    moreover have "req_frame p (fst (contact_next net m (fst (request_to_node net p' n m)) (contacted @ [peer_id n])))"
      if "snd (request_to_node net p' n m) \<noteq> SQLITE_OK"
      using 1 [OF s [symmetric] Some refl that] req_frame_trans [OF calculation] by blast
    ultimately show ?thesis using s Some by (subst contact_next.simps) (simp add: Let_def)
  qed
qed

lemma req_frame_updates:
  "req_frame p q \<Longrightarrow> req_frame p (update_request q a f)"
  "req_frame p q \<Longrightarrow> req_frame p (request_finished q a)"
  "req_frame p q \<Longrightarrow> req_frame p (start_request_timer q a i)"
  unfolding update_request_def request_finished_def start_request_timer_def
  by (rule req_frame_trans, assumption, rule req_frame_sent(3))+

lemma req_frame_add: "req_frame p (add_request p r)"
  by (simp add: req_frame_def add_request_def)

lemma req_frame_next: "req_frame p (request_next net m p a)"
proof (cases "find_request p a")
  case None
  then show ?thesis by (simp add: request_next_def)
next
  case (Some r)
  have "req_frame p (fst (contact_next net m p (contacted_nodes r)))" by (rule req_frame_contact)
  with Some show ?thesis
    by (cases "contact_next net m p (contacted_nodes r)") (auto simp: request_next_def req_frame_updates split: option.split)
qed

lemma req_frame_next_of:
  "req_frame p q \<Longrightarrow> req_frame p (request_transaction_next net q a)"
  "req_frame p q \<Longrightarrow> req_frame p (request_block_next net q a)"
  unfolding request_transaction_next_def request_block_next_def
  using req_frame_next [of q net] by (auto intro: req_frame_trans split: option.split)

lemma req_frame_request_transaction: "req_frame p (fst (request_transaction net p tid))"
  by (simp add: request_transaction_def Let_def req_frame_updates req_frame_next_of req_frame_add split: option.split)

lemma req_frame_request_block: "req_frame p (request_block net p height)"
  by (simp add: request_block_def Let_def req_frame_updates req_frame_next_of req_frame_add split: option.split)

end
