(* ===== verification/Votes.thy ===== *)
theory Votes
  imports Requests
begin

section \<open>Votes and the exchange of blocks\<close>

text \<open>
  The lists of votes of \<^verbatim>\<open>consensus.c\<close>. A vote for a block that has arrived is kept with the block, once
  per node and round, and counted; a vote for a block that has not is kept in the plugin until the block
  arrives. Then the messages that carry blocks and votes to the other nodes.
\<close>

subsection \<open>Votes of a block\<close>

definition convert_block_votes :: "block \<Rightarrow> int \<Rightarrow> block" where
  "convert_block_votes b round = b\<lparr>b_votes := b_votes b @ map (\<lambda>v. (v_node_id v, v_sig v)) (temp_votes b round)\<rparr>"

definition add_block_vote :: "block \<Rightarrow> int \<Rightarrow> int \<Rightarrow> bytes \<Rightarrow> block \<times> bool" where
  "add_block_vote b round nid sg =
     (if list_ex (\<lambda>v. v_node_id v = nid) (temp_votes b round) then (b, False)
      else let vote = \<lparr>v_node_id = nid, v_round = 0, v_height = 0, v_block_id = replicate 32 0, v_sig = sg\<rparr> in
           (b\<lparr>temp_votes := (temp_votes b)(round := temp_votes b round @ [vote])\<rparr>, True))"

text \<open>The call and the increment of \<^verbatim>\<open>num_votes\<close> that follows it at each of its three places.\<close>

definition count_block_vote :: "block \<Rightarrow> int \<Rightarrow> int \<Rightarrow> bytes \<Rightarrow> block \<times> bool" where
  "count_block_vote b round nid sg =
     (let (b, added) = add_block_vote b round nid sg in
      if added then (b\<lparr>num_votes := (num_votes b)(round := num_votes b round + 1)\<rparr>, True) else (b, False))"

subsection \<open>Votes without a block\<close>

definition store_block_vote :: "'db plugin \<Rightarrow> int \<Rightarrow> int \<Rightarrow> int \<Rightarrow> bytes \<Rightarrow> bytes \<Rightarrow> 'db plugin" where
  "store_block_vote p nid height round bid sg =
     (if list_ex (\<lambda>v. v_height v = height \<and> v_block_id v = bid \<and> v_node_id v = nid \<and> v_round v = round) (block_votes p)
      then p
      else p\<lparr>block_votes := block_votes p @
               [\<lparr>v_node_id = nid, v_round = round, v_height = height, v_block_id = bid, v_sig = sg\<rparr>]\<rparr>)"

fun transfer_votes :: "block_vote list \<Rightarrow> block \<Rightarrow> block" where
  "transfer_votes [] b = b"
| "transfer_votes (v # vs) b =
     transfer_votes vs (if v_height v = b_height b \<and> v_block_id v = b_id b
                        then fst (count_block_vote b (v_round v) (v_node_id v) (v_sig v)) else b)"

definition transfer_block_votes :: "'db plugin \<Rightarrow> block \<Rightarrow> block" where
  "transfer_block_votes p b = transfer_votes (block_votes p) b"

definition discard_old_block_votes :: "'db plugin \<Rightarrow> 'db plugin" where
  "discard_old_block_votes p = p\<lparr>block_votes := filter (\<lambda>v. \<not> v_height v < current_height p) (block_votes p)\<rparr>"

definition clear_block_votes :: "'db plugin \<Rightarrow> 'db plugin" where
  "clear_block_votes p = p\<lparr>block_votes := []\<rparr>"

subsection \<open>Messages\<close>

definition encode_new_block :: "block \<Rightarrow> message" where
  "encode_new_block b =
     [PLUGIN_CMD \<mapsto> V_Int PLUGIN_NEW_BLOCK, PLUGIN_HEADER \<mapsto> V_Header_Blob (b_header b), PLUGIN_PROOF \<mapsto> V_Blob (b_vrf_proof b)]
       (PLUGIN_BODY := map_option V_Body (b_body b))"

definition send_new_block :: "net \<Rightarrow> 'db plugin \<Rightarrow> peer \<Rightarrow> block \<Rightarrow> 'db plugin" where
  "send_new_block net p n b = fst (send_peer_message net p n (encode_new_block b))"

definition send_new_blocks :: "net \<Rightarrow> 'db plugin \<Rightarrow> peer \<Rightarrow> 'db plugin" where
  "send_new_blocks net p n = fold (\<lambda>b p. send_new_block net p n b) (new_blocks p) p"

definition vote_message :: "int \<Rightarrow> bytes \<Rightarrow> int \<Rightarrow> int \<Rightarrow> bytes \<Rightarrow> message" where
  "vote_message height bid round nid sg =
     [PLUGIN_CMD \<mapsto> V_Int PLUGIN_BLOCK_VOTE, PLUGIN_HEIGHT \<mapsto> V_Int height, PLUGIN_NODE_ID \<mapsto> V_Int nid,
      PLUGIN_ROUND \<mapsto> V_Int round, PLUGIN_HASH \<mapsto> V_Blob bid, PLUGIN_SIGNATURE \<mapsto> V_Blob sg]"

text \<open>The votes of the blocks that have arrived, round by round, then the others.\<close>

definition block_vote_messages :: "block \<Rightarrow> message list" where
  "block_vote_messages b =
     concat (map (\<lambda>round. map (\<lambda>v. vote_message (b_height b) (b_id b) round (v_node_id v) (v_sig v)) (temp_votes b round)) [0, 1])"

definition send_block_votes :: "net \<Rightarrow> 'db plugin \<Rightarrow> peer \<Rightarrow> 'db plugin" where
  "send_block_votes net p n =
     send_all net n (concat (map block_vote_messages (new_blocks p))
       @ map (\<lambda>v. vote_message (v_height v) (v_block_id v) (v_round v) (v_node_id v) (v_sig v)) (block_votes p)) p"

definition broadcast_new_block :: "net \<Rightarrow> 'db plugin \<Rightarrow> block \<Rightarrow> 'db plugin" where
  "broadcast_new_block net p b = send_to_authorized net (encode_new_block b) (peers p) p"

end
