(* ===== verification/State_Update.thy ===== *)
theory State_Update
  imports Votes
begin

section \<open>State update\<close>

text \<open>
  \<^verbatim>\<open>state_update.c\<close>: a node that is behind asks the other nodes, one after the other, for the pages that
  changed since its last block; the answer is a sequence of pages and the header that names the hash of
  the resulting state, with the votes for it. And the other side: reading the pages out.

  The loop of \<^verbatim>\<open>request_state_update_next\<close> starts over with the nodes that failed, without waiting; it is
  a \<^theory_text>\<open>partial_function\<close>, and \<^term>\<open>None\<close> is also that it does not return.
\<close>

subsection \<open>The local state\<close>

definition load_current_state :: "'db sqlite \<Rightarrow> 'db plugin \<Rightarrow> ('db plugin \<times> rc) option" where
  "load_current_state sql p =
     do {
       (e, res) \<leftarrow> aergolite_load_current_state sql (core p);
       (case res of
          Inl rc \<Rightarrow> Some (p\<lparr>core := e, current_block := None, sync_down_state := DB_STATE_ERROR\<rparr>, rc)
        | Inr (height, row) \<Rightarrow>
            Some (p\<lparr>core := e, next_addr := next_addr p + 1,
                    current_block := Some \<lparr>b_addr = next_addr p, b_height = height, b_id = replicate 32 0,
                      b_header = row_header row, b_body = row_body row, b_votes = row_votes row,
                      b_vrf_proof = replicate 81 0, b_vrf_output = replicate 32 0, wait_time = 0,
                      temp_votes = (\<lambda>_. []), num_votes = (\<lambda>_. 0), downloading_txns = False\<rparr>\<rparr>, SQLITE_OK))
     }"

subsection \<open>Asking for an update\<close>

definition state_update_finished :: "'db sqlite \<Rightarrow> net \<Rightarrow> 'db plugin \<Rightarrow> 'db plugin option" where
  "state_update_finished sql net p =
     (let p = timer_stop p State_Update_Timer;
          p = p\<lparr>state_update_contacted_nodes := None, state_update_failed_nodes := None, contacted_node_id := 0\<rparr>;
          p = (if sync_down_state p = DB_STATE_SYNCHRONIZING then p\<lparr>sync_down_state := DB_STATE_IN_SYNC\<rparr> else p)
      in if my_is_full p \<and> current_block p \<noteq> None then request_missing_blocks sql net p 0 else Some p)"

definition array_items :: "int list option \<Rightarrow> int list" where
  "array_items l = (case l of None \<Rightarrow> [] | Some l \<Rightarrow> l)"

text \<open>\<^verbatim>\<open>array_append\<close> does nothing on a null array.\<close>

definition mark_failed :: "'db plugin \<Rightarrow> int \<Rightarrow> 'db plugin" where
  "mark_failed p nid =
     p\<lparr>state_update_failed_nodes := map_option (\<lambda>l. l @ [nid]) (state_update_failed_nodes p)\<rparr>"

definition request_state_update_to_node :: "net \<Rightarrow> 'db plugin \<Rightarrow> peer \<Rightarrow> 'db plugin \<times> rc" where
  "request_state_update_to_node net p n =
     (let (p, ok) = send_peer_message net p n
            [PLUGIN_CMD \<mapsto> V_Int PLUGIN_REQUEST_STATE_DIFF, PLUGIN_HEIGHT \<mapsto> V_Int (current_height p)] in
      if ok then (p\<lparr>contacted_node_id := peer_id n\<rparr>, SQLITE_OK)
      else (mark_failed p (peer_id n), SQLITE_ERROR))"

definition enough_contacted :: "'db plugin \<Rightarrow> bool" where
  "enough_contacted p \<longleftrightarrow>
     length (array_items (state_update_contacted_nodes p)) + 1 \<ge> majority (total_authorized_nodes p)
       \<and> current_block p \<noteq> None"

definition create_contact_arrays :: "'db plugin \<Rightarrow> 'db plugin" where
  "create_contact_arrays p =
     p\<lparr>state_update_contacted_nodes := Some (array_items (state_update_contacted_nodes p)),
       state_update_failed_nodes := Some (array_items (state_update_failed_nodes p))\<rparr>"

definition retry_failed_nodes :: "'db plugin \<Rightarrow> 'db plugin" where
  "retry_failed_nodes p =
     p\<lparr>state_update_contacted_nodes :=
          Some (fold remove1 (array_items (state_update_failed_nodes p)) (array_items (state_update_contacted_nodes p))),
       state_update_failed_nodes := Some []\<rparr>"

definition contact_state_node :: "net \<Rightarrow> 'db plugin \<Rightarrow> peer \<Rightarrow> 'db plugin \<times> rc" where
  "contact_state_node net p n =
     request_state_update_to_node net
       (p\<lparr>state_update_contacted_nodes := Some (array_items (state_update_contacted_nodes p) @ [peer_id n])\<rparr>) n"

text \<open>One turn of the loop: the final state, or the state with which the loop goes on.\<close>

datatype 'a turn = Done 'a | Again 'a

definition state_update_turn :: "'db sqlite \<Rightarrow> net \<Rightarrow> 'db plugin \<Rightarrow> 'db plugin turn option" where
  "state_update_turn sql net p =
     (let p = count_authorized_nodes p in
      if enough_contacted p then map_option Done (state_update_finished sql net p)
      else
        let p = create_contact_arrays p;
            (p, n) = select_random_connected_node_not_in_list net p (array_items (state_update_contacted_nodes p)) in
        case n of
          None \<Rightarrow>
            if array_items (state_update_failed_nodes p) \<noteq> [] then Some (Again (retry_failed_nodes p))
            else Some (Done (timer_start (p\<lparr>contacted_node_id := 0\<rparr>) State_Update_Timer 1500))
        | Some n \<Rightarrow>
            let (p, rc) = contact_state_node net p n in
            if rc \<noteq> SQLITE_OK then Some (Again p) else Some (Done (timer_start p State_Update_Timer 9000)))"

partial_function (option) request_state_update_next :: "'db sqlite \<Rightarrow> net \<Rightarrow> 'db plugin \<Rightarrow> 'db plugin option" where
  "request_state_update_next sql net p =
     (case state_update_turn sql net p of None \<Rightarrow> None
      | Some t \<Rightarrow> (case t of Done p' \<Rightarrow> Some p' | Again p' \<Rightarrow> request_state_update_next sql net p'))"

definition request_state_update :: "'db sqlite \<Rightarrow> net \<Rightarrow> 'db plugin \<Rightarrow> 'db plugin option" where
  "request_state_update sql net p =
     (if sync_down_state p = DB_STATE_SYNCHRONIZING then Some p
      else if peers p = [] then Some (p\<lparr>sync_down_state := DB_STATE_UNKNOWN\<rparr>)
      else request_state_update_next sql net (p\<lparr>sync_down_state := DB_STATE_SYNCHRONIZING\<rparr>))"

definition start_downstream_db_sync :: "'db sqlite \<Rightarrow> net \<Rightarrow> 'db plugin \<Rightarrow> 'db plugin option" where
  "start_downstream_db_sync sql net p =
     (if current_block p = None then
        do {
          (p, rc) \<leftarrow> load_current_state sql p;
          (if rc = SQLITE_BUSY \<or> rc = SQLITE_NOMEM then Some (p\<lparr>sync_down_state := DB_STATE_ERROR\<rparr>)
           else if rc \<noteq> SQLITE_EMPTY \<and> rc \<noteq> SQLITE_INVALID then Some (p\<lparr>sync_down_state := DB_STATE_ERROR\<rparr>)
           else request_state_update sql net p)
        }
      else request_state_update sql net p)"

subsection \<open>The answers\<close>

definition on_node_is_busy :: "'db sqlite \<Rightarrow> net \<Rightarrow> 'db plugin \<Rightarrow> peer \<Rightarrow> message \<Rightarrow> 'db plugin option" where
  "on_node_is_busy sql net p n msg =
     (if peer_id n \<noteq> contacted_node_id p then Some p
      else
        let p = (if contacted_node_id p \<noteq> 0 then mark_failed p (contacted_node_id p) else p) in
        request_state_update_next sql net (timer_stop p State_Update_Timer))"

definition on_state_update_node_timeout :: "'db sqlite \<Rightarrow> net \<Rightarrow> 'db plugin \<Rightarrow> 'db plugin option" where
  "on_state_update_node_timeout sql net p =
     (let p = timer_stop p State_Update_Timer;
          p = (if is_updating_state p
               then p\<lparr>core := aergolite_cancel_state_update (core p), is_updating_state := False\<rparr> else p);
          p = (if contacted_node_id p \<noteq> 0 then mark_failed p (contacted_node_id p) else p)
      in request_state_update_next sql net p)"

definition on_uptodate_message :: "'db sqlite \<Rightarrow> net \<Rightarrow> 'db plugin \<Rightarrow> peer \<Rightarrow> message \<Rightarrow> 'db plugin option" where
  "on_uptodate_message sql net p n msg =
     (if peer_id n \<noteq> contacted_node_id p then Some p
      else request_state_update_next sql net (timer_stop p State_Update_Timer))"

text \<open>\<^verbatim>\<open>loc_failed\<close>\<close>

definition update_db_page_failed :: "'db sqlite \<Rightarrow> net \<Rightarrow> 'db plugin \<Rightarrow> peer \<Rightarrow> 'db plugin option" where
  "update_db_page_failed sql net p n =
     request_state_update_next sql net
       (timer_stop (mark_failed (p\<lparr>is_updating_state := False\<rparr>) (peer_id n)) State_Update_Timer)"

definition apply_db_page :: "'db sqlite \<Rightarrow> net \<Rightarrow> 'db plugin \<Rightarrow> peer \<Rightarrow> u32 \<Rightarrow> bytes \<Rightarrow> 'db plugin option" where
  "apply_db_page sql net p n pgno data =
     do {
       (e, rc) \<leftarrow> aergolite_update_db_page sql (core p) pgno data;
       (let p = p\<lparr>core := e\<rparr> in
        if rc \<noteq> SQLITE_OK
        then update_db_page_failed sql net (p\<lparr>core := aergolite_cancel_state_update (core p)\<rparr>) n
        else Some (timer_start p State_Update_Timer 9000))
     }"

text \<open>A page without data is the null pointer given to \<^verbatim>\<open>memcpy\<close>.\<close>

definition on_update_db_page :: "'db sqlite \<Rightarrow> net \<Rightarrow> 'db plugin \<Rightarrow> peer \<Rightarrow> message \<Rightarrow> 'db plugin option" where
  "on_update_db_page sql net p n msg =
     (let height = msg_int msg PLUGIN_HEIGHT; pgno = word_of_int (msg_int msg PLUGIN_PGNO) in
      if peer_id n \<noteq> contacted_node_id p then Some p
      else if height \<le> current_height p then Some p
      else if sync_down_state p \<noteq> DB_STATE_SYNCHRONIZING then Some p
      else
        let p = (if open_block p \<noteq> None then rollback_block p else p);
            (e, rc) = (if is_updating_state p then (core p, SQLITE_OK) else aergolite_begin_state_update sql (core p));
            p = p\<lparr>core := e\<rparr> in
        if rc \<noteq> SQLITE_OK then update_db_page_failed sql net p n
        else case msg_blob msg PLUGIN_DBPAGE of None \<Rightarrow> None
        | Some data \<Rightarrow> apply_db_page sql net (p\<lparr>is_updating_state := True\<rparr>) n pgno data)"

text \<open>\<^verbatim>\<open>loc_exit\<close>\<close>

definition state_update_exit :: "'db sqlite \<Rightarrow> net \<Rightarrow> 'db plugin \<Rightarrow> 'db plugin option" where
  "state_update_exit sql net p =
     request_state_update_next sql net (timer_stop (p\<lparr>is_updating_state := False\<rparr>) State_Update_Timer)"

text \<open>The new current block has no body; the block id is not stored in it.\<close>

definition install_state :: "'db plugin \<Rightarrow> int \<Rightarrow> header \<Rightarrow> vote_item list \<Rightarrow> 'db plugin" where
  "install_state p height hdr votes =
     (let p = p\<lparr>next_addr := next_addr p + 1,
                current_block := Some \<lparr>b_addr = next_addr p, b_height = height, b_id = replicate 32 0, b_header = hdr,
                  b_body = None, b_votes = votes, b_vrf_proof = replicate 81 0, b_vrf_output = replicate 32 0,
                  wait_time = 0, temp_votes = (\<lambda>_. []), num_votes = (\<lambda>_. 0), downloading_txns = False\<rparr>\<rparr>
      in count_authorized_nodes (plugin_update_nodes_types (check_mempool_transactions (discard_uncommitted_blocks p))))"

text \<open>What the null pointers of absent parameters read as.\<close>

definition null_header :: header where
  "null_header = \<lparr>header_data = None, header_sig = None\<rparr>"

definition or_else :: "'a option \<Rightarrow> 'a \<Rightarrow> 'a" where
  "or_else x d = (case x of None \<Rightarrow> d | Some y \<Rightarrow> y)"

definition on_apply_state_update :: "'db sqlite \<Rightarrow> net \<Rightarrow> 'db plugin \<Rightarrow> peer \<Rightarrow> message \<Rightarrow> 'db plugin option" where
  "on_apply_state_update sql net p n msg =
     (let height = msg_int msg PLUGIN_HEIGHT;
          hdr = or_else (msg_header_map msg PLUGIN_STATE) null_header;
          votes = or_else (msg_votes msg PLUGIN_VOTES) [];
          list = or_else (msg_pages msg PLUGIN_MOD_PAGES) [] in
      if peer_id n \<noteq> contacted_node_id p then Some p
      else if height \<le> current_height p then Some p
      else if sync_down_state p \<noteq> DB_STATE_SYNCHRONIZING \<or> \<not> is_updating_state p then Some p
      else do {
        (e, rc) \<leftarrow> aergolite_apply_state_update sql (core p) hdr votes list;
        (let p = p\<lparr>core := e\<rparr> in
         if rc \<noteq> SQLITE_OK
         then state_update_exit sql net (mark_failed (p\<lparr>core := aergolite_cancel_state_update (core p)\<rparr>) (peer_id n))
         else state_update_exit sql net (install_state p height hdr votes))
      })"

subsection \<open>Serving an update\<close>

text \<open>The distinct numbers of the modified pages in ascending order: \<^verbatim>\<open>array_insert_sorted\<close> with \<^verbatim>\<open>compare_pgno\<close>.\<close>

definition distinct_pages :: "page_row list \<Rightarrow> u32 list" where
  "distinct_pages list = remdups (sort (map fst list))"

definition page_message :: "u32 \<Rightarrow> bytes \<Rightarrow> int \<Rightarrow> message" where
  "page_message pgno data height =
     [PLUGIN_CMD \<mapsto> V_Int PLUGIN_DB_PAGE, PLUGIN_PGNO \<mapsto> V_Int (uint pgno), PLUGIN_DBPAGE \<mapsto> V_Blob data,
      PLUGIN_HEIGHT \<mapsto> V_Int height]"

fun send_pages :: "'db sqlite \<Rightarrow> net \<Rightarrow> peer \<Rightarrow> int \<Rightarrow> u32 list \<Rightarrow> 'db plugin \<Rightarrow> ('db plugin \<times> bool) option" where
  "send_pages sql net n height [] p = Some (p, True)"
| "send_pages sql net n height (pgno # pgnos) p =
     do {
       res \<leftarrow> aergolite_get_db_page sql (core p) pgno 4096;
       (case res of
          Inl rc \<Rightarrow> Some (p, False)
        | Inr data \<Rightarrow>
            (let (p, ok) = send_peer_message net p n (page_message pgno data height) in
             if \<not> ok then Some (p, False) else send_pages sql net n height pgnos p))
     }"

definition end_state_read :: "'db plugin \<Rightarrow> 'db plugin" where
  "end_state_read p = p\<lparr>core := aergolite_end_state_read (core p)\<rparr>"

definition uptodate_message :: "block option \<Rightarrow> message" where
  "uptodate_message blk =
     [PLUGIN_CMD \<mapsto> V_Int PLUGIN_UPTODATE]
       (PLUGIN_STATE := map_option (\<lambda>b. V_Header_Map (b_header b)) blk,
        PLUGIN_VOTES := map_option (\<lambda>b. V_Votes (b_votes b)) blk)"

definition apply_update_message :: "block \<Rightarrow> page_row list \<Rightarrow> message" where
  "apply_update_message b list =
     [PLUGIN_CMD \<mapsto> V_Int PLUGIN_APPLY_UPDATE, PLUGIN_HEIGHT \<mapsto> V_Int (b_height b),
      PLUGIN_STATE \<mapsto> V_Header_Map (b_header b), PLUGIN_VOTES \<mapsto> V_Votes (b_votes b), PLUGIN_MOD_PAGES \<mapsto> V_Pages list]"

text \<open>The pages and the agreement; \<^verbatim>\<open>loc_failed\<close> ends the read transaction.\<close>

definition send_state :: "'db sqlite \<Rightarrow> net \<Rightarrow> 'db plugin \<Rightarrow> peer \<Rightarrow> block \<Rightarrow> int \<Rightarrow> 'db plugin option" where
  "send_state sql net p n blk height =
     (let (e, rc) = aergolite_begin_state_read sql (core p); p = p\<lparr>core := e\<rparr> in
      if rc \<noteq> SQLITE_OK then Some (end_state_read p)
      else case load_modified_pages (core p) (height + 1) of
        Inl rc \<Rightarrow> Some (end_state_read p)
      | Inr list \<Rightarrow> do {
          (p, ok) \<leftarrow> send_pages sql net n (b_height blk) (distinct_pages list) p;
          (if \<not> ok then Some (end_state_read p)
           else let p = end_state_read p;
                    (p, ok) = send_peer_message net p n (apply_update_message blk list) in
                if \<not> ok then Some (end_state_read p)
                else Some (send_block_votes net (send_new_blocks net p n) n))
        })"

definition on_request_state_update :: "'db sqlite \<Rightarrow> net \<Rightarrow> 'db plugin \<Rightarrow> peer \<Rightarrow> message \<Rightarrow> 'db plugin option" where
  "on_request_state_update sql net p n msg =
     (let height = max 0 (msg_int msg PLUGIN_HEIGHT) in
      if height \<ge> current_height p then
        let (p, ok) = send_peer_message net p n
               (uptodate_message (if current_height p > 0 then current_block p else None)) in
        if \<not> ok then Some (end_state_read p)
        else Some (send_block_votes net (send_new_blocks net p n) n)
      else if sync_down_state p = DB_STATE_SYNCHRONIZING \<or> is_updating_state p then
        Some (fst (send_peer_message net p n [PLUGIN_CMD \<mapsto> V_Int PLUGIN_BUSY]))
      else
        let p = (if open_block p \<noteq> None then rollback_block p else p) in
        case current_block p of None \<Rightarrow> Some p
        | Some blk \<Rightarrow> send_state sql net p n blk height)"

end
