(* ===== verification/Consensus.thy ===== *)
theory Consensus
  imports State_Update
begin

section \<open>Consensus\<close>

text \<open>
  The protocol of \<^verbatim>\<open>consensus.c\<close>: blocks of the next height arrive from any node; when the wait timer
  ends, the node votes for the one with the lowest wait time among those whose transactions it has and
  whose execution gives the same state; a block with the votes of the majority is committed. When no
  block can reach the majority a second round of voting starts. At most one block is open in the engine;
  \<open>open_block\<close> points to it.
\<close>

subsection \<open>Checking, verifying and committing a block\<close>

fun request_missing_txns :: "net \<Rightarrow> bool \<Rightarrow> u64 list \<Rightarrow> 'db plugin \<Rightarrow> bool \<Rightarrow> 'db plugin \<times> bool" where
  "request_missing_txns net downloading [] p all_present = (p, all_present)"
| "request_missing_txns net downloading (v # vs) p all_present =
     (if find_mempool p (txn_id_of v) \<noteq> None then request_missing_txns net downloading vs p all_present
      else request_missing_txns net downloading vs
             (if downloading then p else fst (request_transaction net p (txn_id_of v))) False)"

definition check_block_transactions :: "net \<Rightarrow> 'db plugin \<Rightarrow> block \<Rightarrow> 'db plugin \<times> rc" where
  "check_block_transactions net p b =
     (let (p, all_present) = request_missing_txns net (downloading_txns b) (block_txn_ids b) p True;
          p = update_block p (b_addr b) (\<lambda>b. b\<lparr>downloading_txns := \<not> all_present\<rparr>)
      in (p, if all_present then SQLITE_OK else SQLITE_BUSY))"

text \<open>The result of the loop is the last code and whether the loop went through; a transaction that is not in
  the mempool is a null pointer. A transaction with another outcome than in the block ends the loop
  with the code of its execution.\<close>

fun execute_block_txns :: "'db sqlite \<Rightarrow> u64 list \<Rightarrow> 'db plugin \<Rightarrow> ('db plugin \<times> rc \<times> bool) option" where
  "execute_block_txns sql [] p = Some (p, SQLITE_OK, True)"
| "execute_block_txns sql (v # vs) p =
     (case find_mempool p (txn_id_of v) of None \<Rightarrow> None
      | Some txn \<Rightarrow> do {
          (e, rc) \<leftarrow> aergolite_execute_transaction sql (core p) (t_node_id txn) (t_nonce txn) (t_log txn);
          (let p = p\<lparr>core := e\<rparr> in
           if rc = SQLITE_BUSY then Some (p, rc, False)
           else if (rc \<noteq> SQLITE_OK) \<noteq> txn_failed v then Some (p, rc, False)
           else execute_block_txns sql vs p)
        })"

definition outdated :: "'db plugin \<Rightarrow> rc \<Rightarrow> 'db plugin" where
  "outdated p rc =
     (if rc \<noteq> SQLITE_BUSY \<and> sync_down_state p \<noteq> DB_STATE_SYNCHRONIZING
      then p\<lparr>sync_down_state := DB_STATE_OUTDATED\<rparr> else p)"

text \<open>\<^verbatim>\<open>loc_failed\<close> of \<^verbatim>\<open>verify_block\<close>\<close>

definition verify_block_failed :: "'db plugin \<Rightarrow> rc \<Rightarrow> 'db plugin \<times> rc" where
  "verify_block_failed p rc = (outdated (p\<lparr>core := aergolite_rollback_block (core p)\<rparr>) rc, rc)"

definition null_body :: block_body where
  "null_body = \<lparr>body_mod_pages = [], body_txn_ids = []\<rparr>"

definition verify_block :: "'db sqlite \<Rightarrow> 'db plugin \<Rightarrow> block \<Rightarrow> ('db plugin \<times> rc) option" where
  "verify_block sql p b =
     (let (e, rc) = aergolite_begin_block sql (core p); p = p\<lparr>core := e\<rparr> in
      if rc \<noteq> SQLITE_OK then Some (outdated p rc, rc)
      else do {
        (p, rc, finished) \<leftarrow> execute_block_txns sql (block_txn_ids b) p;
        (if \<not> finished then Some (verify_block_failed p rc)
         else do {
           (e, res) \<leftarrow> aergolite_verify_block sql (core p) (b_header b) (or_else (b_body b) null_body);
           (let p = p\<lparr>core := e\<rparr> in
            case res of
              Inl rc \<Rightarrow> Some (verify_block_failed p rc)
            | Inr bid \<Rightarrow>
                Some (update_block (p\<lparr>open_block := Some (b_addr b)\<rparr>) (b_addr b) (\<lambda>b. b\<lparr>b_id := bid\<rparr>), SQLITE_OK))
         })
      })"

definition mark_block_txns :: "block \<Rightarrow> transaction list \<Rightarrow> transaction list" where
  "mark_block_txns b ts =
     map (\<lambda>t. if t_id t \<in> set (map txn_id_of (block_txn_ids b)) then t\<lparr>t_block_height := b_height b\<rparr> else t) ts"

text \<open>One old transaction is removed for each transaction of the block.\<close>

definition remove_old_txns :: "block \<Rightarrow> transaction list \<Rightarrow> transaction list" where
  "remove_old_txns b ts =
     (discard_first (\<lambda>t. t_block_height t > 0 \<and> t_block_height t \<le> b_height b - 2) ^^ length (block_txn_ids b)) ts"

text \<open>What happens in the plugin once the engine has committed.\<close>

definition block_committed :: "net \<Rightarrow> 'db plugin \<Rightarrow> block \<Rightarrow> 'db plugin" where
  "block_committed net p b =
     (let p = p\<lparr>mempool := remove_old_txns b (mark_block_txns b (mempool p))\<rparr>;
          p = check_mempool_transactions p;
          p = remove_block (p\<lparr>current_block := Some b\<rparr>) (b_addr b);
          p = discard_uncommitted_blocks (p\<lparr>open_block := None\<rparr>);
          p = discard_old_block_votes p;
          p = count_authorized_nodes (plugin_update_nodes_types p)
      in start_new_block_timer net p)"

definition commit_block :: "'db sqlite \<Rightarrow> net \<Rightarrow> 'db plugin \<Rightarrow> block \<Rightarrow> 'db plugin \<times> rc" where
  "commit_block sql net p b =
     (let (e, rc) = aergolite_commit_block sql (core p) (b_header b) (or_else (b_body b) null_body) (b_votes b);
          p = p\<lparr>core := e\<rparr> in
      if rc \<noteq> SQLITE_OK then (outdated p rc, rc) else (block_committed net p b, SQLITE_OK))"

text \<open>The block is read again through its pointer between the two steps.\<close>

definition apply_block :: "'db sqlite \<Rightarrow> net \<Rightarrow> 'db plugin \<Rightarrow> block \<Rightarrow> ('db plugin \<times> rc) option" where
  "apply_block sql net p b =
     do {
       (p, rc) \<leftarrow> verify_block sql p b;
       (if rc \<noteq> SQLITE_OK then Some (p, rc)
        else do { b \<leftarrow> block_from p (b_addr b); Some (commit_block sql net p b) })
     }"

subsection \<open>Voting\<close>

definition vote_on_block :: "'db sqlite \<Rightarrow> net \<Rightarrow> 'db plugin \<Rightarrow> int \<Rightarrow> nat \<Rightarrow> 'db plugin option" where
  "vote_on_block sql net p round a =
     do {
       b \<leftarrow> block_from p a;
       (case aergolite_sign_raw (lib sql) (this_node p) (b_id b) of
          Inl rc \<Rightarrow> Some p
        | Inr sg \<Rightarrow>
            if \<not> snd (count_block_vote b round (my_id p) sg) then Some p
            else
              let p = update_block p a (\<lambda>b. fst (count_block_vote b round (my_id p) sg));
                  p = p\<lparr>last_vote_height := b_height b, last_vote_round := round\<rparr>
              in Some (send_to_authorized net (vote_message (b_height b) (b_id b) round (my_id p) sg) (peers p) p))
     }"

definition set_wait_times :: "net \<Rightarrow> 'db plugin \<Rightarrow> int \<Rightarrow> 'db plugin" where
  "set_wait_times net p height =
     p\<lparr>new_blocks := map (\<lambda>b. if b_height b = height
          then b\<lparr>wait_time := calculate_wait_interval net (b_vrf_output b) (total_authorized_nodes p) (block_interval p)\<rparr>
          else b) (new_blocks p)\<rparr>"

text \<open>The first block of the lowest wait time.\<close>

fun select_winner :: "int \<Rightarrow> block list \<Rightarrow> block option \<Rightarrow> block option" where
  "select_winner height [] winner = winner"
| "select_winner height (b # bs) winner =
     select_winner height bs
       (if b_height b = height \<and> (case winner of None \<Rightarrow> True | Some w \<Rightarrow> wait_time b < wait_time w)
        then Some b else winner)"

definition open_winner :: "'db sqlite \<Rightarrow> net \<Rightarrow> 'db plugin \<Rightarrow> block \<Rightarrow> ('db plugin \<times> rc) option" where
  "open_winner sql net p w =
     (let p = (if open_block p \<noteq> None then rollback_block p else p);
          (p, rc) = check_block_transactions net p w in
      if rc = SQLITE_OK then verify_block sql p w else Some (p, rc))"

subsubsection \<open>The list of blocks during the loop\<close>

lemma req_frame_missing_txns: "req_frame p (fst (request_missing_txns net d vs p present))"
proof (induction vs arbitrary: p present)
  case Nil
  then show ?case by simp
next
  case (Cons v vs)
  have "req_frame p (if d then p else fst (request_transaction net p (txn_id_of v)))"
    by (simp add: req_frame_request_transaction)
  from req_frame_trans [OF this Cons] Cons show ?case by simp
qed

definition addrs :: "'db plugin \<Rightarrow> nat list" where
  "addrs p = map b_addr (new_blocks p)"

lemma addrs_update [simp]: "(\<And>b. b_addr (f b) = b_addr b) \<Longrightarrow> addrs (update_block p a f) = addrs p"
  by (simp add: addrs_def update_block_def comp_def if_distrib cong: if_cong)

lemma addrs_core [simp]: "addrs (p\<lparr>core := e\<rparr>) = addrs p" "addrs (p\<lparr>open_block := ob\<rparr>) = addrs p"
    "addrs (p\<lparr>sync_down_state := s\<rparr>) = addrs p"
  by (simp_all add: addrs_def)

lemma addrs_req: "req_frame p p' \<Longrightarrow> addrs p' = addrs p"
  by (simp add: addrs_def req_frame_fields)

lemma addrs_check: "addrs (fst (check_block_transactions net p b)) = addrs p"
  by (simp add: check_block_transactions_def Let_def case_prod_beta addrs_req [OF req_frame_missing_txns])

lemma execute_block_txns_core:
  "execute_block_txns sql vs p = Some (p', rc, fin) \<Longrightarrow> p' = p\<lparr>core := core p'\<rparr>"
proof (induction vs arbitrary: p)
  case Nil
  then show ?case by simp
next
  case (Cons v vs)
  obtain txn where t: "find_mempool p (txn_id_of v) = Some txn"
    using Cons.prems by (cases "find_mempool p (txn_id_of v)") auto
  obtain e rc1 where x: "aergolite_execute_transaction sql (core p) (t_node_id txn) (t_nonce txn) (t_log txn) = Some (e, rc1)"
    using Cons.prems t
    by (cases "aergolite_execute_transaction sql (core p) (t_node_id txn) (t_nonce txn) (t_log txn)") auto
  have "p' = p\<lparr>core := e\<rparr> \<or> execute_block_txns sql vs (p\<lparr>core := e\<rparr>) = Some (p', rc, fin)"
    using Cons.prems by (simp add: t x Let_def split: if_split_asm)
  with Cons.IH [of "p\<lparr>core := e\<rparr>"] show ?case by auto
qed

lemma addrs_outdated [simp]: "addrs (outdated p rc) = addrs p"
  by (simp add: outdated_def)

lemma addrs_verify_failed [simp]: "addrs (fst (verify_block_failed p rc)) = addrs p"
  by (simp add: verify_block_failed_def)

lemma verify_block_cases [consumes 1, case_names busy txn invalid ok]:
  assumes "verify_block sql p b = Some (p', rc)"
  obtains e where "aergolite_begin_block sql (core p) = (e, rc)" "rc \<noteq> SQLITE_OK" "p' = outdated (p\<lparr>core := e\<rparr>) rc"
  | e q where "aergolite_begin_block sql (core p) = (e, SQLITE_OK)"
      "execute_block_txns sql (block_txn_ids b) (p\<lparr>core := e\<rparr>) = Some (q, rc, False)" "p' = fst (verify_block_failed q rc)"
  | e q rc' e' where "aergolite_begin_block sql (core p) = (e, SQLITE_OK)"
      "execute_block_txns sql (block_txn_ids b) (p\<lparr>core := e\<rparr>) = Some (q, rc', True)"
      "aergolite_verify_block sql (core q) (b_header b) (or_else (b_body b) null_body) = Some (e', Inl rc)"
      "p' = fst (verify_block_failed (q\<lparr>core := e'\<rparr>) rc)"
  | e q rc' e' bid where "aergolite_begin_block sql (core p) = (e, SQLITE_OK)" "rc = SQLITE_OK"
      "execute_block_txns sql (block_txn_ids b) (p\<lparr>core := e\<rparr>) = Some (q, rc', True)"
      "aergolite_verify_block sql (core q) (b_header b) (or_else (b_body b) null_body) = Some (e', Inr bid)"
      "p' = update_block (q\<lparr>core := e', open_block := Some (b_addr b)\<rparr>) (b_addr b) (\<lambda>b. b\<lparr>b_id := bid\<rparr>)"
proof -
  obtain e rc0 where e: "aergolite_begin_block sql (core p) = (e, rc0)" by (cases "aergolite_begin_block sql (core p)")
  show thesis
  proof (cases "rc0 = SQLITE_OK")
    case False
    with assms e that(1) show thesis by (auto simp: verify_block_def Let_def)
  next
    case True
    obtain q rc' fin where q: "execute_block_txns sql (block_txn_ids b) (p\<lparr>core := e\<rparr>) = Some (q, rc', fin)"
      using assms e True by (cases "execute_block_txns sql (block_txn_ids b) (p\<lparr>core := e\<rparr>)") (auto simp: verify_block_def Let_def)
    show thesis
    proof (cases fin)
      case False
      with assms e True q that(2) show thesis by (auto simp: verify_block_def Let_def verify_block_failed_def)
    next
      case fin: True
      obtain e' res where v: "aergolite_verify_block sql (core q) (b_header b) (or_else (b_body b) null_body) = Some (e', res)"
        using assms e True q fin
        by (cases "aergolite_verify_block sql (core q) (b_header b) (or_else (b_body b) null_body)") (auto simp: verify_block_def Let_def)
      with assms e True q fin that(3,4) show thesis
        by (cases res) (auto simp: verify_block_def Let_def verify_block_failed_def)
    qed
  qed
qed

lemma execute_addrs:
  assumes "execute_block_txns sql vs (p\<lparr>core := e\<rparr>) = Some (q, rc, fin)"
  shows "addrs q = addrs p"
proof -
  have "addrs q = addrs ((p\<lparr>core := e\<rparr>)\<lparr>core := core q\<rparr>)" by (rule arg_cong [OF execute_block_txns_core [OF assms]])
  then show ?thesis by simp
qed

lemma addrs_verify: "verify_block sql p b = Some (p', rc) \<Longrightarrow> addrs p' = addrs p"
proof (induction rule: verify_block_cases)
  case (ok e q rc' e' bid)
  have "addrs p' = addrs (q\<lparr>core := e', open_block := Some (b_addr b)\<rparr>)" unfolding ok(5) by (rule addrs_update) simp
  then show ?case using execute_addrs [OF ok(3)] by (simp add: addrs_def)
qed (auto dest: execute_addrs)

lemma addrs_open_winner:
  assumes "open_winner sql net p w = Some (p', rc)"
  shows "addrs p' = addrs p"
proof -
  define q where "q = (if open_block p \<noteq> None then rollback_block p else p)"
  have q: "addrs q = addrs p" by (simp add: q_def rollback_block_def addrs_def)
  obtain r rc1 where r: "check_block_transactions net q w = (r, rc1)" by (cases "check_block_transactions net q w")
  have "addrs r = addrs p" using addrs_check [of net q w] by (simp add: r q)
  then show ?thesis
    using assms addrs_verify [of sql r w p' rc] unfolding open_winner_def Let_def q_def [symmetric] by (auto simp: r split: if_split_asm)
qed

lemma select_winner_in: "select_winner height bs winner = Some w \<Longrightarrow> w \<in> set bs \<or> winner = Some w"
proof (induction bs arbitrary: winner)
  case (Cons b bs)
  from Cons.IH [OF Cons.prems [simplified]] show ?case by (auto split: if_splits)
qed simp

lemma remove_fewer: "a \<in> set (addrs p) \<Longrightarrow> length (new_blocks (remove_block p a)) < length (addrs p)"
  by (auto simp: addrs_def remove_block_def intro: length_filter_less)

subsubsection \<open>The loop\<close>

text \<open>The blocks that fail are set aside in \<open>excluded\<close> and the selection is done again.\<close>

function vote_loop ::
  "'db sqlite \<Rightarrow> net \<Rightarrow> int \<Rightarrow> int \<Rightarrow> 'db plugin \<Rightarrow> block list \<Rightarrow> ('db plugin \<times> block list) option" where
  "vote_loop sql net round height p excluded =
     (case select_winner height (new_blocks p) None of
        None \<Rightarrow> Some (p, excluded)
      | Some w \<Rightarrow>
          (if open_block p = Some (b_addr w)
           then map_option (\<lambda>p. (p, excluded)) (vote_on_block sql net p round (b_addr w))
           else do {
             (p', rc) \<leftarrow> open_winner sql net p w;
             (if rc \<noteq> SQLITE_OK
              then do {
                w' \<leftarrow> block_from p' (b_addr w);
                vote_loop sql net round height (remove_block p' (b_addr w)) (excluded @ [w'])
              }
              else map_option (\<lambda>p. (p, excluded)) (vote_on_block sql net p' round (b_addr w)))
           }))"
  by pat_completeness auto
termination
proof (relation "measure (\<lambda>(sql, net, round, height, p, excluded). length (new_blocks p))", goal_cases)
  case 1
  then show ?case by simp
next
  case (2 sql net round height p excluded w pr p' rc w')
  then have w: "open_winner sql net p w = Some (p', rc)" "b_addr w \<in> set (addrs p)"
    using select_winner_in [of height "new_blocks p" None w] by (auto simp: addrs_def)
  from addrs_open_winner [OF w(1)] w(2) have "b_addr w \<in> set (addrs p')" "length (addrs p') = length (new_blocks p)"
    by (simp_all add: addrs_def)
  from remove_fewer [OF this(1)] this(2) show ?case by simp
qed

declare vote_loop.simps [simp del]

text \<open>\<^verbatim>\<open>choose_block_to_vote\<close> up to its last call; the boolean is whether that call is reached.\<close>

definition vote_on_best_block :: "'db sqlite \<Rightarrow> net \<Rightarrow> 'db plugin \<Rightarrow> int \<Rightarrow> ('db plugin \<times> bool) option" where
  "vote_on_best_block sql net p round =
     (let height = current_height p + 1 in
      if last_vote_height p = height \<and> last_vote_round p = round then Some (p, False)
      else if is_updating_state p then Some (p, False)
      else if \<not> can_vote_on_block (this_node p) (my_id p) height then Some (p, True)
      else do {
        (p, excluded) \<leftarrow> vote_loop sql net round height (set_wait_times net p height) [];
        Some (p\<lparr>new_blocks := new_blocks p @ excluded\<rparr>, True)
      })"

subsection \<open>The winner\<close>

definition authorized_voters :: "'db plugin \<Rightarrow> nat" where
  "authorized_voters p = (if current_height p > 0 then active_authorized_nodes p else total_authorized_nodes p)"

definition has_majority :: "'db plugin \<Rightarrow> int \<Rightarrow> block \<Rightarrow> bool" where
  "has_majority p round b \<longleftrightarrow>
     b_height b = current_height p + 1 \<and> num_votes b round \<ge> int (majority (authorized_voters p))"

definition commit_winner :: "'db sqlite \<Rightarrow> net \<Rightarrow> 'db plugin \<Rightarrow> int \<Rightarrow> block \<Rightarrow> 'db plugin option" where
  "commit_winner sql net p round b =
     (if open_block p = Some (b_addr b) then
        let p = update_block p (b_addr b) (\<lambda>b. convert_block_votes b round) in
        do { b \<leftarrow> block_from p (b_addr b); Some (fst (commit_block sql net p b)) }
      else
        let p = (if open_block p \<noteq> None then rollback_block p else p);
            (p, rc) = check_block_transactions net p b in
        if rc \<noteq> SQLITE_OK then Some p
        else
          let p = update_block p (b_addr b) (\<lambda>b. convert_block_votes b round) in
          do { b \<leftarrow> block_from p (b_addr b); map_option fst (apply_block sql net p b) })"

definition can_still_win :: "'db plugin \<Rightarrow> int \<Rightarrow> bool" where
  "can_still_win p round \<longleftrightarrow>
     (let next = filter (\<lambda>b. b_height b = current_height p + 1) (new_blocks p);
          remaining = int (authorized_voters p) - sum_list (map (\<lambda>b. num_votes b round) next)
      in list_ex (\<lambda>b. num_votes b round + remaining \<ge> int (majority (authorized_voters p))) next)"

text \<open>\<^verbatim>\<open>check_for_winner_block\<close> up to its last call; the boolean is whether that call is reached.\<close>

definition find_winner :: "'db sqlite \<Rightarrow> net \<Rightarrow> 'db plugin \<Rightarrow> int \<Rightarrow> ('db plugin \<times> bool) option" where
  "find_winner sql net p round =
     (if new_blocks p = [] then Some (p, False)
      else if is_updating_state p then Some (p, False)
      else case List.find (has_majority p round) (new_blocks p) of
        Some b \<Rightarrow> map_option (\<lambda>p. (p, False)) (commit_winner sql net p round b)
      | None \<Rightarrow>
          if round = 1 then Some (p, False)
          else if last_vote_height p = current_height p + 1 \<and> last_vote_round p = 1 then Some (p, False)
          else if can_still_win p round then Some (p, False)
          else Some (p, \<not> timer_active p Block_Wait_Timer))"

function choose_block_to_vote :: "'db sqlite \<Rightarrow> net \<Rightarrow> 'db plugin \<Rightarrow> int \<Rightarrow> 'db plugin option"
  and check_for_winner_block :: "'db sqlite \<Rightarrow> net \<Rightarrow> 'db plugin \<Rightarrow> int \<Rightarrow> 'db plugin option" where
  "choose_block_to_vote sql net p round =
     do {
       (p', go) \<leftarrow> vote_on_best_block sql net p round;
       (if go then check_for_winner_block sql net p' round else Some p')
     }"
| "check_for_winner_block sql net p round =
     do {
       (p', go) \<leftarrow> find_winner sql net p round;
       (if go then choose_block_to_vote sql net p' 1 else Some p')
     }"
  by pat_completeness auto
termination
proof (relation "measure (\<lambda>x. case x of
      Inl (sql, net, p, round) \<Rightarrow> if round = 1 then 1 else 3
    | Inr (sql, net, p, round) \<Rightarrow> if round = 1 then 0 else 2)", goal_cases)
  case (3 sql net p round x p' go)
  then show ?case by (auto simp: find_winner_def split: if_splits option.splits)
qed auto

declare choose_block_to_vote.simps [simp del] check_for_winner_block.simps [simp del]

end
