(* ===== verification/Handlers.thy ===== *)
theory Handlers
  imports Consensus
begin

section \<open>Blocks, votes and transactions that arrive\<close>

text \<open>
  The handlers of \<^verbatim>\<open>consensus.c\<close>, \<^verbatim>\<open>transactions.c\<close> and \<^verbatim>\<open>requests.c\<close> that enter the protocol: a block, a vote or
  a transaction from another node, a local transaction, and the timers. A timer that fires is no
  longer active when its callback runs.
\<close>

subsection \<open>Blocks\<close>

definition on_block_wait_timeout :: "'db sqlite \<Rightarrow> net \<Rightarrow> 'db plugin \<Rightarrow> 'db plugin option" where
  "on_block_wait_timeout sql net p =
     choose_block_to_vote sql net (timer_stop (timer_stop p Block_Wait_Timer) New_Block_Timer) 0"

definition start_block_wait_timer :: "'db plugin \<Rightarrow> 'db plugin" where
  "start_block_wait_timer p =
     (let height = current_height p + 1 in
      if last_vote_height p = height then p
      else if \<not> can_vote_on_block (this_node p) (my_id p) height then p
      else if \<not> timer_active p Block_Wait_Timer then timer_start p Block_Wait_Timer (get_block_wait_interval p)
      else p)"

definition new_block :: "'db plugin \<Rightarrow> int \<Rightarrow> bytes \<Rightarrow> header \<Rightarrow> block_body \<Rightarrow> bytes \<Rightarrow> bytes \<Rightarrow> block" where
  "new_block p height bid hdr body proof_bytes output =
     \<lparr>b_addr = next_addr p, b_height = height, b_id = bid, b_header = hdr, b_body = Some body, b_votes = [],
      b_vrf_proof = proof_bytes, b_vrf_output = output, wait_time = 0, temp_votes = (\<lambda>_. []),
      num_votes = (\<lambda>_. 0), downloading_txns = False\<rparr>"

text \<open>A block that passed the checks on its header and proof.\<close>

definition accept_block ::
  "'db sqlite \<Rightarrow> net \<Rightarrow> 'db plugin \<Rightarrow> int \<Rightarrow> bytes \<Rightarrow> header \<Rightarrow> block_body \<Rightarrow> bytes \<Rightarrow> bytes \<Rightarrow> 'db plugin option" where
  "accept_block sql net p height bid hdr body proof_bytes output =
     (if list_ex (\<lambda>b. b_height b = height \<and> b_id b = bid) (new_blocks p) then Some p
      else if height \<le> current_height p then Some p
      else
        let b = transfer_block_votes p (new_block p height bid hdr body proof_bytes output);
            p = p\<lparr>new_blocks := new_blocks p @ [b], next_addr := next_addr p + 1\<rparr>;
            (p, rc) = check_block_transactions net p b in
        if height > current_height p + 1 then request_state_update sql net p
        else
          let p = start_block_wait_timer p in
          if rc \<noteq> SQLITE_OK then Some p else check_for_winner_block sql net p 0)"

definition on_new_block :: "'db sqlite \<Rightarrow> net \<Rightarrow> 'db plugin \<Rightarrow> message \<Rightarrow> 'db plugin option" where
  "on_new_block sql net p msg =
     do {
       res \<leftarrow> aergolite_verify_block_header sql (core p) (or_else (msg_header_blob msg PLUGIN_HEADER) null_header)
                (or_else (msg_body msg PLUGIN_BODY) null_body);
       (case res of
          Inl rc \<Rightarrow> Some p
        | Inr (nid, height, bid) \<Rightarrow>
            (case msg_blob msg PLUGIN_PROOF of
               None \<Rightarrow> Some p
             | Some proof_bytes \<Rightarrow>
                 if length proof_bytes \<noteq> 81 then Some p
                 else (case verify_proof net p height nid proof_bytes of
                    Inl rc \<Rightarrow> Some p
                  | Inr output \<Rightarrow>
                      (case (msg_header_blob msg PLUGIN_HEADER, msg_body msg PLUGIN_BODY) of
                         (Some hdr, Some body) \<Rightarrow> accept_block sql net p height bid hdr body proof_bytes output
                       | _ \<Rightarrow> Some p))))
     }"

definition new_block_timer_cb :: "'db sqlite \<Rightarrow> net \<Rightarrow> 'db plugin \<Rightarrow> 'db plugin option" where
  "new_block_timer_cb sql net p =
     (let p = timer_stop p New_Block_Timer;
          p = (if open_block p \<noteq> None then rollback_block p else p) in
      do {
        (p, res) \<leftarrow> create_new_block sql p;
        (case res of
           No_Block \<Rightarrow> Some (timer_start p New_Block_Timer (block_interval p))
         | Nothing_To_Do \<Rightarrow> Some p
         | Created b \<Rightarrow>
             (let p = p\<lparr>new_blocks := new_blocks p @ [b], open_block := Some (b_addr b)\<rparr>
              in Some (start_block_wait_timer (broadcast_new_block net p b))))
      })"

subsection \<open>Votes\<close>

text \<open>A hash or signature that is absent counts as one of another size.\<close>

definition on_block_vote :: "'db sqlite \<Rightarrow> net \<Rightarrow> 'db plugin \<Rightarrow> message \<Rightarrow> 'db plugin option" where
  "on_block_vote sql net p msg =
     (let height = msg_int msg PLUGIN_HEIGHT; nid = msg_int msg PLUGIN_NODE_ID; round = msg_int msg PLUGIN_ROUND in
      case (msg_blob msg PLUGIN_HASH, msg_blob msg PLUGIN_SIGNATURE) of
        (Some bid, Some sg) \<Rightarrow>
          if length bid \<noteq> 32 \<or> length sg \<noteq> 64 \<or> round < 0 \<or> round > 1 then Some p
          else if aergolite_verify_raw (lib sql) (this_node p) bid (Inr nid) sg \<noteq> SQLITE_OK then Some p
          else (case List.find (\<lambda>b. b_height b = height \<and> b_id b = bid) (new_blocks p) of
              None \<Rightarrow>
                (let p = (if height > current_height p then store_block_vote p nid height round bid sg else p) in
                 if height > current_height p + 1 \<and> sync_down_state p \<noteq> DB_STATE_SYNCHRONIZING
                 then request_state_update sql net p else Some p)
            | Some b \<Rightarrow>
                if \<not> snd (count_block_vote b round nid sg) then Some p
                else check_for_winner_block sql net
                       (update_block p (b_addr b) (\<lambda>b. fst (count_block_vote b round nid sg))) round)
      | _ \<Rightarrow> Some p)"

subsection \<open>Transactions\<close>

definition process_arrived_transaction :: "'db sqlite \<Rightarrow> net \<Rightarrow> 'db plugin \<Rightarrow> transaction \<Rightarrow> ('db plugin \<times> bool) option" where
  "process_arrived_transaction sql net p txn =
     (let (p, requested) = requested_transaction_arrived p (t_id txn) in
      if requested \<and> new_blocks p \<noteq> [] \<and> \<not> timer_active p Block_Wait_Timer
      then map_option (\<lambda>p. (p, requested)) (choose_block_to_vote sql net p 0)
      else Some (p, requested))"

definition process_new_transaction ::
  "'db sqlite \<Rightarrow> net \<Rightarrow> 'db plugin \<Rightarrow> int \<Rightarrow> int \<Rightarrow> binn list \<Rightarrow> ('db plugin \<times> rc \<times> transaction option) option" where
  "process_new_transaction sql net p nid nonce log =
     do {
       (p, rc, txn) \<leftarrow> store_transaction_on_mempool sql p nid nonce log;
       (if rc = SQLITE_EXISTS then Some (p, SQLITE_OK, txn)
        else if rc \<noteq> SQLITE_OK then Some (p, rc, None)
        else do {
          t \<leftarrow> txn;
          (p, requested) \<leftarrow> process_arrived_transaction sql net p t;
          Some (if requested then p else start_new_block_timer net p, SQLITE_OK, txn)
        })
     }"

text \<open>A message without a log is verified as an empty one.\<close>

definition on_new_remote_transaction :: "'db sqlite \<Rightarrow> net \<Rightarrow> 'db plugin \<Rightarrow> message \<Rightarrow> 'db plugin option" where
  "on_new_remote_transaction sql net p msg =
     map_option fst (process_new_transaction sql net p (msg_int msg PLUGIN_NODE_ID) (msg_int msg PLUGIN_NONCE)
                       (or_else (msg_log msg PLUGIN_SQL_CMDS) []))"

definition on_requested_remote_transaction :: "'db sqlite \<Rightarrow> net \<Rightarrow> 'db plugin \<Rightarrow> message \<Rightarrow> 'db plugin option" where
  "on_requested_remote_transaction sql net p msg =
     (let nid = msg_int msg PLUGIN_NODE_ID; nonce = msg_int msg PLUGIN_NONCE in
      case find_transaction_request p (build_transaction_id nid nonce) of
        None \<Rightarrow> Some p
      | Some r \<Rightarrow>
          if r_height r = 0 then on_new_remote_transaction sql net p msg
          else if r_height r < 0 \<or> r_seq r \<le> 0 then Some p
          else case msg_log msg PLUGIN_SQL_CMDS of
            None \<Rightarrow> Some p
          | Some log \<Rightarrow> do {
              (e, rc) \<leftarrow> aergolite_save_transaction sql (core p) (r_height r) (r_seq r) nid nonce log;
              (let p = p\<lparr>core := e\<rparr> in if rc \<noteq> SQLITE_OK then Some p else Some (request_finished p (r_addr r)))
            })"

text \<open>The loop runs until the local log has no transaction of the next nonce.\<close>

definition send_local_turn :: "'db sqlite \<Rightarrow> net \<Rightarrow> 'db plugin \<Rightarrow> int \<Rightarrow> ('db plugin + 'db plugin \<times> int) option" where
  "send_local_turn sql net p nonce =
     (let (e, res) = aergolite_get_local_transaction sql (core p) nonce; p = p\<lparr>core := e\<rparr> in
      case res of
        Inl rc \<Rightarrow>
          Some (Inl (p\<lparr>sync_up_state := (if rc = SQLITE_EMPTY \<or> rc = SQLITE_NOTFOUND then DB_STATE_IN_SYNC
                                         else DB_STATE_LOCAL_CHANGES)\<rparr>))
      | Inr (nonce, log) \<Rightarrow>
          if nonce = 0 then Some (Inl (p\<lparr>sync_up_state := DB_STATE_LOCAL_CHANGES\<rparr>))
          else do {
            (p, rc, txn) \<leftarrow> process_new_transaction sql net p (my_id p) nonce log;
            (let (p, rc) = (case txn of Some t \<Rightarrow> if rc = SQLITE_OK then broadcast_transaction net p t else (p, rc)
                            | None \<Rightarrow> (p, rc)) in
             if rc \<noteq> SQLITE_OK then Some (Inl (p\<lparr>sync_up_state := DB_STATE_LOCAL_CHANGES\<rparr>))
             else Some (Inr (p, nonce + 1)))
          })"

partial_function (option) send_local_loop :: "'db sqlite \<Rightarrow> net \<Rightarrow> 'db plugin \<Rightarrow> int \<Rightarrow> 'db plugin option" where
  "send_local_loop sql net p nonce =
     (case send_local_turn sql net p nonce of None \<Rightarrow> None
      | Some t \<Rightarrow> (case t of Inl p' \<Rightarrow> Some p' | Inr r \<Rightarrow> send_local_loop sql net (fst r) (snd r)))"

definition send_local_transactions :: "'db sqlite \<Rightarrow> net \<Rightarrow> 'db plugin \<Rightarrow> 'db plugin option" where
  "send_local_transactions sql net p = send_local_loop sql net p 0"

definition on_local_transaction :: "'db sqlite \<Rightarrow> net \<Rightarrow> 'db plugin \<Rightarrow> 'db plugin option" where
  "on_local_transaction sql net p =
     (if sync_up_state p = DB_STATE_SYNCHRONIZING then Some p
      else
        let p = p\<lparr>sync_up_state := DB_STATE_LOCAL_CHANGES\<rparr> in
        if sync_down_state p = DB_STATE_IN_SYNC then send_local_transactions sql net p else Some p)"

definition process_transactions_timer_cb :: "'db sqlite \<Rightarrow> net \<Rightarrow> 'db plugin \<Rightarrow> 'db plugin option" where
  "process_transactions_timer_cb sql net p =
     (if peers p = [] then Some p
      else do {
        p \<leftarrow> (if sync_down_state p \<noteq> DB_STATE_SYNCHRONIZING \<and> sync_down_state p \<noteq> DB_STATE_IN_SYNC
             then start_downstream_db_sync sql net p else Some p);
        (if sync_down_state p = DB_STATE_IN_SYNC \<and> sync_up_state p \<noteq> DB_STATE_SYNCHRONIZING
            \<and> sync_up_state p \<noteq> DB_STATE_IN_SYNC
         then send_local_transactions sql net p else Some p)
      })"

definition on_requested_transaction_not_found :: "'db sqlite \<Rightarrow> net \<Rightarrow> 'db plugin \<Rightarrow> u64 \<Rightarrow> 'db plugin option" where
  "on_requested_transaction_not_found sql net p tid =
     (if sync_down_state p \<noteq> DB_STATE_SYNCHRONIZING then request_state_update sql net p else Some p)"

end
