(* ===== verification/Allowed_Nodes.thy ===== *)
theory Allowed_Nodes
  imports Handlers
begin

section \<open>Authentication and authorization of nodes\<close>

text \<open>
  \<^verbatim>\<open>allowed_nodes.c\<close> and the exchange of addresses of \<^verbatim>\<open>node_discovery.c\<close>. A new connection identifies itself
  with a signed description of its device; if its key is authorized it receives the authorizations,
  the transactions, the blocks and the votes. Two connections with the same node id are in conflict
  until the older one answers a ping. The buffers of \<^verbatim>\<open>struct node\<close> have fixed sizes; a copy that does not
  fit is \<^term>\<open>None\<close>, as is the use of a null string.
\<close>

subsection \<open>Peer lists\<close>

definition peer_list_message :: "(string \<times> int) list \<Rightarrow> message" where
  "peer_list_message l = [PLUGIN_CMD \<mapsto> V_Int PLUGIN_PEER_LIST, PLUGIN_PEERS \<mapsto> V_Peers l]"

fun share_peers :: "net \<Rightarrow> peer \<Rightarrow> peer list \<Rightarrow> 'db plugin \<times> (string \<times> int) list \<Rightarrow> 'db plugin \<times> (string \<times> int) list" where
  "share_peers net to [] st = st"
| "share_peers net to (n # ns) (p, l) =
     share_peers net to ns
       (if is_authorized n \<and> conn n \<noteq> conn to \<and> bind_port n > 0 then
          if peer_id n > peer_id to then (p, l @ [(host n, bind_port n)])
          else (fst (send_peer_message net p n (peer_list_message [(host to, bind_port to)])), l)
        else (p, l))"

definition send_peer_list :: "net \<Rightarrow> 'db plugin \<Rightarrow> peer \<Rightarrow> 'db plugin" where
  "send_peer_list net p to =
     (let (p, l) = share_peers net to (peers p) (p, []) in
      if l \<noteq> [] then fst (send_peer_message net p to (peer_list_message l)) else p)"

definition on_peer_list_request :: "net \<Rightarrow> 'db plugin \<Rightarrow> peer \<Rightarrow> message \<Rightarrow> 'db plugin" where
  "on_peer_list_request net p n msg = send_peer_list net p n"

definition request_peer_list :: "net \<Rightarrow> 'db plugin \<Rightarrow> peer \<Rightarrow> 'db plugin" where
  "request_peer_list net p n = fst (send_peer_message net p n [PLUGIN_CMD \<mapsto> V_Int PLUGIN_GET_PEERS])"

subsection \<open>Authorizations\<close>

definition send_authorizations :: "net \<Rightarrow> 'db plugin \<Rightarrow> peer \<Rightarrow> binn list option \<Rightarrow> 'db plugin \<times> rc" where
  "send_authorizations net p n log =
     (let list = (case log of Some l \<Rightarrow> [l] | None \<Rightarrow> map auth_log (authorizations (this_node p)));
          (p, ok) = send_peer_message net p n
             [PLUGIN_CMD \<mapsto> V_Int PLUGIN_AUTHORIZATIONS, PLUGIN_AUTHORIZATION \<mapsto> V_Logs list] in
      if ok then (update_peer p (conn n) (\<lambda>n. n\<lparr>authorization_sent := True\<rparr>), SQLITE_OK) else (p, SQLITE_NOMEM))"

definition on_new_accepted_node :: "net \<Rightarrow> 'db plugin \<Rightarrow> peer \<Rightarrow> 'db plugin" where
  "on_new_accepted_node net p n =
     (let p = send_peer_list net p n;
          p = send_mempool_transactions net p n;
          p = send_new_blocks net p n;
          p = send_block_votes net p n;
          p = (if \<not> timer_active p Process_Transactions_Timer then timer_start p Process_Transactions_Timer 1 else p)
      in start_new_block_timer net p)"

text \<open>The loop over the peers: the state, the last code, the peer that was authorized.\<close>

fun announce_authorization ::
  "net \<Rightarrow> binn list \<Rightarrow> bytes \<Rightarrow> bool \<Rightarrow> bool \<Rightarrow> peer list \<Rightarrow> 'db plugin \<Rightarrow> peer option \<Rightarrow> 'db plugin \<times> rc \<times> peer option" where
  "announce_authorization net log key full from_this_node [] p authorized = (p, SQLITE_OK, authorized)"
| "announce_authorization net log key full from_this_node (n # ns) p authorized =
     (let (p, rc, authorized) =
        (if peer_pubkey n = key then
           let n' = n\<lparr>is_authorized := True, peer_is_full := full\<rparr>;
               p = update_peer p (conn n) (\<lambda>n. n\<lparr>is_authorized := True, peer_is_full := full\<rparr>);
               (p, rc) = send_authorizations net p n' None
           in (p, rc, Some n')
         else if is_authorized n \<and> from_this_node then
           let (p, rc) = send_authorizations net p n (Some log) in (p, rc, authorized)
         else (p, SQLITE_OK, authorized)) in
      if rc \<noteq> SQLITE_OK then (p, rc, authorized)
      else announce_authorization net log key full from_this_node ns p authorized)"

definition authorize_own_key :: "'db plugin \<Rightarrow> bytes \<Rightarrow> bool \<Rightarrow> bool \<Rightarrow> 'db plugin" where
  "authorize_own_key p key full from_this_node =
     (if my_pubkey p = key then
        let p = p\<lparr>my_is_authorized := True, my_is_full := full\<rparr> in
        if from_this_node \<and> current_block p = None then p\<lparr>sync_down_state := DB_STATE_IN_SYNC\<rparr> else p
      else p)"

definition authorize_key :: "net \<Rightarrow> 'db plugin \<Rightarrow> binn list \<Rightarrow> bytes \<Rightarrow> bool \<Rightarrow> bool \<Rightarrow> 'db plugin \<times> rc" where
  "authorize_key net p log key full from_this_node =
     (let p = authorize_own_key (count_authorized_nodes p) key full from_this_node;
          (p, rc, authorized) = announce_authorization net log key full from_this_node (peers p) p None
      in (case authorized of None \<Rightarrow> p | Some n \<Rightarrow> on_new_accepted_node net p n, rc))"

definition on_new_authorization :: "'db sqlite \<Rightarrow> net \<Rightarrow> 'db plugin \<Rightarrow> binn list \<Rightarrow> bool \<Rightarrow> ('db plugin \<times> rc) option" where
  "on_new_authorization sql net p log from_this_node =
     do {
       (n, rc) \<leftarrow> aergolite_new_authorization (crc (core p)) (lib sql) (this_node p) log;
       (let p = p\<lparr>core := (core p)\<lparr>node := n\<rparr>\<rparr> in
        if rc \<noteq> SQLITE_OK then Some (p, rc)
        else do {
          auth \<leftarrow> read_authorized_pubkey log;
          (case auth of
             Inl rc \<Rightarrow> Some (p, rc)
           | Inr (key, type) \<Rightarrow> Some (authorize_key net p log key (type = ''full'') from_this_node))
        })
     }"

fun receive_authorizations :: "'db sqlite \<Rightarrow> net \<Rightarrow> binn list list \<Rightarrow> 'db plugin \<Rightarrow> 'db plugin option" where
  "receive_authorizations sql net [] p = Some p"
| "receive_authorizations sql net (log # logs) p =
     do {
       (p, rc) \<leftarrow> on_new_authorization sql net p log False;
       receive_authorizations sql net logs p
     }"

definition on_authorization_received :: "'db sqlite \<Rightarrow> net \<Rightarrow> 'db plugin \<Rightarrow> message \<Rightarrow> 'db plugin option" where
  "on_authorization_received sql net p msg =
     (case msg_logs msg PLUGIN_AUTHORIZATION of None \<Rightarrow> Some p
      | Some logs \<Rightarrow> receive_authorizations sql net logs p)"

definition on_new_local_transaction :: "'db plugin \<Rightarrow> binn list option \<Rightarrow> 'db plugin" where
  "on_new_local_transaction p log =
     (case log of None \<Rightarrow> p | Some l \<Rightarrow> p\<lparr>special_txn := special_txn p @ [l]\<rparr>)"

text \<open>Each turn takes one transaction off the list.\<close>

fun process_special :: "'db sqlite \<Rightarrow> net \<Rightarrow> binn list list \<Rightarrow> 'db plugin \<Rightarrow> 'db plugin option" where
  "process_special sql net [] p = Some (p\<lparr>special_txn := []\<rparr>)"
| "process_special sql net (log # logs) p =
     do {
       auth \<leftarrow> read_authorized_pubkey log;
       (p, rc) \<leftarrow> (case auth of Inl rc \<Rightarrow> Some (p\<lparr>special_txn := logs\<rparr>, rc)
                            | Inr _ \<Rightarrow> on_new_authorization sql net (p\<lparr>special_txn := logs\<rparr>) log True);
       (if rc \<noteq> SQLITE_OK then Some p else process_special sql net logs p)
     }"

definition process_new_special_transaction :: "'db sqlite \<Rightarrow> net \<Rightarrow> 'db plugin \<Rightarrow> 'db plugin option" where
  "process_new_special_transaction sql net p = process_special sql net (special_txn p) p"

definition worker_thread_on_local_transaction :: "'db sqlite \<Rightarrow> net \<Rightarrow> 'db plugin \<Rightarrow> 'db plugin option" where
  "worker_thread_on_local_transaction sql net p =
     do {
       p \<leftarrow> (if special_txn p \<noteq> [] then process_new_special_transaction sql net p else Some p);
       on_local_transaction sql net p
     }"

definition on_valid_node_id :: "net \<Rightarrow> 'db plugin \<Rightarrow> peer \<Rightarrow> 'db plugin" where
  "on_valid_node_id net p n =
     (if \<not> is_authorized n then p
      else on_new_accepted_node net (fst (send_authorizations net p n None)) n)"

subsection \<open>Conflicts of node ids\<close>

text \<open>A conflict is the pair of the existing and the new connection, kept by both.\<close>

definition stop_id_conflict_timer :: "'db plugin \<Rightarrow> nat \<times> nat \<Rightarrow> 'db plugin" where
  "stop_id_conflict_timer p conflict =
     update_peer (update_peer p (fst conflict) (\<lambda>n. n\<lparr>id_conflict := None\<rparr>)) (snd conflict) (\<lambda>n. n\<lparr>id_conflict := None\<rparr>)"

definition id_conflict_timer_cb :: "net \<Rightarrow> 'db plugin \<Rightarrow> nat \<times> nat \<Rightarrow> 'db plugin option" where
  "id_conflict_timer_cb net p conflict =
     (let p = disconnect_peer (stop_id_conflict_timer p conflict) (fst conflict) in
      do { n \<leftarrow> node_from_socket p (snd conflict); Some (on_valid_node_id net p n) })"

definition on_ping_received :: "net \<Rightarrow> 'db plugin \<Rightarrow> peer \<Rightarrow> message \<Rightarrow> 'db plugin" where
  "on_ping_received net p n msg = fst (send_peer_message net p n [PLUGIN_CMD \<mapsto> V_Int PLUGIN_CMD_PONG])"

definition on_ping_response :: "net \<Rightarrow> 'db plugin \<Rightarrow> peer \<Rightarrow> message \<Rightarrow> 'db plugin option" where
  "on_ping_response net p n msg =
     (case id_conflict n of None \<Rightarrow> Some p
      | Some conflict \<Rightarrow> do {
          n' \<leftarrow> node_from_socket p (snd conflict);
          Some (stop_id_conflict_timer
                  (fst (send_peer_message net p n' [PLUGIN_CMD \<mapsto> V_Int PLUGIN_ID_CONFLICT])) conflict)
        })"

definition on_new_node_with_same_id :: "net \<Rightarrow> 'db plugin \<Rightarrow> peer \<Rightarrow> peer \<Rightarrow> 'db plugin" where
  "on_new_node_with_same_id net p existing new =
     (let (p, ok) = send_peer_message net p existing [PLUGIN_CMD \<mapsto> V_Int PLUGIN_CMD_PING] in
      if \<not> ok then disconnect_peer p (conn existing)
      else let conflict = (conn existing, conn new) in
        update_peer (update_peer p (conn existing) (\<lambda>n. n\<lparr>id_conflict := Some conflict\<rparr>))
          (conn new) (\<lambda>n. n\<lparr>id_conflict := Some conflict\<rparr>))"

text \<open>\<^verbatim>\<open>binn_map_set_uint64\<close> does not replace an entry; an absent one reads as zero.\<close>

definition add_node_connection_identifier :: "peer \<Rightarrow> int \<Rightarrow> u64 \<Rightarrow> peer" where
  "add_node_connection_identifier n nid random_no =
     (if conn_id n nid = None then n\<lparr>conn_id := (conn_id n)(nid \<mapsto> random_no)\<rparr> else n)"

definition choose_duplicate_connection :: "'db plugin \<Rightarrow> peer \<Rightarrow> peer \<Rightarrow> peer" where
  "choose_duplicate_connection p n1 n2 =
     (let value = (\<lambda>n. or_else (conn_id n (min (my_id p) (peer_id n))) 0) in
      if value n1 < value n2 then n1 else n2)"

definition check_new_identified_node :: "net \<Rightarrow> 'db plugin \<Rightarrow> peer \<Rightarrow> 'db plugin" where
  "check_new_identified_node net p n =
     (if take 33 (peer_pubkey n) = take 33 (my_pubkey p) then disconnect_peer p (conn n)
      else if peer_id n = my_id p then disconnect_peer p (conn n)
      else case List.find (\<lambda>m. conn m \<noteq> conn n \<and> take 33 (peer_pubkey m) = take 33 (peer_pubkey n)) (peers p) of
        Some m \<Rightarrow> disconnect_peer p (conn (choose_duplicate_connection p m n))
      | None \<Rightarrow>
          (case List.find (\<lambda>m. conn m \<noteq> conn n \<and> peer_id m = peer_id n) (peers p) of
             Some m \<Rightarrow> on_new_node_with_same_id net p m n
           | None \<Rightarrow> on_valid_node_id net p n))"

subsection \<open>Identification\<close>

definition identity_text :: "int \<Rightarrow> int \<Rightarrow> string \<Rightarrow> string \<Rightarrow> string \<Rightarrow> string \<Rightarrow> string" where
  "identity_text nid port cpu os hostname app =
     int_dec nid @ '':'' @ int_dec port @ '':'' @ cpu @ '':'' @ os @ '':'' @ hostname @ '':'' @ app"

definition printed :: "string option \<Rightarrow> string" where
  "printed s = or_else s ''(null)''"

text \<open>The key that the signature is checked with, and whether it is the one of an authorization.\<close>

definition identity_key :: "'db plugin \<Rightarrow> int \<Rightarrow> bytes option \<Rightarrow> (bytes \<times> nodeauth option) option" where
  "identity_key p nid pubkey_ext =
     (case aergolite_get_authorization (this_node p) nid of
        Inr auth \<Rightarrow> if pubkey_ext \<noteq> None \<and> pubkey_ext \<noteq> Some (pk auth) then None else Some (pk auth, Some auth)
      | Inl _ \<Rightarrow> (case pubkey_ext of None \<Rightarrow> None | Some key \<Rightarrow> if key = [] then None else Some (key, None)))"

text \<open>\<^verbatim>\<open>msg2\<close> has 2048 bytes, the description fields 256 each, the key 36.\<close>

definition on_node_identification :: "'db sqlite \<Rightarrow> net \<Rightarrow> 'db plugin \<Rightarrow> peer \<Rightarrow> message \<Rightarrow> 'db plugin option" where
  "on_node_identification sql net p n msg =
     (if msg_int msg PLUGIN_VERSION \<noteq> 1 then Some (disconnect_peer p (conn n))
      else
        let n = n\<lparr>peer_id := msg_int msg PLUGIN_NODE_ID, node_info := msg_str msg PLUGIN_NODE_INFO,
                  bind_port := msg_int msg PLUGIN_PORT\<rparr>;
            p = update_peer p (conn n) (\<lambda>_. n);
            failed = Some (disconnect_peer p (conn n)) in
        if my_id p = 0 \<or> peer_id n < 0 then failed
        else case msg_blob msg PLUGIN_SIGNATURE of None \<Rightarrow> failed
        | Some sg \<Rightarrow>
          (case identity_key p (peer_id n) (msg_blob msg PLUGIN_PUBKEY) of None \<Rightarrow> failed
           | Some (key, auth) \<Rightarrow>
              (let fields = map (msg_str msg) [PLUGIN_CPU, PLUGIN_OS, PLUGIN_HOSTNAME, PLUGIN_APP];
                   text = identity_text (peer_id n) (bind_port n) (printed (msg_str msg PLUGIN_CPU)) (printed (msg_str msg PLUGIN_OS))
                            (printed (msg_str msg PLUGIN_HOSTNAME)) (printed (msg_str msg PLUGIN_APP)) in
               if length text \<ge> 2048 then None
               else if aergolite_verify (lib sql) (this_node p) (str_bytes text) (Inl key) sg \<noteq> SQLITE_OK then failed
               else if list_ex (\<lambda>s. s = None \<or> length (or_else s []) \<ge> 256) fields \<or> length key > 36 then None
               else
                 let n = n\<lparr>device := map printed fields, peer_pubkey := key, is_authorized := (auth \<noteq> None),
                           peer_is_full := (case auth of None \<Rightarrow> peer_is_full n | Some a \<Rightarrow> is_full_node a),
                           authorization_sent := (authorization_sent n \<or> msg_blob msg PLUGIN_PUBKEY = None
                                                   \<or> msg_blob msg PLUGIN_PUBKEY = Some [])\<rparr>;
                     n = add_node_connection_identifier n (peer_id n) (word_of_int (msg_int msg PLUGIN_RANDOM));
                     p = update_peer p (conn n) (\<lambda>_. n)
                 in Some (check_new_identified_node net p n))))"

definition random64 :: "net \<Rightarrow> 'db plugin \<Rightarrow> 'db plugin \<times> u64" where
  "random64 net p =
     (p\<lparr>drawn := drawn p + 2\<rparr>,
      ucast (randomness net (drawn p)) OR push_bit 32 (ucast (randomness net (drawn p + 1))))"

text \<open>\<^verbatim>\<open>snprintf\<close> cuts the text at 2047 characters.\<close>

definition own_identity :: "net \<Rightarrow> 'db plugin \<Rightarrow> string" where
  "own_identity net p =
     take 2047 (identity_text (my_id p) (my_bind_port p) (device_info net ! 0) (device_info net ! 1)
                  (device_info net ! 2) (device_info net ! 3))"

definition identity_message :: "net \<Rightarrow> 'db plugin \<Rightarrow> bytes \<Rightarrow> u64 \<Rightarrow> message" where
  "identity_message net p sg random_no =
     [PLUGIN_CMD \<mapsto> V_Int PLUGIN_CMD_ID, PLUGIN_VERSION \<mapsto> V_Int 1, PLUGIN_PUBKEY \<mapsto> V_Blob (my_pubkey p),
      PLUGIN_NODE_ID \<mapsto> V_Int (my_id p), PLUGIN_PORT \<mapsto> V_Int (my_bind_port p),
      PLUGIN_CPU \<mapsto> V_Str (device_info net ! 0), PLUGIN_OS \<mapsto> V_Str (device_info net ! 1),
      PLUGIN_HOSTNAME \<mapsto> V_Str (device_info net ! 2), PLUGIN_APP \<mapsto> V_Str (device_info net ! 3),
      PLUGIN_SIGNATURE \<mapsto> V_Blob sg, PLUGIN_RANDOM \<mapsto> V_Int (uint random_no)]
       (PLUGIN_NODE_INFO := map_option V_Str (own_info net))"

definition send_node_identification :: "'db sqlite \<Rightarrow> net \<Rightarrow> 'db plugin \<Rightarrow> peer \<Rightarrow> 'db plugin \<times> bool" where
  "send_node_identification sql net p n =
     (case aergolite_sign (lib sql) (this_node p) (str_bytes (own_identity net p)) of
        Inl rc \<Rightarrow> (p, False)
      | Inr sg \<Rightarrow>
          (let (p, random_no) = random64 net p;
               p = update_peer p (conn n) (\<lambda>n. add_node_connection_identifier n (my_id p) random_no)
           in send_peer_message net p n (identity_message net p sg random_no)))"

definition on_new_node_connected :: "'db sqlite \<Rightarrow> net \<Rightarrow> 'db plugin \<Rightarrow> peer \<Rightarrow> 'db plugin" where
  "on_new_node_connected sql net p n =
     (let (p, ok) = send_node_identification sql net p n in if ok then p else disconnect_peer p (conn n))"

text \<open>\<^verbatim>\<open>worker_thread_on_close\<close> of a connection releases the node.\<close>

definition connection_closed :: "'db plugin \<Rightarrow> nat \<Rightarrow> 'db plugin" where
  "connection_closed p c =
     (case node_from_socket p c of None \<Rightarrow> p
      | Some n \<Rightarrow>
          (let p = p\<lparr>peers := filter (\<lambda>m. conn m \<noteq> c) (peers p)\<rparr> in
           case id_conflict n of None \<Rightarrow> p | Some conflict \<Rightarrow> stop_id_conflict_timer p conflict))"

end
