(* ===== verification/Connections.thy ===== *)
theory Connections
  imports Allowed_Nodes Special_Commands
begin

section \<open>Addresses, connections and the start of the plugin\<close>

text \<open>
  The part of \<^verbatim>\<open>no-leader.c\<close> and \<^verbatim>\<open>node_discovery.c\<close> that keeps the list of peers: the addresses of the
  configuration, connections opened and accepted, peers that other peers name, and the state in which
  the plugin starts. Sockets are parameters; a new connection is an object with a fresh address. The
  code copies a host into 64 bytes without a test of its length; a longer one is \<^term>\<open>None\<close>.
\<close>

subsection \<open>Addresses of the configuration\<close>

text \<open>The text after \<^verbatim>\<open>tcp://\<close> is parsed as in the anchoring command: \<^verbatim>\<open>host:port\<close>, \<^verbatim>\<open>[host]:port\<close> or a port.\<close>

definition address_item :: "int \<Rightarrow> string \<times> int \<Rightarrow> tcp_address" where
  "address_item interval a =
     \<lparr>tcp_host = fst a, tcp_port = snd a, is_broadcast = False,
      reconnect_interval = (if interval > 0 then interval else 3000)\<rparr>"

definition parse_bind_item :: "int \<Rightarrow> string \<Rightarrow> tcp_address option" where
  "parse_bind_item interval address =
     map_option (address_item interval)
       (parse_tcp_address (if take 6 address = ''tcp://'' then drop 6 address else address))"

definition parse_bind_address :: "string \<Rightarrow> int \<Rightarrow> tcp_address list option" where
  "parse_bind_address address interval = those (map (parse_bind_item interval) (split_chr (CHR '','') address))"

definition host_and_port :: "string \<Rightarrow> string \<times> string option" where
  "host_and_port address =
     (case address of
        CHR ''['' # rest \<Rightarrow>
          (case stripchr rest (CHR '']'') of
             (h, Some (CHR '':'' # p)) \<Rightarrow> (h, Some p)
           | (h, _) \<Rightarrow> (h, None))
      | _ \<Rightarrow> stripchr address (CHR '':''))"

definition parse_discovery_item :: "int \<Rightarrow> string \<Rightarrow> tcp_address option" where
  "parse_discovery_item interval address =
     (case host_and_port address of
        (h, None) \<Rightarrow> None
      | (h, Some p) \<Rightarrow>
          if length h > 63 then None
          else Some (let a = address_item interval (h, atoi p) in
                     if take 5 h = ''local'' then a\<lparr>tcp_host := [], is_broadcast := True\<rparr> else a))"

definition parse_discovery_address :: "string \<Rightarrow> int \<Rightarrow> tcp_address list option" where
  "parse_discovery_address address interval =
     those (map (parse_discovery_item interval) (split_chr (CHR '','') address))"

subsection \<open>Connections\<close>

definition new_node :: "'db plugin \<Rightarrow> 'db plugin \<times> nat" where
  "new_node p =
     (p\<lparr>peers := peers p @ [\<lparr>conn = next_addr p, peer_id = 0, peer_pubkey = [], is_authorized = False,
          peer_is_full = False, authorization_sent = False, conn_state = 0, host = [], device = [], is_closing = False,
          remote_port = 0, bind_port = 0, node_info = None, conn_id = Map.empty, id_conflict = None\<rparr>],
        next_addr := next_addr p + 1\<rparr>, next_addr p)"

text \<open>\<^verbatim>\<open>CONN_STATE_CONNECTING\<close>, \<^verbatim>\<open>CONN_STATE_CONNECTED\<close>, \<^verbatim>\<open>CONN_STATE_FAILED\<close>\<close>

definition connect_to_peer_address :: "net \<Rightarrow> 'db plugin \<Rightarrow> nat \<Rightarrow> 'db plugin" where
  "connect_to_peer_address net p c =
     (if connect_ok net c then p else disconnect_peer (update_peer p c (\<lambda>n. n\<lparr>conn_state := 5\<rparr>)) c)"

text \<open>A name is resolved first; the answer is another event.\<close>

definition connect_to_peer :: "net \<Rightarrow> 'db plugin \<Rightarrow> nat \<Rightarrow> 'db plugin" where
  "connect_to_peer net p c =
     (let p = update_peer p c (\<lambda>n. n\<lparr>bind_port := remote_port n, conn_state := 1\<rparr>) in
      case node_from_socket p c of None \<Rightarrow> p
      | Some n \<Rightarrow> if numeric_ip net (host n) then connect_to_peer_address net p c else p)"

definition on_resolved :: "net \<Rightarrow> 'db plugin \<Rightarrow> nat \<Rightarrow> bool \<Rightarrow> 'db plugin" where
  "on_resolved net p c ok = (if ok then connect_to_peer_address net p c else p)"

definition check_peer_connection :: "net \<Rightarrow> 'db plugin \<Rightarrow> string \<Rightarrow> int \<Rightarrow> ('db plugin \<times> bool) option" where
  "check_peer_connection net p ip prt =
     (if local_ip net ip \<and> prt = my_bind_port p then Some (p, False)
      else case List.find (\<lambda>n. host n = ip \<and> bind_port n = prt) (peers p) of
        Some n \<Rightarrow>
          if conn_state n = 1 \<or> conn_state n = 2 then Some (p, False)
          else Some (connect_to_peer net p (conn n), True)
      | None \<Rightarrow>
          if length ip \<ge> 64 then None
          else let (p, c) = new_node p;
                   p = update_peer p c (\<lambda>n. n\<lparr>host := ip, remote_port := prt\<rparr>)
               in Some (connect_to_peer net p c, True))"

text \<open>\<^verbatim>\<open>worker_thread_on_tcp_connection\<close>: \<open>ok\<close> is whether the socket could be prepared.\<close>

definition tcp_connection :: "'db plugin \<Rightarrow> nat \<Rightarrow> bool \<Rightarrow> 'db plugin" where
  "tcp_connection p c ok =
     (if ok then update_peer p c (\<lambda>n. n\<lparr>conn_state := 2\<rparr>) else disconnect_peer p c)"

definition identify_to_peer :: "'db sqlite \<Rightarrow> net \<Rightarrow> 'db plugin \<Rightarrow> nat \<Rightarrow> bool \<Rightarrow> 'db plugin" where
  "identify_to_peer sql net p c ok =
     (let p = tcp_connection p c ok in
      if \<not> ok then p
      else case node_from_socket p c of None \<Rightarrow> p | Some n \<Rightarrow> on_new_node_connected sql net p n)"

definition on_outgoing_connection :: "'db sqlite \<Rightarrow> net \<Rightarrow> 'db plugin \<Rightarrow> nat \<Rightarrow> bool \<Rightarrow> bool \<Rightarrow> 'db plugin" where
  "on_outgoing_connection sql net p c status ok =
     (if \<not> status then disconnect_peer p c
      else case node_from_socket p c of None \<Rightarrow> p
        | Some n \<Rightarrow> identify_to_peer sql net p c ok)"

definition on_incoming_connection :: "'db sqlite \<Rightarrow> net \<Rightarrow> 'db plugin \<Rightarrow> string \<Rightarrow> int \<Rightarrow> bool \<Rightarrow> bool \<Rightarrow> 'db plugin" where
  "on_incoming_connection sql net p ip prt accepted ok =
     (let (p, c) = new_node p in
      if \<not> accepted then disconnect_peer p c
      else identify_to_peer sql net (update_peer p c (\<lambda>n. n\<lparr>host := take 63 ip, remote_port := prt\<rparr>)) c ok)"

subsection \<open>Discovery\<close>

fun check_peers :: "net \<Rightarrow> (string \<times> int) list \<Rightarrow> 'db plugin \<Rightarrow> 'db plugin option" where
  "check_peers net [] p = Some p"
| "check_peers net (a # as') p =
     (case check_peer_connection net p (fst a) (snd a) of None \<Rightarrow> None
      | Some r \<Rightarrow> check_peers net as' (fst r))"

definition on_peer_list_received :: "net \<Rightarrow> 'db plugin \<Rightarrow> message \<Rightarrow> 'db plugin option" where
  "on_peer_list_received net p msg =
     check_peers net (case msg PLUGIN_PEERS of Some (V_Peers l) \<Rightarrow> l | _ \<Rightarrow> []) p"

text \<open>The UDP broadcast only sends.\<close>

definition start_node_discovery :: "net \<Rightarrow> 'db plugin \<Rightarrow> 'db plugin option" where
  "start_node_discovery net p =
     check_peers net (map (\<lambda>a. (tcp_host a, tcp_port a)) (filter (\<lambda>a. \<not> is_broadcast a) (discovery p))) p"

definition on_find_node_response :: "net \<Rightarrow> 'db plugin \<Rightarrow> string \<Rightarrow> int \<Rightarrow> 'db plugin option" where
  "on_find_node_response net p ip prt =
     (case check_peer_connection net p ip prt of None \<Rightarrow> None
      | Some (p, started) \<Rightarrow>
          Some (if reconnect_timer_enabled p
                then timer_start (timer_stop (p\<lparr>reconnect_timer_enabled := False\<rparr>) Reconnect_Timer)
                       After_Connections_Timer 500
                else p))"

text \<open>The periodic function of the core rotates its log files.\<close>

definition after_connections_timer_cb :: "net \<Rightarrow> 'db plugin \<Rightarrow> 'db plugin option" where
  "after_connections_timer_cb net p =
     (let p = timer_stop p After_Connections_Timer in
      if peers p = [] then
        (case start_node_discovery net p of None \<Rightarrow> None
         | Some p \<Rightarrow> Some (timer_start p After_Connections_Timer 1500))
      else Some (timer_start p Core_Timer 1000))"

definition reconnect_timer_cb :: "net \<Rightarrow> 'db plugin \<Rightarrow> 'db plugin option" where
  "reconnect_timer_cb net p = start_node_discovery net p"

subsection \<open>The start\<close>

text \<open>\<open>free_port\<close> is the port the system gives when none is asked for.\<close>

definition plugin_bind :: "int \<Rightarrow> tcp_address list \<Rightarrow> string option \<Rightarrow> int option" where
  "plugin_bind free_port addresses bind_uri =
     (let given = (\<lambda>prt. if prt = 0 then free_port else prt) in
      case bind_uri of
        Some b \<Rightarrow> map_option (\<lambda>l. given (tcp_port (hd l))) (parse_bind_address b 0)
      | None \<Rightarrow>
          (case filter is_broadcast addresses of
             [] \<Rightarrow> Some free_port
           | l \<Rightarrow> Some (given (tcp_port (List.last l)))))"

definition plugin_interval :: "string option \<Rightarrow> nat" where
  "plugin_interval arg = (let i = (case arg of None \<Rightarrow> -1 | Some s \<Rightarrow> atoi s) in if i < 0 then 3000 else nat i)"

definition plugin_init ::
  "int \<Rightarrow> 'db engine \<Rightarrow> string option \<Rightarrow> string option \<Rightarrow> string option \<Rightarrow> 'db plugin option" where
  "plugin_init free_port e disc bind_uri interval =
     (case (case disc of None \<Rightarrow> Some [] | Some d \<Rightarrow> parse_discovery_address d 0) of
        None \<Rightarrow> None
      | Some addresses \<Rightarrow>
          (case plugin_bind free_port addresses bind_uri of
             None \<Rightarrow> None
           | Some prt \<Rightarrow>
               (let auth = aergolite_get_authorization (node e) (this_id (node e)) in
                Some \<lparr>core = e, my_id = this_id (node e), my_pubkey = (if has_privkey (node e) then pubkey (node e) else []),
                  my_bind_port = prt, discovery = addresses, reconnect_timer_enabled = False, peers = [],
                  total_authorized_nodes = 0, active_authorized_nodes = 0, my_is_authorized = (auth \<noteq> Inl SQLITE_NOTFOUND),
                  my_is_full = (case auth of Inl _ \<Rightarrow> False | Inr a \<Rightarrow> is_full_node a), requests = [], mempool = [],
                  special_txn = [], nonces = None, current_block = None, new_blocks = [], open_block = None,
                  block_votes = [], last_created_block_height = 0, last_vote_height = 0, last_vote_round = 0,
                  block_interval = plugin_interval interval, block_vrf_proof = replicate 81 0,
                  block_vrf_output = replicate 32 0, timers = Map.empty, is_updating_state = False, contacted_node_id = 0,
                  state_update_contacted_nodes = None, state_update_failed_nodes = None,
                  downloading_block_bodies = False, sync_down_state = DB_STATE_UNKNOWN, sync_up_state = DB_STATE_UNKNOWN,
                  next_addr = 1, drawn = 0, sent = []\<rparr>)))"

text \<open>The thread up to its event loop.\<close>

definition node_thread :: "'db sqlite \<Rightarrow> net \<Rightarrow> 'db plugin \<Rightarrow> 'db plugin option" where
  "node_thread sql net p =
     (case start_node_discovery net p of None \<Rightarrow> None
      | Some p \<Rightarrow> map_option fst (load_current_state sql (timer_start p After_Connections_Timer 1500)))"

end
