(* ===== verification/Dispatch.thy ===== *)
theory Dispatch
  imports Connections
begin

section \<open>The event loop\<close>

text \<open>
  The plugin runs on one thread: libuv calls one function for each message, timer, connection and
  notification of the main thread. \<open>handle\<close> is the dispatch of \<^verbatim>\<open>worker_thread_on_peer_message\<close> and of the
  other callbacks on an event; \<open>reachable\<close> are the states of a plugin between two events. Nothing is
  assumed about the order of the events, about the messages, nor about what the network and the
  random numbers do from one event to the next. Between two events the main thread, which shares the engine with
  the plugin, may change the engine.
\<close>

subsection \<open>Messages\<close>

definition on_peer_info_changed :: "'db plugin \<Rightarrow> peer \<Rightarrow> string option \<Rightarrow> 'db plugin" where
  "on_peer_info_changed p n arg = update_peer p (conn n) (\<lambda>n. n\<lparr>node_info := arg\<rparr>)"

text \<open>The comparison of a null command is \<^term>\<open>None\<close>; one command is registered.\<close>

definition on_text_command_received :: "'db plugin \<Rightarrow> peer \<Rightarrow> string option \<Rightarrow> 'db plugin option" where
  "on_text_command_received p n msg =
     (case msg of None \<Rightarrow> None
      | Some text \<Rightarrow>
          (let (command, arg) = stripchr text (CHR '':'') in
           Some (if command = ''node_info'' then on_peer_info_changed p n arg else p)))"

abbreviation PLUGIN_TEXT_CMD :: int where "PLUGIN_TEXT_CMD \<equiv> 0xCD31"

text \<open>The socket of no peer makes the code read through a null pointer. An unknown command is only logged.\<close>

definition dispatch :: "'db sqlite \<Rightarrow> net \<Rightarrow> 'db plugin \<Rightarrow> peer \<Rightarrow> message \<Rightarrow> 'db plugin option" where
  "dispatch sql net p n msg =
     (let cmd = msg_int msg PLUGIN_CMD in
      if cmd = PLUGIN_CMD_ID then on_node_identification sql net p n msg
      else if cmd = PLUGIN_AUTHORIZATIONS then on_authorization_received sql net p msg
      else if cmd = PLUGIN_PEER_LIST then on_peer_list_received net p msg
      else if cmd = PLUGIN_GET_PEERS then Some (on_peer_list_request net p n msg)
      else if cmd = PLUGIN_TEXT_CMD then on_text_command_received p n (msg_str msg PLUGIN_TEXT)
      else if cmd = PLUGIN_ID_CONFLICT then Some p
      else if cmd = PLUGIN_CMD_PING then Some (on_ping_received net p n msg)
      else if cmd = PLUGIN_DB_PAGE then on_update_db_page sql net p n msg
      else if cmd = PLUGIN_APPLY_UPDATE then on_apply_state_update sql net p n msg
      else if cmd = PLUGIN_UPTODATE then on_uptodate_message sql net p n msg
      else if cmd = PLUGIN_BUSY then on_node_is_busy sql net p n msg
      else if cmd = PLUGIN_REQUESTED_TRANSACTION then on_requested_remote_transaction sql net p msg
      else if cmd = PLUGIN_NEW_TRANSACTION then on_new_remote_transaction sql net p msg
      else if cmd = PLUGIN_REQUESTED_BLOCK then on_requested_block sql net p msg
      else if cmd = PLUGIN_NEW_BLOCK then on_new_block sql net p msg
      else if cmd = PLUGIN_BLOCK_VOTE then on_block_vote sql net p msg
      else if cmd = PLUGIN_GET_MEMPOOL then Some (on_get_mempool_transactions net p n msg)
      else if cmd = PLUGIN_CMD_PONG then on_ping_response net p n msg
      else if cmd = PLUGIN_REQUEST_STATE_DIFF then on_request_state_update sql net p n msg
      else if cmd = PLUGIN_GET_TRANSACTION then Some (on_get_transaction net p n msg)
      else if cmd = PLUGIN_GET_BLOCK then Some (on_get_block net p n msg)
      else Some p)"

definition worker_thread_on_peer_message :: "'db sqlite \<Rightarrow> net \<Rightarrow> 'db plugin \<Rightarrow> nat \<Rightarrow> message \<Rightarrow> 'db plugin option" where
  "worker_thread_on_peer_message sql net p c msg =
     (case node_from_socket p c of None \<Rightarrow> None
      | Some n \<Rightarrow> if is_closing n then Some p else dispatch sql net p n msg)"

subsection \<open>Timers\<close>

definition timer_cb :: "'db sqlite \<Rightarrow> net \<Rightarrow> 'db plugin \<Rightarrow> timer \<Rightarrow> 'db plugin option" where
  "timer_cb sql net p t =
     (case t of
        State_Update_Timer \<Rightarrow> on_state_update_node_timeout sql net p
      | Process_Transactions_Timer \<Rightarrow> process_transactions_timer_cb sql net p
      | New_Block_Timer \<Rightarrow> new_block_timer_cb sql net p
      | Block_Wait_Timer \<Rightarrow> on_block_wait_timeout sql net p
      | After_Connections_Timer \<Rightarrow> after_connections_timer_cb net p
      | Reconnect_Timer \<Rightarrow> reconnect_timer_cb net p
      | Core_Timer \<Rightarrow> Some p)"

definition request_timer_cb :: "net \<Rightarrow> 'db plugin \<Rightarrow> request \<Rightarrow> 'db plugin" where
  "request_timer_cb net p r =
     (if r_block_height r \<noteq> 0 then request_block_timer_cb net p (r_addr r)
      else request_transaction_timer_cb net p (r_addr r))"

subsection \<open>Events\<close>

datatype event =
    Peer_Message nat message
  | Peer_Lost nat
  | Socket_Closed nat
  | Name_Resolved nat bool
  | Outgoing_Connection nat bool bool
  | Incoming_Connection string int bool bool
  | Node_Found string int
  | Timer_Fired timer
  | Request_Timer_Fired nat
  | Conflict_Timer_Fired "nat \<times> nat"
  | Special_Transaction "binn list"
  | Worker_Notified

definition handle :: "'db sqlite \<Rightarrow> net \<Rightarrow> 'db plugin \<Rightarrow> event \<Rightarrow> 'db plugin option" where
  "handle sql net p ev =
     (case ev of
        Peer_Message c msg \<Rightarrow> worker_thread_on_peer_message sql net p c msg
      | Peer_Lost c \<Rightarrow> Some (disconnect_peer p c)
      | Socket_Closed c \<Rightarrow> Some (connection_closed p c)
      | Name_Resolved c ok \<Rightarrow> Some (on_resolved net p c ok)
      | Outgoing_Connection c status ok \<Rightarrow> Some (on_outgoing_connection sql net p c status ok)
      | Incoming_Connection ip prt accepted ok \<Rightarrow> Some (on_incoming_connection sql net p ip prt accepted ok)
      | Node_Found ip prt \<Rightarrow> on_find_node_response net p ip prt
      | Timer_Fired t \<Rightarrow> timer_cb sql net p t
      | Request_Timer_Fired a \<Rightarrow>
          (case find_request p a of None \<Rightarrow> Some p | Some r \<Rightarrow> Some (request_timer_cb net p r))
      | Conflict_Timer_Fired conflict \<Rightarrow> id_conflict_timer_cb net p conflict
      | Special_Transaction log \<Rightarrow> Some (on_new_local_transaction p (Some log))
      | Worker_Notified \<Rightarrow> worker_thread_on_local_transaction sql net p)"

inductive step :: "'db plugin \<Rightarrow> 'db plugin \<Rightarrow> bool" where
  event: "handle sql net p ev = Some p' \<Longrightarrow> step p p'"
| main_thread: "step p (p\<lparr>core := e\<rparr>)"

inductive reachable :: "'db plugin \<Rightarrow> bool" where
  start: "plugin_init free_port e disc bind_uri interval = Some p \<Longrightarrow> node_thread sql net p = Some p' \<Longrightarrow> reachable p'"
| step: "reachable p \<Longrightarrow> step p p' \<Longrightarrow> reachable p'"

fun run :: "'db sqlite \<Rightarrow> net \<Rightarrow> event list \<Rightarrow> 'db plugin \<Rightarrow> 'db plugin option" where
  "run sql net [] p = Some p"
| "run sql net (ev # evs) p = (case handle sql net p ev of None \<Rightarrow> None | Some p \<Rightarrow> run sql net evs p)"

lemma run_reachable: "run sql net evs p = Some p' \<Longrightarrow> reachable p \<Longrightarrow> reachable p'"
proof (induction evs arbitrary: p)
  case (Cons ev evs)
  then show ?case by (auto split: option.splits) (meson reachable.step step.event)
qed simp

end
