(* ===== verification/Block_Lists.thy ===== *)
theory Block_Lists
  imports Dispatch "HOL-Library.Sublist"
begin

section \<open>What the handlers do to the lists of blocks and transactions\<close>

text \<open>
  Most of what the plugin does leaves its two lists as they are, except that transactions leave the
  mempool or change the height of their block, and blocks receive votes. \<open>evolves\<close> is that relation, and this theory
  shows it for every function that is bound by it. The others remove or reorder blocks, add a
  fresh block, or add a transaction that was not there. The locale \<open>list_invariant\<close> states these four laws; inside it, an
  invariant that obeys them is preserved by every handler and so holds in every reachable state.
\<close>

subsection \<open>The relation\<close>

definition same_block :: "block \<Rightarrow> block \<Rightarrow> bool" where
  "same_block b b' \<longleftrightarrow> b_addr b' = b_addr b \<and> temp_votes b' = temp_votes b \<and> num_votes b' = num_votes b"

definition count_step :: "block \<Rightarrow> block \<Rightarrow> bool" where
  "count_step b b' \<longleftrightarrow> same_block b b' \<or> (\<exists>round nid sg. b' = fst (count_block_vote b round nid sg))"

abbreviation counted :: "block \<Rightarrow> block \<Rightarrow> bool" where
  "counted \<equiv> count_step\<^sup>*\<^sup>*"

definition unmarked :: "transaction list \<Rightarrow> transaction list" where
  "unmarked ts = map (\<lambda>t. t\<lparr>t_block_height := 0\<rparr>) ts"

definition evolves :: "'db plugin \<Rightarrow> 'db plugin \<Rightarrow> bool" where
  "evolves p p' \<longleftrightarrow>
     subseq (unmarked (mempool p')) (unmarked (mempool p)) \<and> next_addr p \<le> next_addr p'
       \<and> list_all2 counted (new_blocks p) (new_blocks p')"

lemma counted_same: "same_block b b' \<Longrightarrow> counted b b'"
  by (rule r_into_rtranclp) (simp add: count_step_def)

lemma counted_vote: "counted b (fst (count_block_vote b round nid sg))"
  by (rule r_into_rtranclp) (auto simp: count_step_def)

lemma same_block_updates [simp]:
  "same_block b b" "same_block b (b\<lparr>wait_time := w\<rparr>)" "same_block b (b\<lparr>downloading_txns := d\<rparr>)"
  "same_block b (b\<lparr>b_id := i\<rparr>)" "same_block b (b\<lparr>b_votes := v\<rparr>)" "same_block b (convert_block_votes b round)"
  by (simp_all add: same_block_def convert_block_votes_def)

lemma all_counted_refl: "list_all2 counted bs bs"
  by (rule list_all2_refl) simp

lemma all_counted_trans: "list_all2 counted as' bs \<Longrightarrow> list_all2 counted bs cs \<Longrightarrow> list_all2 counted as' cs"
  by (rule list_all2_trans [of counted counted counted]) (rule rtranclp_trans)

lemma evolves_refl [simp]: "evolves p p"
  by (simp add: evolves_def all_counted_refl)

lemma evolves_trans [trans]: "evolves p q \<Longrightarrow> evolves q r \<Longrightarrow> evolves p r"
  unfolding evolves_def by (meson all_counted_trans le_trans subseq_order.trans)

subsection \<open>Updates of other fields\<close>

lemma evolves_fields [simp]:
  "evolves p (q\<lparr>core := v1\<rparr>) = evolves p q" "evolves p (q\<lparr>peers := v2\<rparr>) = evolves p q"
  "evolves p (q\<lparr>total_authorized_nodes := v3\<rparr>) = evolves p q" "evolves p (q\<lparr>active_authorized_nodes := v4\<rparr>) = evolves p q"
  "evolves p (q\<lparr>my_is_authorized := v5\<rparr>) = evolves p q" "evolves p (q\<lparr>my_is_full := v6\<rparr>) = evolves p q"
  "evolves p (q\<lparr>requests := v7\<rparr>) = evolves p q" "evolves p (q\<lparr>special_txn := v8\<rparr>) = evolves p q"
  "evolves p (q\<lparr>nonces := v9\<rparr>) = evolves p q" "evolves p (q\<lparr>current_block := v10\<rparr>) = evolves p q"
  "evolves p (q\<lparr>open_block := v11\<rparr>) = evolves p q" "evolves p (q\<lparr>block_votes := v12\<rparr>) = evolves p q"
  "evolves p (q\<lparr>last_created_block_height := v13\<rparr>) = evolves p q" "evolves p (q\<lparr>last_vote_height := v14\<rparr>) = evolves p q"
  "evolves p (q\<lparr>last_vote_round := v15\<rparr>) = evolves p q" "evolves p (q\<lparr>block_vrf_proof := v16\<rparr>) = evolves p q"
  "evolves p (q\<lparr>block_vrf_output := v17\<rparr>) = evolves p q" "evolves p (q\<lparr>timers := v18\<rparr>) = evolves p q"
  "evolves p (q\<lparr>is_updating_state := v19\<rparr>) = evolves p q" "evolves p (q\<lparr>contacted_node_id := v20\<rparr>) = evolves p q"
  "evolves p (q\<lparr>state_update_contacted_nodes := v21\<rparr>) = evolves p q"
  "evolves p (q\<lparr>state_update_failed_nodes := v22\<rparr>) = evolves p q"
  "evolves p (q\<lparr>downloading_block_bodies := v23\<rparr>) = evolves p q" "evolves p (q\<lparr>sync_down_state := v24\<rparr>) = evolves p q"
  "evolves p (q\<lparr>sync_up_state := v25\<rparr>) = evolves p q" "evolves p (q\<lparr>drawn := v26\<rparr>) = evolves p q"
  "evolves p (q\<lparr>sent := v27\<rparr>) = evolves p q" "evolves p (q\<lparr>reconnect_timer_enabled := v28\<rparr>) = evolves p q"
  by (simp_all add: evolves_def)

lemma evolves_next_addr: "evolves p q \<Longrightarrow> next_addr q \<le> a \<Longrightarrow> evolves p (q\<lparr>next_addr := a\<rparr>)"
  by (auto simp: evolves_def)

lemma evolves_mempool:
  "evolves p q \<Longrightarrow> subseq (unmarked ts) (unmarked (mempool q)) \<Longrightarrow> evolves p (q\<lparr>mempool := ts\<rparr>)"
  unfolding evolves_def by (auto intro: subseq_order.trans)

lemma evolves_blocks:
  "evolves p q \<Longrightarrow> (\<And>b. counted b (f b)) \<Longrightarrow> evolves p (q\<lparr>new_blocks := map f (new_blocks q)\<rparr>)"
  unfolding evolves_def by (auto simp: list_all2_map2 elim!: list_all2_mono intro: rtranclp_trans)

lemma evolves_update_block: "evolves p q \<Longrightarrow> (\<And>b. counted b (f b)) \<Longrightarrow> evolves p (update_block q a f)"
  unfolding update_block_def by (rule evolves_blocks) simp_all

lemma unmarked_filter: "subseq (unmarked (filter P ts)) (unmarked ts)"
  unfolding unmarked_def by (rule subseq_map) simp

lemma unmarked_marks: "(\<And>t. (f t)\<lparr>t_block_height := 0\<rparr> = t\<lparr>t_block_height := 0\<rparr>) \<Longrightarrow> unmarked (map f ts) = unmarked ts"
  by (simp add: unmarked_def)

lemma req_frame_evolves: "req_frame p q \<Longrightarrow> evolves p q"
  by (simp add: evolves_def req_frame_fields all_counted_refl)

lemma evolves_req: "req_frame q r \<Longrightarrow> evolves p q \<Longrightarrow> evolves p r"
  by (rule evolves_trans [OF _ req_frame_evolves])

subsection \<open>Operations that evolve the state\<close>

named_theorems evolving \<open>operations that only evolve the lists\<close>

lemma evolves_simple [simp]:
  "evolves p (timer_start q t i) = evolves p q" "evolves p (timer_stop q t) = evolves p q"
  "evolves p (update_peer q c f) = evolves p q" "evolves p (disconnect_peer q c) = evolves p q"
  "evolves p (count_authorized_nodes q) = evolves p q" "evolves p (rollback_block q) = evolves p q"
  "evolves p (mark_failed q nid) = evolves p q" "evolves p (create_contact_arrays q) = evolves p q"
  "evolves p (retry_failed_nodes q) = evolves p q" "evolves p (end_state_read q) = evolves p q"
  "evolves p (store_block_vote q nid height round bid sg) = evolves p q"
  "evolves p (discard_old_block_votes q) = evolves p q" "evolves p (clear_block_votes q) = evolves p q"
  "evolves p (stop_id_conflict_timer q conflict) = evolves p q" "evolves p (update_last_nonce_array q nid nonce) = evolves p q"
  "evolves p (update_request q a g) = evolves p q" "evolves p (request_finished q a) = evolves p q"
  "evolves p (start_request_timer q a i) = evolves p q"
  by (simp_all add: timer_start_def timer_stop_def update_peer_def disconnect_peer_def count_authorized_nodes_def
    rollback_block_def mark_failed_def create_contact_arrays_def retry_failed_nodes_def end_state_read_def
    store_block_vote_def discard_old_block_votes_def clear_block_votes_def stop_id_conflict_timer_def
    update_last_nonce_array_def update_request_def request_finished_def start_request_timer_def)

lemma evolves_outdated [simp]: "evolves p (outdated q rc) = evolves p q"
  by (simp add: outdated_def)

lemma evolves_start_wait [simp]: "evolves p (start_block_wait_timer q) = evolves p q"
  by (simp add: start_block_wait_timer_def Let_def)

lemma evolves_sends [evolving]:
  "evolves p q \<Longrightarrow> evolves p (fst (send_peer_message net q n m))"
  "evolves p q \<Longrightarrow> evolves p (send_to_authorized net m ns q)"
  "evolves p q \<Longrightarrow> evolves p (send_all net n ms q)"
  "evolves p q \<Longrightarrow> evolves p (send_new_block net q n b)"
  "evolves p q \<Longrightarrow> evolves p (send_block_votes net q n)"
  "evolves p q \<Longrightarrow> evolves p (broadcast_new_block net q b)"
  "evolves p q \<Longrightarrow> evolves p (send_mempool_transactions net q n)"
  by (simp_all add: evolves_req [OF req_frame_send] evolves_req [OF req_frame_send_authorized]
    evolves_req [OF req_frame_send_all] send_new_block_def send_block_votes_def broadcast_new_block_def
    send_mempool_transactions_def)

lemma evolves_fold:
  "(\<And>x q. evolves p q \<Longrightarrow> evolves p (f x q)) \<Longrightarrow> evolves p q \<Longrightarrow> evolves p (fold f xs q)"
  by (induction xs arbitrary: q) auto

lemma evolves_requests [evolving]:
  "evolves p q \<Longrightarrow> evolves p (fst (request_transaction net q tid))"
  "evolves p q \<Longrightarrow> evolves p (request_block net q height)"
  "evolves p q \<Longrightarrow> evolves p (request_transaction_next net q a)"
  "evolves p q \<Longrightarrow> evolves p (request_block_next net q a)"
  "evolves p q \<Longrightarrow> evolves p (fst (select_random_connected_node_not_in_list net q l))"
  "evolves p q \<Longrightarrow> evolves p (fst (request_missing_txns net d vs q present))"
  by (auto intro: evolves_req [OF req_frame_request_transaction] evolves_req [OF req_frame_request_block]
    evolves_req [OF req_frame_next_of(1) [OF req_frame_refl]] evolves_req [OF req_frame_next_of(2) [OF req_frame_refl]]
    evolves_req [OF req_frame_select] evolves_req [OF req_frame_missing_txns])

lemma evolves_send_new_blocks [evolving]: "evolves p q \<Longrightarrow> evolves p (send_new_blocks net q n)"
  unfolding send_new_blocks_def by (rule evolves_fold) (simp_all add: evolving)

lemma evolves_nodes_types [evolving]: "evolves p q \<Longrightarrow> evolves p (plugin_update_nodes_types q)"
  unfolding plugin_update_nodes_types_def
  by (rule evolves_fold) (simp_all add: plugin_update_nodes_types_cb_def split: option.split)

lemma evolves_check_mempool [evolving]: "evolves p q \<Longrightarrow> evolves p (check_mempool_transactions q)"
  unfolding check_mempool_transactions_def
  by (rule evolves_fold) (simp_all add: check_mempool_transaction_cb_def evolves_mempool unmarked_filter)

lemma evolves_last_nonces [evolving]: "evolves p q \<Longrightarrow> evolves p (build_last_nonce_array q)"
  unfolding build_last_nonce_array_def
  by (rule evolves_fold) (simp_all add: build_last_nonce_array_cb_def)

lemma evolves_wait_interval [evolving]: "evolves p q \<Longrightarrow> evolves p (fst (calculate_node_wait_interval net q height))"
  by (simp add: calculate_node_wait_interval_def split: option.split)

lemma evolves_can_create [evolving]: "evolves p q \<Longrightarrow> evolves p (fst (can_create_block q))"
  by (simp add: can_create_block_def Let_def)

lemma evolves_new_block_timer [evolving]: "evolves p q \<Longrightarrow> evolves p (start_new_block_timer net q)"
  by (simp add: start_new_block_timer_def Let_def case_prod_beta evolving)

lemma evolves_check_block [evolving]: "evolves p q \<Longrightarrow> evolves p (fst (check_block_transactions net q b))"
  by (simp add: check_block_transactions_def Let_def case_prod_beta evolving evolves_update_block counted_same)

lemma execute_block_txns_frame:
  assumes "execute_block_txns sql vs p = Some (p', rc, fin)"
  shows "p' = p\<lparr>core := core p'\<rparr>"
  by (rule execute_block_txns_core [OF assms])

lemma evolves_execute:
  assumes "execute_block_txns sql vs q = Some (q', rc, fin)"
  shows "evolves p q' = evolves p q"
proof -
  have "evolves p q' = evolves p (q\<lparr>core := core q'\<rparr>)" by (rule arg_cong [OF execute_block_txns_frame [OF assms]])
  then show ?thesis by simp
qed

lemma evolves_verify: "verify_block sql q b = Some (q', rc) \<Longrightarrow> evolves p q \<Longrightarrow> evolves p q'"
  by (induction rule: verify_block_cases)
    (auto simp: verify_block_failed_def evolves_execute evolves_update_block counted_same)

lemma evolves_open_winner:
  assumes "open_winner sql net q w = Some (q', rc)" and "evolves p q"
  shows "evolves p q'"
proof -
  define r where "r = (if open_block q \<noteq> None then rollback_block q else q)"
  have "evolves p (fst (check_block_transactions net r w))" using assms(2) by (simp add: r_def evolving)
  with assms(1) show ?thesis
    unfolding open_winner_def Let_def case_prod_beta r_def [symmetric]
    by (cases "snd (check_block_transactions net r w) = SQLITE_OK") (auto dest: evolves_verify)
qed

lemma evolves_vote:
  assumes "vote_on_block sql net q round a = Some q'" and "evolves p q"
  shows "evolves p q'"
proof -
  obtain b where b: "block_from q a = Some b" using assms(1) by (cases "block_from q a") (auto simp: vote_on_block_def)
  show ?thesis
  proof (cases "aergolite_sign_raw (lib sql) (this_node q) (b_id b)")
    case (Inl rc)
    with assms b show ?thesis by (simp add: vote_on_block_def)
  next
    case (Inr sg)
    with assms b show ?thesis
      by (auto simp: vote_on_block_def Let_def evolving evolves_update_block counted_vote split: if_split_asm)
  qed
qed

lemma evolves_wait_times: "evolves p q \<Longrightarrow> evolves p (set_wait_times net q height)"
  unfolding set_wait_times_def by (rule evolves_blocks) (simp_all add: counted_same)

subsubsection \<open>State update and connections\<close>

lemma evolves_missing_blocks:
  "request_missing_blocks sql net q last_retrieved = Some q' \<Longrightarrow> evolves p q \<Longrightarrow> evolves p q'"
  by (auto simp: request_missing_blocks_def check_blocks_without_body_def Let_def evolving bind_eq_Some_conv
      split: option.splits if_splits prod.splits)

lemma evolves_finished: "state_update_finished sql net q = Some q' \<Longrightarrow> evolves p q \<Longrightarrow> evolves p q'"
  by (auto simp: state_update_finished_def Let_def split: if_splits dest!: evolves_missing_blocks [where p = p])

lemma evolves_contact [evolving]: "evolves p q \<Longrightarrow> evolves p (fst (contact_state_node net q n))"
  by (simp add: contact_state_node_def request_state_update_to_node_def Let_def case_prod_beta evolving)

lemma evolves_turn:
  assumes "state_update_turn sql net q = Some t" and "evolves p q"
  shows "case t of Done q' \<Rightarrow> evolves p q' | Again q' \<Rightarrow> evolves p q'"
proof (cases "enough_contacted (count_authorized_nodes q)")
  case True
  with assms show ?thesis by (auto simp: state_update_turn_def Let_def dest: evolves_finished [where p = p])
next
  case False
  define r where "r = create_contact_arrays (count_authorized_nodes q)"
  define s where "s = select_random_connected_node_not_in_list net r (array_items (state_update_contacted_nodes r))"
  have s: "evolves p (fst s)" using assms(2) by (simp add: s_def r_def evolving)
  have "t = (case snd s of
      None \<Rightarrow> if array_items (state_update_failed_nodes (fst s)) \<noteq> [] then Again (retry_failed_nodes (fst s))
              else Done (timer_start ((fst s)\<lparr>contacted_node_id := 0\<rparr>) State_Update_Timer 1500)
    | Some n \<Rightarrow> if snd (contact_state_node net (fst s) n) \<noteq> SQLITE_OK then Again (fst (contact_state_node net (fst s) n))
              else Done (timer_start (fst (contact_state_node net (fst s) n)) State_Update_Timer 9000))"
    using assms(1) False unfolding state_update_turn_def Let_def r_def [symmetric] s_def [symmetric] case_prod_beta
    by (auto split: option.splits if_splits)
  then show ?thesis using s evolves_contact [OF s] by (auto split: option.split)
qed

lemma evolves_update_next: "request_state_update_next sql net q = Some q' \<Longrightarrow> evolves p q \<Longrightarrow> evolves p q'"
proof (induction arbitrary: p rule: request_state_update_next.raw_induct [rotated, consumes 1, case_names turn])
  case (turn rec sql net q q')
  then obtain t where t: "state_update_turn sql net q = Some t" by (auto split: option.split_asm)
  from evolves_turn [OF t turn.prems] turn t show ?case by (auto split: turn.split_asm)
qed

lemma evolves_request_update: "request_state_update sql net q = Some q' \<Longrightarrow> evolves p q \<Longrightarrow> evolves p q'"
  by (auto simp: request_state_update_def split: if_splits intro: evolves_update_next)

lemma evolves_load_state: "load_current_state sql q = Some (q', rc) \<Longrightarrow> evolves p q \<Longrightarrow> evolves p q'"
proof (cases "aergolite_load_current_state sql (core q)")
  case (Some r)
  moreover assume "load_current_state sql q = Some (q', rc)" "evolves p q"
  ultimately show ?thesis by (cases r; cases "snd r") (auto simp: load_current_state_def evolves_next_addr)
qed (simp add: load_current_state_def)

lemma evolves_downstream: "start_downstream_db_sync sql net q = Some q' \<Longrightarrow> evolves p q \<Longrightarrow> evolves p q'"
  by (auto simp: start_downstream_db_sync_def bind_eq_Some_conv split: if_splits
      dest!: evolves_load_state [where p = p] dest: evolves_request_update [where p = p])

lemma evolves_node_is_busy: "on_node_is_busy sql net q n msg = Some q' \<Longrightarrow> evolves p q \<Longrightarrow> evolves p q'"
  by (auto simp: on_node_is_busy_def Let_def split: if_splits dest: evolves_update_next [where p = p])

lemma evolves_update_timeout: "on_state_update_node_timeout sql net q = Some q' \<Longrightarrow> evolves p q \<Longrightarrow> evolves p q'"
  unfolding on_state_update_node_timeout_def Let_def by (erule evolves_update_next) simp

lemma evolves_uptodate: "on_uptodate_message sql net q n msg = Some q' \<Longrightarrow> evolves p q \<Longrightarrow> evolves p q'"
  by (auto simp: on_uptodate_message_def split: if_splits dest: evolves_update_next [where p = p])

lemma evolves_page_failed: "update_db_page_failed sql net q n = Some q' \<Longrightarrow> evolves p q \<Longrightarrow> evolves p q'"
  unfolding update_db_page_failed_def by (erule evolves_update_next) simp

lemma evolves_apply_page: "apply_db_page sql net q n pgno pg = Some q' \<Longrightarrow> evolves p q \<Longrightarrow> evolves p q'"
  by (auto simp: apply_db_page_def Let_def bind_eq_Some_conv split: if_splits dest: evolves_page_failed [where p = p])

lemma evolves_update_page: "on_update_db_page sql net q n msg = Some q' \<Longrightarrow> evolves p q \<Longrightarrow> evolves p q'"
  by (auto simp: on_update_db_page_def Let_def case_prod_beta split: if_splits option.splits
      dest!: evolves_page_failed [where p = p] evolves_apply_page [where p = p])

lemma evolves_update_exit: "state_update_exit sql net q = Some q' \<Longrightarrow> evolves p q \<Longrightarrow> evolves p q'"
  unfolding state_update_exit_def by (erule evolves_update_next) simp

lemma evolves_send_pages: "send_pages sql net n height pgnos q = Some (q', ok) \<Longrightarrow> evolves p q \<Longrightarrow> evolves p q'"
proof (induction pgnos arbitrary: q)
  case (Cons pgno pgnos)
  obtain res where r: "aergolite_get_db_page sql (core q) pgno 4096 = Some res"
    using Cons.prems by (cases "aergolite_get_db_page sql (core q) pgno 4096") auto
  show ?case
  proof (cases res)
    case (Inr pg)
    let ?s = "send_peer_message net q n (page_message pgno pg height)"
    have "evolves p (fst ?s)" using Cons.prems by (simp add: evolving)
    then show ?thesis using Cons r Inr by (cases "snd ?s") (auto simp: Let_def case_prod_beta)
  qed (use Cons r in auto)
qed simp

lemma evolves_send_state: "send_state sql net q n blk height = Some q' \<Longrightarrow> evolves p q \<Longrightarrow> evolves p q'"
  by (auto simp: send_state_def Let_def case_prod_beta bind_eq_Some_conv evolving
      split: sum.split_asm if_splits dest!: evolves_send_pages [where p = p])

lemma evolves_request_state: "on_request_state_update sql net q n msg = Some q' \<Longrightarrow> evolves p q \<Longrightarrow> evolves p q'"
  by (auto simp: on_request_state_update_def Let_def case_prod_beta evolving
      split: if_splits option.splits dest: evolves_send_state [where p = p])

end
