(* ===== verification/List_Invariants.thy ===== *)
theory List_Invariants
  imports Block_Lists
begin

section \<open>Invariants of the lists\<close>

lemma next_addr_simps:
  "next_addr (fst (can_create_block p)) = next_addr p" "next_addr (build_last_nonce_array p) = next_addr p"
proof -
  have "next_addr (fold build_last_nonce_array_cb auths q) = next_addr q" for auths and q :: "'a plugin"
    by (induction auths arbitrary: q) (simp_all add: build_last_nonce_array_cb_def update_last_nonce_array_def)
  then show "next_addr (build_last_nonce_array p) = next_addr p" by (simp add: build_last_nonce_array_def)
qed (simp add: can_create_block_def count_authorized_nodes_def Let_def)

subsection \<open>The other handlers that evolve the state\<close>

lemma evolves_shared_peers: "evolves p (fst st) \<Longrightarrow> evolves p (fst (share_peers net to ns st))"
proof (induction ns arbitrary: st)
  case Nil
  then show ?case by (cases st) simp
next
  case (Cons n ns)
  then show ?case by (cases st) (simp add: evolving)
qed

lemma evolves_peer_list [evolving]: "evolves p q \<Longrightarrow> evolves p (send_peer_list net q n)"
  using evolves_shared_peers [of p "(q, [])" net n "peers q"]
  by (simp add: send_peer_list_def Let_def case_prod_beta evolving)

lemma evolves_authorizations [evolving]: "evolves p q \<Longrightarrow> evolves p (fst (send_authorizations net q n log))"
  by (simp add: send_authorizations_def Let_def case_prod_beta evolving)

lemma evolves_accepted_node [evolving]: "evolves p q \<Longrightarrow> evolves p (on_new_accepted_node net q n)"
  by (simp add: on_new_accepted_node_def Let_def evolving)

lemma evolves_valid_id [evolving]: "evolves p q \<Longrightarrow> evolves p (on_valid_node_id net q n)"
  by (simp add: on_valid_node_id_def evolving)

lemma evolves_announce: "evolves p q \<Longrightarrow> evolves p (fst (announce_authorization net log key full from_this_node ns q authorized))"
proof (induction ns arbitrary: q authorized)
  case (Cons n ns)
  then show ?case by (auto simp: Let_def case_prod_beta evolving)
qed simp

lemma evolves_authorize_key [evolving]: "evolves p q \<Longrightarrow> evolves p (fst (authorize_key net q log key full from_this_node))"
  by (simp add: authorize_key_def authorize_own_key_def Let_def case_prod_beta evolving evolves_announce split: option.split)

lemma evolves_new_authorization:
  assumes "on_new_authorization sql net q log from_this_node = Some (q', rc)" and "evolves p q"
  shows "evolves p q'"
proof -
  obtain n rc1 where n: "aergolite_new_authorization (crc (core q)) (lib sql) (this_node q) log = Some (n, rc1)"
    using assms(1) by (auto simp: on_new_authorization_def bind_eq_Some_conv)
  show ?thesis
  proof (cases "rc1 = SQLITE_OK")
    case False
    with assms n show ?thesis by (auto simp: on_new_authorization_def)
  next
    case True
    obtain res where r: "read_authorized_pubkey log = Some res"
      using assms(1) n True by (cases "read_authorized_pubkey log") (simp_all add: on_new_authorization_def)
    define s where "s = q\<lparr>core := (core q)\<lparr>node := n\<rparr>\<rparr>"
    have "evolves p s" using assms(2) by (simp add: s_def)
    from evolves_authorize_key [OF this] this show ?thesis
      using assms(1) n True r unfolding on_new_authorization_def
      by (cases res) (auto simp: s_def [symmetric], metis fst_conv)
  qed
qed

lemma evolves_receive: "receive_authorizations sql net logs q = Some q' \<Longrightarrow> evolves p q \<Longrightarrow> evolves p q'"
  by (induction logs arbitrary: q) (auto simp: bind_eq_Some_conv dest: evolves_new_authorization)

lemma evolves_authorization_received: "on_authorization_received sql net q msg = Some q' \<Longrightarrow> evolves p q \<Longrightarrow> evolves p q'"
  by (auto simp: on_authorization_received_def split: option.splits dest: evolves_receive)

lemma evolves_special: "process_special sql net logs q = Some q' \<Longrightarrow> evolves p q \<Longrightarrow> evolves p q'"
proof (induction logs arbitrary: q)
  case (Cons log logs)
  obtain auth where a: "read_authorized_pubkey log = Some auth"
    using Cons.prems by (cases "read_authorized_pubkey log") auto
  obtain q1 rc where r: "(case auth of Inl rc \<Rightarrow> Some (q\<lparr>special_txn := logs\<rparr>, rc)
      | Inr _ \<Rightarrow> on_new_authorization sql net (q\<lparr>special_txn := logs\<rparr>) log True) = Some (q1, rc)"
      "(if rc \<noteq> SQLITE_OK then Some q1 else process_special sql net logs q1) = Some q'"
    using Cons.prems a by (auto simp: bind_eq_Some_conv)
  have "evolves p q1" using r(1) Cons.prems(2) by (cases auth) (auto dest: evolves_new_authorization [where p = p])
  with r(2) Cons.IH show ?case by (auto split: if_splits)
qed auto

lemma evolves_same_id [evolving]: "evolves p q \<Longrightarrow> evolves p (on_new_node_with_same_id net q n m)"
  by (simp add: on_new_node_with_same_id_def Let_def case_prod_beta evolving)

lemma evolves_check_identified [evolving]: "evolves p q \<Longrightarrow> evolves p (check_new_identified_node net q n)"
  by (simp add: check_new_identified_node_def evolving split: option.split)

lemma evolves_identification: "on_node_identification sql net q n msg = Some q' \<Longrightarrow> evolves p q \<Longrightarrow> evolves p q'"
  unfolding on_node_identification_def Let_def
  by (auto simp: evolving split: if_split_asm option.split_asm prod.split_asm)

lemma evolves_ping: "evolves p q \<Longrightarrow> evolves p (on_ping_received net q n msg)"
  by (simp add: on_ping_received_def evolving)

lemma evolves_pong: "on_ping_response net q n msg = Some q' \<Longrightarrow> evolves p q \<Longrightarrow> evolves p q'"
  by (auto simp: on_ping_response_def evolving bind_eq_Some_conv split: option.splits)

lemma evolves_conflict_timer: "id_conflict_timer_cb net q conflict = Some q' \<Longrightarrow> evolves p q \<Longrightarrow> evolves p q'"
  by (auto simp: id_conflict_timer_cb_def Let_def evolving bind_eq_Some_conv)

lemma evolves_connected [evolving]: "evolves p q \<Longrightarrow> evolves p (on_new_node_connected sql net q n)"
  by (simp add: on_new_node_connected_def send_node_identification_def random64_def Let_def case_prod_beta evolving
      split: sum.split)

lemma evolves_closed: "evolves p q \<Longrightarrow> evolves p (connection_closed q c)"
  by (simp add: connection_closed_def Let_def split: option.split)

lemma evolves_get [evolving]:
  "evolves p q \<Longrightarrow> evolves p (on_get_transaction net q n msg)" "evolves p q \<Longrightarrow> evolves p (on_get_block net q n msg)"
  by (simp_all add: on_get_transaction_def on_get_block_def Let_def evolving split: option.split sum.split)

subsubsection \<open>Connections\<close>

lemma evolves_connect [evolving]: "evolves p q \<Longrightarrow> evolves p (connect_to_peer net q c)"
  by (simp add: connect_to_peer_def connect_to_peer_address_def Let_def split: option.split)

lemma evolves_new_node: "evolves p q \<Longrightarrow> evolves p (fst (new_node q))"
  by (simp add: new_node_def evolves_next_addr)

lemma evolves_check_peer: "check_peer_connection net q ip prt = Some (q', started) \<Longrightarrow> evolves p q \<Longrightarrow> evolves p q'"
  by (auto simp: check_peer_connection_def Let_def case_prod_beta evolving evolves_new_node split: if_splits option.splits)

lemma evolves_check_peers: "check_peers net l q = Some q' \<Longrightarrow> evolves p q \<Longrightarrow> evolves p q'"
proof (induction l arbitrary: q)
  case (Cons a l)
  then obtain r where "check_peer_connection net q (fst a) (snd a) = Some r" "check_peers net l (fst r) = Some q'"
    by (auto split: option.splits)
  with Cons show ?case by (cases r) (auto dest: evolves_check_peer [where p = p])
qed simp

lemma evolves_discovery: "start_node_discovery net q = Some q' \<Longrightarrow> evolves p q \<Longrightarrow> evolves p q'"
  unfolding start_node_discovery_def by (rule evolves_check_peers)

lemma evolves_identify [evolving]: "evolves p q \<Longrightarrow> evolves p (identify_to_peer sql net q c ok)"
  by (simp add: identify_to_peer_def tcp_connection_def Let_def evolving split: option.split)

lemma evolves_outgoing: "evolves p q \<Longrightarrow> evolves p (on_outgoing_connection sql net q c status ok)"
  by (simp add: on_outgoing_connection_def evolving split: option.split)

lemma evolves_incoming: "evolves p q \<Longrightarrow> evolves p (on_incoming_connection sql net q ip prt accepted ok)"
  using evolves_new_node [of p q]
  by (simp add: on_incoming_connection_def Let_def case_prod_beta evolving)

lemma evolves_found: "on_find_node_response net q ip prt = Some q' \<Longrightarrow> evolves p q \<Longrightarrow> evolves p q'"
  by (auto simp: on_find_node_response_def split: option.splits dest: evolves_check_peer [where p = p])

lemma evolves_after_connections: "after_connections_timer_cb net q = Some q' \<Longrightarrow> evolves p q \<Longrightarrow> evolves p q'"
  by (auto simp: after_connections_timer_cb_def Let_def split: if_splits option.splits dest: evolves_discovery [where p = p])

lemma evolves_node_thread: "node_thread sql net q = Some q' \<Longrightarrow> evolves p q \<Longrightarrow> evolves p q'"
proof -
  assume h: "node_thread sql net q = Some q'" and "evolves p q"
  then obtain r rc where r: "start_node_discovery net q = Some r"
      "load_current_state sql (timer_start r After_Connections_Timer 1500) = Some (q', rc)"
    by (auto simp: node_thread_def split: option.split_asm)
  have "evolves p (timer_start r After_Connections_Timer 1500)" using evolves_discovery [OF r(1)] \<open>evolves p q\<close> by simp
  with r(2) show ?thesis by (rule evolves_load_state)
qed

lemma evolves_text: "on_text_command_received q n msg = Some q' \<Longrightarrow> evolves p q \<Longrightarrow> evolves p q'"
  by (auto simp: on_text_command_received_def on_peer_info_changed_def Let_def case_prod_beta split: option.split_asm)

lemma evolves_answers:
  "Some (on_peer_list_request net q n msg) = Some q' \<Longrightarrow> evolves p q \<Longrightarrow> evolves p q'"
  "Some (on_ping_received net q n msg) = Some q' \<Longrightarrow> evolves p q \<Longrightarrow> evolves p q'"
  "Some (on_get_mempool_transactions net q n msg) = Some q' \<Longrightarrow> evolves p q \<Longrightarrow> evolves p q'"
  "Some (on_get_transaction net q n msg) = Some q' \<Longrightarrow> evolves p q \<Longrightarrow> evolves p q'"
  "Some (on_get_block net q n msg) = Some q' \<Longrightarrow> evolves p q \<Longrightarrow> evolves p q'"
  "Some q = Some q' \<Longrightarrow> evolves p q \<Longrightarrow> evolves p q'"
  by (auto simp: on_peer_list_request_def on_get_mempool_transactions_def evolving evolves_ping)

lemma evolves_other_events:
  "evolves p q \<Longrightarrow> evolves p (disconnect_peer q c)" "evolves p q \<Longrightarrow> evolves p (connection_closed q c)"
  "evolves p q \<Longrightarrow> evolves p (on_resolved net q c ok)" "evolves p q \<Longrightarrow> evolves p (on_new_local_transaction q log)"
  by (simp_all add: evolves_closed on_resolved_def connect_to_peer_address_def on_new_local_transaction_def split: option.split)

lemma evolves_simple_event:
  assumes "handle sql net q ev = Some q'" and "evolves p q"
    and "case ev of Peer_Lost c \<Rightarrow> True | Socket_Closed c \<Rightarrow> True | Name_Resolved c ok \<Rightarrow> True
      | Outgoing_Connection c status ok \<Rightarrow> True | Incoming_Connection ip prt accepted ok \<Rightarrow> True
      | Special_Transaction log \<Rightarrow> True | _ \<Rightarrow> False"
  shows "evolves p q'"
  using assms by (cases ev) (auto simp: handle_def evolves_other_events evolves_outgoing evolves_incoming)

lemma if_Some_elim:
  "(if c then x else y) = Some z \<Longrightarrow> (x = Some z \<Longrightarrow> P) \<Longrightarrow> (y = Some z \<Longrightarrow> P) \<Longrightarrow> P"
  by (simp split: if_split_asm)

subsubsection \<open>Requests\<close>

lemma evolves_arrived: "evolves p q \<Longrightarrow> evolves p (fst (requested_block_arrived q height stop))"
    "evolves p q \<Longrightarrow> evolves p (fst (requested_transaction_arrived q tid))"
  by (simp_all add: requested_block_arrived_def requested_transaction_arrived_def split: option.split)

lemma evolves_request_txns: "request_block_transactions net height vs k q = Some q' \<Longrightarrow> evolves p q \<Longrightarrow> evolves p q'"
proof (induction vs arbitrary: k q)
  case (Cons v vs)
  obtain r s where r: "request_transaction net q (txn_id_of v) = (r, s)" by (cases "request_transaction net q (txn_id_of v)")
  have "evolves p r" using evolves_requests(1) [OF Cons.prems(2), of net "txn_id_of v"] by (simp add: r)
  with Cons r show ?case by (auto simp: Let_def split: option.splits)
qed simp

lemma evolves_requested_block: "on_requested_block sql net q msg = Some q' \<Longrightarrow> evolves p q \<Longrightarrow> evolves p q'"
  unfolding on_requested_block_def Let_def case_prod_beta
  by (auto simp: bind_eq_Some_conv split: option.split_asm if_split_asm
      dest!: evolves_request_txns [where p = p] evolves_missing_blocks [where p = p] intro: evolves_arrived)

lemma evolves_request_timer: "evolves p q \<Longrightarrow> evolves p (request_timer_cb net q r)"
  by (simp add: request_timer_cb_def request_block_timer_cb_def request_transaction_timer_cb_def evolving)

subsection \<open>The laws of an invariant\<close>

text \<open>What may happen to the two lists. Each law is one way in which the code changes them.\<close>

locale list_invariant =
  fixes inv :: "'db plugin \<Rightarrow> bool"
  assumes evolve: "evolves p p' \<Longrightarrow> inv p \<Longrightarrow> inv p'"
    and fewer_blocks: "mset bs \<subseteq># mset (new_blocks p) \<Longrightarrow> inv p \<Longrightarrow> inv (p\<lparr>new_blocks := bs\<rparr>)"
    and fresh_block: "inv p \<Longrightarrow> b_addr b = next_addr p \<Longrightarrow> temp_votes b = (\<lambda>_. []) \<Longrightarrow> num_votes b = (\<lambda>_. 0) \<Longrightarrow>
      inv (p\<lparr>new_blocks := new_blocks p @ [b], next_addr := next_addr p + 1\<rparr>)"
    and fresh_txn: "inv p \<Longrightarrow> t_id t = build_transaction_id (t_node_id t) (t_nonce t) \<Longrightarrow>
      find_mempool p (t_id t) = None \<Longrightarrow> inv (p\<lparr>mempool := mempool p @ [t]\<rparr>)"

lemma evolves_append:
  assumes "evolves p p'"
  shows "evolves (p\<lparr>new_blocks := new_blocks p @ ex\<rparr>) (p'\<lparr>new_blocks := new_blocks p' @ ex\<rparr>)"
  using assms by (simp add: evolves_def list_all2_appendI all_counted_refl)

lemma on_new_block_cases:
  assumes "on_new_block sql net p msg = Some p'"
  obtains (ignored) "p' = p"
  | (accepted) nid height bid pr out hdr body where
      "aergolite_verify_block_header sql (core p) hdr body = Some (Inr (nid, height, bid))"
      "msg_header_blob msg PLUGIN_HEADER = Some hdr" "msg_body msg PLUGIN_BODY = Some body"
      "msg_blob msg PLUGIN_PROOF = Some pr" "length pr = 81" "verify_proof net p height nid pr = Inr out"
      "accept_block sql net p height bid hdr body pr out = Some p'"
proof -
  obtain res where res: "aergolite_verify_block_header sql (core p) (or_else (msg_header_blob msg PLUGIN_HEADER) null_header)
      (or_else (msg_body msg PLUGIN_BODY) null_body) = Some res"
    using assms by (auto simp: on_new_block_def bind_eq_Some_conv)
  show thesis
  proof (cases "\<exists>nid height bid pr out hdr body. res = Inr (nid, height, bid) \<and> msg_blob msg PLUGIN_PROOF = Some pr
      \<and> length pr = 81 \<and> verify_proof net p height nid pr = Inr out \<and> msg_header_blob msg PLUGIN_HEADER = Some hdr
      \<and> msg_body msg PLUGIN_BODY = Some body")
    case True
    then show thesis using assms res by (auto simp: on_new_block_def or_else_def intro: accepted)
  next
    case False
    have "p' = p"
      using assms res False
      by (cases res; cases "msg_blob msg PLUGIN_PROOF"; cases "msg_header_blob msg PLUGIN_HEADER"; cases "msg_body msg PLUGIN_BODY")
        (auto simp: on_new_block_def split: sum.split_asm if_split_asm)
    then show thesis by (rule ignored)
  qed
qed

lemma counted_transfer: "counted b (transfer_votes vs b)"
proof (induction vs arbitrary: b)
  case (Cons v vs)
  show ?case using rtranclp_trans [OF counted_vote Cons] Cons by simp
qed simp

lemma unmarked_discard: "subseq (unmarked (discard_first P ts)) (unmarked ts)"
  by (induction ts) (auto simp: unmarked_def)

lemma unmarked_remove_old: "subseq (unmarked (remove_old_txns b ts)) (unmarked ts)"
proof -
  have "subseq (unmarked ((discard_first P ^^ k) ts)) (unmarked ts)" for P k
    by (induction k) (auto intro: subseq_order.trans [OF unmarked_discard])
  then show ?thesis by (simp add: remove_old_txns_def)
qed

lemma mset_remove_add:
  "List.find P bs = Some w \<Longrightarrow> mset (filter (\<lambda>b. \<not> P b) bs) + {#w#} \<subseteq># mset bs"
proof (induction bs)
  case (Cons b bs)
  have "add_mset b (mset (filter (\<lambda>b. \<not> P b) bs)) \<subseteq># add_mset b (mset bs)" by (simp add: mset_filter)
  with Cons show ?case by (auto split: if_splits simp: add_mset_commute)
qed simp

lemma subseq_unmarked_marks:
  "(\<And>t. (f t)\<lparr>t_block_height := 0\<rparr> = t\<lparr>t_block_height := 0\<rparr>) \<Longrightarrow> subseq (unmarked (map f ts)) (unmarked ts)"
  by (simp add: unmarked_marks)

lemma evolves_marks [evolving]:
  "evolves p q \<Longrightarrow> evolves p (mark_used tid q)" "evolves p q \<Longrightarrow> evolves p (reset_used q)"
  unfolding mark_used_def reset_used_def by (rule evolves_mempool, assumption, rule subseq_unmarked_marks, simp)+

lemma next_transaction_core: "next_transaction sql p txns = Some (p', r) \<Longrightarrow> p' = p\<lparr>core := core p'\<rparr>"
proof (induction txns arbitrary: p)
  case (Cons t ts)
  show ?case
  proof (cases "t_block_height t = 0 \<and> is_next_nonce p (t_node_id t) (t_nonce t)")
    case True
    then obtain e rc where "p' = p\<lparr>core := e\<rparr> \<or> next_transaction sql (p\<lparr>core := e\<rparr>) ts = Some (p', r)"
      using Cons.prems by (auto simp: bind_eq_Some_conv Let_def split: if_split_asm)
    then show ?thesis using Cons.IH [of "p\<lparr>core := e\<rparr>"] by auto
  next
    case False
    with Cons show ?thesis by auto
  qed
qed simp

declare include_transactions.simps [simp del]

lemma include_transactions_lists:
  "include_transactions sql p k = Some (p', k') \<Longrightarrow> evolves p p' \<and> next_addr p' = next_addr p"
proof (induction sql p k rule: include_transactions.induct)
  case (1 sql p k)
  obtain q r where q: "next_transaction sql p (mempool p) = Some (q, r)"
 using 1(2) by (subst (asm) include_transactions.simps) (auto simp: bind_eq_Some_conv)
  have c: "evolves p q" "next_addr q = next_addr p"
    by (subst next_transaction_core [OF q], simp, subst next_transaction_core [OF q], simp)
  show ?case
  proof (cases r)
    case None
    with 1(2) q c show ?thesis by (simp add: include_transactions.simps [of sql p])
  next
    case (Some t)
    let ?s = "mark_used (t_id t) (update_last_nonce_array q (t_node_id t) (t_nonce t))"
    have s: "evolves p ?s" "next_addr ?s = next_addr p"
      using c by (simp_all add: evolving) (simp add: mark_used_def update_last_nonce_array_def)
    have "include_transactions sql ?s (k + 1) = Some (p', k')"
      using 1(2) q Some by (simp add: include_transactions.simps [of sql p])
    with 1(1) [OF q refl Some] s show ?thesis by (auto intro: evolves_trans)
  qed
qed

lemma create_new_block_lists:
  assumes "create_new_block sql p = Some (p', res)"
  shows "evolves p p' \<and> (case res of Created b \<Rightarrow> b_addr b = next_addr p \<and> temp_votes b = (\<lambda>_. []) \<and> num_votes b = (\<lambda>_. 0)
      \<and> next_addr p' = next_addr p + 1 \<and> evolves p (p'\<lparr>next_addr := next_addr p\<rparr>) | _ \<Rightarrow> True)"
proof (cases "count_mempool_unused_txns p = 0 \<or> \<not> snd (can_create_block p)")
  case True
  with assms show ?thesis by (auto simp: create_new_block_def Let_def case_prod_beta evolving split: if_split_asm)
next
  case False
  define q0 where "q0 = build_last_nonce_array (fst (can_create_block p))"
  define q where "q = q0\<lparr>next_addr := next_addr q0 + 1, core := fst (aergolite_begin_block sql (core q0))\<rparr>"
  have a: "next_addr q0 = next_addr p" by (simp add: q0_def next_addr_simps)
  have q0: "evolves p q0" by (simp add: q0_def evolving)
  have e: "evolves p q" using q0 by (simp add: q_def evolves_next_addr)
  show ?thesis
  proof (cases "snd (aergolite_begin_block sql (core q0)) = SQLITE_OK")
    case False': False
    with assms False e show ?thesis
      unfolding create_new_block_def Let_def case_prod_beta q0_def [symmetric] by (auto simp: q_def)
  next
    case True
    obtain r k where r: "include_transactions sql q 0 = Some (r, k)"
      using assms False True unfolding create_new_block_def Let_def case_prod_beta q0_def [symmetric]
      by (auto simp: q_def bind_eq_Some_conv)
    note l = include_transactions_lists [OF r]
    have er: "evolves p (reset_used r)" using e l by (auto intro: evolves_marks evolves_trans)
    have er': "evolves p ((reset_used r)\<lparr>next_addr := next_addr p\<rparr>)"
      using er by (simp add: evolves_def)
    have n: "next_addr (reset_used r) = next_addr p + 1" using l by (simp add: reset_used_def q_def a)
    show ?thesis
    proof (cases "k = 0")
      case True': True
      with assms False True r er show ?thesis
        unfolding create_new_block_def Let_def case_prod_beta q0_def [symmetric] by (auto simp: q_def)
    next
      case k: False
      obtain ec res' where ec: "aergolite_create_block sql (core (reset_used r)) = Some (ec, res')"
        using assms False True r k unfolding create_new_block_def Let_def case_prod_beta q0_def [symmetric]
        by (auto simp: q_def bind_eq_Some_conv)
      have x: "evolves p (v\<lparr>next_addr := next_addr p\<rparr>)" if "evolves p v" for v using that by (simp add: evolves_def)
      show ?thesis
      proof (cases res')
        case (Inl rc)
        with assms False True r k ec er show ?thesis
          unfolding create_new_block_def Let_def case_prod_beta q0_def [symmetric] by (auto simp: q_def)
      next
        case (Inr t)
        with assms False True r k ec er n a x show ?thesis
          unfolding create_new_block_def Let_def case_prod_beta q0_def [symmetric] by (cases t) (auto simp: q_def)
      qed
    qed
  qed
qed

lemma store_transaction_lists:
  assumes "store_transaction_on_mempool sql p nid nonce log = Some (q, rc, t)"
  shows "q = p \<or> (\<exists>u. q = p\<lparr>mempool := mempool p @ [u]\<rparr> \<and> t_id u = build_transaction_id (t_node_id u) (t_nonce u)
      \<and> find_mempool p (t_id u) = None)"
proof (cases "find_mempool p (build_transaction_id nid nonce)")
  case (Some u)
  with assms show ?thesis by (simp add: store_transaction_on_mempool_def)
next
  case None
  show ?thesis
  proof (cases "aergolite_get_authorization (this_node p) nid")
    case (Inl r)
    with None assms show ?thesis by (simp add: store_transaction_on_mempool_def)
  next
    case (Inr auth)
    show ?thesis
    proof (cases "nonce \<le> last_nonce auth")
      case True
      with None Inr assms show ?thesis by (simp add: store_transaction_on_mempool_def)
    next
      case False
      then obtain res where "aergolite_verify_transaction (lib sql) (this_node p) nid log = Some res"
        using None Inr assms by (auto simp: store_transaction_on_mempool_def bind_eq_Some_conv)
      with False None Inr assms show ?thesis
        by (cases res) (auto simp: store_transaction_on_mempool_def Let_def split: if_split_asm)
    qed
  qed
qed

context list_invariant begin

lemma inv_evolves [intro]: "inv p \<Longrightarrow> evolves p p' \<Longrightarrow> inv p'"
  by (rule evolve)

lemma inv_filter: "inv p \<Longrightarrow> inv (p\<lparr>new_blocks := filter P (new_blocks p)\<rparr>)"
  by (rule fewer_blocks) (simp_all add: mset_filter)

lemma inv_committed: "inv p \<Longrightarrow> inv (block_committed net p b)"
proof -
  assume "inv p"
  define q where "q = check_mempool_transactions (p\<lparr>mempool := remove_old_txns b (mark_block_txns b (mempool p))\<rparr>)"
  have "subseq (unmarked (remove_old_txns b (mark_block_txns b (mempool p)))) (unmarked (mempool p))"
    using unmarked_remove_old [of b "mark_block_txns b (mempool p)"]
    by (simp add: mark_block_txns_def unmarked_marks cong: if_cong)
  then have "evolves p q" by (simp add: q_def evolving evolves_mempool)
  then have "inv (q\<lparr>current_block := Some b\<rparr>)" using \<open>inv p\<close> by auto
  then have "inv (remove_block (q\<lparr>current_block := Some b\<rparr>) (b_addr b))"
    unfolding remove_block_def by (rule inv_filter)
  then have "inv ((remove_block (q\<lparr>current_block := Some b\<rparr>) (b_addr b))\<lparr>open_block := None\<rparr>)" (is "inv ?r") by auto
  then have "inv (discard_uncommitted_blocks ?r)" unfolding discard_uncommitted_blocks_def by (rule inv_filter)
  then show "inv (block_committed net p b)" by (auto simp: block_committed_def Let_def q_def evolving)
qed

lemma inv_commit: "inv p \<Longrightarrow> inv (fst (commit_block sql net p b))"
proof -
  assume "inv p"
  then have e: "inv (p\<lparr>core := e\<rparr>)" for e by auto
  show "inv (fst (commit_block sql net p b))"
    using inv_committed [OF e] e inv_evolves [OF \<open>inv p\<close>] by (auto simp: commit_block_def Let_def case_prod_beta)
qed

lemma inv_apply: "apply_block sql net p b = Some (p', rc) \<Longrightarrow> inv p \<Longrightarrow> inv p'"
proof -
  assume a: "apply_block sql net p b = Some (p', rc)" and "inv p"
  obtain q rc1 where v: "verify_block sql p b = Some (q, rc1)"
    using a by (auto simp: apply_block_def bind_eq_Some_conv)
  have "inv q" using evolves_verify [OF v evolves_refl] \<open>inv p\<close> by auto
  with a v show "inv p'"
    using inv_commit [of q sql net] by (auto simp: apply_block_def bind_eq_Some_conv split: if_splits) (metis fst_conv)
qed

lemma inv_vote_loop:
  "vote_loop sql net round height p ex = Some (p', ex') \<Longrightarrow> inv (p\<lparr>new_blocks := new_blocks p @ ex\<rparr>) \<Longrightarrow>
     inv (p'\<lparr>new_blocks := new_blocks p' @ ex'\<rparr>)"
proof (induction sql net round height p ex rule: vote_loop.induct)
  case (1 sql net round height p ex)
  have vote: "inv (q'\<lparr>new_blocks := new_blocks q' @ ex\<rparr>)"
    if "vote_on_block sql net q round a = Some q'" "evolves p q" for q q' a
    using evolve [OF evolves_append [OF evolves_vote [OF that]] 1(3)] .
  show ?case
  proof (cases "select_winner height (new_blocks p) None")
    case None
    with 1 show ?thesis by (simp add: vote_loop.simps)
  next
    case (Some w)
    show ?thesis
    proof (cases "open_block p = Some (b_addr w)")
      case True
      with 1(2) Some vote [of p] show ?thesis by (auto simp: vote_loop.simps)
    next
      case False
      then obtain q rc where o: "open_winner sql net p w = Some (q, rc)"
        using 1(2) Some by (subst (asm) vote_loop.simps) (auto simp: bind_eq_Some_conv)
      note q = evolves_open_winner [OF o evolves_refl]
      show ?thesis
      proof (cases "rc = SQLITE_OK")
        case True
        with 1(2) Some False o q show ?thesis by (subst (asm) vote_loop.simps) (auto dest: vote)
      next
        case bad: False
        then obtain w' where w': "block_from q (b_addr w) = Some w'"
            "vote_loop sql net round height (remove_block q (b_addr w)) (ex @ [w']) = Some (p', ex')"
          using 1(2) Some False o by (subst (asm) vote_loop.simps) (auto simp: bind_eq_Some_conv)
        have "mset (filter (\<lambda>b. b_addr b \<noteq> b_addr w) (new_blocks q) @ (ex @ [w'])) \<subseteq># mset (new_blocks q @ ex)"
          using mset_remove_add [OF w'(1) [unfolded block_from_def]] by (simp add: subset_mset.add_mono)
        then have "inv (q\<lparr>new_blocks := filter (\<lambda>b. b_addr b \<noteq> b_addr w) (new_blocks q) @ (ex @ [w'])\<rparr>)"
          using fewer_blocks [OF _ evolve [OF evolves_append [OF q] 1(3)]] by (simp del: append_assoc)
        then have "inv ((remove_block q (b_addr w))\<lparr>new_blocks := new_blocks (remove_block q (b_addr w)) @ (ex @ [w'])\<rparr>)"
          by (simp add: remove_block_def)
        with 1(1) [OF Some False o _ bad w'(1) w'(2)] show ?thesis by simp
      qed
    qed
  qed
qed

lemma inv_wait_times: "inv p \<Longrightarrow> inv (set_wait_times net p height)"
  by (rule inv_evolves [OF _ evolves_wait_times [OF evolves_refl]])

lemma inv_best_vote: "vote_on_best_block sql net p round = Some (p', go) \<Longrightarrow> inv p \<Longrightarrow> inv p'"
  using inv_vote_loop [of sql net round "current_height p + 1" "set_wait_times net p (current_height p + 1)" "[]"]
    inv_wait_times [of p net "current_height p + 1"]
  by (auto simp: vote_on_best_block_def Let_def bind_eq_Some_conv split: if_splits)

lemma inv_convert: "inv p \<Longrightarrow> inv (update_block p a (\<lambda>b. convert_block_votes b round))"
  by (erule evolve [rotated]) (simp add: evolves_update_block counted_same)

lemma inv_winner: "commit_winner sql net p round b = Some p' \<Longrightarrow> inv p \<Longrightarrow> inv p'"
proof (cases "open_block p = Some (b_addr b)")
  case True
  assume "commit_winner sql net p round b = Some p'" "inv p"
  with True show ?thesis by (auto simp: commit_winner_def Let_def bind_eq_Some_conv intro!: inv_commit inv_convert)
next
  case False
  assume w: "commit_winner sql net p round b = Some p'" and "inv p"
  define q where "q = (if open_block p \<noteq> None then rollback_block p else p)"
  define r where "r = check_block_transactions net q b"
  have "evolves p (fst r)" by (simp add: q_def r_def evolving)
  then have r: "inv (fst r)" using \<open>inv p\<close> by auto
  show ?thesis
  proof (cases "snd r = SQLITE_OK")
    case False
    with w \<open>open_block p \<noteq> _\<close> r show ?thesis
      unfolding commit_winner_def Let_def q_def [symmetric] r_def [symmetric] case_prod_beta by simp
  next
    case True
    with w \<open>open_block p \<noteq> _\<close> obtain c rc where
      "apply_block sql net (update_block (fst r) (b_addr b) (\<lambda>b. convert_block_votes b round)) c = Some (p', rc)"
      unfolding commit_winner_def Let_def q_def [symmetric] r_def [symmetric] case_prod_beta
      by (auto simp: bind_eq_Some_conv)
    from inv_apply [OF this inv_convert [OF r]] show ?thesis .
  qed
qed

lemma inv_find_winner: "find_winner sql net p round = Some (p', go) \<Longrightarrow> inv p \<Longrightarrow> inv p'"
  by (auto simp: find_winner_def split: if_split_asm option.split_asm intro: inv_winner)

lemma inv_choose_and_check:
  "(choose_block_to_vote sql net p round = Some p' \<longrightarrow> inv p \<longrightarrow> inv p')"
  "(check_for_winner_block sql net q round = Some q' \<longrightarrow> inv q \<longrightarrow> inv q')"
proof (induction sql net p round and sql net q round arbitrary: p' and q'
    rule: choose_block_to_vote_check_for_winner_block.induct)
  case (1 sql net p round)
  show ?case
  proof (intro impI)
    assume c: "choose_block_to_vote sql net p round = Some p'" and "inv p"
    then obtain q go where q: "vote_on_best_block sql net p round = Some (q, go)"
        "(if go then check_for_winner_block sql net q round else Some q) = Some p'"
      by (subst (asm) choose_block_to_vote.simps) (auto simp: bind_eq_Some_conv)
    with inv_best_vote [OF q(1) \<open>inv p\<close>] 1 show "inv p'" by (cases go) auto
  qed
next
  case (2 sql net p round)
  show ?case
  proof (intro impI)
    assume c: "check_for_winner_block sql net p round = Some q'" and "inv p"
    then obtain q go where q: "find_winner sql net p round = Some (q, go)"
        "(if go then choose_block_to_vote sql net q 1 else Some q) = Some q'"
      by (subst (asm) check_for_winner_block.simps) (auto simp: bind_eq_Some_conv)
    with inv_find_winner [OF q(1) \<open>inv p\<close>] 2 show "inv q'" by (cases go) auto
  qed
qed

lemmas inv_choose = inv_choose_and_check(1) [THEN mp, THEN mp]
  and inv_check = inv_choose_and_check(2) [THEN mp, THEN mp]

subsubsection \<open>Handlers\<close>

lemma inv_wait_timeout: "on_block_wait_timeout sql net p = Some p' \<Longrightarrow> inv p \<Longrightarrow> inv p'"
  unfolding on_block_wait_timeout_def by (erule inv_choose) (erule inv_evolves, simp)

lemma inv_accept:
  assumes "accept_block sql net p height bid hdr body proof_bytes output = Some p'" and "inv p"
  shows "inv p'"
proof (cases "list_ex (\<lambda>b. b_height b = height \<and> b_id b = bid) (new_blocks p) \<or> height \<le> current_height p")
  case True
  with assms show ?thesis
    by (cases "list_ex (\<lambda>b. b_height b = height \<and> b_id b = bid) (new_blocks p)") (simp_all add: accept_block_def)
next
  case False
  define b where "b = new_block p height bid hdr body proof_bytes output"
  define c where "c = transfer_block_votes p b"
  define q where "q = p\<lparr>new_blocks := new_blocks p @ [c], next_addr := next_addr p + 1\<rparr>"
  define r where "r = check_block_transactions net q c"
  have "inv (p\<lparr>new_blocks := new_blocks p @ [b], next_addr := next_addr p + 1\<rparr>)"
    by (rule fresh_block [OF assms(2)]) (simp_all add: b_def new_block_def)
  moreover have "evolves (p\<lparr>new_blocks := new_blocks p @ [b], next_addr := next_addr p + 1\<rparr>) q"
    by (simp add: evolves_def q_def c_def transfer_block_votes_def list_all2_appendI all_counted_refl counted_transfer)
  ultimately have q: "inv q" by auto
  have r: "inv (fst r)" using q by (rule inv_evolves) (simp add: r_def evolving)
  have acc: "(if height > current_height (fst r) + 1 then request_state_update sql net (fst r)
      else if snd r \<noteq> SQLITE_OK then Some (start_block_wait_timer (fst r))
      else check_for_winner_block sql net (start_block_wait_timer (fst r)) 0) = Some p'"
    using assms(1) False unfolding accept_block_def Let_def b_def [symmetric] c_def [symmetric] q_def [symmetric]
      r_def [symmetric] case_prod_beta by simp
  have "inv (start_block_wait_timer (fst r))" using r by (rule inv_evolves) simp
  with acc r show ?thesis
    by (auto split: if_splits dest: evolves_request_update [OF _ evolves_refl] intro: inv_check)
qed

lemma inv_new_block: "on_new_block sql net p msg = Some p' \<Longrightarrow> inv p \<Longrightarrow> inv p'"
  by (erule on_new_block_cases) (auto intro: inv_accept)

lemma inv_block_vote: "on_block_vote sql net p msg = Some p' \<Longrightarrow> inv p \<Longrightarrow> inv p'"
proof -
  assume h: "on_block_vote sql net p msg = Some p'" and "inv p"
  have vote: "inv (update_block p a (\<lambda>b. fst (count_block_vote b round nid sg)))" for a round nid sg
    using \<open>inv p\<close> by (rule inv_evolves) (simp add: evolves_update_block counted_vote)
  have store: "inv (store_block_vote p nid height round bid sg)" for nid height round bid sg
    using \<open>inv p\<close> by (rule inv_evolves) simp
  have "inv p'" if "request_state_update sql net q = Some p'" "inv q" for q
    using evolves_request_update [OF that(1) evolves_refl] that(2) by auto
  with h \<open>inv p\<close> store vote show ?thesis
    unfolding on_block_vote_def Let_def by (auto split: option.split_asm if_split_asm intro: inv_check)
qed

lemma inv_new_block_timer: "new_block_timer_cb sql net p = Some p' \<Longrightarrow> inv p \<Longrightarrow> inv p'"
proof -
  assume h: "new_block_timer_cb sql net p = Some p'" and "inv p"
  define q where "q = (let p = timer_stop p New_Block_Timer in if open_block p \<noteq> None then rollback_block p else p)"
  have q: "inv q" using \<open>inv p\<close> by (rule inv_evolves) (simp add: q_def Let_def)
  obtain r res where c: "create_new_block sql q = Some (r, res)"
    using h unfolding new_block_timer_cb_def q_def Let_def by (auto simp: bind_eq_Some_conv)
  then have r: "create_new_block sql q = Some (r, res)"
      "p' = (case res of No_Block \<Rightarrow> timer_start r New_Block_Timer (block_interval r) | Nothing_To_Do \<Rightarrow> r
        | Created b \<Rightarrow> start_block_wait_timer
            (broadcast_new_block net (r\<lparr>new_blocks := new_blocks r @ [b], open_block := Some (b_addr b)\<rparr>) b))"
    using h unfolding new_block_timer_cb_def q_def Let_def by (cases res; simp)+
  from create_new_block_lists [OF r(1)] show "inv p'"
  proof (cases res)
    case (Created b)
    from create_new_block_lists [OF r(1)] Created
    have b: "b_addr b = next_addr q" "temp_votes b = (\<lambda>_. [])" "num_votes b = (\<lambda>_. 0)" "next_addr r = next_addr q + 1"
      and e: "evolves q (r\<lparr>next_addr := next_addr q\<rparr>)" by auto
    have "inv ((r\<lparr>next_addr := next_addr q\<rparr>)\<lparr>new_blocks := new_blocks (r\<lparr>next_addr := next_addr q\<rparr>) @ [b],
        next_addr := next_addr (r\<lparr>next_addr := next_addr q\<rparr>) + 1\<rparr>)"
      by (rule fresh_block [OF evolve [OF e q]]) (simp_all add: b)
    moreover have "(r\<lparr>next_addr := next_addr q\<rparr>)\<lparr>new_blocks := new_blocks r @ [b], next_addr := next_addr q + 1\<rparr>
        = r\<lparr>new_blocks := new_blocks r @ [b]\<rparr>" using b(4) by (cases r) simp
    ultimately have "inv (r\<lparr>new_blocks := new_blocks r @ [b]\<rparr>)" by simp
    then show ?thesis by (rule inv_evolves) (simp add: r(2) Created evolving)
  qed (use q r(2) in auto)
qed

subsubsection \<open>Transactions\<close>

lemma inv_arrived: "process_arrived_transaction sql net p txn = Some (p', requested) \<Longrightarrow> inv p \<Longrightarrow> inv p'"
proof -
  assume h: "process_arrived_transaction sql net p txn = Some (p', requested)" and "inv p"
  have "inv (fst (requested_transaction_arrived p (t_id txn)))"
    using \<open>inv p\<close> by (rule inv_evolves) (simp add: evolves_arrived)
  with h show "inv p'"
    by (auto simp: process_arrived_transaction_def Let_def case_prod_beta split: if_split_asm intro: inv_choose)
qed

lemma inv_new_transaction:
  assumes "process_new_transaction sql net p nid nonce log = Some (p', rc, txn)" and "inv p"
  shows "inv p'"
proof -
  obtain q rc1 t where s: "store_transaction_on_mempool sql p nid nonce log = Some (q, rc1, t)"
    using assms(1) by (auto simp: process_new_transaction_def bind_eq_Some_conv)
  have q: "inv q"
    using store_transaction_lists [OF s] fresh_txn [OF assms(2)] assms(2) by auto
  show ?thesis
  proof (cases "rc1 = SQLITE_OK")
    case True
    then obtain u r requested where "process_arrived_transaction sql net q u = Some (r, requested)"
        "p' = (if requested then r else start_new_block_timer net r)"
      using assms(1) s by (auto simp: process_new_transaction_def bind_eq_Some_conv)
    with inv_arrived [OF this(1) q] show ?thesis by (auto simp: evolving)
  next
    case False
    with assms(1) s q show ?thesis by (auto simp: process_new_transaction_def split: if_splits)
  qed
qed

lemma inv_remote_transaction: "on_new_remote_transaction sql net p msg = Some p' \<Longrightarrow> inv p \<Longrightarrow> inv p'"
  by (auto simp: on_new_remote_transaction_def intro: inv_new_transaction)

lemma inv_requested_transaction: "on_requested_remote_transaction sql net p msg = Some p' \<Longrightarrow> inv p \<Longrightarrow> inv p'"
  unfolding on_requested_remote_transaction_def Let_def
  by (auto simp: bind_eq_Some_conv split: option.split_asm if_split_asm prod.split_asm intro: inv_remote_transaction)

lemma inv_local_turn:
  assumes "send_local_turn sql net p nonce = Some t" and "inv p"
  shows "case t of Inl p' \<Rightarrow> inv p' | Inr r \<Rightarrow> inv (fst r)"
proof -
  obtain e res where e: "aergolite_get_local_transaction sql (core p) nonce = (e, res)"
    by (cases "aergolite_get_local_transaction sql (core p) nonce")
  have i: "inv (p\<lparr>core := e\<rparr>)" using assms(2) by auto
  have i': "inv (p\<lparr>core := e, sync_up_state := s\<rparr>)" for s using assms(2) by auto
  show ?thesis
  proof (cases res)
    case (Inl rc)
    with assms(1) e i' show ?thesis by (auto simp: send_local_turn_def)
  next
    case (Inr nl)
    show ?thesis
    proof (cases "fst nl = 0")
      case True
      with assms(1) e i' Inr show ?thesis by (cases nl) (auto simp: send_local_turn_def)
    next
      case False
      then obtain q rc txn where q: "process_new_transaction sql net (p\<lparr>core := e\<rparr>) (my_id p) (fst nl) (snd nl) = Some (q, rc, txn)"
        using assms(1) e Inr by (cases nl) (auto simp: send_local_turn_def bind_eq_Some_conv)
      define s where "s = (case txn of Some t \<Rightarrow> if rc = SQLITE_OK then broadcast_transaction net q t else (q, rc) | None \<Rightarrow> (q, rc))"
      have "inv (fst s)" using inv_new_transaction [OF q i]
        by (auto simp: s_def broadcast_transaction_def Let_def evolving split: option.split)
      moreover have "t = (if snd s \<noteq> SQLITE_OK then Inl ((fst s)\<lparr>sync_up_state := DB_STATE_LOCAL_CHANGES\<rparr>)
          else Inr (fst s, fst nl + 1))"
        using assms(1) e Inr False q unfolding send_local_turn_def
        by (cases nl; cases txn) (simp_all add: s_def case_prod_beta Let_def split: if_splits)
      ultimately show ?thesis by auto
    qed
  qed
qed

lemma inv_local_loop: "send_local_loop sql net p nonce = Some p' \<Longrightarrow> inv p \<Longrightarrow> inv p'"
proof (induction rule: send_local_loop.raw_induct [rotated, consumes 1, case_names turn])
  case (turn rec sql net p nonce p')
  then obtain t where t: "send_local_turn sql net p nonce = Some t" by (auto split: option.split_asm)
  from inv_local_turn [OF t turn.prems] turn t show ?case by (auto split: sum.split_asm)
qed

lemma inv_local_transaction: "on_local_transaction sql net p = Some p' \<Longrightarrow> inv p \<Longrightarrow> inv p'"
  unfolding on_local_transaction_def Let_def send_local_transactions_def
  by (auto split: if_split_asm elim!: inv_local_loop)

lemma inv_process_timer: "process_transactions_timer_cb sql net p = Some p' \<Longrightarrow> inv p \<Longrightarrow> inv p'"
proof -
  assume h: "process_transactions_timer_cb sql net p = Some p'" and "inv p"
  have d: "inv q" if "start_downstream_db_sync sql net p = Some q" for q
    using evolves_downstream [OF that evolves_refl] \<open>inv p\<close> by auto
  from h \<open>inv p\<close> show "inv p'"
    by (auto simp: process_transactions_timer_cb_def send_local_transactions_def bind_eq_Some_conv
        split: if_splits dest: d intro: inv_local_loop)
qed

lemma inv_worker: "worker_thread_on_local_transaction sql net p = Some p' \<Longrightarrow> inv p \<Longrightarrow> inv p'"
  unfolding worker_thread_on_local_transaction_def process_new_special_transaction_def
  by (auto simp: bind_eq_Some_conv split: if_splits dest: evolves_special [OF _ evolves_refl] intro: inv_local_transaction)

subsubsection \<open>State updates\<close>

lemma inv_install: "inv p \<Longrightarrow> inv (install_state p height hdr votes)"
proof -
  assume "inv p"
  define q where "q = p\<lparr>next_addr := next_addr p + 1, current_block := Some \<lparr>b_addr = next_addr p, b_height = height,
    b_id = replicate 32 0, b_header = hdr, b_body = None, b_votes = votes, b_vrf_proof = replicate 81 0,
    b_vrf_output = replicate 32 0, wait_time = 0, temp_votes = (\<lambda>_. []), num_votes = (\<lambda>_. 0), downloading_txns = False\<rparr>\<rparr>"
  have "inv q" using \<open>inv p\<close> by (rule inv_evolves) (simp add: q_def evolves_next_addr)
  then have "inv (discard_uncommitted_blocks q)" unfolding discard_uncommitted_blocks_def by (rule inv_filter)
  then show "inv (install_state p height hdr votes)" 
    unfolding install_state_def Let_def q_def [symmetric] by (rule inv_evolves) (simp add: evolving)
qed

lemma inv_apply_update: "on_apply_state_update sql net p n msg = Some p' \<Longrightarrow> inv p \<Longrightarrow> inv p'"
proof -
  assume h: "on_apply_state_update sql net p n msg = Some p'" and "inv p"
  have ex: "inv p'" if "state_update_exit sql net q = Some p'" "inv q" for q
    using evolves_update_exit [OF that(1) evolves_refl] that(2) by auto
  have c: "inv (p\<lparr>core := e\<rparr>)" for e using \<open>inv p\<close> by auto
  have m: "inv (mark_failed (p\<lparr>core := e\<rparr>) nid)" for e nid using \<open>inv p\<close> by auto
  show "inv p'"
    using h \<open>inv p\<close> ex [OF _ inv_install [OF c]] ex [OF _ m]
    unfolding on_apply_state_update_def Let_def by (auto simp: bind_eq_Some_conv split: if_splits)
qed

subsubsection \<open>Every event\<close>

lemmas inv_evolved = evolve [OF evolves_identification [OF _ evolves_refl]]
  evolve [OF evolves_authorization_received [OF _ evolves_refl]] evolve [OF evolves_check_peers [OF _ evolves_refl]]
  evolve [OF evolves_text [OF _ evolves_refl]] evolve [OF evolves_update_page [OF _ evolves_refl]]
  evolve [OF evolves_uptodate [OF _ evolves_refl]] evolve [OF evolves_node_is_busy [OF _ evolves_refl]]
  evolve [OF evolves_requested_block [OF _ evolves_refl]] evolve [OF evolves_pong [OF _ evolves_refl]]
  evolve [OF evolves_request_state [OF _ evolves_refl]] evolves_answers [THEN evolve, OF _ evolves_refl]

lemma inv_dispatch: "dispatch sql net p n msg = Some p' \<Longrightarrow> inv p \<Longrightarrow> inv p'"
  unfolding dispatch_def Let_def on_peer_list_received_def
  by (elim if_Some_elim)
    (erule (1) inv_evolved inv_apply_update inv_requested_transaction inv_remote_transaction inv_new_block inv_block_vote)+

lemma inv_timer: "timer_cb sql net p t = Some p' \<Longrightarrow> inv p \<Longrightarrow> inv p'"
proof (cases t)
  case State_Update_Timer
  moreover assume "timer_cb sql net p t = Some p'" "inv p"
  ultimately show ?thesis by (simp add: timer_cb_def evolve [OF evolves_update_timeout [OF _ evolves_refl]])
next
  case After_Connections_Timer
  moreover assume "timer_cb sql net p t = Some p'" "inv p"
  ultimately show ?thesis by (simp add: timer_cb_def evolve [OF evolves_after_connections [OF _ evolves_refl]])
next
  case Reconnect_Timer
  moreover assume "timer_cb sql net p t = Some p'" "inv p"
  ultimately show ?thesis
    by (simp add: timer_cb_def reconnect_timer_cb_def evolve [OF evolves_discovery [OF _ evolves_refl]])
qed (simp_all add: timer_cb_def inv_process_timer inv_new_block_timer inv_wait_timeout)

lemma inv_handle: "handle sql net p ev = Some p' \<Longrightarrow> inv p \<Longrightarrow> inv p'"
proof (cases ev)
  case (Peer_Message c msg)
  moreover assume "handle sql net p ev = Some p'" "inv p"
  ultimately show ?thesis
    by (auto simp: handle_def worker_thread_on_peer_message_def split: option.split_asm if_split_asm elim!: inv_dispatch)
next
  case (Node_Found ip prt)
  moreover assume "handle sql net p ev = Some p'" "inv p"
  ultimately show ?thesis by (simp add: handle_def evolve [OF evolves_found [OF _ evolves_refl]])
next
  case (Conflict_Timer_Fired conflict)
  moreover assume "handle sql net p ev = Some p'" "inv p"
  ultimately show ?thesis by (simp add: handle_def evolve [OF evolves_conflict_timer [OF _ evolves_refl]])
next
  case (Timer_Fired t)
  moreover assume "handle sql net p ev = Some p'" "inv p"
  ultimately show ?thesis by (simp add: handle_def inv_timer)
next
  case Worker_Notified
  moreover assume "handle sql net p ev = Some p'" "inv p"
  ultimately show ?thesis by (simp add: handle_def inv_worker)
next
  case (Request_Timer_Fired a)
  moreover assume "handle sql net p ev = Some p'" "inv p"
  ultimately show ?thesis
    by (cases "find_request p a") (auto simp: handle_def evolve [OF evolves_request_timer [OF evolves_refl]])
qed (rule evolve [OF evolves_simple_event [OF _ evolves_refl]], assumption, simp, assumption)+

lemma inv_step: "step p p' \<Longrightarrow> inv p \<Longrightarrow> inv p'"
proof (induction rule: step.induct)
  case (main_thread p e)
  then show ?case by (rule inv_evolves) simp
qed (rule inv_handle)

end

text \<open>An invariant that holds of the empty lists holds in every reachable state.\<close>

locale reachable_invariant = list_invariant +
  assumes empty_lists: "mempool p = [] \<Longrightarrow> new_blocks p = [] \<Longrightarrow> inv p"
begin

lemma inv_reachable: "reachable p \<Longrightarrow> inv p"
proof (induction rule: reachable.induct)
  case (start free_port e disc bind_uri interval p sql net p')
  have "inv p" using start(1) by (intro empty_lists) (auto simp: plugin_init_def Let_def split: option.split_asm)
  then show ?case by (rule inv_evolves) (rule evolves_node_thread [OF start(2) evolves_refl])
qed (rule inv_step)

end

end
