(* ===== verification/Plugin_Examples.thy ===== *)
theory Plugin_Examples
  imports Dispatch Block_Facts
begin

section \<open>A concrete plugin\<close>

text \<open>
  The states that the witnesses of the plugin's properties use: the first of three nodes is started on an
  empty database, finds a peer, receives votes, transactions and blocks. Every state is computed from
  the definitions and is reachable.
\<close>

subsection \<open>A concrete run\<close>

definition example_net :: net where
  "example_net = \<lparr>vrf_prove = (\<lambda>_ _. Some (replicate 81 0)), vrf_proof_to_hash = (\<lambda>_. Some (replicate 32 0)),
     vrf_verify = (\<lambda>_ _ _. Some (replicate 32 0)), scale = (\<lambda>n d l. n + l), write_ok = (\<lambda>_ _. True),
     randomness = (\<lambda>_. 0), local_ip = (\<lambda>_. False), numeric_ip = (\<lambda>_. True), connect_ok = (\<lambda>_. True),
     device_info = [[], [], [], []], own_info = None\<rparr>"

text \<open>The plugin of the first of three nodes, started on an empty database.\<close>

definition example_init :: "nat plugin" where
  "example_init = the (plugin_init 4000 example_engine None None None)"

lemma example_plugin_init: "plugin_init 4000 example_engine None None None = Some example_init"
  by (simp add: example_init_def plugin_init_def plugin_bind_def Let_def)

lemma example_init_fields:
  "core example_init = example_engine" "peers example_init = []" "discovery example_init = []" "my_id example_init = 1"
  "current_block example_init = None" "new_blocks example_init = []" "block_votes example_init = []" "mempool example_init = []"
  "next_addr example_init = 1" "timers example_init = Map.empty" "open_block example_init = None" "sent example_init = []"
  "total_authorized_nodes example_init = 0" "active_authorized_nodes example_init = 0" "my_bind_port example_init = 4000"
  "requests example_init = []" "last_vote_height example_init = 0" "last_vote_round example_init = 0"
  "is_updating_state example_init = False" "sync_down_state example_init = DB_STATE_UNKNOWN"
  "state_update_contacted_nodes example_init = None" "state_update_failed_nodes example_init = None"
  "block_interval example_init = 3000" "contacted_node_id example_init = 0" "reconnect_timer_enabled example_init = False"
  by (simp_all add: example_init_def plugin_init_def plugin_bind_def Let_def example_engine_def example_node_def plugin_interval_def)

definition example_start :: "nat plugin" where
  "example_start = the (node_thread example_sql example_net example_init)"

lemma example_started: "node_thread example_sql example_net example_init = Some example_start"
  and example_start_fields:
  "core example_start = example_engine" "peers example_start = []" "my_id example_start = 1"
  "current_block example_start = None" "new_blocks example_start = []" "block_votes example_start = []"
  "mempool example_start = []" "next_addr example_start = 1" "timers example_start = [After_Connections_Timer \<mapsto> 1500]"
  "open_block example_start = None" "my_bind_port example_start = 4000" "requests example_start = []"
  "last_vote_height example_start = 0" "last_vote_round example_start = 0" "total_authorized_nodes example_start = 0"
  "active_authorized_nodes example_start = 0"
  "is_updating_state example_start = False" "sync_down_state example_start = DB_STATE_ERROR"
  "state_update_contacted_nodes example_start = None" "state_update_failed_nodes example_start = None"
  "block_interval example_start = 3000" "contacted_node_id example_start = 0" "reconnect_timer_enabled example_start = False"
proof -
  have e: "page_state (content (state_db example_engine)) = []" "block_rows (content (state_db example_engine)) = []"
      "example_engine\<lparr>pages_hashes := []\<rparr> = example_engine"
    by (simp_all add: example_engine_def)
  have "load_pages_hash_list example_engine = (example_engine, SQLITE_OK)" by (simp add: load_pages_hash_list_def e)
  then have "aergolite_load_current_state example_sql example_engine = Some (example_engine, Inl SQLITE_EMPTY)"
    by (simp add: aergolite_load_current_state_def load_last_block_def e)
  then have r: "node_thread example_sql example_net example_init = Some
      (example_init\<lparr>timers := [After_Connections_Timer \<mapsto> 1500], core := example_engine, current_block := None,
        sync_down_state := DB_STATE_ERROR\<rparr>)"
    by (simp add: node_thread_def start_node_discovery_def example_init_fields load_current_state_def timer_start_def)
  then show "node_thread example_sql example_net example_init = Some example_start" by (simp add: example_start_def)
  show "core example_start = example_engine" "peers example_start = []" "my_id example_start = 1"
    "current_block example_start = None" "new_blocks example_start = []" "block_votes example_start = []"
    "mempool example_start = []" "next_addr example_start = 1" "timers example_start = [After_Connections_Timer \<mapsto> 1500]"
    "open_block example_start = None" "my_bind_port example_start = 4000" "requests example_start = []"
    "last_vote_height example_start = 0" "last_vote_round example_start = 0" "total_authorized_nodes example_start = 0"
    "active_authorized_nodes example_start = 0"
    "is_updating_state example_start = False" "sync_down_state example_start = DB_STATE_ERROR"
    "state_update_contacted_nodes example_start = None" "state_update_failed_nodes example_start = None"
    "block_interval example_start = 3000" "contacted_node_id example_start = 0" "reconnect_timer_enabled example_start = False"
    using r by (simp_all add: example_start_def example_init_fields)
qed

lemma example_start_reachable: "reachable example_start"
  by (rule reachable.start [OF example_plugin_init example_started])

text \<open>A peer is found; it sends a vote for a block of height two, then the block.\<close>

definition example_peer :: "nat plugin" where
  "example_peer = the (handle example_sql example_net example_start (Node_Found ''10.0.0.2'' 4000))"

lemma example_found: "handle example_sql example_net example_start (Node_Found ''10.0.0.2'' 4000) = Some example_peer"
  and example_peer_fields:
  "core example_peer = example_engine"
  "map conn (peers example_peer) = [1]" "map is_closing (peers example_peer) = [False]"
  "map is_authorized (peers example_peer) = [False]" "my_id example_peer = 1" "current_block example_peer = None"
  "new_blocks example_peer = []" "block_votes example_peer = []" "mempool example_peer = []" "next_addr example_peer = 2"
  "open_block example_peer = None" "requests example_peer = []" "last_vote_height example_peer = 0"
  "is_updating_state example_peer = False" "sync_down_state example_peer = DB_STATE_ERROR"
  "state_update_contacted_nodes example_peer = None" "state_update_failed_nodes example_peer = None"
  "total_authorized_nodes example_peer = 0" "active_authorized_nodes example_peer = 0"
proof -
  have r: "handle example_sql example_net example_start (Node_Found ''10.0.0.2'' 4000) = Some
      (connect_to_peer example_net (update_peer (fst (new_node example_start)) 1 (\<lambda>n. n\<lparr>host := ''10.0.0.2'', remote_port := 4000\<rparr>)) 1)"
    by (simp add: handle_def on_find_node_response_def check_peer_connection_def example_start_fields example_net_def
      connect_to_peer_def connect_to_peer_address_def new_node_def update_peer_def Let_def node_from_socket_def)
  then show "handle example_sql example_net example_start (Node_Found ''10.0.0.2'' 4000) = Some example_peer"
    by (simp add: example_peer_def)
  show 
  "core example_peer = example_engine"
  "map conn (peers example_peer) = [1]" "map is_closing (peers example_peer) = [False]"
  "map is_authorized (peers example_peer) = [False]" "my_id example_peer = 1" "current_block example_peer = None"
  "new_blocks example_peer = []" "block_votes example_peer = []" "mempool example_peer = []" "next_addr example_peer = 2"
  "open_block example_peer = None" "requests example_peer = []" "last_vote_height example_peer = 0"
  "is_updating_state example_peer = False" "sync_down_state example_peer = DB_STATE_ERROR"
  "state_update_contacted_nodes example_peer = None" "state_update_failed_nodes example_peer = None"
  "total_authorized_nodes example_peer = 0" "active_authorized_nodes example_peer = 0"
    unfolding example_peer_def r option.sel
    by (simp_all add: connect_to_peer_def update_peer_def new_node_def node_from_socket_def
      example_start_fields example_net_def connect_to_peer_address_def Let_def)
qed

lemma example_peer_reachable: "reachable example_peer"
  by (rule reachable.step [OF example_start_reachable step.event [OF example_found]])

lemma example_peer_node: "\<exists>n. peers example_peer = [n] \<and> conn n = 1 \<and> \<not> is_closing n \<and> \<not> is_authorized n"
  using example_peer_fields(2-4) by (auto simp: map_eq_Cons_conv)

lemma example_vote_stored:
  assumes "length bid = 32"
  shows "\<exists>q. handle example_sql example_net example_peer (Peer_Message 1 (vote_message 2 bid 0 2 (bid @ replicate 32 2))) = Some q
    \<and> block_votes q = [\<lparr>v_node_id = 2, v_round = 0, v_height = 2, v_block_id = bid, v_sig = bid @ replicate 32 2\<rparr>]
    \<and> new_blocks q = [] \<and> current_block q = None \<and> core q = example_engine \<and> peers q = peers example_peer
    \<and> sync_down_state q = DB_STATE_SYNCHRONIZING \<and> next_addr q = 2"
proof -
  obtain n where n: "peers example_peer = [n]" "conn n = 1" "\<not> is_closing n" "\<not> is_authorized n"
    using example_peer_node by blast
  have v: "aergolite_verify_raw (lib example_sql) (node example_engine) bid (Inr 2) (bid @ replicate 32 2) = SQLITE_OK"
    using example_vote [of 2 bid] assms by (simp add: example_sql_def example_engine_def)
  let ?m = "vote_message 2 bid 0 2 (bid @ replicate 32 2)"
  have m: "msg_int ?m PLUGIN_CMD = PLUGIN_BLOCK_VOTE" "msg_int ?m PLUGIN_HEIGHT = 2" "msg_int ?m PLUGIN_NODE_ID = 2"
      "msg_int ?m PLUGIN_ROUND = 0" "msg_blob ?m PLUGIN_HASH = Some bid"
      "msg_blob ?m PLUGIN_SIGNATURE = Some (bid @ replicate 32 2)"
    by (simp_all add: vote_message_def msg_defs)
  define q where "q = store_block_vote example_peer 2 2 0 bid (bid @ replicate 32 2)"
  have q: "peers q = [n]" "current_block q = None" "sync_down_state q = DB_STATE_ERROR" "core q = example_engine"
      "state_update_contacted_nodes q = None" "state_update_failed_nodes q = None" "new_blocks q = []" "next_addr q = 2"
      "block_votes q = [\<lparr>v_node_id = 2, v_round = 0, v_height = 2, v_block_id = bid, v_sig = bid @ replicate 32 2\<rparr>]"
    by (simp_all add: q_def store_block_vote_def example_peer_fields n)
  have h: "handle example_sql example_net example_peer (Peer_Message 1 ?m) = request_state_update example_sql example_net q"
    using v assms by (simp add: handle_def worker_thread_on_peer_message_def node_from_socket_def n dispatch_def m
      on_block_vote_def example_peer_fields current_height_def q(2,3) flip: q_def)
  let ?r = "count_authorized_nodes (q\<lparr>sync_down_state := DB_STATE_SYNCHRONIZING\<rparr>)"
  have t: "state_update_turn example_sql example_net (q\<lparr>sync_down_state := DB_STATE_SYNCHRONIZING\<rparr>)
      = Some (Done (timer_start ((create_contact_arrays ?r)\<lparr>contacted_node_id := 0\<rparr>) State_Update_Timer 1500))"
    by (simp add: state_update_turn_def Let_def enough_contacted_def count_authorized_nodes_def q create_contact_arrays_def
      array_items_def select_random_connected_node_not_in_list_def candidates_def n)
  show ?thesis
    unfolding h by (simp add: request_state_update_def q request_state_update_next.simps t)
      (simp add: timer_start_def create_contact_arrays_def count_authorized_nodes_def q n)
qed

text \<open>A header of the first node for a block without transactions.\<close>

lemma example_header_reads:
  assumes "0 \<le> h" and "h < 2 ^ 62" and "length prev = 32" and "length sh = 32"
  shows "\<exists>hdr bid. length bid = 32 \<and> (\<forall>n\<in>{example_node, save_auth_nonces example_node}.
     read_block_header example_secp n hdr
     = Some (Some bid, Inr \<lparr>hf_node_id = 1, hf_timestamp = 5, hf_block_height = h, hf_prev_hash = prev,
          hf_txns_hash = calc_txns_hash [], hf_state_hash = sh\<rparr>))"
proof -
  obtain hdr where h: "build_block_header example_secp example_node (Inr 5) h prev (calc_txns_hash []) sh = Inr hdr"
    by (auto simp: build_block_header_def Let_def aergolite_sign_def aergolite_sign_raw_def example_node_def example_secp_def)
  then obtain sg where sg: "header_sig hdr = Some sg" "length sg = 64"
    by (auto simp: build_block_header_def Let_def aergolite_sign_def aergolite_sign_raw_def example_node_def example_secp_def length_sha256)
  have id1: "this_id example_node = 1" by (simp add: example_node_def)
  have key: "key_pair example_secp (privkey example_node) (pubkey example_node)"
    using example_key_pair [of "replicate 32 1"] by (simp add: example_node_def)
  have "read_block_header example_secp n hdr
     = Some (Some (take 32 sg), Inr \<lparr>hf_node_id = 1, hf_timestamp = 5,
          hf_block_height = h, hf_prev_hash = prev, hf_txns_hash = calc_txns_hash [], hf_state_hash = sh\<rparr>)"
    if "aergolite_get_authorization n 1 = Inr auth" "pk auth = pubkey example_node" for n auth
  proof -
    have "\<exists>sg. header_sig hdr = Some sg \<and> read_block_header example_secp n hdr
     = Some (Some (take 32 sg), Inr \<lparr>hf_node_id = this_id example_node, hf_timestamp = 5,
          hf_block_height = h, hf_prev_hash = prev, hf_txns_hash = calc_txns_hash [], hf_state_hash = sh\<rparr>)"
      by (rule built_header_reads [OF key h _ that(2)])
        (use assms that in \<open>simp_all add: id1 calc_txns_hash_def length_sha256\<close>)
    with sg show ?thesis by (auto simp: id1)
  qed
  moreover have "aergolite_get_authorization example_node 1 = Inr (example_auth 1 1)"
      "aergolite_get_authorization (save_auth_nonces example_node) 1 = Inr ((example_auth 1 1)\<lparr>saved_nonce := last_nonce (example_auth 1 1)\<rparr>)"
    by (simp_all add: aergolite_get_authorization_def example_node_def example_auth_def save_auth_nonces_def)
  moreover have "pk (example_auth 1 1) = pubkey example_node" by (simp add: example_auth_def example_node_def)
  ultimately show ?thesis using sg by (intro exI [of _ hdr] exI [of _ "take 32 sg"]) auto
qed

lemma example_header:
  "\<exists>hdr bid. aergolite_verify_block_header example_sql example_engine hdr null_body = Some (Inr (1, 2, bid)) \<and> length bid = 32"
proof -
  obtain hdr bid where "length bid = 32" "read_block_header example_secp example_node hdr
     = Some (Some bid, Inr \<lparr>hf_node_id = 1, hf_timestamp = 5, hf_block_height = 2, hf_prev_hash = replicate 32 1,
          hf_txns_hash = calc_txns_hash [], hf_state_hash = replicate 32 3\<rparr>)"
    using example_header_reads [of 2 "replicate 32 1" "replicate 32 3"] by auto
  then show ?thesis
    by (intro exI [of _ hdr] exI [of _ bid])
      (simp add: aergolite_verify_block_header_def example_sql_def example_engine_def null_body_def)
qed

lemma example_block_arrives: "\<exists>(p :: nat plugin) b. reachable p \<and> new_blocks p = [b] \<and> num_votes b 0 = 1"
proof -
  obtain hdr bid where hdr: "aergolite_verify_block_header example_sql example_engine hdr null_body = Some (Inr (1, 2, bid))"
      "length bid = 32" using example_header by blast
  obtain q where q: "handle example_sql example_net example_peer (Peer_Message 1 (vote_message 2 bid 0 2 (bid @ replicate 32 2))) = Some q"
      "block_votes q = [\<lparr>v_node_id = 2, v_round = 0, v_height = 2, v_block_id = bid, v_sig = bid @ replicate 32 2\<rparr>]"
      "new_blocks q = []" "current_block q = None" "core q = example_engine" "peers q = peers example_peer"
      "sync_down_state q = DB_STATE_SYNCHRONIZING" "next_addr q = 2"
    using example_vote_stored [OF hdr(2)] by blast
  obtain n where n: "peers example_peer = [n]" "conn n = 1" "\<not> is_closing n" "\<not> is_authorized n"
    using example_peer_node by blast
  let ?pr = "replicate 81 0 :: bytes"
  let ?m = "[PLUGIN_CMD \<mapsto> V_Int PLUGIN_NEW_BLOCK, PLUGIN_HEADER \<mapsto> V_Header_Blob hdr, PLUGIN_BODY \<mapsto> V_Body null_body,
    PLUGIN_PROOF \<mapsto> V_Blob ?pr]"
  have m: "msg_int ?m PLUGIN_CMD = PLUGIN_NEW_BLOCK" "msg_header_blob ?m PLUGIN_HEADER = Some hdr"
      "msg_body ?m PLUGIN_BODY = Some null_body" "msg_blob ?m PLUGIN_PROOF = Some ?pr"
    by (simp_all add: msg_defs)
  have pr: "verify_proof example_net q 2 1 ?pr = Inr (replicate 32 0)"
    by (simp add: verify_proof_def q(5) example_engine_def example_node_def example_auth_def aergolite_get_authorization_def
      example_net_def)
  define b where "b = transfer_block_votes q (new_block q 2 bid hdr null_body ?pr (replicate 32 0))"
  define r where "r = update_block (q\<lparr>new_blocks := [b], next_addr := 3\<rparr>) 2 (\<lambda>b. b\<lparr>downloading_txns := False\<rparr>)"
  have b: "b_addr b = 2" "block_txn_ids b = []" "num_votes b 0 = 1"
    by (simp_all add: b_def transfer_block_votes_def new_block_def q block_txn_ids_def null_body_def count_block_vote_def
      add_block_vote_def Let_def)
  have "handle example_sql example_net q (Peer_Message 1 ?m) = accept_block example_sql example_net q 2 bid hdr null_body ?pr (replicate 32 0)"
    by (simp add: handle_def worker_thread_on_peer_message_def node_from_socket_def q n dispatch_def m on_new_block_def
      or_else_def hdr pr)
  also have "\<dots> = request_state_update example_sql example_net r"
    by (simp add: accept_block_def q(3,4,8) current_height_def flip: b_def)
      (simp add: check_block_transactions_def b r_def Let_def update_block_def current_height_def q(4))
  also have "\<dots> = Some r" by (simp add: request_state_update_def r_def update_block_def q(7))
  finally have "reachable r"
    using reachable.step [OF reachable.step [OF example_peer_reachable step.event [OF q(1)]] step.event] by blast
  moreover have "new_blocks r = [b\<lparr>downloading_txns := False\<rparr>]" by (simp add: r_def update_block_def b)
  ultimately show ?thesis using b(3)
    by (intro exI [of _ r] exI [of _ "b\<lparr>downloading_txns := False\<rparr>"]) simp
qed

text \<open>The first block of an empty database, its only change the first page.\<close>

definition example_fresh :: "nat engine" where
  "example_fresh = example_engine\<lparr>block_height := 0\<rparr>"

definition example_first :: "nat engine" where
  "example_first = fst (aergolite_begin_block example_sql example_fresh)"

lemmas example_begin_simps = aergolite_begin_block_def aergolite_prepare_db_def sql_begin_def
  example_block_simps example_fresh_def Let_def case_prod_beta

lemma example_first_begins: "aergolite_begin_block example_sql example_fresh = (example_first, SQLITE_OK)"
  by (simp add: prod_eq_iff example_first_def) (simp add: example_begin_simps)

lemma example_first_fields:
  "node example_first = save_auth_nonces example_node" "crc_ok (crc example_first)" "block_height example_first = 0"
  "block_id example_first = replicate 32 4" "mod_pages example_first = Some []" "txn_ids example_first = Some []"
  "begun (worker_db example_first) = Some 7" "ab_height (active example_first) = 1" "pages_hashes example_first = []"
  "begun (state_db example_first) = Some (content (state_db example_engine))"
  "block_rows (content (state_db example_first)) = []" "content (worker_db example_first) = 10"
  by (simp_all add: example_first_def example_begin_simps crc_ok_def)

definition example_body :: block_body where
  "example_body = \<lparr>body_mod_pages = [(1, 1, sha256 [10])], body_txn_ids = []\<rparr>"

lemma example_first_block:
  "\<exists>hdr bid e. length bid = 32 \<and> aergolite_verify_block_header example_sql example_fresh hdr example_body = Some (Inr (1, 1, bid))
     \<and> aergolite_verify_block example_sql example_first hdr example_body = Some (e, Inr bid)
     \<and> (\<forall>votes. snd (aergolite_commit_block example_sql e hdr example_body votes) = SQLITE_OK)"
proof -
  obtain hdr bid where h: "length bid = 32" "\<forall>n\<in>{example_node, save_auth_nonces example_node}.
     read_block_header example_secp n hdr
     = Some (Some bid, Inr \<lparr>hf_node_id = 1, hf_timestamp = 5, hf_block_height = 1, hf_prev_hash = replicate 32 4,
          hf_txns_hash = calc_txns_hash [], hf_state_hash = sha256 (sha256 [10])\<rparr>)"
    using example_header_reads [of 1 "replicate 32 4" "sha256 (sha256 [10])"] by (auto simp: length_sha256)
  define e0 where "e0 = example_first\<lparr>active := (active example_first)\<lparr>ab_id := bid\<rparr>\<rparr>"
  have "collected example_sql e0 = [(1, sha256 [10])]"
    by (simp add: collected_def e0_def example_first_fields) (simp add: example_sql_def)
  then have c: "collect_modified_pages example_sql e0 = (e0\<lparr>mod_pages := Some [(1, sha256 [10])]\<rparr>, SQLITE_OK)"
    by (simp add: collect_modified_pages_eq e0_def example_first_fields)
  have l: "lib example_sql = example_secp" by (simp add: example_sql_def)
  have "\<exists>e. aergolite_verify_block example_sql example_first hdr example_body = Some (e, Inr bid)"
    unfolding aergolite_verify_block_def using h c
    by (simp add: l example_first_fields e0_def [symmetric] Let_def case_prod_beta)
      (simp add: e0_def example_first_fields example_body_def compare_modified_pages_def calc_new_state_hash_def
        set_page_hash_def set_list_def Let_def case_prod_beta identify_block_def)
  then obtain e where v: "aergolite_verify_block example_sql example_first hdr example_body = Some (e, Inr bid)" by blast
  have "\<exists>e2. aergolite_commit_block example_sql e hdr example_body votes = (e2, SQLITE_OK)" for votes
    by (rule verified_commits [OF v]) (simp_all add: example_first_fields example_ready example_body_def)
  then have "snd (aergolite_commit_block example_sql e hdr example_body votes) = SQLITE_OK" for votes by (metis snd_conv)
  moreover have "aergolite_verify_block_header example_sql example_fresh hdr example_body = Some (Inr (1, 1, bid))"
    using h by (simp add: aergolite_verify_block_header_def l example_fresh_def example_body_def) (simp add: example_engine_def)
  ultimately show ?thesis using v h(1) by blast
qed


text \<open>A vote for that block arrives, then the block, which the engine cannot open at once.\<close>

definition example_refusing :: "nat sqlite" where
  "example_refusing = example_sql\<lparr>worker_answer := (\<lambda>_ _. SQLITE_BUSY)\<rparr>"

lemma example_winner_arrives:
  "\<exists>(p :: nat plugin) b bid e. reachable p \<and> core p = example_fresh \<and> new_blocks p = [b] \<and> num_votes b 0 = 1 \<and> b_height b = 1
     \<and> b_body b = Some example_body \<and> current_block p = None \<and> open_block p = None \<and> is_updating_state p = False
     \<and> total_authorized_nodes p = 0 \<and> active_authorized_nodes p = 0
     \<and> aergolite_verify_block example_sql example_first (b_header b) example_body = Some (e, Inr bid)
     \<and> (\<forall>votes. snd (aergolite_commit_block example_sql e (b_header b) example_body votes) = SQLITE_OK)"
proof -
  obtain hdr bid e where hdr: "length bid = 32"
      "aergolite_verify_block_header example_sql example_fresh hdr example_body = Some (Inr (1, 1, bid))"
      "aergolite_verify_block example_sql example_first hdr example_body = Some (e, Inr bid)"
      "\<forall>votes. snd (aergolite_commit_block example_sql e hdr example_body votes) = SQLITE_OK"
    using example_first_block by blast
  obtain n where n: "peers example_peer = [n]" "conn n = 1" "\<not> is_closing n" "\<not> is_authorized n"
    using example_peer_node by blast
  define p where "p = example_peer\<lparr>core := example_fresh\<rparr>"
  have rp: "reachable p" unfolding p_def by (rule reachable.step [OF example_peer_reachable step.main_thread])
  have cn: "node example_fresh = example_node" by (simp add: example_fresh_def example_engine_def)
  have ls: "lib example_sql = example_secp" "lib example_refusing = example_secp"
    by (simp_all add: example_sql_def example_refusing_def)
  let ?v = "vote_message 1 bid 0 2 (bid @ replicate 32 2)"
  have v: "aergolite_verify_raw example_secp example_node bid (Inr 2) (bid @ replicate 32 2) = SQLITE_OK"
    using example_vote [of 2 bid] hdr(1) by simp
  have m: "msg_int ?v PLUGIN_CMD = PLUGIN_BLOCK_VOTE" "msg_int ?v PLUGIN_HEIGHT = 1" "msg_int ?v PLUGIN_NODE_ID = 2"
      "msg_int ?v PLUGIN_ROUND = 0" "msg_blob ?v PLUGIN_HASH = Some bid"
      "msg_blob ?v PLUGIN_SIGNATURE = Some (bid @ replicate 32 2)"
    by (simp_all add: vote_message_def msg_defs)
  define q where "q = store_block_vote p 2 1 0 bid (bid @ replicate 32 2)"
  have p: "peers p = [n]" "core p = example_fresh" "new_blocks p = []" "current_block p = None" "block_votes p = []"
      "open_block p = None" "total_authorized_nodes p = 0" "active_authorized_nodes p = 0" "next_addr p = 2"
    by (simp_all add: p_def example_peer_fields n)
  have "handle example_sql example_net p (Peer_Message 1 ?v) = Some q"
    using v hdr(1) by (simp add: handle_def worker_thread_on_peer_message_def node_from_socket_def n dispatch_def m
      on_block_vote_def p current_height_def cn ls flip: q_def) (simp add: q_def store_block_vote_def p)
  then have rq: "reachable q" using reachable.step [OF rp step.event] by blast
  have q: "peers q = [n]" "core q = example_fresh" "new_blocks q = []" "current_block q = None"
      "block_votes q = [\<lparr>v_node_id = 2, v_round = 0, v_height = 1, v_block_id = bid, v_sig = bid @ replicate 32 2\<rparr>]"
      "open_block q = None" "total_authorized_nodes q = 0" "active_authorized_nodes q = 0" "next_addr q = 2"
      "is_updating_state q = False" "mempool q = []"
    by (simp_all add: q_def store_block_vote_def p) (simp_all add: p_def example_peer_fields)
  let ?pr = "replicate 81 0 :: bytes"
  let ?m = "[PLUGIN_CMD \<mapsto> V_Int PLUGIN_NEW_BLOCK, PLUGIN_HEADER \<mapsto> V_Header_Blob hdr, PLUGIN_BODY \<mapsto> V_Body example_body,
    PLUGIN_PROOF \<mapsto> V_Blob ?pr]"
  have m: "msg_int ?m PLUGIN_CMD = PLUGIN_NEW_BLOCK" "msg_header_blob ?m PLUGIN_HEADER = Some hdr"
      "msg_body ?m PLUGIN_BODY = Some example_body" "msg_blob ?m PLUGIN_PROOF = Some ?pr"
    by (simp_all add: msg_defs)
  have pr: "verify_proof example_net q 1 1 ?pr = Inr (replicate 32 0)"
    by (simp add: verify_proof_def q(2) cn) (simp add: example_node_def example_auth_def aergolite_get_authorization_def
      example_net_def)
  define b where "b = transfer_block_votes q (new_block q 1 bid hdr example_body ?pr (replicate 32 0))"
  define r where "r = start_block_wait_timer (update_block (q\<lparr>new_blocks := [b], next_addr := 3\<rparr>) 2 (\<lambda>b. b\<lparr>downloading_txns := False\<rparr>))"
  have b: "b_addr b = 2" "block_txn_ids b = []" "num_votes b 0 = 1" "b_height b = 1" "b_header b = hdr" "b_body b = Some example_body"
    by (simp_all add: b_def transfer_block_votes_def new_block_def q block_txn_ids_def example_body_def count_block_vote_def
      add_block_vote_def Let_def)
  let ?b = "b\<lparr>downloading_txns := False\<rparr>"
  have r: "new_blocks r = [?b]" "core r = example_fresh" "current_block r = None" "open_block r = None"
     "is_updating_state r = False" "total_authorized_nodes r = 0" "active_authorized_nodes r = 0"
    by (simp_all add: r_def start_block_wait_timer_def Let_def timer_start_def update_block_def b q)
  have hdr': "aergolite_verify_block_header example_refusing example_fresh hdr example_body = Some (Inr (1, 1, bid))"
    using hdr(2) by (simp add: aergolite_verify_block_header_def ls)
  have w: "has_majority r 0 ?b"
    by (simp add: has_majority_def r current_height_def authorized_voters_def majority_def b)
  have "handle example_refusing example_net q (Peer_Message 1 ?m)
      = accept_block example_refusing example_net q 1 bid hdr example_body ?pr (replicate 32 0)"
    by (simp add: handle_def worker_thread_on_peer_message_def node_from_socket_def q n dispatch_def m on_new_block_def
      or_else_def hdr' pr)
  also have "\<dots> = check_for_winner_block example_refusing example_net r 0"
    by (simp add: accept_block_def q(3,4,9) current_height_def flip: b_def)
      (simp add: check_block_transactions_def b r_def Let_def update_block_def current_height_def q(4))
  finally have h: "handle example_refusing example_net q (Peer_Message 1 ?m) = check_for_winner_block example_refusing example_net r 0" .
  define s where "s = update_block (update_block r 2 (\<lambda>b. b\<lparr>downloading_txns := False\<rparr>)) 2 (\<lambda>b. convert_block_votes b 0)"
  have s: "new_blocks s = [convert_block_votes ?b 0]" by (simp add: s_def update_block_def r b)
  have c: "check_block_transactions example_net r ?b = (update_block r 2 (\<lambda>b. b\<lparr>downloading_txns := False\<rparr>), SQLITE_OK)"
    by (simp add: check_block_transactions_def block_txn_ids_def) (simp add: b example_body_def)
  have g: "aergolite_begin_block example_refusing example_fresh = (example_fresh, SQLITE_BUSY)"
    by (simp add: aergolite_begin_block_def sql_begin_def example_refusing_def example_block_simps example_fresh_def Let_def)
  have bs: "block_from s 2 = Some (convert_block_votes ?b 0)" by (simp add: block_from_def s convert_block_votes_def b)
  have cs: "core s = example_fresh" by (simp add: s_def update_block_def r)
  then have same: "s\<lparr>core := example_fresh\<rparr> = s" by (cases s) simp
  have a: "apply_block example_refusing example_net s (convert_block_votes ?b 0) = Some (s, SQLITE_BUSY)"
    by (simp add: apply_block_def verify_block_def cs g Let_def) (simp add: outdated_def same)
  have "commit_winner example_refusing example_net r 0 ?b = Some s"
    by (simp add: commit_winner_def r c b Let_def bs a flip: s_def)
  then have "handle example_refusing example_net q (Peer_Message 1 ?m) = Some s"
    unfolding h by (simp add: check_for_winner_block.simps find_winner_def r w)
  then have "reachable s" using reachable.step [OF rq step.event] by blast
  moreover have "core s = example_fresh" "current_block s = None" "open_block s = None" "is_updating_state s = False"
      "total_authorized_nodes s = 0" "active_authorized_nodes s = 0"
    by (simp_all add: s_def update_block_def r)
  moreover have "num_votes (convert_block_votes ?b 0) 0 = 1" "b_height (convert_block_votes ?b 0) = 1"
      "b_header (convert_block_votes ?b 0) = hdr" "b_body (convert_block_votes ?b 0) = Some example_body"
    by (simp_all add: convert_block_votes_def b)
  ultimately show ?thesis using s hdr(3,4) by blast
qed

text \<open>A transaction arrives.\<close>

lemma example_transaction_arrives: "\<exists>(p :: nat plugin) t. reachable p \<and> mempool p = [t]"
proof -
  obtain stx where s: "sign_txn_by_node example_secp example_node example_log = Some (stx, SQLITE_OK)"
    using example_log_signed by blast
  have "\<exists>datetime. aergolite_verify_transaction example_secp example_node 1 stx
      = Some (Inr (get_transaction_nonce example_log, datetime))"
    by (rule sign_verify_node [OF example_signer s _ example_author])
      (simp_all add: example_log_def example_auth_def example_call)
  then obtain datetime where v: "aergolite_verify_transaction example_secp example_node 1 stx = Some (Inr (2, datetime))"
    by (auto simp: example_log_def)
  obtain n where n: "peers example_peer = [n]" "conn n = 1" "\<not> is_closing n" "\<not> is_authorized n"
    using example_peer_node by blast
  let ?m = "[PLUGIN_CMD \<mapsto> V_Int PLUGIN_NEW_TRANSACTION, PLUGIN_NODE_ID \<mapsto> V_Int 1, PLUGIN_NONCE \<mapsto> V_Int 2,
    PLUGIN_SQL_CMDS \<mapsto> V_Log stx]"
  have m: "msg_int ?m PLUGIN_CMD = PLUGIN_NEW_TRANSACTION" "msg_int ?m PLUGIN_NODE_ID = 1" "msg_int ?m PLUGIN_NONCE = 2"
      "msg_log ?m PLUGIN_SQL_CMDS = Some stx"
    by (simp_all add: msg_defs)
  let ?t = "\<lparr>t_node_id = 1, t_nonce = 2, t_id = build_transaction_id 1 2, t_datetime = datetime, t_log = stx, t_block_height = 0\<rparr>"
  have c: "node example_engine = example_node" "lib example_sql = example_secp"
    by (simp_all add: example_engine_def example_sql_def)
  have a: "aergolite_get_authorization example_node 1 = Inr (example_auth 1 1)" "last_nonce (example_auth 1 1) < 2"
    by (simp_all add: aergolite_get_authorization_def example_node_def example_auth_def)
  have st: "store_transaction_on_mempool example_sql example_peer 1 2 stx
      = Some (example_peer\<lparr>mempool := [?t]\<rparr>, SQLITE_OK, Some ?t)"
    using a(2) v by (simp add: store_transaction_on_mempool_def find_mempool_def example_peer_fields c a(1) Let_def)
  have "handle example_sql example_net example_peer (Peer_Message 1 ?m)
      = Some (start_new_block_timer example_net (example_peer\<lparr>mempool := [?t]\<rparr>))"
    by (simp add: handle_def worker_thread_on_peer_message_def node_from_socket_def n dispatch_def m
      on_new_remote_transaction_def process_new_transaction_def or_else_def st process_arrived_transaction_def
      requested_transaction_arrived_def example_peer_fields find_transaction_request_def)
  then have "reachable (start_new_block_timer example_net (example_peer\<lparr>mempool := [?t]\<rparr>))"
    using reachable.step [OF example_peer_reachable step.event] by blast
  moreover have "mempool (start_new_block_timer example_net p) = mempool p" for p :: "nat plugin"
    by (simp add: start_new_block_timer_def Let_def case_prod_beta timer_start_def can_create_block_def
      count_authorized_nodes_def calculate_node_wait_interval_def split: option.split)
  ultimately show ?thesis
    by (intro exI [of _ "start_new_block_timer example_net (example_peer\<lparr>mempool := [?t]\<rparr>)"] exI [of _ ?t]) simp
qed

end
