(* ===== verification/Vote_Facts.thy ===== *)
theory Vote_Facts
  imports List_Invariants Plugin_Examples
begin

section \<open>Votes and majorities\<close>

text \<open>
  The invariants of the lists as instances of \<open>reachable_invariant\<close>: the counters of votes are the number of
  different nodes that voted, the blocks in the list have different addresses, the transactions of the
  mempool different ids. From these: a block that is committed by votes carries the votes of a
  majority of different nodes.
\<close>

subsection \<open>The invariants\<close>

definition votes_ok :: "block \<Rightarrow> bool" where
  "votes_ok b \<longleftrightarrow> (\<forall>round. num_votes b round = int (length (temp_votes b round)) \<and> distinct (map v_node_id (temp_votes b round)))"

lemma votes_ok_count: "votes_ok b \<Longrightarrow> votes_ok (fst (count_block_vote b round nid sg))"
  by (auto simp: votes_ok_def count_block_vote_def add_block_vote_def Let_def list_ex_iff)

lemma votes_ok_counted: "counted b b' \<Longrightarrow> votes_ok b \<Longrightarrow> votes_ok b'"
proof (induction rule: rtranclp_induct)
  case (step c d)
  then have c: "votes_ok c" by simp
  from step(2) show ?case unfolding count_step_def
  proof (elim disjE exE)
    assume "same_block c d"
    with c show ?thesis by (simp add: same_block_def votes_ok_def)
  qed (simp add: votes_ok_count c)
qed simp

lemma addr_counted: "counted b b' \<Longrightarrow> b_addr b' = b_addr b"
  by (induction rule: rtranclp_induct)
    (auto simp: count_step_def same_block_def count_block_vote_def add_block_vote_def Let_def)

lemma addrs_counted: "list_all2 counted bs cs \<Longrightarrow> map b_addr cs = map b_addr bs"
  by (induction rule: list_all2_induct) (auto dest: addr_counted)

lemma subseq_distinct: "subseq xs ys \<Longrightarrow> distinct ys \<Longrightarrow> distinct xs"
proof -
  assume "subseq xs ys"
  then have "distinct ys \<longrightarrow> distinct xs \<and> set xs \<subseteq> set ys" by (induction rule: list_emb.induct) auto
  then show "distinct ys \<Longrightarrow> distinct xs" by simp
qed

lemma distinct_submset: "mset xs \<subseteq># mset ys \<Longrightarrow> distinct ys \<Longrightarrow> distinct xs"
proof (unfold distinct_count_atmost_1, intro allI)
  fix a
  assume le: "mset xs \<subseteq># mset ys" and d: "\<forall>a. count (mset ys) a = (if a \<in> set ys then 1 else 0)"
  have "count (mset ys) a \<le> 1" using d by simp
  then have "count (mset xs) a \<le> 1" using mset_subset_eq_count [OF le, of a] by linarith
  moreover have "0 < count (mset xs) a \<longleftrightarrow> a \<in> set xs" by (simp add: count_greater_zero_iff)
  ultimately show "count (mset xs) a = (if a \<in> set xs then 1 else 0)" by (cases "count (mset xs) a") auto
qed

interpretation votes: reachable_invariant "\<lambda>p. \<forall>b\<in>set (new_blocks p). votes_ok b"
proof (unfold_locales, goal_cases)
  case (1 p p')
  then show ?case
    unfolding evolves_def by (auto simp: list_all2_conv_all_nth in_set_conv_nth) (metis nth_mem votes_ok_counted)
next
  case (2 bs p)
  then show ?case using mset_subset_eqD [OF 2(1)] by (auto simp: set_mset_mset)
next
  case (3 p b)
  then show ?case by (simp add: votes_ok_def)
qed simp_all

interpretation addresses: reachable_invariant "\<lambda>p. distinct (addrs p) \<and> (\<forall>a\<in>set (addrs p). a < next_addr p)"
proof (unfold_locales, goal_cases)
  case (1 p p')
  then have "addrs p' = addrs p" by (simp add: evolves_def addrs_def addrs_counted)
  with 1 show ?case by (auto simp: evolves_def)
next
  case (2 bs p)
  have m: "mset (map b_addr bs) \<subseteq># mset (addrs p)" using 2(1) by (simp add: addrs_def image_mset_subseteq_mono)
  then have "distinct (map b_addr bs)" using 2(2) distinct_submset by blast
  moreover have "set (map b_addr bs) \<subseteq> set (addrs p)" using set_mset_mono [OF m] by simp
  ultimately show ?case using 2(2) by (auto simp: addrs_def)
next
  case (3 p b)
  then show ?case by (auto simp: addrs_def)
qed (simp_all add: addrs_def)

interpretation transactions: reachable_invariant "\<lambda>p. distinct (map t_id (mempool p))"
proof (unfold_locales, goal_cases)
  case (1 p p')
  have "map t_id ts = map t_id (unmarked ts)" for ts by (simp add: unmarked_def)
  with 1 have "subseq (map t_id (mempool p')) (map t_id (mempool p))"
    unfolding evolves_def by (metis subseq_map)
  then show ?case using 1(2) by (rule subseq_distinct)
next
  case (4 p t)
  then show ?case by (auto simp: find_mempool_def find_None_iff)
qed simp_all

subsection \<open>Frames\<close>

text \<open>Voting and checking a block leave the current block and the number of nodes alone.\<close>

definition same_height :: "'db plugin \<Rightarrow> 'db plugin \<Rightarrow> bool" where
  "same_height p q \<longleftrightarrow> current_block q = current_block p \<and> total_authorized_nodes q = total_authorized_nodes p
     \<and> active_authorized_nodes q = active_authorized_nodes p"

lemma same_height_refl [simp]: "same_height p p"
  by (simp add: same_height_def)

lemma same_height_trans [trans]: "same_height p q \<Longrightarrow> same_height q r \<Longrightarrow> same_height p r"
  by (simp add: same_height_def)

lemma same_height_voters: "same_height p q \<Longrightarrow> authorized_voters q = authorized_voters p \<and> current_height q = current_height p"
  by (simp add: same_height_def authorized_voters_def current_height_def)

lemma same_height_updates [simp]:
  "same_height p (q\<lparr>core := e\<rparr>) = same_height p q" "same_height p (rollback_block q) = same_height p q"
  "same_height p (update_block q a f) = same_height p q" "same_height p (outdated q rc) = same_height p q"
  "same_height p (q\<lparr>new_blocks := bs\<rparr>) = same_height p q" "same_height p (q\<lparr>open_block := ob\<rparr>) = same_height p q"
  "same_height p (remove_block q a) = same_height p q" "same_height p (set_wait_times net q height) = same_height p q"
  "same_height p (q\<lparr>last_vote_height := h, last_vote_round := r\<rparr>) = same_height p q"
  by (simp_all add: same_height_def rollback_block_def update_block_def outdated_def remove_block_def set_wait_times_def)

lemma same_height_req: "req_frame q r \<Longrightarrow> same_height q r"
  by (simp add: same_height_def req_frame_fields)

lemma same_height_check: "same_height p (fst (check_block_transactions net p b))"
  by (simp add: check_block_transactions_def Let_def case_prod_beta same_height_req req_frame_missing_txns)

lemma same_height_execute: "execute_block_txns sql vs p = Some (p', rc, fin) \<Longrightarrow> same_height p p'"
  by (drule execute_block_txns_core, erule ssubst) simp

lemma same_height_verify: "verify_block sql p b = Some (p', rc) \<Longrightarrow> same_height p p'"
  by (induction rule: verify_block_cases)
    (auto simp: verify_block_failed_def dest: same_height_execute [THEN same_height_trans [rotated], of _ _ _ _ _ _ p])

lemma same_height_vote: "vote_on_block sql net p round a = Some p' \<Longrightarrow> same_height p p'"
proof -
  assume v: "vote_on_block sql net p round a = Some p'"
  then obtain b where b: "block_from p a = Some b" by (cases "block_from p a") (auto simp: vote_on_block_def)
  show ?thesis
  proof (cases "aergolite_sign_raw (lib sql) (this_node p) (b_id b)")
    case (Inl rc)
    with v b show ?thesis by (simp add: vote_on_block_def)
  next
    case (Inr sg)
    have s: "same_height p (send_to_authorized net m ns q)" if "same_height p q" for m ns q
      using same_height_trans [OF that same_height_req [OF req_frame_send_authorized]] .
    from v b Inr show ?thesis by (auto simp: vote_on_block_def Let_def intro!: s split: if_split_asm)
  qed
qed

lemma same_height_open: "open_winner sql net p w = Some (p', rc) \<Longrightarrow> same_height p p'"
proof -
  assume o: "open_winner sql net p w = Some (p', rc)"
  define q where "q = (if open_block p \<noteq> None then rollback_block p else p)"
  have "same_height p q" by (simp add: q_def)
  also have "same_height q (fst (check_block_transactions net q w))" by (rule same_height_check)
  finally have c: "same_height p (fst (check_block_transactions net q w))" .
  with o show ?thesis unfolding open_winner_def Let_def q_def [symmetric] case_prod_beta
    by (cases "snd (check_block_transactions net q w) = SQLITE_OK") (auto dest: same_height_verify intro: same_height_trans)
qed

lemma same_height_loop: "vote_loop sql net round height p ex = Some (p', ex') \<Longrightarrow> same_height p p'"
proof (induction sql net round height p ex rule: vote_loop.induct)
  case (1 sql net round height p ex)
  show ?case
  proof (cases "select_winner height (new_blocks p) None")
    case None
    with 1 show ?thesis by (simp add: vote_loop.simps)
  next
    case (Some w)
    show ?thesis
    proof (cases "open_block p = Some (b_addr w)")
      case True
      with 1(2) Some same_height_vote show ?thesis by (auto simp: vote_loop.simps)
    next
      case False
      then obtain q rc where o: "open_winner sql net p w = Some (q, rc)"
        using 1(2) Some by (subst (asm) vote_loop.simps) (auto simp: bind_eq_Some_conv)
      note q = same_height_open [OF o]
      show ?thesis
      proof (cases "rc = SQLITE_OK")
        case True
        with 1(2) Some False o q show ?thesis
          by (subst (asm) vote_loop.simps) (auto dest: same_height_vote intro: same_height_trans)
      next
        case bad: False
        then obtain w' where w': "block_from q (b_addr w) = Some w'"
            "vote_loop sql net round height (remove_block q (b_addr w)) (ex @ [w']) = Some (p', ex')"
          using 1(2) Some False o by (subst (asm) vote_loop.simps) (auto simp: bind_eq_Some_conv)
        have "same_height p (remove_block q (b_addr w))" using q by simp
        also have "same_height (remove_block q (b_addr w)) p'" by (rule 1(1) [OF Some False o _ bad w'(1) w'(2)]) simp
        finally show ?thesis .
      qed
    qed
  qed
qed

lemma same_height_wait [simp]: "same_height (set_wait_times net p h) q = same_height p q"
  by (simp add: same_height_def set_wait_times_def)

lemma same_height_best: "vote_on_best_block sql net p round = Some (p', go) \<Longrightarrow> same_height p p'"
  using same_height_loop [of sql net round "current_height p + 1" "set_wait_times net p (current_height p + 1)" "[]"]
  by (auto simp: vote_on_best_block_def Let_def bind_eq_Some_conv split: if_splits intro: same_height_trans)

subsection \<open>A committed block has a majority\<close>

lemma current_block_committed: "current_block (block_committed net p b) = Some b"
proof -
  have m: "current_block (fold check_mempool_transaction_cb l q) = current_block q" for l and q :: "'a plugin"
    by (induction l arbitrary: q) (simp_all add: check_mempool_transaction_cb_def)
  have t: "current_block (fold plugin_update_nodes_types_cb l q) = current_block q" for l and q :: "'a plugin"
    by (induction l arbitrary: q) (simp_all add: plugin_update_nodes_types_cb_def split: option.split)
  have w: "current_block (fst (calculate_node_wait_interval net q h)) = current_block q" for h and q :: "'a plugin"
    by (simp add: calculate_node_wait_interval_def split: option.split)
  have n: "current_block (start_new_block_timer net q) = current_block q" for q :: "'a plugin"
    by (simp add: start_new_block_timer_def Let_def case_prod_beta timer_start_def w can_create_block_def count_authorized_nodes_def)
  show ?thesis
    by (simp add: block_committed_def Let_def n t count_authorized_nodes_def plugin_update_nodes_types_def
      discard_old_block_votes_def discard_uncommitted_blocks_def remove_block_def)
qed

lemma commit_current:
  "current_block (fst (commit_block sql net p b)) = current_block p \<or> current_block (fst (commit_block sql net p b)) = Some b"
  by (simp add: commit_block_def Let_def case_prod_beta current_block_committed outdated_def)

text \<open>The block of the example is committed.\<close>

lemma example_winner_commits:
  "\<exists>(p :: nat plugin) p'. reachable p \<and> check_for_winner_block example_sql example_net p 0 = Some p'
     \<and> current_block p = None \<and> current_block p' \<noteq> None"
proof -
  obtain p :: "nat plugin" and b bid e where p: "reachable p" "core p = example_fresh" "new_blocks p = [b]" "num_votes b 0 = 1"
     "b_height b = 1" "b_body b = Some example_body" "current_block p = None" "open_block p = None" "is_updating_state p = False"
     "total_authorized_nodes p = 0" "active_authorized_nodes p = 0"
     "aergolite_verify_block example_sql example_first (b_header b) example_body = Some (e, Inr bid)"
     "\<And>votes. snd (aergolite_commit_block example_sql e (b_header b) example_body votes) = SQLITE_OK"
    using example_winner_arrives by blast
  have w: "has_majority p 0 b"
    by (simp add: has_majority_def p current_height_def authorized_voters_def majority_def)
  have ids: "block_txn_ids b = []" by (simp add: block_txn_ids_def p example_body_def)
  define s where "s = update_block (update_block p (b_addr b) (\<lambda>b. b\<lparr>downloading_txns := False\<rparr>)) (b_addr b) (\<lambda>b. convert_block_votes b 0)"
  define c where "c = convert_block_votes (b\<lparr>downloading_txns := False\<rparr>) 0"
  have c: "b_addr c = b_addr b" "block_txn_ids c = []" "b_header c = b_header b" "b_body c = Some example_body"
    using ids by (simp_all add: c_def convert_block_votes_def block_txn_ids_def p)
  have s: "new_blocks s = [c]" "core s = example_fresh"
    by (simp_all add: s_def update_block_def p c_def)
  have v: "\<exists>q. verify_block example_sql s c = Some (q, SQLITE_OK) \<and> core q = e"
    by (simp add: verify_block_def s c example_first_begins p or_else_def update_block_def Let_def)
  then obtain q where q: "verify_block example_sql s c = Some (q, SQLITE_OK)" "core q = e" by blast
  then obtain d where d: "block_from q (b_addr c) = Some d" "b_header d = b_header b" "b_body d = Some example_body"
    using p(12) by (auto simp: verify_block_def s c example_first_begins p Let_def block_from_def update_block_def or_else_def)
  obtain p' where p': "commit_block example_sql example_net q d = (p', SQLITE_OK)" "current_block p' \<noteq> None"
    using p(13) [of "b_votes d"] by (auto simp: commit_block_def q d Let_def case_prod_beta current_block_committed or_else_def)
  then have "apply_block example_sql example_net s c = Some (p', SQLITE_OK)" by (simp add: apply_block_def q d)
  moreover have bc: "block_from s (b_addr b) = Some c" using c(1) by (simp add: block_from_def s)
  moreover have "check_block_transactions example_net p b = (update_block p (b_addr b) (\<lambda>b. b\<lparr>downloading_txns := False\<rparr>), SQLITE_OK)"
    by (simp add: check_block_transactions_def ids)
  ultimately have "commit_winner example_sql example_net p 0 b = Some p'"
    by (simp add: commit_winner_def p(8) Let_def flip: s_def)
  then have "check_for_winner_block example_sql example_net p 0 = Some p'"
    by (simp add: check_for_winner_block.simps find_winner_def p w)
  with p(1,7) p'(2) show ?thesis by blast
qed

text \<open>The votes of a round as the stored votes have them.\<close>

definition has_votes_of :: "block \<Rightarrow> int \<Rightarrow> block \<Rightarrow> bool" where
  "has_votes_of b round c \<longleftrightarrow> b_height c = b_height b \<and> v_node_id ` set (temp_votes b round) \<subseteq> fst ` set (b_votes c)"

lemma apply_current:
  assumes "apply_block sql net p b = Some (p', rc)"
  shows "current_block p' = current_block p \<or>
    (\<exists>q c. verify_block sql p b = Some (q, SQLITE_OK) \<and> block_from q (b_addr b) = Some c \<and> current_block p' = Some c)"
proof -
  obtain q rc1 where v: "verify_block sql p b = Some (q, rc1)" using assms by (auto simp: apply_block_def bind_eq_Some_conv)
  have q: "current_block q = current_block p" using same_height_verify [OF v] by (simp add: same_height_def)
  show ?thesis
  proof (cases "rc1 = SQLITE_OK")
    case False
    with assms v q show ?thesis by (auto simp: apply_block_def)
  next
    case True
    then obtain c where c: "block_from q (b_addr b) = Some c" "commit_block sql net q c = (p', rc)"
      using assms v by (auto simp: apply_block_def bind_eq_Some_conv)
    with commit_current [of sql net q c] q v True show ?thesis by auto
  qed
qed

lemma find_map_same: "(\<And>x. P (f x) = P x) \<Longrightarrow> List.find P (map f xs) = map_option f (List.find P xs)"
  by (induction xs) auto

lemma block_from_update:
  "(\<And>b. b_addr (f b) = b_addr b) \<Longrightarrow> block_from (update_block p a f) a = map_option f (block_from p a)"
  unfolding block_from_def update_block_def
  by (simp add: find_map_same if_distrib cong: if_cong)
    (cases "List.find (\<lambda>b. b_addr b = a) (new_blocks p)"; auto dest: find_Some_in)

lemma verify_block_from:
  assumes "verify_block sql p b = Some (q, rc)" and "block_from p (b_addr b) = Some d"
  shows "\<exists>bid. block_from q (b_addr b) = Some (d\<lparr>b_id := bid\<rparr>)"
  using assms(1)
proof (cases rule: verify_block_cases)
  case (busy e)
  then have "block_from q (b_addr b) = Some (d\<lparr>b_id := b_id d\<rparr>)"
    using assms(2) by (simp add: outdated_def block_from_def)
  then show ?thesis ..
next
  case (txn e r)
  have "new_blocks r = new_blocks p" using arg_cong [OF execute_block_txns_core [OF txn(2)], of new_blocks] by simp
  then have "block_from q (b_addr b) = Some (d\<lparr>b_id := b_id d\<rparr>)"
    using assms(2) txn(3) by (simp add: verify_block_failed_def outdated_def block_from_def)
  then show ?thesis ..
next
  case (invalid e r rc' e')
  have "new_blocks r = new_blocks p" using arg_cong [OF execute_block_txns_core [OF invalid(2)], of new_blocks] by simp
  then have "block_from q (b_addr b) = Some (d\<lparr>b_id := b_id d\<rparr>)"
    using assms(2) invalid(4) by (simp add: verify_block_failed_def outdated_def block_from_def)
  then show ?thesis ..
next
  case (ok e r rc' e' bid)
  have "new_blocks r = new_blocks p" using arg_cong [OF execute_block_txns_core [OF ok(3)], of new_blocks] by simp
  then have "block_from (r\<lparr>core := e', open_block := Some (b_addr b)\<rparr>) (b_addr b) = Some d"
    using assms(2) by (simp add: block_from_def)
  then show ?thesis unfolding ok(5) by (auto simp: block_from_update)
qed

lemma block_from_distinct: "distinct (addrs p) \<Longrightarrow> b \<in> set (new_blocks p) \<Longrightarrow> block_from p (b_addr b) = Some b"
  unfolding block_from_def addrs_def
  by (induction "new_blocks p" arbitrary: p) (auto simp: find_Some_iff in_set_conv_nth distinct_conv_nth)

lemma convert_has_votes: "has_votes_of b round (convert_block_votes b round)"
  by (simp add: has_votes_of_def convert_block_votes_def image_Un image_image)

lemma commit_winner_current:
  assumes "commit_winner sql net p round b = Some p'" and "b \<in> set (new_blocks p)" and "distinct (addrs p)"
  shows "current_block p' = current_block p \<or> (\<exists>c. current_block p' = Some c \<and> has_votes_of b round c)"
proof (cases "open_block p = Some (b_addr b)")
  case True
  define q where "q = update_block p (b_addr b) (\<lambda>b. convert_block_votes b round)"
  have "block_from q (b_addr b) = Some (convert_block_votes b round)"
    using block_from_distinct [OF assms(3,2)] by (simp add: q_def block_from_update convert_block_votes_def)
  then have "p' = fst (commit_block sql net q (convert_block_votes b round))"
    using assms(1) True unfolding commit_winner_def Let_def q_def [symmetric] by simp
  moreover have "current_block q = current_block p" by (simp add: q_def update_block_def)
  ultimately show ?thesis using commit_current [of sql net q "convert_block_votes b round"] convert_has_votes [of b round] by auto
next
  case False
  define q where "q = (if open_block p \<noteq> None then rollback_block p else p)"
  define r where "r = check_block_transactions net q b"
  define s where "s = update_block (fst r) (b_addr b) (\<lambda>b. convert_block_votes b round)"
  have "same_height p q" by (simp add: q_def)
  also have "same_height q (fst r)" unfolding r_def by (rule same_height_check)
  finally have cur: "current_block (fst r) = current_block p" "current_block s = current_block p"
    by (simp_all add: same_height_def s_def update_block_def)
  show ?thesis
  proof (cases "snd r = SQLITE_OK")
    case False
    with assms(1) \<open>open_block p \<noteq> _\<close> cur(1) show ?thesis
      unfolding commit_winner_def Let_def q_def [symmetric] r_def [symmetric] case_prod_beta by simp
  next
    case True
    have "new_blocks q = new_blocks p" by (simp add: q_def rollback_block_def)
    then have "block_from q (b_addr b) = Some b" using block_from_distinct [OF assms(3,2)] by (simp add: block_from_def)
    moreover have "new_blocks (fst r) = new_blocks (update_block q (b_addr b) (\<lambda>b. b\<lparr>downloading_txns := x\<rparr>))" if
        "fst r = update_block (fst (request_missing_txns net (downloading_txns b) (block_txn_ids b) q True)) (b_addr b) (\<lambda>b. b\<lparr>downloading_txns := x\<rparr>)" for x
      using req_frame_fields(4) [OF req_frame_missing_txns [of q net "downloading_txns b" "block_txn_ids b" True]]
      by (simp add: that update_block_def)
    ultimately obtain x where "block_from (fst r) (b_addr b) = Some (b\<lparr>downloading_txns := x\<rparr>)"
      using block_from_update [of "\<lambda>b. b\<lparr>downloading_txns := _\<rparr>" q "b_addr b"]
      by (auto simp: r_def check_block_transactions_def Let_def case_prod_beta block_from_def)
    then have d: "block_from s (b_addr b) = Some (convert_block_votes (b\<lparr>downloading_txns := x\<rparr>) round)" (is "_ = Some ?d")
      by (simp add: s_def block_from_update convert_block_votes_def)
    obtain rc where a: "apply_block sql net s ?d = Some (p', rc)"
      using assms(1) \<open>open_block p \<noteq> _\<close> True d
      unfolding commit_winner_def Let_def q_def [symmetric] r_def [symmetric] case_prod_beta s_def [symmetric] by auto
    have da: "b_addr ?d = b_addr b" by (simp add: convert_block_votes_def)
    show ?thesis
      using apply_current [OF a] cur(2)
    proof (elim disjE exE conjE)
      fix u c
      assume "verify_block sql s ?d = Some (u, SQLITE_OK)" "block_from u (b_addr ?d) = Some c" "current_block p' = Some c"
      moreover from verify_block_from [OF this(1)] d da obtain bid where "block_from u (b_addr ?d) = Some (?d\<lparr>b_id := bid\<rparr>)" by auto
      moreover have "has_votes_of b round (?d\<lparr>b_id := bid\<rparr>)"
        by (simp add: has_votes_of_def convert_block_votes_def image_Un image_image)
      ultimately show ?thesis by auto
    qed simp
  qed
qed

lemma find_winner_current:
  assumes "find_winner sql net p round = Some (p', go)" and "distinct (addrs p)"
    and "\<forall>b\<in>set (new_blocks p). votes_ok b"
  shows "current_block p' = current_block p \<or> (\<exists>c. current_block p' = Some c \<and> b_height c = current_height p + 1
    \<and> majority (authorized_voters p) \<le> card (fst ` set (b_votes c)))"
proof (cases "List.find (has_majority p round) (new_blocks p)")
  case None
  with assms(1) show ?thesis by (auto simp: find_winner_def split: if_splits)
next
  case (Some b)
  then have b: "b \<in> set (new_blocks p)" "b_height b = current_height p + 1"
      "int (majority (authorized_voters p)) \<le> num_votes b round"
    using find_Some_in [OF Some] by (auto simp: has_majority_def)
  have "majority (authorized_voters p) \<le> card (v_node_id ` set (temp_votes b round))"
    using b(1,3) assms(3) distinct_card [of "map v_node_id (temp_votes b round)"] by (auto simp: votes_ok_def)
  moreover have "card (v_node_id ` set (temp_votes b round)) \<le> card (fst ` set (b_votes c))" if "has_votes_of b round c" for c
    using that by (intro card_mono) (auto simp: has_votes_of_def)
  ultimately show ?thesis
    using assms(1) Some commit_winner_current [of sql net p round b p', OF _ b(1) assms(2)] b(2)
    by (fastforce simp: find_winner_def has_votes_of_def split: if_splits)
qed

subsection \<open>Properties\<close>

text \<open>C3: In every state that the plugin can reach, whatever messages and failures led to it, the number
  of votes of a block in a round is the number of different nodes whose votes for it are kept.\<close>
theorem votes_counted_once:
  assumes "reachable p" and "b \<in> set (new_blocks p)"
  shows "num_votes b round = int (card (v_node_id ` set (temp_votes b round)))"
  using votes.inv_reachable [OF assms(1)] assms(2) distinct_card [of "map v_node_id (temp_votes b round)"]
  by (simp add: votes_ok_def)

lemma votes_counted_once_witness:
  "\<exists>(p :: nat plugin) b. reachable p \<and> new_blocks p = [b] \<and> card (v_node_id ` set (temp_votes b 0)) = 1"
proof -
  obtain p :: "nat plugin" and b where p: "reachable p" "new_blocks p = [b]" "num_votes b 0 = 1"
    using example_block_arrives by blast
  from votes_counted_once [OF p(1), of b 0] p show ?thesis by auto
qed



text \<open>C2: When the count of the votes makes the node commit a block, from any state it can reach, the new
  current block has the next height and carries the votes of a majority of different nodes.\<close>
theorem committed_block_has_majority:
  assumes "reachable p" and "check_for_winner_block sql net p round = Some p'" and "current_block p' \<noteq> current_block p"
  shows "\<exists>b. current_block p' = Some b \<and> b_height b = current_height p + 1
    \<and> majority (authorized_voters p) \<le> card (fst ` set (b_votes b))"
proof -
  let ?ok = "\<lambda>p. distinct (addrs p) \<and> (\<forall>b\<in>set (new_blocks p). votes_ok b)"
  have winner: "current_block q' = current_block q \<or> (\<exists>c. current_block q' = Some c \<and> b_height c = current_height q + 1
      \<and> majority (authorized_voters q) \<le> card (fst ` set (b_votes c)))"
    if "find_winner sql net q round = Some (q', go)" "?ok q" for q q' go round
    using find_winner_current that by blast
  have idle: "go \<Longrightarrow> q' = q" if "find_winner sql net q round = Some (q', go)" for q q' go round
    using that by (auto simp: find_winner_def split: if_splits option.splits)
  have ok: "?ok p" using votes.inv_reachable [OF assms(1)] addresses.inv_reachable [OF assms(1)] by blast
  obtain q go where q: "find_winner sql net p round = Some (q, go)"
      "(if go then choose_block_to_vote sql net q 1 else Some q) = Some p'"
    using assms(2) by (subst (asm) check_for_winner_block.simps) (auto simp: bind_eq_Some_conv)
  show ?thesis
  proof (cases go)
    case False
    with q winner [OF q(1) ok] assms(3) show ?thesis by auto
  next
    case True
    then have "q = p" using idle [OF q(1)] by simp
    then obtain r go2 where r: "vote_on_best_block sql net p 1 = Some (r, go2)"
        "(if go2 then check_for_winner_block sql net r 1 else Some r) = Some p'"
      using q(2) True by (subst (asm) choose_block_to_vote.simps) (auto simp: bind_eq_Some_conv)
    note h = same_height_best [OF r(1)]
    have okr: "?ok r" using votes.inv_best_vote [OF r(1)] addresses.inv_best_vote [OF r(1)]
        votes.inv_reachable [OF assms(1)] addresses.inv_reachable [OF assms(1)] by blast
    have cur: "current_block r = current_block p" using h by (simp add: same_height_def)
    show ?thesis
    proof (cases go2)
      case False
      with r(2) cur assms(3) show ?thesis by simp
    next
      case True
      then obtain s go3 where s: "find_winner sql net r 1 = Some (s, go3)"
          "(if go3 then choose_block_to_vote sql net s 1 else Some s) = Some p'"
        using r(2) by (subst (asm) check_for_winner_block.simps) (auto simp: bind_eq_Some_conv)
      have "\<not> go3" using s(1) by (auto simp: find_winner_def split: if_splits option.splits)
      with s winner [OF s(1) okr] cur assms(3) same_height_voters [OF h] show ?thesis by auto
    qed
  qed
qed

lemma committed_block_has_majority_witness:
  "\<exists>(p :: nat plugin) p' b. reachable p \<and> check_for_winner_block example_sql example_net p 0 = Some p'
     \<and> current_block p = None \<and> current_block p' = Some b \<and> b_height b = 1 \<and> b_votes b \<noteq> []"
proof -
  obtain p p' :: "nat plugin" where p: "reachable p" "check_for_winner_block example_sql example_net p 0 = Some p'"
      "current_block p = None" "current_block p' \<noteq> None"
    using example_winner_commits by blast
  with committed_block_has_majority [OF p(1,2)] obtain b where
      "current_block p' = Some b" "b_height b = 1" "majority (authorized_voters p) \<le> card (fst ` set (b_votes b))"
    by (auto simp: current_height_def)
  moreover from this(3) have "b_votes b \<noteq> []" by (auto simp: majority_def)
  ultimately show ?thesis using p by blast
qed

text \<open>C5: A node that has just started counts on no other node: until the state update counts the
  authorized nodes, one vote is a majority, whatever the size of the network.\<close>
theorem started_node_accepts_one_vote:
  assumes "plugin_init free_port e disc bind_uri interval = Some p" and "node_thread sql net p = Some p'"
    and "b_height b = current_height p' + 1" and "1 \<le> num_votes b round"
  shows "has_majority p' round b"
proof -
  have p: "total_authorized_nodes p = 0" "active_authorized_nodes p = 0"
    using assms(1) by (auto simp: plugin_init_def Let_def split: option.split_asm)
  have c: "total_authorized_nodes (connect_to_peer net q c) = total_authorized_nodes q"
      "active_authorized_nodes (connect_to_peer net q c) = active_authorized_nodes q" for q :: "'a plugin" and c
    by (simp_all add: connect_to_peer_def connect_to_peer_address_def update_peer_def disconnect_peer_def Let_def split: option.split)
  have one: "total_authorized_nodes q' = total_authorized_nodes q \<and> active_authorized_nodes q' = active_authorized_nodes q"
    if "check_peer_connection net q ip prt = Some (q', started)" for q q' :: "'a plugin" and ip prt started
    using that by (auto simp: check_peer_connection_def Let_def case_prod_beta c new_node_def update_peer_def
        split: if_splits option.splits)
  have "total_authorized_nodes q' = total_authorized_nodes q \<and> active_authorized_nodes q' = active_authorized_nodes q"
    if "check_peers net l q = Some q'" for q q' :: "'a plugin" and l
    using that
  proof (induction l arbitrary: q)
    case (Cons a l)
    then obtain r where "check_peer_connection net q (fst a) (snd a) = Some r" "check_peers net l (fst r) = Some q'"
      by (auto split: option.splits)
    with Cons.IH one show ?case by (cases r) fastforce
  qed simp
  then have q: "total_authorized_nodes q = 0 \<and> active_authorized_nodes q = 0" if "start_node_discovery net p = Some q" for q
    using that p unfolding start_node_discovery_def by fastforce
  obtain q rc where s: "start_node_discovery net p = Some q"
      "load_current_state sql (timer_start q After_Connections_Timer 1500) = Some (p', rc)"
    using assms(2) by (auto simp: node_thread_def split: option.split_asm)
  have "total_authorized_nodes p' = 0 \<and> active_authorized_nodes p' = 0"
  proof -
    obtain e' res where l: "aergolite_load_current_state sql (core q) = Some (e', res)"
      using s(2) by (auto simp: load_current_state_def timer_start_def bind_eq_Some_conv)
    show ?thesis using s(2) l q [OF s(1)] by (cases res) (auto simp: load_current_state_def timer_start_def)
  qed
  with assms(3,4) show ?thesis by (simp add: has_majority_def authorized_voters_def majority_def)
qed

lemma started_node_accepts_one_vote_witness:
  "node_thread example_sql example_net example_init = Some example_start
   \<and> has_majority example_start 0 (fst (count_block_vote (new_block example_start 1 [] null_header null_body [] []) 0 2 []))"
proof
  show "node_thread example_sql example_net example_init = Some example_start" by (rule example_started)
  show "has_majority example_start 0 (fst (count_block_vote (new_block example_start 1 [] null_header null_body [] []) 0 2 []))"
    by (rule started_node_accepts_one_vote [OF example_plugin_init example_started])
      (simp_all add: count_block_vote_def add_block_vote_def Let_def new_block_def current_height_def example_start_fields)
qed

end
