(* ===== verification/Stream_Ciphers.thy ===== *)
theory Stream_Ciphers
  imports Prelude
begin

section \<open>The stream ciphers of the page encryption\<close>

text \<open>
  \<^verbatim>\<open>chacha.c\<close>: ChaCha with another constant and a number of rounds given by the user. \<^verbatim>\<open>xrc4.c\<close>: a
  variant of RC4 whose permutation also depends on an initialization vector and a counter. Both encrypt
  and decrypt with the same function. Buffers are lists of bytes; a loop over a buffer is recursion on
  the list.
\<close>

subsection \<open>ChaCha\<close>

definition U8TO32_LITTLE :: "bytes \<Rightarrow> u32" where
  "U8TO32_LITTLE p = ucast (p ! 0) OR push_bit 8 (ucast (p ! 1)) OR push_bit 16 (ucast (p ! 2)) OR push_bit 24 (ucast (p ! 3))"

definition U32TO8_LITTLE :: "u32 \<Rightarrow> bytes" where
  "U32TO8_LITTLE v = [ucast v, ucast (drop_bit 8 v), ucast (drop_bit 16 v), ucast (drop_bit 24 v)]"

definition ROTL32 :: "u32 \<Rightarrow> nat \<Rightarrow> u32" where
  "ROTL32 v n = push_bit n v OR drop_bit (32 - n) v"

text \<open>One line of the macro.\<close>

definition quarter_line :: "nat \<Rightarrow> nat \<Rightarrow> nat \<Rightarrow> nat \<Rightarrow> u32 list \<Rightarrow> u32 list" where
  "quarter_line a b d n x = (let x = x[a := x ! a + x ! b] in x[d := ROTL32 (x ! d XOR x ! a) n])"

definition QUARTERROUND :: "nat \<Rightarrow> nat \<Rightarrow> nat \<Rightarrow> nat \<Rightarrow> u32 list \<Rightarrow> u32 list" where
  "QUARTERROUND a b c d x =
     quarter_line c d b 7 (quarter_line a b d 8 (quarter_line c d b 12 (quarter_line a b d 16 x)))"

definition double_round :: "u32 list \<Rightarrow> u32 list" where
  "double_round =
     QUARTERROUND 3 4 9 14 \<circ> QUARTERROUND 2 7 8 13 \<circ> QUARTERROUND 1 6 11 12 \<circ> QUARTERROUND 0 5 10 15
     \<circ> QUARTERROUND 3 7 11 15 \<circ> QUARTERROUND 2 6 10 14 \<circ> QUARTERROUND 1 5 9 13 \<circ> QUARTERROUND 0 4 8 12"

text \<open>The loop counts down by two from the number of rounds.\<close>

function rounds_loop :: "int \<Rightarrow> u32 list \<Rightarrow> u32 list" where
  "rounds_loop i x = (if i > 0 then rounds_loop (i - 2) (double_round x) else x)"
  by pat_completeness auto
termination by (relation "measure (\<lambda>(i, x). nat i)") auto

declare rounds_loop.simps [simp del]

definition ChaChaCore :: "u32 list \<Rightarrow> int \<Rightarrow> bytes" where
  "ChaChaCore input num_rounds = concat (map U32TO8_LITTLE (map2 (+) (rounds_loop num_rounds input) input))"

definition sigma :: bytes where
  "sigma = map (of_nat \<circ> of_char) ''A326oL1t3_r0CK5!''"

text \<open>The vector has 0, 4, 8 or 12 bytes.\<close>

definition chacha_input :: "bytes \<Rightarrow> bytes \<Rightarrow> u32 \<Rightarrow> u32 list" where
  "chacha_input key iv counter =
     map (\<lambda>i. U8TO32_LITTLE (drop (4 * i) sigma)) [0..<4] @ map (\<lambda>i. U8TO32_LITTLE (drop (4 * i) key)) [0..<8]
     @ [counter, if length iv > 0 then U8TO32_LITTLE iv else 0,
        if length iv > 4 then U8TO32_LITTLE (drop 4 iv) else 0,
        if length iv > 8 then U8TO32_LITTLE (drop 8 iv) else 0]"

text \<open>One block at a time; the last one may be shorter.\<close>

function chacha_blocks :: "u32 list \<Rightarrow> int \<Rightarrow> bytes \<Rightarrow> bytes" where
  "chacha_blocks input rounds xs =
     (if length xs \<ge> 64
      then map2 (XOR) (take 64 xs) (ChaChaCore input rounds)
           @ chacha_blocks (input[12 := input ! 12 + 1]) rounds (drop 64 xs)
      else if xs \<noteq> [] then map2 (XOR) xs (ChaChaCore input rounds)
      else [])"
  by pat_completeness auto
termination by (relation "measure (\<lambda>(input, rounds, xs). length xs)") auto

declare chacha_blocks.simps [simp del]

definition chacha_encrypt :: "bytes \<Rightarrow> bytes \<Rightarrow> bytes \<Rightarrow> u32 \<Rightarrow> int \<Rightarrow> bytes" where
  "chacha_encrypt xs key iv counter rounds = chacha_blocks (chacha_input key iv counter) rounds xs"

abbreviation chacha_decrypt where "chacha_decrypt \<equiv> chacha_encrypt"

subsection \<open>XRC4\<close>

text \<open>The numbers are between 0 and 255; the box is a list of 256 bytes.\<close>

definition xrc4_coprime :: "u8 \<Rightarrow> u32 \<Rightarrow> u32" where
  "xrc4_coprime x last_used =
     (let coprime = ((if x AND 1 \<noteq> 0 then ucast x else ucast x + 57) XOR 96) AND 255 in
      if coprime = last_used then (coprime + 2) AND 255 else coprime)"

definition swap :: "nat \<Rightarrow> nat \<Rightarrow> 'a list \<Rightarrow> 'a list" where
  "swap i j s = s[i := s ! j, j := s ! i]"

fun sbox_fill :: "nat \<Rightarrow> u32 \<Rightarrow> u32 \<Rightarrow> bytes \<Rightarrow> bytes" where
  "sbox_fill 0 increment i s = s"
| "sbox_fill (Suc k) increment i s =
     (let i = (i + increment) AND 255 in sbox_fill k increment i (s[unat i := of_nat (255 - k)]))"

fun sbox_mix :: "nat \<Rightarrow> bytes \<Rightarrow> u32 \<Rightarrow> u32 \<Rightarrow> u32 \<Rightarrow> bytes \<Rightarrow> bytes" where
  "sbox_mix 0 key increment i j s = s"
| "sbox_mix (Suc k) key increment i j s =
     (let i = (i + increment) AND 255;
          j = (j + ucast (key ! (unat i mod length key)) + ucast (s ! unat i)) AND 255
      in sbox_mix k key increment i j (swap (unat i) (unat j) s))"

text \<open>\<open>garbage\<close> is the box before, which the first loop overwrites.\<close>

definition xrc4_init :: "bytes \<Rightarrow> bytes \<Rightarrow> bytes" where
  "xrc4_init garbage key =
     (let increment = xrc4_coprime (key ! 0) 0;
          sbox = sbox_fill 256 increment 0 garbage;
          increment = xrc4_coprime (key ! (1 mod length key)) increment
      in sbox_mix (3 * 256) key increment 0 0 sbox)"

text \<open>Without a vector the code uses the box that it is changing.\<close>

fun iv_mix :: "nat \<Rightarrow> bytes option \<Rightarrow> u32 \<Rightarrow> u32 \<Rightarrow> u32 \<Rightarrow> bytes \<Rightarrow> bytes" where
  "iv_mix 0 iv increment i j s = s"
| "iv_mix (Suc k) iv increment i j s =
     (let i = (i + increment) AND 255;
          v = (case iv of None \<Rightarrow> s | Some v \<Rightarrow> v);
          j = (j + ucast (v ! (unat j mod length v)) + ucast (s ! unat i)) AND 255
      in iv_mix k iv increment i j (swap (unat i) (unat j) s))"

fun keystream :: "nat \<Rightarrow> u32 \<Rightarrow> u32 \<Rightarrow> u32 \<Rightarrow> bytes \<Rightarrow> bytes" where
  "keystream 0 increment i j s = []"
| "keystream (Suc k) increment i j s =
     (let i = (i + increment) AND 255;
          j = (j + ucast (s ! unat i)) AND 255;
          s = swap (unat i) (unat j) s
      in s ! unat ((ucast (s ! unat i) + ucast (s ! unat j) :: u32) AND 255) # keystream k increment i j s)"

definition xrc4_crypt :: "bytes \<Rightarrow> bytes \<Rightarrow> bytes \<Rightarrow> u32 \<Rightarrow> bytes" where
  "xrc4_crypt xs sbox iv counter =
     (let ivo = (if iv = [] then None else Some iv);
          i = drop_bit 16 (counter AND 0xff0000);
          j = drop_bit 24 (counter AND 0xff000000);
          increment = xrc4_coprime ((case ivo of None \<Rightarrow> sbox | Some v \<Rightarrow> v) ! 0) 0;
          s = iv_mix 256 ivo increment i j sbox;
          i = counter AND 0xff;
          j = drop_bit 8 (counter AND 0xff00);
          increment = xrc4_coprime (ucast i) increment
      in map2 (XOR) xs (keystream (length xs) increment i j s))"

subsection \<open>The keystream\<close>

lemma map2_xor_twice: "length ks \<ge> length xs \<Longrightarrow> map2 (XOR) (map2 (XOR) xs ks) ks = xs" for xs ks :: bytes
proof (induction xs arbitrary: ks)
  case (Cons x xs)
  then show ?case by (cases ks) (auto simp: word_xor_involutive)
qed simp

lemma length_QUARTERROUND [simp]: "length (QUARTERROUND a b c d x) = length x"
  by (simp add: QUARTERROUND_def quarter_line_def Let_def)

lemma length_double_round [simp]: "length (double_round x) = length x"
  by (simp add: double_round_def)

lemma length_rounds_loop [simp]: "length (rounds_loop i x) = length x"
  by (induction i x rule: rounds_loop.induct) (subst rounds_loop.simps, simp)

lemma length_ChaChaCore: "length (ChaChaCore input rounds) = 4 * length input"
proof -
  have "length (concat (map U32TO8_LITTLE xs)) = 4 * length xs" for xs
    by (induction xs) (auto simp: U32TO8_LITTLE_def)
  then have "length (concat (map U32TO8_LITTLE (map2 (+) (rounds_loop rounds input) input))) = 4 * length input"
    by (simp only:) simp
  then show ?thesis by (simp only: ChaChaCore_def)
qed

lemma length_chacha_blocks: "length input = 16 \<Longrightarrow> length (chacha_blocks input rounds xs) = length xs"
proof (induction input rounds xs rule: chacha_blocks.induct)
  case (1 input rounds xs)
  then show ?case by (subst chacha_blocks.simps) (auto simp: length_ChaChaCore)
qed

lemma chacha_blocks_twice:
  "length input = 16 \<Longrightarrow> chacha_blocks input rounds (chacha_blocks input rounds xs) = xs"
proof (induction input rounds xs rule: chacha_blocks.induct)
  case (1 input rounds xs)
  have k: "length (ChaChaCore input rounds) = 64" using 1(2) by (simp add: length_ChaChaCore)
  show ?case
  proof (cases "length xs \<ge> 64")
    case True
    let ?b = "map2 (XOR) (take 64 xs) (ChaChaCore input rounds)"
    let ?r = "chacha_blocks (input[12 := input ! 12 + 1]) rounds (drop 64 xs)"
    have e: "chacha_blocks input rounds xs = ?b @ ?r" by (subst chacha_blocks.simps) (simp add: True)
    have lb: "length ?b = 64" using True k by simp
    have "chacha_blocks input rounds (?b @ ?r)
        = map2 (XOR) ?b (ChaChaCore input rounds) @ chacha_blocks (input[12 := input ! 12 + 1]) rounds ?r"
      using lb by (subst chacha_blocks.simps) simp
    also have "\<dots> = take 64 xs @ drop 64 xs"
      using map2_xor_twice [of "take 64 xs" "ChaChaCore input rounds"] 1(1) [OF True] 1(2) k by simp
    finally show ?thesis using e by simp
  next
    case False
    then have e: "chacha_blocks input rounds xs = map2 (XOR) xs (ChaChaCore input rounds)"
      by (subst chacha_blocks.simps) simp
    have "chacha_blocks input rounds (map2 (XOR) xs (ChaChaCore input rounds))
        = map2 (XOR) (map2 (XOR) xs (ChaChaCore input rounds)) (ChaChaCore input rounds)"
      using False k by (subst chacha_blocks.simps) simp
    with e False k show ?thesis by (simp add: map2_xor_twice)
  qed
qed

lemma length_chacha_input [simp]: "length (chacha_input key iv counter) = 16"
  by (simp add: chacha_input_def)

lemma chacha_twice: "chacha_decrypt (chacha_encrypt xs key iv counter rounds) key iv counter rounds = xs"
  by (simp add: chacha_encrypt_def chacha_blocks_twice)

lemma length_chacha [simp]: "length (chacha_encrypt xs key iv counter rounds) = length xs"
  by (simp add: chacha_encrypt_def length_chacha_blocks)

text \<open>The byte at a position needs one block only.\<close>

lemma chacha_blocks_nth:
  "length input = 16 \<Longrightarrow> i < length xs \<Longrightarrow>
     chacha_blocks input rounds xs ! i
       = xs ! i XOR ChaChaCore (input[12 := input ! 12 + of_nat (i div 64)]) rounds ! (i mod 64)"
proof (induction input rounds xs arbitrary: i rule: chacha_blocks.induct)
  case (1 input rounds xs)
  have k: "length (ChaChaCore input rounds) = 64" using 1(2) by (simp add: length_ChaChaCore)
  show ?case
  proof (cases "length xs \<ge> 64 \<and> 64 \<le> i")
    case True
    let ?in = "input[12 := input ! 12 + 1]"
    have "chacha_blocks input rounds xs ! i = chacha_blocks ?in rounds (drop 64 xs) ! (i - 64)"
      using True k by (subst chacha_blocks.simps) (simp add: nth_append)
    also have "\<dots> = drop 64 xs ! (i - 64) XOR ChaChaCore (?in[12 := ?in ! 12 + of_nat ((i - 64) div 64)]) rounds ! ((i - 64) mod 64)"
      using True 1 by (intro 1(1)) auto
    also have "?in[12 := ?in ! 12 + of_nat ((i - 64) div 64)] = input[12 := input ! 12 + of_nat (i div 64)]"
      using True 1(2) le_div_geq [of 64 i] by (simp add: add.assoc)
    finally show ?thesis using True by (simp add: mod_if [of i])
  next
    case False
    with 1(3) have "chacha_blocks input rounds xs ! i = xs ! i XOR ChaChaCore input rounds ! i" "i < 64"
      using k by (subst chacha_blocks.simps, auto simp: nth_append)
    then show ?thesis by simp
  qed
qed

lemma chacha_encrypt_nth:
  assumes "i < length xs"
  shows "chacha_encrypt xs key iv counter rounds ! i
       = xs ! i XOR ChaChaCore (chacha_input key iv (counter + of_nat (i div 64))) rounds ! (i mod 64)"
proof -
  have "(chacha_input key iv counter)[12 := chacha_input key iv counter ! 12 + w] = chacha_input key iv (counter + w)" for w
    by (simp add: chacha_input_def upt_rec)
  with assms show ?thesis by (simp add: chacha_encrypt_def chacha_blocks_nth)
qed

text \<open>Without rounds the block is twice the input, and the key can be read from it.\<close>

lemma rounds_loop_none: "i \<le> 0 \<Longrightarrow> rounds_loop i x = x"
  by (subst rounds_loop.simps) simp

lemma no_rounds_block:
  "rounds \<le> 0 \<Longrightarrow> ChaChaCore input rounds = concat (map (\<lambda>v. U32TO8_LITTLE (v + v)) input)"
proof -
  have "map2 (+) x x = map (\<lambda>v. v + v) x" for x :: "u32 list" by (induction x) auto
  then show "rounds \<le> 0 \<Longrightarrow> ?thesis" by (simp add: ChaChaCore_def rounds_loop_none comp_def)
qed

subsection \<open>The box is a permutation\<close>

lemma and_255: "x AND 255 = take_bit 8 x" for x :: "'a::len word"
  by (simp add: take_bit_eq_mask mask_eq_exp_minus_1)

lemma unat_and_255: "unat (x AND 255) = unat x mod 256" for x :: u32
  by (simp only: and_255 unsigned_take_bit_eq) (simp add: take_bit_eq_mod)

lemma and_255_less [simp]: "unat (x AND 255) < 256" for x :: u32
  by (simp add: unat_and_255)

definition is_box :: "bytes \<Rightarrow> bool" where
  "is_box s \<longleftrightarrow> length s = 256 \<and> distinct s"

lemma is_box_swap: "is_box s \<Longrightarrow> i < 256 \<Longrightarrow> j < 256 \<Longrightarrow> is_box (swap i j s)"
  by (simp add: is_box_def swap_def distinct_swap)

lemma is_box_mix: "is_box s \<Longrightarrow> is_box (sbox_mix k key increment i j s)"
proof (induction k arbitrary: i j s)
  case (Suc k)
  then show ?case by (simp add: Let_def is_box_swap)
qed simp

lemma is_box_iv_mix: "is_box s \<Longrightarrow> is_box (iv_mix k iv increment i j s)"
proof (induction k arbitrary: i j s)
  case (Suc k)
  then show ?case by (simp add: Let_def is_box_swap)
qed simp

lemma odd_unat: "odd (unat x) \<longleftrightarrow> odd x" for x :: "'a::len word"
proof -
  have "bit (unat x) 0 = bit x 0" by (simp add: bit_unsigned_iff)
  then show ?thesis by (simp only: bit_0)
qed

lemma odd_ucast: "odd (ucast x :: u32) \<longleftrightarrow> odd x" for x :: u8
proof -
  have "bit (ucast x :: u32) 0 = bit x 0" by (simp add: bit_unsigned_iff)
  then show ?thesis by (simp only: bit_0)
qed

lemma xrc4_coprime_odd: "odd (unat (xrc4_coprime x last_used))"
proof -
  have "x AND 1 \<noteq> 0 \<longleftrightarrow> odd x" by (simp add: and_one_eq odd_iff_mod_2_eq_one)
  then have "odd ((if x AND 1 \<noteq> 0 then ucast x else ucast x + 57) :: u32)" by (auto simp: odd_ucast)
  then obtain c :: u32 where c: "(if x AND 1 \<noteq> 0 then ucast x else ucast x + 57) = c" "odd c" by blast
  have "odd ((c XOR 96) AND 255)" using c(2) by (simp only: even_xor_iff even_and_iff) simp
  moreover from this have "odd ((((c XOR 96) AND 255) + 2) AND 255)" by (simp only: even_and_iff even_add) simp
  ultimately show ?thesis unfolding odd_unat xrc4_coprime_def Let_def c(1) by (simp only: split: if_split) blast
qed

lemma xrc4_coprime_less: "unat (xrc4_coprime x last_used) < 256"
  by (simp add: xrc4_coprime_def Let_def)

text \<open>The place of the \<open>m\<close>-th value.\<close>

definition place :: "u32 \<Rightarrow> nat \<Rightarrow> nat" where
  "place increment m = m * unat increment mod 256"

lemma unat_add_and_255: "unat (i + inc AND 255) = (unat i + unat inc) mod 256" for i inc :: u32
proof -
  have "unat (i + inc) = (unat i + unat inc) mod 2 ^ 32" by (simp add: unat_word_ariths)
  also have "\<dots> mod 256 = (unat i + unat inc) mod 256" by (rule mod_mod_cancel) simp
  finally show ?thesis by (simp add: unat_and_255)
qed

lemma place_inj_le:
  assumes "odd (unat inc)" and "m \<le> n" and "n < 256" and "place inc (Suc m) = place inc (Suc n)"
  shows "m = n"
proof -
  have "Suc n * unat inc mod 256 = Suc m * unat inc mod 256" using assms(4) by (simp only: place_def)
  then have "256 dvd Suc n * unat inc - Suc m * unat inc"
    using assms(2) by (subst (asm) mod_eq_dvd_iff_nat) simp_all
  also have "Suc n * unat inc - Suc m * unat inc = (n - m) * unat inc" by (simp only: diff_mult_distrib [symmetric]) simp
  finally have "256 dvd (n - m) * unat inc" .
  moreover have "coprime 256 (unat inc)" using assms(1) coprime_power_left_iff [of 2 8 "unat inc"] by simp
  ultimately have "256 dvd n - m" by (simp add: coprime_dvd_mult_left_iff)
  with assms(2,3) show ?thesis using dvd_imp_le [of 256 "n - m"] by linarith
qed

lemma place_inj:
  assumes "odd (unat inc)" and "m < 256" and "n < 256" and "place inc (Suc m) = place inc (Suc n)"
  shows "m = n"
  using place_inj_le [OF assms(1), of m n] place_inj_le [OF assms(1), of n m] assms(2-4) by linarith

lemma sbox_fill_places:
  assumes "odd (unat inc)" and "k \<le> 256" and "length s = 256" and "unat i = place inc (256 - k)"
    and "\<forall>m < 256 - k. s ! place inc (Suc m) = of_nat m"
  shows "length (sbox_fill k inc i s) = 256 \<and> (\<forall>m < 256. sbox_fill k inc i s ! place inc (Suc m) = of_nat m)"
  using assms(2-)
proof (induction k arbitrary: i s)
  case (Suc k)
  let ?i = "i + inc AND 255"
  have i: "unat ?i = place inc (Suc (255 - k))"
    using Suc.prems(3) by (simp add: unat_add_and_255 place_def mod_simps add.commute)
  have "length (sbox_fill k inc ?i (s[unat ?i := of_nat (255 - k)])) = 256
      \<and> (\<forall>m < 256. sbox_fill k inc ?i (s[unat ?i := of_nat (255 - k)]) ! place inc (Suc m) = of_nat m)"
  proof (rule Suc.IH)
    show "unat ?i = place inc (256 - k)" using i Suc.prems(1) by (simp add: Suc_diff_Suc [symmetric])
    show "\<forall>m < 256 - k. s[unat ?i := of_nat (255 - k)] ! place inc (Suc m) = of_nat m"
    proof (intro allI impI)
      fix m assume m: "m < 256 - k"
      show "s[unat ?i := of_nat (255 - k)] ! place inc (Suc m) = of_nat m"
      proof (cases "m = 255 - k")
        case True
        then show ?thesis using Suc.prems(2) by (simp add: i place_def)
      next
        case False
        have "m < 256" "255 - k < 256" using m by simp_all
        with False place_inj [OF assms(1)] have "place inc (Suc m) \<noteq> unat ?i" unfolding i by metis
        moreover have "m < 256 - Suc k" using m False by simp
        ultimately show ?thesis using Suc.prems(4) by simp
      qed
    qed
  qed (use Suc.prems in simp_all)
  then show ?case by (simp add: Let_def)
qed simp

lemma is_box_fill:
  assumes "odd (unat inc)" and "length s = 256"
  shows "is_box (sbox_fill 256 inc 0 s)"
proof -
  let ?r = "sbox_fill 256 inc 0 s"
  have r: "length ?r = 256" "\<And>m. m < 256 \<Longrightarrow> ?r ! place inc (Suc m) = of_nat m"
    using sbox_fill_places [OF assms(1), of 256 s 0] assms(2) by (auto simp: place_def)
  have "of_nat ` {0..<256} \<subseteq> set ?r"
  proof
    fix x :: u8 assume "x \<in> of_nat ` {0..<256}"
    then obtain m where m: "m < 256" "x = of_nat m" by auto
    have "place inc (Suc m) < 256" by (simp add: place_def)
    with r m show "x \<in> set ?r" by (metis nth_mem)
  qed
  moreover have "inj_on (of_nat :: nat \<Rightarrow> u8) {0..<256}"
  proof (rule inj_onI)
    fix a b :: nat assume ab: "a \<in> {0..<256}" "b \<in> {0..<256}" "of_nat a = (of_nat b :: u8)"
    have "a = unat (of_nat a :: u8)" using ab(1) by (simp add: unsigned_of_nat take_bit_nat_eq_self)
    also have "\<dots> = unat (of_nat b :: u8)" unfolding ab(3) ..
    also have "\<dots> = b" using ab(2) by (simp add: unsigned_of_nat take_bit_nat_eq_self)
    finally show "a = b" .
  qed
  ultimately have "256 \<le> card (set ?r)" using card_mono [of "set ?r" "of_nat ` {0..<256}"] card_image [of "of_nat :: nat \<Rightarrow> u8" "{0..<256}"]
    by simp
  with card_length [of ?r] r(1) show ?thesis by (simp add: is_box_def card_distinct)
qed

lemma is_box_init: "length garbage = 256 \<Longrightarrow> is_box (xrc4_init garbage key)"
  unfolding xrc4_init_def Let_def by (intro is_box_mix is_box_fill xrc4_coprime_odd)

lemma length_keystream [simp]: "length (keystream n increment i j s) = n"
  by (induction n arbitrary: i j s) (simp_all add: Let_def)

lemma xrc4_twice: "xrc4_crypt (xrc4_crypt xs sbox iv counter) sbox iv counter = xs"
  by (simp add: xrc4_crypt_def Let_def map2_xor_twice)

lemma length_xrc4 [simp]: "length (xrc4_crypt xs sbox iv counter) = length xs"
  by (simp add: xrc4_crypt_def Let_def)

end
