(* ===== verification/Codec.thy ===== *)
theory Codec
  imports Stream_Ciphers Special_Commands
begin

section \<open>Encryption of pages and messages\<close>

text \<open>
  \<^verbatim>\<open>codec.c\<close> in the build of the makefile (neither \<^verbatim>\<open>CODEC_ENCRYPT_DB_HEADER\<close> nor a custom header): the
  choice of the cipher, the keys of a pager, encryption and decryption of pages in the modes of the
  pager, the change of the key, and the encryption of messages. Allocation succeeds. The random vector is an argument; the pager
  of SQLite is the record of the fields that the code reads and writes. A read or write outside a buffer, or
  through a null pointer, is \<^term>\<open>None\<close>.
\<close>

abbreviation CIPHER_XRC4 :: int where "CIPHER_XRC4 \<equiv> 1"
abbreviation CIPHER_CHACHA :: int where "CIPHER_CHACHA \<equiv> 2"
abbreviation (input) SQLITE_HEADER_SIZE :: nat where "SQLITE_HEADER_SIZE \<equiv> 100"
abbreviation (input) IVLEN :: nat where "IVLEN \<equiv> 8"
abbreviation (input) MSGIVLEN :: nat where "MSGIVLEN \<equiv> 4"

record crypt_key =
  sbox :: bytes
  key_bytes :: bytes

record crypt_block =
  dwPageSize :: nat
  block_cipher :: int
  block_rounds :: int
  hReadKey :: "crypt_key option"
  hWriteKey :: "crypt_key option"

record pager =
  pCodec :: "crypt_block option"
  iCipher :: int
  iRounds :: int
  nReserve :: nat
  page_bytes :: nat

subsection \<open>Choice of the cipher\<close>

definition is_xdigit :: "char \<Rightarrow> bool" where
  "is_xdigit c \<longleftrightarrow> is_digit c \<or> to_lower c \<in> set ''abcdef''"

definition hex_value :: "string \<Rightarrow> nat" where
  "hex_value s =
     foldl (\<lambda>a c. a * 16 + (if is_digit c then of_char c - 48 else of_char (to_lower c) - 87)) 0 s"

text \<open>At most eight hexadecimal or ten decimal digits after leading zeros; what follows the decimal digits is ignored.\<close>

definition get_hex32 :: "string \<Rightarrow> int option" where
  "get_hex32 z =
     (let z = dropWhile (\<lambda>c. c = CHR ''0'') z; digits = takeWhile is_xdigit z in
      if length digits \<le> 8 \<and> hex_value digits < 2 ^ 31 then Some (int (hex_value digits)) else None)"

definition get_dec32 :: "bool \<Rightarrow> string \<Rightarrow> int option" where
  "get_dec32 neg z =
     (if z = [] \<or> \<not> is_digit (hd z) then None
      else let digits = takeWhile is_digit (dropWhile (\<lambda>c. c = CHR ''0'') z); v = int (digits_value digits) in
           if length digits > 10 then None
           else if v - (if neg then 1 else 0) > 2147483647 then None
           else Some (if neg then - v else v))"

definition sqlite3GetInt32 :: "string \<Rightarrow> int option" where
  "sqlite3GetInt32 z =
     (case z of
        CHR ''-'' # z' \<Rightarrow> get_dec32 True z'
      | CHR ''+'' # z' \<Rightarrow> get_dec32 False z'
      | CHR ''0'' # x # d # z' \<Rightarrow>
          if to_lower x = CHR ''x'' \<and> is_xdigit d then get_hex32 (d # z') else get_dec32 False z
      | _ \<Rightarrow> get_dec32 False z)"

text \<open>The result is the message of the error.\<close>

definition sqlite3_set_cipher :: "pager \<Rightarrow> string \<Rightarrow> pager \<times> string option" where
  "sqlite3_set_cipher pPager name =
     (if pCodec pPager \<noteq> None then (pPager, Some ''the database is already encrypted'')
      else if map to_lower name = ''xrc4'' then (pPager\<lparr>iCipher := CIPHER_XRC4\<rparr>, None)
      else if map to_lower (take 6 name) = ''chacha'' then
        (case sqlite3GetInt32 (drop 6 name) of
           None \<Rightarrow> (pPager, Some ''you must inform the number of rounds. eg: chacha8'')
         | Some n \<Rightarrow>
             (let p = pPager\<lparr>iRounds := n\<rparr> in
              if n \<le> 0 \<or> odd n then (p, Some ''the number of rounds must be a positive even number'')
              else (p\<lparr>iCipher := CIPHER_CHACHA\<rparr>, None)))
      else (pPager, Some ''cipher not recognized''))"

definition sqlite3_get_cipher :: "pager \<Rightarrow> string option" where
  "sqlite3_get_cipher pPager =
     (let (cipher, rounds) = (case pCodec pPager of Some b \<Rightarrow> (block_cipher b, block_rounds b)
                              | None \<Rightarrow> (iCipher pPager, iRounds pPager)) in
      if cipher = CIPHER_XRC4 then Some ''xrc4''
      else if cipher = CIPHER_CHACHA then Some (''chacha'' @ int_dec rounds)
      else None)"

subsection \<open>Keys\<close>

text \<open>No key is no error. \<^verbatim>\<open>DeriveKey\<close>\<close>

definition DeriveKey :: "pager \<Rightarrow> bytes \<Rightarrow> string + crypt_key option" where
  "DeriveKey pPager k =
     (if k = [] then Inr None
      else if iCipher pPager = CIPHER_XRC4 then
        Inr (Some \<lparr>sbox = xrc4_init (replicate 256 0) k, key_bytes = replicate 32 0\<rparr>)
      else if iCipher pPager = CIPHER_CHACHA then
        (if length k \<noteq> 32 then Inl ''The key for ChaCha must have 32 bytes''
         else Inr (Some \<lparr>sbox = replicate 256 0, key_bytes = k\<rparr>))
      else Inl ''The cipher was not set. Use 'cipher=...' on URI or the 'PRAGMA cipher=...' command'')"

definition CreateCryptBlock :: "pager \<Rightarrow> crypt_key option \<Rightarrow> crypt_block" where
  "CreateCryptBlock pPager hKey =
     \<lparr>dwPageSize = page_bytes pPager, block_cipher = iCipher pPager, block_rounds = iRounds pPager,
      hReadKey = hKey, hWriteKey = hKey\<rparr>"

definition sqlite3CodecSizeChange :: "crypt_block option \<Rightarrow> nat \<Rightarrow> crypt_block option" where
  "sqlite3CodecSizeChange pBlock pageSize = map_option (\<lambda>b. b\<lparr>dwPageSize := pageSize\<rparr>) pBlock"

text \<open>\<open>set_reserve\<close> is \<^verbatim>\<open>sqlite3BtreeSetPageSize\<close> of SQLite on the pager.\<close>

definition install_key :: "(pager \<Rightarrow> nat \<Rightarrow> pager \<times> rc) \<Rightarrow> pager \<Rightarrow> crypt_key \<Rightarrow> pager \<times> rc" where
  "install_key set_reserve p hKey =
     (let (p, rc) = (if nReserve p \<noteq> IVLEN then set_reserve p IVLEN else (p, SQLITE_OK)) in
      if rc \<noteq> SQLITE_OK then (p, rc)
      else (p\<lparr>pCodec := Some (CreateCryptBlock p (Some hKey))\<rparr>, SQLITE_OK))"

text \<open>\<open>main_pager\<close> is the pager of the main database when another one is attached.\<close>

definition sqlite3CodecAttach ::
  "(pager \<Rightarrow> nat \<Rightarrow> pager \<times> rc) \<Rightarrow> pager option \<Rightarrow> pager \<Rightarrow> bytes \<Rightarrow> pager \<times> rc" where
  "sqlite3CodecAttach set_reserve main_pager p k =
     (if k = [] then
        (case main_pager of None \<Rightarrow> (p, SQLITE_OK)
         | Some m \<Rightarrow>
             (case pCodec m of None \<Rightarrow> (p, SQLITE_OK)
              | Some b \<Rightarrow> (case hReadKey b of None \<Rightarrow> (p, SQLITE_OK) | Some h \<Rightarrow> install_key set_reserve p h)))
      else (case DeriveKey p k of
          Inl err \<Rightarrow> (p, SQLITE_ERROR)
        | Inr None \<Rightarrow> (p, SQLITE_ERROR)
        | Inr (Some h) \<Rightarrow> install_key set_reserve p h))"

definition sqlite3CodecCopy :: "(pager \<Rightarrow> nat \<Rightarrow> pager \<times> rc) \<Rightarrow> pager \<Rightarrow> pager \<Rightarrow> pager \<times> rc" where
  "sqlite3CodecCopy set_reserve p from =
     (case pCodec from of None \<Rightarrow> (p, SQLITE_OK)
      | Some b \<Rightarrow> (case hReadKey b of None \<Rightarrow> (p, SQLITE_OK) | Some h \<Rightarrow> install_key set_reserve p h))"

subsection \<open>Pages\<close>

definition apply_cipher :: "int \<Rightarrow> int \<Rightarrow> crypt_key \<Rightarrow> bytes \<Rightarrow> bytes \<Rightarrow> u32 \<Rightarrow> bytes" where
  "apply_cipher cipher rounds h xs iv counter =
     (if cipher = CIPHER_XRC4 then xrc4_crypt xs (sbox h) iv counter
      else if cipher = CIPHER_CHACHA then chacha_encrypt xs (key_bytes h) iv counter rounds
      else xs)"

text \<open>The last eight bytes of the buffer hold the vector; they must be there.\<close>

definition codec_encrypt :: "bytes \<Rightarrow> int \<Rightarrow> int \<Rightarrow> crypt_key \<Rightarrow> u32 \<Rightarrow> bytes \<Rightarrow> bytes option" where
  "codec_encrypt iv cipher rounds h pgno data =
     (if length data < IVLEN then None
      else Some (apply_cipher cipher rounds h (take (length data - IVLEN) data) iv pgno @ iv))"

definition codec_decrypt :: "int \<Rightarrow> int \<Rightarrow> crypt_key \<Rightarrow> u32 \<Rightarrow> bytes \<Rightarrow> bytes option" where
  "codec_decrypt cipher rounds h pgno data =
     (if length data < IVLEN then None
      else let size = length data - IVLEN; iv = drop size data in
           Some (apply_cipher cipher rounds h (take size data) iv pgno @ iv))"

text \<open>The codec reads the page size before it tests its argument. The header of the first page stays in the clear. A page
  has the size of its pager.\<close>

definition sqlite3Codec :: "bytes \<Rightarrow> crypt_block option \<Rightarrow> bytes \<Rightarrow> u32 \<Rightarrow> int \<Rightarrow> bytes option" where
  "sqlite3Codec iv pBlock data pgno mode =
     (case pBlock of None \<Rightarrow> None
      | Some b \<Rightarrow>
          if length data \<noteq> dwPageSize b then None
          else
            let offset = (if pgno = 1 then SQLITE_HEADER_SIZE else 0);
                encrypt = (\<lambda>k. case k of None \<Rightarrow> Some data
                  | Some h \<Rightarrow> map_option (\<lambda>d. take offset data @ d)
                      (codec_encrypt iv (block_cipher b) (block_rounds b) h pgno (drop offset data))) in
            if mode = 0 \<or> mode = 2 \<or> mode = 3 then
              (case hReadKey b of None \<Rightarrow> Some data
               | Some h \<Rightarrow> map_option (\<lambda>d. take offset data @ d)
                   (codec_decrypt (block_cipher b) (block_rounds b) h pgno (drop offset data)))
            else if mode = 6 then encrypt (hWriteKey b)
            else if mode = 7 then encrypt (hReadKey b)
            else Some data)"

subsection \<open>Change of the key\<close>

text \<open>What SQLite answers while the pages are rewritten, and the page that is skipped.\<close>

record btree_answers =
  begin_trans :: rc
  page_count :: nat
  pending_page :: nat
  pager_get :: "nat \<Rightarrow> rc"
  pager_write_page :: "nat \<Rightarrow> rc"
  btree_commit :: rc

text \<open>The result and the pages written.\<close>

fun rewrite_pages :: "btree_answers \<Rightarrow> nat list \<Rightarrow> rc \<times> nat list" where
  "rewrite_pages bt [] = (SQLITE_OK, [])"
| "rewrite_pages bt (n # ns) =
     (if n = pending_page bt then rewrite_pages bt ns
      else if pager_get bt n \<noteq> SQLITE_OK then (pager_get bt n, [])
      else if pager_write_page bt n \<noteq> SQLITE_OK then (pager_write_page bt n, [])
      else let (rc, ws) = rewrite_pages bt ns in (rc, n # ws))"

definition rewrite_database :: "btree_answers \<Rightarrow> rc \<times> nat list" where
  "rewrite_database bt =
     (if begin_trans bt \<noteq> SQLITE_OK then (begin_trans bt, [])
      else let (rc, ws) = rewrite_pages bt [1..<Suc (page_count bt)] in
           if rc \<noteq> SQLITE_OK then (rc, ws) else (btree_commit bt, ws))"

definition finish_rekey :: "pager \<Rightarrow> crypt_block \<Rightarrow> rc \<Rightarrow> pager" where
  "finish_rekey p b rc =
     (let b = (if rc = SQLITE_OK then b\<lparr>hReadKey := hWriteKey b\<rparr> else b\<lparr>hWriteKey := hReadKey b\<rparr>) in
      p\<lparr>pCodec := (if hReadKey b = None \<and> hWriteKey b = None then None else Some b)\<rparr>)"

definition sqlite3_rekey_v2 :: "btree_answers \<Rightarrow> pager \<Rightarrow> bytes \<Rightarrow> pager \<times> rc \<times> nat list" where
  "sqlite3_rekey_v2 bt p k =
     (case DeriveKey p k of
        Inl err \<Rightarrow> (p, SQLITE_ERROR, [])
      | Inr hKey \<Rightarrow>
          (case pCodec p of
             None \<Rightarrow>
               if hKey = None then (p, SQLITE_OK, [])
               else if nReserve p \<noteq> IVLEN then (p, SQLITE_ERROR, [])
               else let (rc, ws) = rewrite_database bt in
                    (finish_rekey p ((CreateCryptBlock p hKey)\<lparr>hReadKey := None\<rparr>) rc, rc, ws)
           | Some b \<Rightarrow>
               let (rc, ws) = rewrite_database bt in (finish_rekey p (b\<lparr>hWriteKey := hKey\<rparr>) rc, rc, ws)))"

subsection \<open>Messages\<close>

text \<open>Without a cipher the encrypted message is never written; the size of a received message shorter than its
  vector becomes a huge number.\<close>

definition aergolite_msg_encrypt :: "bytes \<Rightarrow> pager \<Rightarrow> bytes \<Rightarrow> u32 \<Rightarrow> bytes option" where
  "aergolite_msg_encrypt iv pPager data counter =
     (case pCodec pPager of None \<Rightarrow> Some data
      | Some b \<Rightarrow>
          if block_cipher b = CIPHER_XRC4 \<or> block_cipher b = CIPHER_CHACHA then
            map_option (\<lambda>h. iv @ apply_cipher (block_cipher b) (block_rounds b) h data iv counter) (hReadKey b)
          else None)"

definition aergolite_msg_decrypt :: "pager \<Rightarrow> bytes \<Rightarrow> u32 \<Rightarrow> bytes option" where
  "aergolite_msg_decrypt pPager data counter =
     (case pCodec pPager of None \<Rightarrow> Some data
      | Some b \<Rightarrow>
          if block_cipher b = CIPHER_XRC4 \<or> block_cipher b = CIPHER_CHACHA then
            if length data < MSGIVLEN then None
            else map_option (\<lambda>h. apply_cipher (block_cipher b) (block_rounds b) h (drop MSGIVLEN data)
                                   (take MSGIVLEN data) counter) (hReadKey b)
          else Some (drop MSGIVLEN data))"

subsection \<open>Lemmas\<close>

lemma apply_cipher_twice [simp]:
  "apply_cipher cipher rounds h (apply_cipher cipher rounds h xs iv counter) iv counter = xs"
  by (simp add: apply_cipher_def xrc4_twice chacha_twice)

lemma length_apply_cipher [simp]: "length (apply_cipher cipher rounds h xs iv counter) = length xs"
  by (simp add: apply_cipher_def)

lemma codec_decrypt_encrypt:
  "codec_encrypt iv cipher rounds h pgno data = Some d \<Longrightarrow> length iv = IVLEN \<Longrightarrow>
     codec_decrypt cipher rounds h pgno d = Some (take (length data - IVLEN) data @ iv) \<and> length d = length data"
  by (auto simp: codec_encrypt_def codec_decrypt_def Let_def split: if_splits)

lemma page_written_read:
  assumes "sqlite3Codec iv (Some b) data pgno mode = Some d" and "mode = 6 \<and> hWriteKey b = hReadKey b \<or> mode = 7"
    and "length iv = IVLEN" and "back \<in> {0, 2, 3}"
  shows "\<exists>d'. sqlite3Codec iv' (Some b) d pgno back = Some d' \<and> take (length data - IVLEN) d' = take (length data - IVLEN) data
    \<and> length d' = length data"
proof (cases "hReadKey b")
  case None
  with assms show ?thesis by (auto simp: sqlite3Codec_def Let_def split: if_splits)
next
  case (Some h)
  define off where "off = (if pgno = 1 then SQLITE_HEADER_SIZE else 0)"
  obtain e where e: "codec_encrypt iv (block_cipher b) (block_rounds b) h pgno (drop off data) = Some e"
      "d = take off data @ e" "length data = dwPageSize b"
    using assms(1,2) Some by (auto simp: sqlite3Codec_def Let_def off_def split: if_splits)
  note r = codec_decrypt_encrypt [OF e(1) assms(3)]
  have len: "IVLEN \<le> length data - off" "off \<le> length data"
    using e(1) by (auto simp: codec_encrypt_def split: if_splits)
  let ?d = "take off data @ take (length data - off - IVLEN) (drop off data) @ iv"
  have d: "length d = dwPageSize b" "take off d = take off data" "drop off d = e"
    using e(2,3) r len by (simp_all add: min_def)
  have "sqlite3Codec iv' (Some b) d pgno back = map_option (\<lambda>x. take off d @ x)
      (codec_decrypt (block_cipher b) (block_rounds b) h pgno (drop off d))"
    using assms(4) unfolding sqlite3Codec_def off_def [symmetric] Let_def by (simp add: d(1) Some)
  then have "sqlite3Codec iv' (Some b) d pgno back = Some ?d" using r by (simp add: d(2,3))
  moreover have "take (length data - IVLEN) ?d = take (length data - IVLEN) data"
  proof -
    have "take off data @ take (length data - off - IVLEN) (drop off data) = take (off + (length data - off - IVLEN)) data"
      by (simp only: take_add)
    also have "off + (length data - off - IVLEN) = length data - IVLEN" using len by linarith
    finally have d: "take off data @ take (length data - off - IVLEN) (drop off data) = take (length data - IVLEN) data" .
    show ?thesis unfolding append_assoc [symmetric] d by simp
  qed
  moreover have "length ?d = length data" using len assms(3) by simp
  ultimately show ?thesis by blast
qed

lemma rewrite_pages_OK:
  "rewrite_pages bt ns = (SQLITE_OK, ws) \<Longrightarrow> ws = filter (\<lambda>n. n \<noteq> pending_page bt) ns"
  by (induction ns arbitrary: ws) (auto simp: Let_def case_prod_beta prod_eq_iff split: if_splits)

lemma rewrite_database_OK:
  assumes "rewrite_database bt = (SQLITE_OK, ws)"
  shows "set ws = {1..page_count bt} - {pending_page bt}"
proof -
  have "rewrite_pages bt [1..<Suc (page_count bt)] = (SQLITE_OK, ws)"
    using assms by (cases "rewrite_pages bt [1..<Suc (page_count bt)]")
      (auto simp: rewrite_database_def simp del: upt_Suc split: if_splits)
  then have "ws = filter (\<lambda>n. n \<noteq> pending_page bt) [1..<Suc (page_count bt)]" by (rule rewrite_pages_OK)
  then show ?thesis by (auto simp del: upt_Suc)
qed

lemma concat_words:
  "(\<And>v. length (f v) = m) \<Longrightarrow> drop (m * n) (concat (map f xs)) = concat (map f (drop n xs))"
  "(\<And>v. length (f v) = m) \<Longrightarrow> take (m * n) (concat (map f xs)) = concat (map f (take n xs))"
proof (induction xs arbitrary: n)
  case (Cons x xs)
  {
    case 1
    then show ?case using Cons(1) by (cases n) auto
  next
    case 2
    then show ?case using Cons(2) by (cases n) auto
  }
qed simp_all

subsection \<open>Properties\<close>

text \<open>C22: A page that is written, to the database or to the journal, is read back: whatever the cipher, the
  rounds, the number of the page and the random vector, loading, reloading or undoing gives the bytes of the
  page before the eight that are reserved for the vector.\<close>
theorem page_roundtrip:
  assumes "sqlite3Codec iv (Some b) data pgno mode = Some d" and "mode = 6 \<and> hWriteKey b = hReadKey b \<or> mode = 7"
    and "length iv = IVLEN" and "back = 0 \<or> back = 2 \<or> back = 3"
  shows "\<exists>d'. sqlite3Codec iv' (Some b) d pgno back = Some d'
    \<and> take (length data - IVLEN) d' = take (length data - IVLEN) data \<and> length d' = length data"
  using page_written_read [OF assms(1-3)] assms(4) by auto

definition example_block :: crypt_block where
  "example_block = (let h = Some \<lparr>sbox = [], key_bytes = replicate 32 7\<rparr> in
     \<lparr>dwPageSize = 12, block_cipher = CIPHER_CHACHA, block_rounds = 8, hReadKey = h, hWriteKey = h\<rparr>)"

lemma page_roundtrip_witness:
  "\<exists>d d'. sqlite3Codec (replicate 8 5) (Some example_block) [1, 2, 3, 4, 0, 0, 0, 0, 0, 0, 0, 0] 2 6 = Some d
     \<and> sqlite3Codec [] (Some example_block) d 2 3 = Some d' \<and> take 4 d' = [1, 2, 3, 4]"
proof -
  let ?p = "[1, 2, 3, 4, 0, 0, 0, 0, 0, 0, 0, 0] :: bytes"
  obtain d where d: "sqlite3Codec (replicate 8 5) (Some example_block) ?p 2 6 = Some d"
    by (auto simp: sqlite3Codec_def example_block_def codec_encrypt_def Let_def)
  from page_roundtrip [OF d, of 3 "[]"] obtain d' where
      "sqlite3Codec [] (Some example_block) d 2 3 = Some d'" "take (length ?p - IVLEN) d' = take (length ?p - IVLEN) ?p"
    by (auto simp: example_block_def Let_def)
  with d show ?thesis by (auto simp: numeral_eq_Suc)
qed


definition example_pager :: pager where
  "example_pager = \<lparr>pCodec = Some example_block, iCipher = CIPHER_CHACHA, iRounds = 8, nReserve = 8, page_bytes = 12\<rparr>"

definition example_btree :: btree_answers where
  "example_btree = \<lparr>begin_trans = SQLITE_OK, page_count = 3, pending_page = 2, pager_get = (\<lambda>_. SQLITE_OK),
     pager_write_page = (\<lambda>_. SQLITE_OK), btree_commit = SQLITE_OK\<rparr>"


text \<open>C26: A number of rounds that \<^verbatim>\<open>PRAGMA cipher\<close> rejects is kept: after \<^verbatim>\<open>chacha0\<close> or a negative number is refused on
  a pager that already had the cipher, a key that is then set encrypts without any round, and the
  encryption of 64 zero bytes shows every word of the key doubled.\<close>
theorem rejected_rounds_reveal_key:
  assumes "pCodec p = None" and "iCipher p = CIPHER_CHACHA" and "sqlite3GetInt32 z = Some n" and "n \<le> 0"
    and "sqlite3_set_cipher p (''chacha'' @ z) = (p', err)" and "DeriveKey p' k = Inr (Some h)"
    and "p'' = p'\<lparr>pCodec := Some (CreateCryptBlock p' (Some h))\<rparr>" and "length iv = MSGIVLEN"
  shows "err \<noteq> None \<and> (\<exists>c. aergolite_msg_encrypt iv p'' (replicate 64 0) counter = Some c
    \<and> take 32 (drop 20 c) = concat (map (\<lambda>i. let w = U8TO32_LITTLE (drop (4 * i) k) in U32TO8_LITTLE (w + w)) [0..<8]))"
proof -
  have p': "p' = p\<lparr>iRounds := n\<rparr>" "err \<noteq> None"
    using assms(1,3,4,5) by (auto simp: sqlite3_set_cipher_def Let_def to_lower_def)
  then have k: "key_bytes h = k" using assms(2,6) by (auto simp: DeriveKey_def split: if_splits)
  let ?in = "chacha_input k iv counter"
  have len: "length (concat (map (\<lambda>v. U32TO8_LITTLE (v + v)) xs)) = 4 * length xs" for xs
    by (induction xs) (auto simp: U32TO8_LITTLE_def)
  have "chacha_encrypt (replicate 64 0) k iv counter n = map2 (XOR) (replicate 64 0) (ChaChaCore ?in n)"
    unfolding chacha_encrypt_def
    by (subst chacha_blocks.simps, subst chacha_blocks.simps) simp
  also have "\<dots> = ChaChaCore ?in n"
    by (rule nth_equalityI) (simp_all add: length_ChaChaCore)
  also have "\<dots> = concat (map (\<lambda>v. U32TO8_LITTLE (v + v)) ?in)" using assms(4) by (rule no_rounds_block)
  finally have c: "aergolite_msg_encrypt iv p'' (replicate 64 0) counter
      = Some (iv @ concat (map (\<lambda>v. U32TO8_LITTLE (v + v)) ?in))"
    using assms(2,7) p' k by (simp add: aergolite_msg_encrypt_def CreateCryptBlock_def apply_cipher_def)
  let ?f = "\<lambda>v. U32TO8_LITTLE (v + v)"
  have f: "length (?f v) = 4" for v by (simp add: U32TO8_LITTLE_def)
  have "take 32 (drop 20 (iv @ concat (map ?f ?in))) = take (4 * 8) (drop (4 * 4) (concat (map ?f ?in)))"
    using assms(8) by simp
  also have "\<dots> = concat (map ?f (take 8 (drop 4 ?in)))" by (simp only: concat_words [where f = ?f and m = 4, OF f])
  also have "take 8 (drop 4 ?in) = map (\<lambda>i. U8TO32_LITTLE (drop (4 * i) k)) [0..<8]" by (simp add: chacha_input_def)
  finally show ?thesis using c p'(2) by (simp add: Let_def comp_def)
qed

lemma rejected_rounds_reveal_key_witness:
  "\<exists>p' p'' h c. sqlite3_set_cipher (example_pager\<lparr>pCodec := None\<rparr>) ''chacha0'' = (p', Some ''the number of rounds must be a positive even number'')
     \<and> DeriveKey p' (replicate 32 7) = Inr (Some h) \<and> pCodec p'' = Some (CreateCryptBlock p' (Some h))
     \<and> aergolite_msg_encrypt (replicate 4 3) p'' (replicate 64 0) 1 = Some c
     \<and> take 4 (drop 20 c) = [14, 14, 14, 14]"
proof -
  define p where "p = example_pager\<lparr>pCodec := None\<rparr>"
  define p' where "p' = p\<lparr>iRounds := 0\<rparr>"
  have z: "sqlite3GetInt32 ''0'' = Some 0" by code_simp
  have s: "sqlite3_set_cipher p (''chacha'' @ ''0'') = (p', Some ''the number of rounds must be a positive even number'')"
    by (simp add: sqlite3_set_cipher_def p_def p'_def example_pager_def z to_lower_def)
  obtain h where h: "DeriveKey p' (replicate 32 7) = Inr (Some h)"
    by (simp add: DeriveKey_def p'_def p_def example_pager_def)
  define p'' where "p'' = p'\<lparr>pCodec := Some (CreateCryptBlock p' (Some h))\<rparr>"
  let ?w = "\<lambda>i. let w = U8TO32_LITTLE (drop (4 * i) (replicate 32 7)) in U32TO8_LITTLE (w + w)"
  have "U8TO32_LITTLE (replicate 32 7) = 0x07070707" by (simp add: U8TO32_LITTLE_def)
  then have w: "?w 0 = [14, 14, 14, 14]" by (simp add: U32TO8_LITTLE_def)
  obtain c where c: "aergolite_msg_encrypt (replicate 4 3) p'' (replicate 64 0) 1 = Some c"
      "take 32 (drop 20 c) = concat (map ?w [0..<8])"
    using rejected_rounds_reveal_key [OF _ _ z _ s h p''_def, of "replicate 4 3" 1] by (auto simp: p_def example_pager_def)
  have "[0..<8] = 0 # [1..<8 :: nat]" by (simp add: upt_conv_Cons)
  then have "take 32 (drop 20 c) = ?w 0 @ concat (map ?w [1..<8])" unfolding c(2) by (simp only: list.map concat.simps)
  then have "take 4 (take 32 (drop 20 c)) = [14, 14, 14, 14]" unfolding w by (simp only:) simp
  then have "take 4 (drop 20 c) = [14, 14, 14, 14]" by simp
  moreover have "pCodec p'' = Some (CreateCryptBlock p' (Some h))" by (simp add: p''_def)
  ultimately show ?thesis using s h c(1) unfolding p_def by auto
qed



text \<open>C32: The box of every XRC4 key is a permutation of the 256 bytes, whatever the key, and stays one while the
  cipher mixes in a vector and encrypts.\<close>
theorem derived_box_permutation:
  assumes "DeriveKey p k = Inr (Some h)" and "iCipher p = CIPHER_XRC4"
  shows "distinct (sbox h) \<and> set (sbox h) = UNIV \<and> length (iv_mix n iv increment i j (sbox h)) = 256
    \<and> distinct (iv_mix n iv increment i j (sbox h))"
proof -
  have "sbox h = xrc4_init (replicate 256 0) k" using assms by (auto simp: DeriveKey_def split: if_splits)
  then have b: "is_box (sbox h)" by (simp add: is_box_init)
  moreover have "card (set (sbox h)) = CARD(u8)" using b by (simp add: is_box_def distinct_card card_word)
  then have "set (sbox h) = UNIV" by (simp add: card_eq_UNIV_imp_eq_UNIV)
  ultimately show ?thesis using is_box_iv_mix [OF b] by (simp add: is_box_def)
qed

lemma derived_box_permutation_witness:
  "\<exists>h. DeriveKey (example_pager\<lparr>iCipher := CIPHER_XRC4\<rparr>) [1, 2, 3] = Inr (Some h) \<and> distinct (sbox h)"
proof -
  obtain h where "DeriveKey (example_pager\<lparr>iCipher := CIPHER_XRC4\<rparr>) [1, 2, 3] = Inr (Some h)"
    by (simp add: DeriveKey_def)
  with derived_box_permutation [OF this] show ?thesis by simp
qed

end
