(* ===== verification/Msg_Framing.thy ===== *)
theory Msg_Framing
  imports Prelude
begin

section \<open>Messages on a stream\<close>

text \<open>
  \<^verbatim>\<open>uv_msg_framing.c\<close>: a message is sent as its size in four bytes, most significant first, and its bytes;
  the reader collects what arrives in a buffer and hands every complete message to its callback. The
  buffer is the list of its filled bytes and its size. A size that the sender makes negative or too large makes
  the reader overflow, read before its buffer or loop for ever: all these are \<^term>\<open>None\<close>.
\<close>

subsection \<open>Sending\<close>

definition htonl :: "int \<Rightarrow> bytes" where
  "htonl n = (let w = word_of_int n :: u32 in
     [ucast (drop_bit 24 w), ucast (drop_bit 16 w), ucast (drop_bit 8 w), ucast w])"

text \<open>\<^verbatim>\<open>UV_EINVAL\<close> is \<^term>\<open>None\<close>; the message has the size given.\<close>

definition uv_msg_send :: "bytes \<Rightarrow> bytes option" where
  "uv_msg_send msg = (if msg = [] then None else Some (htonl (int (length msg)) @ msg))"

subsection \<open>Reading\<close>

definition ntohl :: "bytes \<Rightarrow> int" where
  "ntohl p = sint (push_bit 24 (ucast (p ! 0)) OR push_bit 16 (ucast (p ! 1)) OR push_bit 8 (ucast (p ! 2)) OR ucast (p ! 3) :: u32)"

record uv_msg =
  has_buf :: bool
  filled_bytes :: bytes
  alloc_size :: nat

definition uv_msg_init :: uv_msg where
  "uv_msg_init = \<lparr>has_buf = False, filled_bytes = [], alloc_size = 0\<rparr>"

definition uv_stream_msg_free_buffer :: "uv_msg \<Rightarrow> uv_msg" where
  "uv_stream_msg_free_buffer m = m\<lparr>has_buf := False, alloc_size := 0\<rparr>"

text \<open>\<open>mem\<close> tells which sizes the allocator gives.\<close>

definition uv_stream_msg_realloc :: "(nat \<Rightarrow> bool) \<Rightarrow> uv_msg \<Rightarrow> nat \<Rightarrow> uv_msg option" where
  "uv_stream_msg_realloc mem m n = (if mem n then Some (m\<lparr>alloc_size := n\<rparr>) else None)"

text \<open>The result has the space offered to libuv, if there is any. A new buffer for bytes that were in a released one
  has other contents.\<close>

definition uv_stream_msg_alloc :: "(nat \<Rightarrow> bool) \<Rightarrow> nat \<Rightarrow> uv_msg \<Rightarrow> (uv_msg \<times> nat option) option" where
  "uv_stream_msg_alloc mem suggested m =
     (if \<not> has_buf m \<and> \<not> mem suggested then Some (m, None)
      else if \<not> has_buf m \<and> filled_bytes m \<noteq> [] then None
      else
        let m = (if has_buf m then m else m\<lparr>has_buf := True, alloc_size := suggested\<rparr>);
            filled = length (filled_bytes m) in
        if filled \<ge> 4 then
          let entire = ntohl (filled_bytes m) + 4 in
          if entire \<ge> 2 ^ 31 \<or> entire < int filled then None
          else (case (if int (alloc_size m) < entire then uv_stream_msg_realloc mem m (nat entire) else Some m) of
                  None \<Rightarrow> Some (m, None)
                | Some m \<Rightarrow> Some (m, Some (nat entire - filled)))
        else
          (case (if alloc_size m < 4 then uv_stream_msg_realloc mem m (64 * 1024) else Some m) of
             None \<Rightarrow> Some (m, None)
           | Some m \<Rightarrow> Some (m, Some (alloc_size m - filled))))"

text \<open>What the callback gets: a message, or a size below zero, which it takes for the code of an error.\<close>

datatype delivery = Message bytes | Error_Code int

partial_function (option) read_messages :: "bytes \<Rightarrow> (delivery list \<times> bytes) option" where
  "read_messages xs =
     (if length xs < 4 then Some ([], xs)
      else let size = ntohl xs; entire = size + 4 in
        if entire \<ge> 2 ^ 31 \<or> entire < 0 then None
        else if int (length xs) < entire then Some ([], xs)
        else Option.bind (read_messages (drop (nat entire) xs))
               (\<lambda>r. Some ((if size < 0 then Error_Code size else Message (take (nat size) (drop 4 xs))) # fst r, snd r)))"

text \<open>\<open>nread\<close> below zero is an error of the stream; otherwise \<open>chunk\<close> has arrived.\<close>

definition uv_stream_msg_read :: "uv_msg \<Rightarrow> int \<Rightarrow> bytes \<Rightarrow> (uv_msg \<times> delivery list) option" where
  "uv_stream_msg_read m nread chunk =
     (if nread = 0 then Some (m, [])
      else if nread < 0 then Some (uv_stream_msg_free_buffer m, [Error_Code nread])
      else (case read_messages (filled_bytes m @ chunk) of None \<Rightarrow> None
            | Some (ms, rest) \<Rightarrow>
                Some (if rest = [] then uv_stream_msg_free_buffer (m\<lparr>filled_bytes := []\<rparr>) else m\<lparr>filled_bytes := rest\<rparr>, ms)))"

text \<open>Chunks that arrive one after the other, with what the callback got.\<close>

fun receive :: "uv_msg \<Rightarrow> bytes list \<Rightarrow> (uv_msg \<times> delivery list) option" where
  "receive m [] = Some (m, [])"
| "receive m (c # cs) =
     (case uv_stream_msg_read m (int (length c)) c of None \<Rightarrow> None
      | Some (m, ms) \<Rightarrow> map_option (\<lambda>(m, ns). (m, ms @ ns)) (receive m cs))"

subsection \<open>Frames\<close>

definition frame :: "bytes \<Rightarrow> bytes" where
  "frame msg = htonl (int (length msg)) @ msg"

abbreviation sendable :: "bytes \<Rightarrow> bool" where
  "sendable msg \<equiv> length msg < 2 ^ 31 - 4"

lemma length_htonl [simp]: "length (htonl n) = 4"
  by (simp add: htonl_def Let_def)

lemma word_of_bytes:
  "push_bit 24 (ucast (ucast (drop_bit 24 w) :: u8)) OR push_bit 16 (ucast (ucast (drop_bit 16 w) :: u8))
     OR push_bit 8 (ucast (ucast (drop_bit 8 w) :: u8)) OR ucast (ucast w :: u8) = w" for w :: u32
proof (rule bit_word_eqI)
  fix n assume n: "n < LENGTH(32)"
  then consider "n < 8" | "8 \<le> n" "n < 16" | "16 \<le> n" "n < 24" | "24 \<le> n" "n < 32" by fastforce
  then show "bit (push_bit 24 (ucast (ucast (drop_bit 24 w) :: u8)) OR push_bit 16 (ucast (ucast (drop_bit 16 w) :: u8))
     OR push_bit 8 (ucast (ucast (drop_bit 8 w) :: u8)) OR ucast (ucast w :: u8) :: u32) n = bit w n"
    by cases (auto simp: bit_simps)
qed

lemma ntohl_htonl: "- (2 ^ 31) \<le> n \<Longrightarrow> n < 2 ^ 31 \<Longrightarrow> ntohl (htonl n @ xs) = n"
  by (simp add: ntohl_def htonl_def Let_def word_of_bytes signed_of_int signed_take_bit_int_eq_self)

lemma ntohl_cong: "take 4 xs = take 4 ys \<Longrightarrow> length xs \<ge> 4 \<Longrightarrow> ntohl xs = ntohl ys"
proof -
  assume e: "take 4 xs = take 4 ys" "length xs \<ge> 4"
  have "xs ! i = ys ! i" if "i < 4" for i using that e by (metis nth_take)
  then show ?thesis by (simp add: ntohl_def)
qed

lemma read_messages_Nil [simp]: "read_messages [] = Some ([], [])"
  by (subst read_messages.simps) simp

lemma read_frame:
  assumes "sendable msg"
  shows "read_messages (frame msg @ xs) = map_option (\<lambda>(ms, r). (Message msg # ms, r)) (read_messages xs)"
proof -
  have n: "ntohl (frame msg @ xs) = int (length msg)"
    using ntohl_htonl [of "int (length msg)" "msg @ xs"] assms by (simp add: frame_def)
  have "drop (length msg + 4) (frame msg @ xs) = xs" "take (length msg) (drop 4 (frame msg @ xs)) = msg"
    by (simp_all add: frame_def)
  then show ?thesis
    using assms by (subst read_messages.simps, simp add: n Let_def nat_add_distrib)
      (cases "read_messages xs"; simp add: frame_def case_prod_beta)
qed

lemma read_incomplete:
  assumes "sendable msg" and "r @ ys = frame msg" and "ys \<noteq> []"
  shows "read_messages r = Some ([], r)"
proof (cases "length r < 4")
  case True
  then show ?thesis by (subst read_messages.simps) simp
next
  case False
  then have "take 4 r = take 4 (htonl (int (length msg)))" using arg_cong [OF assms(2), of "take 4"] by (simp add: frame_def)
  then have n: "ntohl r = int (length msg)"
    using ntohl_cong [of r "htonl (int (length msg)) @ []"] ntohl_htonl [of "int (length msg)" "[]"] False assms(1) by simp
  have "length r + length ys = length msg + 4" using arg_cong [OF assms(2), of length] by (simp add: frame_def)
  then have "length r < length msg + 4" using assms(3) by (cases ys) auto
  then show ?thesis using False assms(1) by (subst read_messages.simps) (simp add: n Let_def)
qed

text \<open>A part of a stream of frames is read as its complete frames.\<close>

lemma read_prefix:
  assumes "xs @ ys = concat (map frame ms)" and "\<forall>m\<in>set ms. sendable m"
  shows "\<exists>k r. read_messages xs = Some (map Message (take k ms), r) \<and> r @ ys = concat (map frame (drop k ms))
    \<and> (ys = [] \<longrightarrow> r = [] \<and> drop k ms = []) \<and> read_messages r = Some ([], r)"
  using assms
proof (induction ms arbitrary: xs)
  case Nil
  then show ?case by simp
next
  case (Cons m ms)
  show ?case
  proof (cases "length xs < length (frame m)")
    case True
    then obtain zs where z: "xs @ zs = frame m" "ys = zs @ concat (map frame ms)"
      using Cons.prems(1) by (auto simp: append_eq_append_conv2)
    with True have "zs \<noteq> []" by auto
    then have "read_messages xs = Some ([], xs)" using read_incomplete [of m xs zs] Cons.prems(2) z(1) by simp
    then show ?thesis using Cons.prems(1) z \<open>zs \<noteq> []\<close> by (intro exI [of _ 0]) auto
  next
    case False
    have "xs @ ys = frame m @ concat (map frame ms)" using Cons.prems(1) by simp
    then have "take (length (frame m)) xs = frame m" "drop (length (frame m)) xs @ ys = concat (map frame ms)"
      using False by (metis append_eq_conv_conj append_take_drop_id length_take min.absorb2 not_le_imp_less order_less_imp_le
        same_append_eq append.assoc take_append take_all_iff diff_is_0_eq take_0 append_Nil2 linorder_not_less)+
    then obtain zs where z: "xs = frame m @ zs" "zs @ ys = concat (map frame ms)"
      by (metis append_take_drop_id)
    from Cons.IH [OF z(2)] Cons.prems(2) obtain k r where
      "read_messages zs = Some (map Message (take k ms), r)" "r @ ys = concat (map frame (drop k ms))"
      "ys = [] \<longrightarrow> r = [] \<and> drop k ms = []" "read_messages r = Some ([], r)" by auto
    then show ?thesis using z(1) Cons.prems(2) by (intro exI [of _ "Suc k"] exI [of _ r]) (simp add: read_frame)
  qed
qed

lemma receive_frames:
  assumes "filled_bytes m @ concat cs = concat (map frame ms)" and "\<forall>x\<in>set ms. sendable x"
    and "read_messages (filled_bytes m) = Some ([], filled_bytes m)"
  shows "\<exists>m'. receive m cs = Some (m', map Message ms) \<and> filled_bytes m' = []"
  using assms
proof (induction cs arbitrary: m ms)
  case Nil
  then obtain k r where "read_messages (filled_bytes m) = Some (map Message (take k ms), r)" "r = []" "drop k ms = []"
    using read_prefix [of "filled_bytes m" "[]" ms] by auto
  with Nil(3) have "filled_bytes m = []" "take k ms = []" by auto
  with \<open>drop k ms = []\<close> have "ms = []" using append_take_drop_id [of k ms] by simp
  with \<open>filled_bytes m = []\<close> show ?case by simp
next
  case (Cons c cs)
  show ?case
  proof (cases "c = []")
    case True
    with Cons show ?thesis by (auto simp: uv_stream_msg_read_def)
  next
    case False
    obtain k r where r: "read_messages (filled_bytes m @ c) = Some (map Message (take k ms), r)"
        "r @ concat cs = concat (map frame (drop k ms))" "read_messages r = Some ([], r)"
      using read_prefix [of "filled_bytes m @ c" "concat cs" ms] Cons.prems(1,2) by auto
    define m' where "m' = (if r = [] then uv_stream_msg_free_buffer (m\<lparr>filled_bytes := []\<rparr>) else m\<lparr>filled_bytes := r\<rparr>)"
    have f: "filled_bytes m' = r" by (simp add: m'_def uv_stream_msg_free_buffer_def)
    have u: "uv_stream_msg_read m (int (length c)) c = Some (m', map Message (take k ms))"
      using r False by (simp add: uv_stream_msg_read_def m'_def)
    from Cons.IH [of m' "drop k ms"] r(2,3) Cons.prems(2) obtain m'' where
        "receive m' cs = Some (m'', map Message (drop k ms))" "filled_bytes m'' = []"
      by (auto simp: f dest: in_set_dropD)
    then show ?thesis using u by (simp flip: map_append)
  qed
qed

lemma read_messages_endless: "read_messages xs = Some r \<Longrightarrow> 4 \<le> length xs \<Longrightarrow> ntohl xs \<noteq> - 4"
proof (induction rule: read_messages.raw_induct [rotated, consumes 1, case_names turn])
  case (turn read_messages xs r)
  show ?case
  proof
    assume s: "ntohl xs = - 4"
    with turn(2,3) obtain q where "read_messages xs = Some q" by (auto simp: bind_eq_Some_conv split: if_splits)
    from turn(1) [OF this turn(3)] s show False by simp
  qed
qed

lemma read_incomplete_size:
  assumes "read_messages xs = Some ([], xs)" and "4 \<le> length xs"
  shows "int (length xs) < ntohl xs + 4"
  using assms by (subst (asm) read_messages.simps) (auto simp: Let_def bind_eq_Some_conv split: if_splits)

subsection \<open>Properties\<close>

text \<open>C18: Messages arrive whole and in order however the stream cuts them: when the chunks that arrive are the sent
  messages one after the other, split anywhere, the reader hands exactly these messages to its callback
  and ends with an empty buffer.\<close>
theorem messages_reassembled:
  assumes "concat chunks = concat (map (\<lambda>m. case uv_msg_send m of Some f \<Rightarrow> f | None \<Rightarrow> []) ms)"
    and "list_all (\<lambda>m. m \<noteq> [] \<and> length m < 2 ^ 31 - 4) ms"
  shows "\<exists>m'. receive uv_msg_init chunks = Some (m', map Message ms) \<and> filled_bytes m' = []"
proof -
  have e: "map (\<lambda>m. case uv_msg_send m of Some f \<Rightarrow> f | None \<Rightarrow> []) ms = map frame ms"
    using assms(2) by (induction ms) (auto simp: uv_msg_send_def frame_def)
  show ?thesis
    by (rule receive_frames) (use assms in \<open>simp_all add: uv_msg_init_def list_all_iff flip: e\<close>)
qed

lemma messages_reassembled_witness:
  "\<exists>m'. receive uv_msg_init [[0, 0], [0, 2, 65], [66, 0, 0, 0], [1, 67]] = Some (m', [Message [65, 66], Message [67]])
     \<and> filled_bytes m' = []"
  using messages_reassembled [of "[[0, 0], [0, 2, 65], [66, 0, 0, 0], [1, 67]]" "[[65, 66], [67]]"]
  by (simp add: uv_msg_send_def htonl_def Let_def)

text \<open>C31: The space offered to libuv is inside the buffer and never empty: between two reads, with no complete
  message in the buffer, the bytes that are there and the space offered fit in its size.\<close>
theorem offered_space_fits:
  assumes "read_messages (filled_bytes m) = Some ([], filled_bytes m)"
    and "length (filled_bytes m) \<le> alloc_size m" and "0 < suggested"
    and "uv_stream_msg_alloc mem suggested m = Some (m', Some n)"
  shows "0 < n \<and> length (filled_bytes m') + n \<le> alloc_size m' \<and> filled_bytes m' = filled_bytes m"
  using assms read_incomplete_size [OF assms(1)]
  by (auto simp: uv_stream_msg_alloc_def uv_stream_msg_realloc_def Let_def split: if_splits)

lemma offered_space_fits_witness:
  "\<exists>m' n. uv_stream_msg_alloc (\<lambda>_. True) 65536 uv_msg_init = Some (m', Some n) \<and> 0 < n
     \<and> length (filled_bytes m') + n \<le> alloc_size m'"
proof -
  have a: "uv_stream_msg_alloc (\<lambda>_. True) 65536 uv_msg_init = Some (uv_msg_init\<lparr>has_buf := True, alloc_size := 65536\<rparr>, Some 65536)"
    by (simp add: uv_stream_msg_alloc_def uv_msg_init_def)
  have "read_messages (filled_bytes uv_msg_init) = Some ([], filled_bytes uv_msg_init)"
    by (subst read_messages.simps) (simp add: uv_msg_init_def)
  from offered_space_fits [OF this _ _ a] a show ?thesis by (auto simp: uv_msg_init_def)
qed

text \<open>C30: Four bytes stop a node: on the size minus four the reader never returns, whatever follows, because
  a message of that size moves the reader by nothing.\<close>
theorem negative_size_hangs:
  "uv_stream_msg_read uv_msg_init (int (length chunk) + 4) (htonl (- 4) @ chunk) = None"
proof -
  have "ntohl (htonl (- 4) @ chunk) = - 4" by (rule ntohl_htonl) simp_all
  then have "read_messages (htonl (- 4) @ chunk) = None"
    using read_messages_endless [of "htonl (- 4) @ chunk"] by (cases "read_messages (htonl (- 4) @ chunk)") auto
  then show ?thesis by (simp add: uv_stream_msg_read_def uv_msg_init_def)
qed

end
