(* ===== verification/Sql_Tokens.thy ===== *)
theory Sql_Tokens
  imports Txn_Log
begin

section \<open>The tokens of SQL\<close>

text \<open>
  \<^verbatim>\<open>sqlite3GetToken\<close> of \<^verbatim>\<open>core/sqlite3.c\<close> with the hash table of sql_keywords behind it, and the functions of
  \<^verbatim>\<open>core/stored_proc.c\<close> that cut a procedure into commands with it. A pointer into the text is the rest of the
  text that begins there; the end of the list is the byte zero, which no text contains. The character
  tables \<^verbatim>\<open>sqlite3CtypeMap\<close> and \<^verbatim>\<open>aiClass\<close> are given by their ranges.
\<close>

subsection \<open>Characters\<close>

definition at :: "string \<Rightarrow> nat \<Rightarrow> char" where
  "at z i = (case drop i z of [] \<Rightarrow> CHR 0x00 | c # _ \<Rightarrow> c)"

definition char_code :: "char \<Rightarrow> nat" where
  "char_code c = of_char c"

definition sqlite3Isspace :: "char \<Rightarrow> bool" where
  "sqlite3Isspace c \<longleftrightarrow> char_code c = 32 \<or> 9 \<le> char_code c \<and> char_code c \<le> 13"

definition sqlite3Isdigit :: "char \<Rightarrow> bool" where
  "sqlite3Isdigit c \<longleftrightarrow> 48 \<le> char_code c \<and> char_code c \<le> 57"

definition sqlite3Isalpha :: "char \<Rightarrow> bool" where
  "sqlite3Isalpha c \<longleftrightarrow> 65 \<le> char_code c \<and> char_code c \<le> 90 \<or> 97 \<le> char_code c \<and> char_code c \<le> 122"

definition sqlite3Isxdigit :: "char \<Rightarrow> bool" where
  "sqlite3Isxdigit c \<longleftrightarrow> sqlite3Isdigit c \<or> 65 \<le> char_code c \<and> char_code c \<le> 70 \<or> 97 \<le> char_code c \<and> char_code c \<le> 102"

definition sqlite3Isquote :: "char \<Rightarrow> bool" where
  "sqlite3Isquote c \<longleftrightarrow> char_code c \<in> {34, 39, 91, 96}"

definition IdChar :: "char \<Rightarrow> bool" where
  "IdChar c \<longleftrightarrow> sqlite3Isalpha c \<or> sqlite3Isdigit c \<or> char_code c = 36 \<or> char_code c = 95 \<or> 128 \<le> char_code c"

datatype char_class =
    CC_X | CC_KYWD | CC_ID | CC_DIGIT | CC_DOLLAR | CC_VARALPHA | CC_VARNUM | CC_SPACE | CC_QUOTE | CC_QUOTE2
  | CC_PIPE | CC_MINUS | CC_LT | CC_GT | CC_EQ | CC_BANG | CC_SLASH | CC_LP | CC_RP | CC_SEMI | CC_PLUS | CC_STAR
  | CC_PERCENT | CC_COMMA | CC_AND | CC_TILDA | CC_DOT | CC_ILLEGAL | CC_NUL

definition aiClass :: "char \<Rightarrow> char_class" where
  "aiClass c = (let n = char_code c in
     if n = 0 then CC_NUL
     else if n = 88 \<or> n = 120 then CC_X
     else if sqlite3Isalpha c \<or> n = 95 then CC_KYWD
     else if sqlite3Isdigit c then CC_DIGIT
     else if n = 32 \<or> n = 9 \<or> n = 10 \<or> n = 12 \<or> n = 13 then CC_SPACE
     else if 128 \<le> n then CC_ID
     else if n = 36 then CC_DOLLAR
     else if n = 64 \<or> n = 35 \<or> n = 58 then CC_VARALPHA
     else if n = 63 then CC_VARNUM
     else if n = 34 \<or> n = 39 \<or> n = 96 then CC_QUOTE
     else if n = 91 then CC_QUOTE2
     else if n = 124 then CC_PIPE
     else if n = 45 then CC_MINUS
     else if n = 60 then CC_LT
     else if n = 62 then CC_GT
     else if n = 61 then CC_EQ
     else if n = 33 then CC_BANG
     else if n = 47 then CC_SLASH
     else if n = 40 then CC_LP
     else if n = 41 then CC_RP
     else if n = 59 then CC_SEMI
     else if n = 43 then CC_PLUS
     else if n = 42 then CC_STAR
     else if n = 37 then CC_PERCENT
     else if n = 44 then CC_COMMA
     else if n = 38 then CC_AND
     else if n = 126 then CC_TILDA
     else if n = 46 then CC_DOT
     else CC_ILLEGAL)"

text \<open>\<^verbatim>\<open>while( sqlite3Isspace(*sql) ) sql++\<close> and \<^verbatim>\<open>sqlite3_strnicmp(sql, word, strlen(word))==0\<close>\<close>

definition skip_spaces :: "string \<Rightarrow> string" where
  "skip_spaces z = dropWhile sqlite3Isspace z"

definition sqlite3_strnicmp :: "string \<Rightarrow> string \<Rightarrow> bool" where
  "sqlite3_strnicmp z word \<longleftrightarrow> map to_lower (take (length word) z) = map to_lower word"

subsection \<open>Token types\<close>

abbreviation (input) "TK_SEMI \<equiv> (1 :: nat)"
abbreviation (input) "TK_LP \<equiv> (22 :: nat)"
abbreviation (input) "TK_RP \<equiv> (23 :: nat)"
abbreviation (input) "TK_COMMA \<equiv> (26 :: nat)"
abbreviation (input) "TK_NE \<equiv> (52 :: nat)"
abbreviation (input) "TK_EQ \<equiv> (53 :: nat)"
abbreviation (input) "TK_GT \<equiv> (54 :: nat)"
abbreviation (input) "TK_LE \<equiv> (55 :: nat)"
abbreviation (input) "TK_LT \<equiv> (56 :: nat)"
abbreviation (input) "TK_GE \<equiv> (57 :: nat)"
abbreviation (input) "TK_ID \<equiv> (59 :: nat)"
abbreviation (input) "TK_DO \<equiv> (61 :: nat)"
abbreviation (input) "TK_BITAND \<equiv> (92 :: nat)"
abbreviation (input) "TK_BITOR \<equiv> (93 :: nat)"
abbreviation (input) "TK_LSHIFT \<equiv> (94 :: nat)"
abbreviation (input) "TK_RSHIFT \<equiv> (95 :: nat)"
abbreviation (input) "TK_PLUS \<equiv> (96 :: nat)"
abbreviation (input) "TK_MINUS \<equiv> (97 :: nat)"
abbreviation (input) "TK_STAR \<equiv> (98 :: nat)"
abbreviation (input) "TK_SLASH \<equiv> (99 :: nat)"
abbreviation (input) "TK_REM \<equiv> (100 :: nat)"
abbreviation (input) "TK_CONCAT \<equiv> (101 :: nat)"
abbreviation (input) "TK_BITNOT \<equiv> (103 :: nat)"
abbreviation (input) "TK_STRING \<equiv> (106 :: nat)"
abbreviation (input) "TK_NULL \<equiv> (110 :: nat)"
abbreviation (input) "TK_INSERT \<equiv> (116 :: nat)"
abbreviation (input) "TK_DELETE \<equiv> (117 :: nat)"
abbreviation (input) "TK_UPDATE \<equiv> (118 :: nat)"
abbreviation (input) "TK_SELECT \<equiv> (127 :: nat)"
abbreviation (input) "TK_DOT \<equiv> (130 :: nat)"
abbreviation (input) "TK_FLOAT \<equiv> (141 :: nat)"
abbreviation (input) "TK_BLOB \<equiv> (142 :: nat)"
abbreviation (input) "TK_INTEGER \<equiv> (143 :: nat)"
abbreviation (input) "TK_VARIABLE \<equiv> (144 :: nat)"
abbreviation (input) "TK_THEN \<equiv> (147 :: nat)"
abbreviation (input) "TK_SPACE \<equiv> (172 :: nat)"
abbreviation (input) "TK_ILLEGAL \<equiv> (173 :: nat)"
abbreviation (input) "TK_CALL \<equiv> (250 :: nat)"

subsection \<open>Keywords\<close>

text \<open>
  The words that the generated tables of the tokenizer hold (\<^verbatim>\<open>zKWText\<close>, \<^verbatim>\<open>aKWLen\<close>, \<^verbatim>\<open>aKWOffset\<close>,
  \<^verbatim>\<open>aKWCode\<close>), in their order, with their token types. The words are different, so the order in which
  the hash chains visit them does not matter. A character matches a letter of a word when it is equal to it
  after the bit \<^verbatim>\<open>0x20\<close> is cleared.
\<close>

definition sql_keywords :: "(string \<times> nat) list" where
  "sql_keywords = [
    (''REINDEX'', 88), (''INDEXED'', 105), (''INDEX'', 149), (''DESC'', 39), (''ESCAPE'', 58), (''EACH'', 41),
    (''CHECK'', 113), (''KEY'', 67), (''BEFORE'', 33), (''FOREIGN'', 121), (''FOR'', 62), (''IGNORE'', 63),
    (''REGEXP'', 47), (''EXPLAIN'', 2), (''INSTEAD'', 65), (''ADD'', 151), (''DATABASE'', 38), (''AS'', 24),
    (''SELECT'', 127), (''TABLE'', 16), (''LEFT'', 107), (''THEN'', 147), (''END'', 11), (''DEFERRABLE'', 120),
    (''ELSE'', 148), (''EXCEPT'', 125), (''TRANSACTION'', 6), (''ACTION'', 28), (''ON'', 104), (''NATURAL'', 107),
    (''ALTER'', 150), (''RAISE'', 71), (''EXCLUSIVE'', 9), (''EXISTS'', 20), (''SAVEPOINT'', 13),
    (''INTERSECT'', 126), (''TRIGGER'', 77), (''REFERENCES'', 114), (''CONSTRAINT'', 108), (''INTO'', 139),
    (''OFFSET'', 69), (''OF'', 68), (''SET'', 119), (''TEMPORARY'', 21), (''TEMP'', 21), (''OR'', 43),
    (''UNIQUE'', 112), (''QUERY'', 3), (''WITHOUT'', 25), (''WITH'', 81), (''OUTER'', 107), (''RELEASE'', 14),
    (''ATTACH'', 32), (''HAVING'', 136), (''GROUP'', 135), (''UPDATE'', 118), (''BEGIN'', 5), (''INNER'', 107),
    (''RANGE'', 86), (''BETWEEN'', 48), (''NOTHING'', 140), (''GLOB'', 47), (''BY'', 34), (''CASCADE'', 35),
    (''ASC'', 31), (''DELETE'', 117), (''CASE'', 145), (''COLLATE'', 102), (''CREATE'', 17),
    (''CURRENT_DATE'', 90), (''DETACH'', 40), (''IMMEDIATE'', 8), (''JOIN'', 132), (''INSERT'', 116),
    (''LIKE'', 47), (''MATCH'', 46), (''PLAN'', 4), (''ANALYZE'', 30), (''PRAGMA'', 70), (''ABORT'', 27),
    (''VALUES'', 128), (''VIRTUAL'', 80), (''LIMIT'', 137), (''WHEN'', 146), (''NOTNULL'', 51), (''NOT'', 19),
    (''NO'', 66), (''NULL'', 110), (''WHERE'', 138), (''RECURSIVE'', 72), (''AFTER'', 29), (''RENAME'', 89),
    (''AND'', 44), (''DEFAULT'', 109), (''AUTOINCREMENT'', 115), (''TO'', 15), (''IN'', 49), (''CAST'', 36),
    (''COLUMN'', 60), (''COMMIT'', 10), (''CONFLICT'', 37), (''CROSS'', 107), (''CURRENT_TIMESTAMP'', 90),
    (''CURRENT_TIME'', 90), (''CURRENT'', 82), (''PARTITION'', 84), (''DEFERRED'', 7), (''DISTINCT'', 129),
    (''IS'', 45), (''DROP'', 122), (''PRECEDING'', 85), (''FAIL'', 42), (''FILTER'', 154), (''REPLACE'', 73),
    (''FOLLOWING'', 83), (''FROM'', 131), (''FULL'', 107), (''IF'', 18), (''ISNULL'', 50), (''ORDER'', 134),
    (''RESTRICT'', 74), (''OVER'', 153), (''RIGHT'', 107), (''ROLLBACK'', 12), (''ROWS'', 76), (''ROW'', 75),
    (''UNBOUNDED'', 87), (''UNION'', 123), (''USING'', 133), (''VACUUM'', 78), (''VIEW'', 79), (''WINDOW'', 152),
    (''DO'', 61), (''INITIALLY'', 64), (''ALL'', 124), (''PRIMARY'', 111)]"

definition clear_0x20 :: "char \<Rightarrow> nat" where
  "clear_0x20 c = (if odd (char_code c div 32) then char_code c - 32 else char_code c)"

fun keyword_matches :: "string \<Rightarrow> string \<Rightarrow> bool" where
  "keyword_matches [] [] \<longleftrightarrow> True"
| "keyword_matches (c # z) (k # w) \<longleftrightarrow> clear_0x20 c = char_code k \<and> keyword_matches z w"
| "keyword_matches z w \<longleftrightarrow> False"

definition keywordCode :: "string \<Rightarrow> nat" where
  "keywordCode z = (case List.find (\<lambda>(w, t). keyword_matches z w) sql_keywords of
       Some (w, t) \<Rightarrow> t | None \<Rightarrow> TK_ID)"

subsection \<open>The next token\<close>

text \<open>The loops of \<^verbatim>\<open>sqlite3GetToken\<close>: inside a comment, after the opening quote (with whether the closing one is
  there), inside a variable (its length, how many identifier characters, whether it is malformed), a
  number.\<close>

fun comment_length :: "char \<Rightarrow> string \<Rightarrow> nat" where
  "comment_length c [] = 0"
| "comment_length c (d # z) = (if c = CHR ''*'' \<and> d = CHR ''/'' then 1 else Suc (comment_length d z))"

fun quoted_length :: "char \<Rightarrow> string \<Rightarrow> nat \<times> bool" where
  "quoted_length delim [] = (0, False)"
| "quoted_length delim (c # z) =
     (if c = delim then
        if at z 0 = delim then map_prod (\<lambda>n. n + 2) id (quoted_length delim (drop 1 z)) else (1, True)
      else map_prod Suc id (quoted_length delim z))"

fun variable_length :: "nat \<Rightarrow> string \<Rightarrow> nat \<times> nat \<times> bool" where
  "variable_length n [] = (0, n, False)"
| "variable_length n (c # z) =
     (if IdChar c then map_prod Suc id (variable_length (Suc n) z)
      else if c = CHR ''('' \<and> 0 < n then
        let inside = takeWhile (\<lambda>d. \<not> sqlite3Isspace d \<and> d \<noteq> CHR '')'') z in
        if at z (length inside) = CHR '')'' then (length inside + 2, n, False) else (length inside + 1, n, True)
      else if c = CHR '':'' \<and> at z 0 = CHR '':'' then map_prod (\<lambda>i. i + 2) id (variable_length n (drop 1 z))
      else (0, n, False))"

definition digits_end :: "string \<Rightarrow> nat \<Rightarrow> nat" where
  "digits_end z i = i + length (takeWhile sqlite3Isdigit (drop i z))"

definition number_point :: "string \<Rightarrow> nat \<times> nat" where
  "number_point z =
     (let i = digits_end z 0 in if at z i = CHR ''.'' then (digits_end z (i + 1), TK_FLOAT) else (i, TK_INTEGER))"

definition number_exponent :: "string \<Rightarrow> nat \<times> nat \<Rightarrow> nat \<times> nat" where
  "number_exponent z p =
     (let i = fst p in
      if (at z i = CHR ''e'' \<or> at z i = CHR ''E'')
        \<and> (sqlite3Isdigit (at z (i + 1))
           \<or> (at z (i + 1) = CHR ''+'' \<or> at z (i + 1) = CHR ''-'') \<and> sqlite3Isdigit (at z (i + 2)))
      then (digits_end z (i + 2), TK_FLOAT) else p)"

definition number_token :: "string \<Rightarrow> nat \<times> nat" where
  "number_token z =
     (if at z 0 = CHR ''0'' \<and> (at z 1 = CHR ''x'' \<or> at z 1 = CHR ''X'') \<and> sqlite3Isxdigit (at z 2) then
        (3 + length (takeWhile sqlite3Isxdigit (drop 3 z)), TK_INTEGER)
      else
        let (i, t) = number_exponent z (number_point z);
            n = length (takeWhile IdChar (drop i z))
        in (i + n, if 0 < n then TK_ILLEGAL else t))"

definition id_token :: "nat \<Rightarrow> string \<Rightarrow> nat \<times> nat" where
  "id_token i z = (i + length (takeWhile IdChar (drop i z)), TK_ID)"

definition keyword_token :: "string \<Rightarrow> nat \<times> nat" where
  "keyword_token z =
     (let i = 1 + length (takeWhile (\<lambda>c. aiClass c = CC_X \<or> aiClass c = CC_KYWD) (drop 1 z)) in
      if IdChar (at z i) then id_token (i + 1) z else (i, keywordCode (take i z)))"

definition blob_token :: "string \<Rightarrow> nat \<times> nat" where
  "blob_token z =
     (let i = 2 + length (takeWhile sqlite3Isxdigit (drop 2 z));
          bad = (at z i \<noteq> CHR 0x27 \<or> odd i);
          i = (if bad then i + length (takeWhile (\<lambda>c. c \<noteq> CHR 0x27) (drop i z)) else i)
      in (if i < length z then i + 1 else i, if bad then TK_ILLEGAL else TK_BLOB))"

definition sqlite3GetToken :: "string \<Rightarrow> nat \<times> nat" where
  "sqlite3GetToken z =
     (case aiClass (at z 0) of
        CC_SPACE \<Rightarrow> (1 + length (takeWhile sqlite3Isspace (drop 1 z)), TK_SPACE)
      | CC_MINUS \<Rightarrow>
          if at z 1 = CHR ''-'' then (2 + length (takeWhile (\<lambda>c. c \<noteq> CHR ''\<newline>'') (drop 2 z)), TK_SPACE) else (1, TK_MINUS)
      | CC_LP \<Rightarrow> (1, TK_LP) | CC_RP \<Rightarrow> (1, TK_RP) | CC_SEMI \<Rightarrow> (1, TK_SEMI) | CC_PLUS \<Rightarrow> (1, TK_PLUS) | CC_STAR \<Rightarrow> (1, TK_STAR)
      | CC_SLASH \<Rightarrow>
          if at z 1 \<noteq> CHR ''*'' \<or> length z \<le> 2 then (1, TK_SLASH)
          else (3 + comment_length (at z 2) (drop 3 z), TK_SPACE)
      | CC_PERCENT \<Rightarrow> (1, TK_REM)
      | CC_EQ \<Rightarrow> (if at z 1 = CHR ''='' then 2 else 1, TK_EQ)
      | CC_LT \<Rightarrow>
          if at z 1 = CHR ''='' then (2, TK_LE) else if at z 1 = CHR ''>'' then (2, TK_NE)
          else if at z 1 = CHR ''<'' then (2, TK_LSHIFT) else (1, TK_LT)
      | CC_GT \<Rightarrow>
          if at z 1 = CHR ''='' then (2, TK_GE) else if at z 1 = CHR ''>'' then (2, TK_RSHIFT) else (1, TK_GT)
      | CC_BANG \<Rightarrow> if at z 1 \<noteq> CHR ''='' then (1, TK_ILLEGAL) else (2, TK_NE)
      | CC_PIPE \<Rightarrow> if at z 1 \<noteq> CHR ''|'' then (1, TK_BITOR) else (2, TK_CONCAT)
      | CC_COMMA \<Rightarrow> (1, TK_COMMA) | CC_AND \<Rightarrow> (1, TK_BITAND) | CC_TILDA \<Rightarrow> (1, TK_BITNOT)
      | CC_QUOTE \<Rightarrow>
          (let (n, closed) = quoted_length (at z 0) (drop 1 z) in
           (1 + n, if \<not> closed then TK_ILLEGAL else if at z 0 = CHR 0x27 then TK_STRING else TK_ID))
      | CC_DOT \<Rightarrow> if \<not> sqlite3Isdigit (at z 1) then (1, TK_DOT) else number_token z
      | CC_DIGIT \<Rightarrow> number_token z
      | CC_QUOTE2 \<Rightarrow>
          (let n = 1 + length (takeWhile (\<lambda>c. c \<noteq> CHR '']'') (drop 1 z)) in
           if at z n = CHR '']'' then (n + 1, TK_ID) else (n, TK_ILLEGAL))
      | CC_VARNUM \<Rightarrow> (1 + length (takeWhile sqlite3Isdigit (drop 1 z)), TK_VARIABLE)
      | CC_DOLLAR \<Rightarrow> (let (i, n, bad) = variable_length 0 (drop 1 z) in (1 + i, if n = 0 \<or> bad then TK_ILLEGAL else TK_VARIABLE))
      | CC_VARALPHA \<Rightarrow> (let (i, n, bad) = variable_length 0 (drop 1 z) in (1 + i, if n = 0 \<or> bad then TK_ILLEGAL else TK_VARIABLE))
      | CC_KYWD \<Rightarrow> keyword_token z
      | CC_X \<Rightarrow> if at z 1 = CHR 0x27 then blob_token z else id_token 1 z
      | CC_ID \<Rightarrow> id_token 1 z
      | CC_NUL \<Rightarrow> (0, TK_ILLEGAL)
      | CC_ILLEGAL \<Rightarrow> (1, TK_ILLEGAL))"

subsection \<open>The size of tokens\<close>

text \<open>Every token but the end of the text has at least one character, and none reaches over the end.\<close>

lemma at_Nil [simp]: "at [] i = CHR 0x00"
  by (simp add: at_def)

lemma at_Cons_0 [simp]: "at (c # z) 0 = c"
  by (simp add: at_def)

lemma at_in_text: "at z i \<noteq> CHR 0x00 \<Longrightarrow> i < length z"
  by (cases "i < length z") (simp_all add: at_def)

lemma char_code_nul [simp]: "char_code CHR 0x00 = 0"
  by (simp add: char_code_def)

lemma char_code_zero: "char_code c = 0 \<longleftrightarrow> c = CHR 0x00"
  by (metis char_code_nul char_code_def char_of_char)

lemma token_of_empty [simp]: "sqlite3GetToken [] = (0, TK_ILLEGAL)"
  by (simp add: sqlite3GetToken_def aiClass_def)

lemma aiClass_nul: "aiClass c = CC_NUL \<longleftrightarrow> c = CHR 0x00"
  by (auto simp: aiClass_def Let_def char_code_zero)

lemma IdChar_nul [simp]: "\<not> IdChar CHR 0x00" "\<not> sqlite3Isdigit CHR 0x00" "\<not> sqlite3Isxdigit CHR 0x00" "\<not> sqlite3Isspace CHR 0x00"
  by (simp_all add: IdChar_def sqlite3Isalpha_def sqlite3Isdigit_def sqlite3Isxdigit_def sqlite3Isspace_def)

lemma takeWhile_reach: "i \<le> length z \<Longrightarrow> i + length (takeWhile P (drop i z)) \<le> length z"
  using length_takeWhile_le [of P "drop i z"] by simp

lemma comment_length_le: "comment_length c z \<le> length z"
  by (induction z arbitrary: c) auto

lemma quoted_length_le:
  assumes "d \<noteq> CHR 0x00"
  shows "fst (quoted_length d z) \<le> length z"
proof (induction z rule: length_induct)
  case (1 z)
  show ?case
  proof (cases z)
    case (Cons c y)
    have "fst (quoted_length d (drop 1 y)) + 1 \<le> length y" if "at y 0 = d" "d = c" "y \<noteq> []"
      using 1 Cons that(3) by (cases y) fastforce+
    moreover have "fst (quoted_length d y) \<le> length y" using 1 Cons by simp
    moreover have "y \<noteq> []" if "at y 0 = d" "d \<noteq> CHR 0x00" using that by auto
    ultimately show ?thesis using Cons assms by (cases y) (auto simp: map_prod_def case_prod_beta)
  qed simp
qed

lemma variable_length_le: "fst (variable_length n z) \<le> length z"
proof (induction z arbitrary: n rule: length_induct)
  case (1 z)
  then have IH: "\<And>y m. length y < length z \<Longrightarrow> fst (variable_length m y) \<le> length y" by blast
  show ?case
  proof (cases z)
    case (Cons c y)
    let ?in = "takeWhile (\<lambda>d. \<not> sqlite3Isspace d \<and> d \<noteq> CHR '')'') y"
    have "length ?in \<le> length y" by (rule length_takeWhile_le)
    moreover have "length ?in < length y" if "at y (length ?in) = CHR '')''" by (rule at_in_text) (simp add: that)
    moreover have "fst (variable_length n (drop 1 y)) + 2 \<le> length z" if "at y 0 = CHR '':''"
      using that IH [of "drop 1 y" n] Cons by (cases y) auto
    moreover have "fst (variable_length (Suc n) y) \<le> length y" using IH Cons by simp
    ultimately show ?thesis using Cons by (auto simp: map_prod_def case_prod_beta Let_def)
  qed simp
qed

lemma digits_end_bounds: "i \<le> length z \<Longrightarrow> digits_end z i \<le> length z" "i \<le> digits_end z i"
  by (simp_all add: digits_end_def takeWhile_reach)

lemma number_point_bounds:
  assumes "z \<noteq> []" and "sqlite3Isdigit (at z 0) \<or> at z 0 = CHR ''.''"
  shows "0 < fst (number_point z) \<and> fst (number_point z) \<le> length z"
proof -
  let ?i = "digits_end z 0"
  have "at z ?i = CHR ''.'' \<or> 0 < ?i"
    using assms by (cases z) (auto simp: digits_end_def)
  then show ?thesis
    using digits_end_bounds(1) [of 0 z] digits_end_bounds(1) [of "?i + 1" z] digits_end_bounds(2) [of "?i + 1" z]
      at_in_text [of z ?i]
    by (auto simp: number_point_def Let_def)
qed

lemma number_exponent_bounds:
  assumes "0 < fst p" and "fst p \<le> length z"
  shows "0 < fst (number_exponent z p) \<and> fst (number_exponent z p) \<le> length z"
proof -
  let ?i = "fst p"
  have "?i + 2 \<le> length z" if "sqlite3Isdigit (at z (?i + 1)) \<or> sqlite3Isdigit (at z (?i + 2))"
    using that at_in_text [of z "?i + 1"] at_in_text [of z "?i + 2"] by (metis IdChar_nul(2) Suc_eq_plus1
        Suc_leI add_2_eq_Suc' less_imp_le_nat)
  then show ?thesis
    using assms digits_end_bounds(1) [of "?i + 2" z] digits_end_bounds(2) [of "?i + 2" z]
    by (auto simp: number_exponent_def Let_def)
qed

lemma number_token_bounds:
  assumes "z \<noteq> []" and "sqlite3Isdigit (at z 0) \<or> at z 0 = CHR ''.''"
  shows "0 < fst (number_token z) \<and> fst (number_token z) \<le> length z"
proof -
  let ?e = "number_exponent z (number_point z)"
  have "0 < fst ?e \<and> fst ?e \<le> length z"
    using number_exponent_bounds number_point_bounds [OF assms] by blast
  moreover have "3 \<le> length z" if "sqlite3Isxdigit (at z 2)"
    using that at_in_text [of z 2] by (metis IdChar_nul(3) Suc_leI eval_nat_numeral(3))
  ultimately show ?thesis
    using takeWhile_reach [of "fst ?e" z IdChar] takeWhile_reach [of 3 z sqlite3Isxdigit]
    by (auto simp: number_token_def case_prod_beta Let_def)
qed

lemma id_token_bounds: "0 < i \<Longrightarrow> i \<le> length z \<Longrightarrow> 0 < fst (id_token i z) \<and> fst (id_token i z) \<le> length z"
  using takeWhile_reach [of i z IdChar] by (simp add: id_token_def)

lemma keyword_token_bounds:
  assumes "1 \<le> length z"
  shows "0 < fst (keyword_token z) \<and> fst (keyword_token z) \<le> length z"
proof -
  let ?i = "1 + length (takeWhile (\<lambda>c. aiClass c = CC_X \<or> aiClass c = CC_KYWD) (drop 1 z))"
  have "?i \<le> length z" by (rule takeWhile_reach [OF assms])
  moreover have "IdChar (at z ?i) \<Longrightarrow> ?i + 1 \<le> length z" using at_in_text [of z ?i] by fastforce
  ultimately show ?thesis using id_token_bounds [of "?i + 1" z] by (simp add: keyword_token_def Let_def)
qed

lemma blob_token_bounds:
  assumes "2 \<le> length z"
  shows "0 < fst (blob_token z) \<and> fst (blob_token z) \<le> length z"
proof -
  let ?i = "2 + length (takeWhile sqlite3Isxdigit (drop 2 z))"
  have "?i \<le> length z" by (rule takeWhile_reach [OF assms])
  then show ?thesis using takeWhile_reach [of ?i z "\<lambda>c. c \<noteq> CHR 0x27"] by (auto simp: blob_token_def Let_def)
qed

lemma token_bounds:
  assumes c: "at z 0 \<noteq> CHR 0x00"
  shows "0 < fst (sqlite3GetToken z) \<and> fst (sqlite3GetToken z) \<le> length z"
proof -
  have ne: "z \<noteq> []" using c by auto
  then have one: "1 \<le> length z" by (cases z) simp_all
  have two: "at z 1 \<noteq> CHR 0x00 \<Longrightarrow> 2 \<le> length z" using at_in_text [of z 1] by simp
  have q: "fst (quoted_length (at z 0) (drop 1 z)) \<le> length z - 1"
    using quoted_length_le [OF c, of "drop 1 z"] by simp
  have q2: "1 + length (takeWhile P (drop 1 z)) + (if at z (1 + length (takeWhile P (drop 1 z))) = CHR '']'' then 1 else 0) \<le> length z" for P
    using takeWhile_reach [OF one, of P] at_in_text [of z "1 + length (takeWhile P (drop 1 z))"] by auto
  have v: "fst (variable_length 0 (drop 1 z)) \<le> length z - 1" using variable_length_le [of 0 "drop 1 z"] by simp
  have nul: "aiClass (at z 0) \<noteq> CC_NUL" using c by (simp add: aiClass_nul)
  have digit: "sqlite3Isdigit (at z 0)" if "aiClass (at z 0) = CC_DIGIT" using that by (auto simp: aiClass_def Let_def split: if_splits)
  have dot: "at z 0 = CHR ''.''" if "aiClass (at z 0) = CC_DOT"
  proof -
    have "char_code (at z 0) = char_code CHR ''.''" using that by (simp add: aiClass_def Let_def char_code_def split: if_splits)
    then show ?thesis by (metis char_of_char char_code_def)
  qed
  note facts = sqlite3GetToken_def case_prod_beta Let_def
  have space: "\<And>P. 1 + length (takeWhile P (drop 1 z)) \<le> length z" by (rule takeWhile_reach [OF one])
  show ?thesis
  proof (cases "aiClass (at z 0)")
    case CC_X then show ?thesis using two blob_token_bounds [of z] id_token_bounds [of 1 z] one by (auto simp: facts)
  next
    case CC_KYWD then show ?thesis using keyword_token_bounds [OF one] by (simp add: facts)
  next
    case CC_ID then show ?thesis using id_token_bounds [of 1 z] one by (simp add: facts)
  next
    case CC_DIGIT then show ?thesis using number_token_bounds [OF ne] digit by (simp add: facts)
  next
    case CC_DOT then show ?thesis using number_token_bounds [OF ne] dot one by (simp add: facts)
  next
    case CC_DOLLAR then show ?thesis using v one by (simp add: facts)
  next
    case CC_VARALPHA then show ?thesis using v one by (simp add: facts)
  next
    case CC_VARNUM then show ?thesis using space by (simp add: facts)
  next
    case CC_SPACE then show ?thesis using space by (simp add: facts)
  next
    case CC_QUOTE then show ?thesis using q one by (simp add: facts)
  next
    case CC_QUOTE2 then show ?thesis using q2 [of "\<lambda>c. c \<noteq> CHR '']''"] by (simp add: facts split: if_splits)
  next
    case CC_MINUS then show ?thesis using two one takeWhile_reach [of 2 z "\<lambda>c. c \<noteq> CHR ''\<newline>''"] by (simp add: facts)
  next
    case CC_SLASH then show ?thesis using one comment_length_le [of "at z 2" "drop 3 z"] by (auto simp: facts)
  next
    case CC_NUL then show ?thesis using nul by simp
  qed (use one two in \<open>simp_all add: facts\<close>)
qed

lemma token_nul: "at z 0 = CHR 0x00 \<Longrightarrow> sqlite3GetToken z = (0, TK_ILLEGAL)"
  by (simp add: sqlite3GetToken_def aiClass_def)

lemma token_empty_iff: "fst (sqlite3GetToken z) = 0 \<longleftrightarrow> at z 0 = CHR 0x00"
  using token_bounds [of z] token_nul [of z] by force

subsection \<open>Cutting a procedure into commands\<close>

text \<open>The loop of \<^verbatim>\<open>skip_sql_command\<close> and \<^verbatim>\<open>skip_delimited_sql_command\<close>: the number of bytes before the first token of
  a type, and whether there is one.\<close>

function token_end :: "nat \<Rightarrow> string \<Rightarrow> nat \<times> bool" where
  "token_end delimiter sql =
     (let (n, token_type) = sqlite3GetToken sql in
      if n = 0 then (0, False)
      else if token_type = delimiter then (0, True)
      else let (m, found) = token_end delimiter (drop n sql) in (n + m, found))"
  by pat_completeness auto
termination
proof (relation "measure (length \<circ> snd)")
  fix delimiter sql x n t
  assume "x = sqlite3GetToken sql" "(n, t) = x" "n \<noteq> 0"
  then have "sql \<noteq> []" "n \<noteq> 0" by auto
  then show "((delimiter, drop n sql), delimiter, sql) \<in> measure (length \<circ> snd)" by simp
qed simp

declare token_end.simps [simp del]

definition skip_sql_command :: "string \<Rightarrow> nat \<times> string" where
  "skip_sql_command sql =
     (let (n, found) = token_end TK_SEMI sql in (n, if found then drop (n + 1) sql else drop n sql))"

definition skip_delimited_sql_command :: "string \<Rightarrow> nat \<Rightarrow> nat \<Rightarrow> (nat \<times> string) option" where
  "skip_delimited_sql_command sql delimiter ndelim =
     (let (n, found) = token_end delimiter sql in
      if found then Some (n, skip_spaces (drop (n + ndelim) sql)) else None)"

lemma token_end_le: "fst (token_end delimiter sql) \<le> length sql"
proof (induction delimiter sql rule: token_end.induct)
  case (1 delimiter sql)
  obtain n t where nt: "sqlite3GetToken sql = (n, t)" by force
  show ?case
  proof (cases "n = 0 \<or> t = delimiter")
    case True
    with nt show ?thesis by (subst token_end.simps) auto
  next
    case False
    have "fst (token_end delimiter (drop n sql)) \<le> length (drop n sql)"
      using 1 [OF nt [symmetric]] False by blast
    moreover have "n \<le> length sql" using token_bounds [of sql] nt False token_nul [of sql] by fastforce
    ultimately show ?thesis using nt False by (subst token_end.simps) (simp add: case_prod_beta)
  qed
qed

lemma length_skip_spaces [simp]: "length (skip_spaces z) \<le> length z"
  by (simp add: skip_spaces_def length_dropWhile_le)

end
