(* ===== verification/Proc_Data.thy ===== *)
theory Proc_Data
  imports Sql_Tokens Special_Commands
begin

section \<open>Stored procedures: values, lists and variables\<close>

text \<open>
  The data of \<^verbatim>\<open>core/stored_proc.c\<close>. A value is SQLite's \<^verbatim>\<open>sqlite3_value\<close>; a list is an object in a heap and a
  value holds a pointer to it, because a variable and a command can share one list. Memory is never
  short and what is released is not used again, so releases are left out. The texts of error messages are
  left out too; the error codes are modelled. A floating-point number keeps the text of its token.
\<close>

type_synonym list_ptr = nat

datatype sql_value =
    Null
  | Integer int
  | Real string
  | Text string
  | Blob bytes
  | Var_Name string
  | Var_Number int
  | List list_ptr

type_synonym heap = "sql_value list list"

definition get_list_from_value :: "sql_value \<Rightarrow> list_ptr option" where
  "get_list_from_value v = (case v of List p \<Rightarrow> Some p | _ \<Rightarrow> None)"

definition is_list :: "sql_value \<Rightarrow> bool" where
  "is_list v \<longleftrightarrow> get_list_from_value v \<noteq> None"

subsection \<open>Constants\<close>

text \<open>\<^verbatim>\<open>sqlite3Atoi64\<close>: blanks, a sign, digits; numbers out of the range of 64 bits are moved into it.\<close>

definition sqlite3Atoi64 :: "string \<Rightarrow> int" where
  "sqlite3Atoi64 s =
     (let z = skip_spaces s; neg = (at z 0 = CHR ''-'');
          z = (if neg \<or> at z 0 = CHR ''+'' then drop 1 z else z);
          u = int (digits_value z) in
      if neg then max (- (2 ^ 63)) (- u) else min (2 ^ 63 - 1) u)"

text \<open>\<^verbatim>\<open>sqlite3Dequote\<close> on the text after the opening quote.\<close>

fun dequote_rest :: "char \<Rightarrow> string \<Rightarrow> string" where
  "dequote_rest quote [] = []"
| "dequote_rest quote (c # z) =
     (if c = quote then if at z 0 = quote then quote # dequote_rest quote (drop 1 z) else []
      else c # dequote_rest quote z)"

definition sqlite3Dequote :: "string \<Rightarrow> string" where
  "sqlite3Dequote z =
     (case z of [] \<Rightarrow> []
      | q # rest \<Rightarrow> if \<not> sqlite3Isquote q then z else dequote_rest (if q = CHR ''['' then CHR '']'' else q) rest)"

definition sqlite3HexToInt :: "char \<Rightarrow> u8" where
  "sqlite3HexToInt c = (let h = word_of_nat (char_code c) :: u8 in (h + 9 * (1 AND drop_bit 6 h)) AND 15)"

fun sqlite3HexToBlob2 :: "string \<Rightarrow> bytes" where
  "sqlite3HexToBlob2 (a # b # z) = (push_bit 4 (sqlite3HexToInt a) OR sqlite3HexToInt b) # sqlite3HexToBlob2 z"
| "sqlite3HexToBlob2 _ = []"

text \<open>The value of one token, with the text after it. A minus sign must be followed by its number at once.\<close>

definition sqlite3ValueFromToken :: "string \<Rightarrow> nat \<Rightarrow> nat \<Rightarrow> (sql_value \<times> string) option" where
  "sqlite3ValueFromToken zToken nToken tk =
     (let (m, t) = sqlite3GetToken (drop 1 zToken) in
      if tk = TK_MINUS \<and> t \<noteq> TK_INTEGER \<and> t \<noteq> TK_FLOAT then None
      else
        let (n, tk) = (if tk = TK_MINUS then (m + 1, t) else (nToken, tk));
            z = take n zToken;
            value = (if tk = TK_INTEGER then Some (Integer (sqlite3Atoi64 z))
                     else if tk = TK_FLOAT then Some (Real z)
                     else if tk = TK_STRING then Some (Text (sqlite3Dequote z))
                     else if tk = TK_BLOB then Some (Blob (sqlite3HexToBlob2 (take (n - 3) (drop 2 z))))
                     else if tk = TK_ID then
                       if n = 4 \<and> sqlite3_strnicmp z ''true'' then Some (Integer 1)
                       else if n = 5 \<and> sqlite3_strnicmp z ''false'' then Some (Integer 0)
                       else if n = 4 \<and> sqlite3_strnicmp z ''null'' then Some Null
                       else None
                     else None)
        in map_option (\<lambda>v. (v, drop n zToken)) value)"

subsection \<open>Variables\<close>

text \<open>The variables of a procedure in the order in which they were added (the C list has the newest one first); a
  pointer to a variable is its position. Names are compared without regard to case.\<close>

record sqlite3_var =
  var_name :: string
  var_value :: sql_value

definition same_name :: "string \<Rightarrow> sqlite3_var \<Rightarrow> bool" where
  "same_name name v \<longleftrightarrow> length (var_name v) = length name \<and> sqlite3_strnicmp (var_name v) name"

fun find_newest :: "string \<Rightarrow> sqlite3_var list \<Rightarrow> nat \<Rightarrow> nat option" where
  "find_newest name vars 0 = None"
| "find_newest name vars (Suc i) = (if same_name name (vars ! i) then Some i else find_newest name vars i)"

definition findVariable :: "sqlite3_var list \<Rightarrow> string \<Rightarrow> nat option" where
  "findVariable vars name = (if length name > 31 then None else find_newest name vars (length vars))"

definition addVariable :: "sqlite3_var list \<Rightarrow> string \<Rightarrow> (nat \<times> sqlite3_var list) option" where
  "addVariable vars name =
     (if length name > 31 then None
      else case find_newest name vars (length vars) of
        Some i \<Rightarrow> Some (i, vars)
      | None \<Rightarrow> Some (length vars, vars @ [\<lparr>var_name = name, var_value = Null\<rparr>]))"

definition set_var :: "nat \<Rightarrow> sql_value \<Rightarrow> sqlite3_var list \<Rightarrow> sqlite3_var list" where
  "set_var i v vars = vars[i := (vars ! i)\<lparr>var_value := v\<rparr>]"

definition var_at :: "sqlite3_var list \<Rightarrow> nat \<Rightarrow> sql_value" where
  "var_at vars i = (if i < length vars then var_value (vars ! i) else Null)"

lemma find_newest_bound: "find_newest name vars n = Some i \<Longrightarrow> i < n \<and> same_name name (vars ! i)"
  by (induction n) (auto split: if_splits)

lemma find_newest_None: "find_newest name vars n = None \<longleftrightarrow> (\<forall>i<n. \<not> same_name name (vars ! i))"
  by (induction n) (auto simp: less_Suc_eq)

lemma addVariable_bound: "addVariable vars name = Some (i, vars') \<Longrightarrow> i < length vars' \<and> length vars \<le> length vars'"
  by (auto simp: addVariable_def split: if_splits option.splits dest: find_newest_bound)

lemma var_at_set_var [simp]: "var_at (set_var i v vars) j = (if i = j \<and> i < length vars then v else var_at vars j)"
  by (simp add: var_at_def set_var_def nth_list_update)

lemma length_set_var [simp]: "length (set_var i v vars) = length vars"
  by (simp add: set_var_def)

subsection \<open>Lists\<close>

text \<open>The loop of \<^verbatim>\<open>parse_list\<close> after the opening bracket. In a procedure every variable in the list must exist. The
  test that the text gets shorter is always true and makes the recursion well-founded.\<close>

function parse_values ::
  "sqlite3_var list option \<Rightarrow> char \<Rightarrow> string \<Rightarrow> sql_value list \<Rightarrow> heap \<Rightarrow> (rc + sql_value list \<times> string) \<times> heap" where
  "parse_values vars list_close sql values heap =
     (let (n, tokenType) = sqlite3GetToken sql;
          unknown = (case vars of None \<Rightarrow> False | Some vs \<Rightarrow> findVariable vs (take n sql) = None) in
      if tokenType \<noteq> TK_VARIABLE \<and> at sql 0 \<noteq> CHR ''['' \<and> n = 1 \<and> at sql 0 = list_close
      then (Inr (values, skip_spaces (drop 1 sql)), heap)
      else
        case (if tokenType = TK_VARIABLE then
                (if unknown then (None, heap) else (Some (Var_Name (take n sql), drop n sql), heap))
              else if at sql 0 = CHR ''['' then
                (if sql = [] then (None, heap)
                 else case parse_values vars CHR '']'' (skip_spaces (drop 1 sql)) [] heap of
                   (Inl rc, heap) \<Rightarrow> (None, heap)
                 | (Inr (vs, rest), heap) \<Rightarrow> (Some (List (length heap), rest), heap @ [vs]))
              else (sqlite3ValueFromToken sql n tokenType, heap)) of
          (None, heap) \<Rightarrow> (Inl SQLITE_ERROR, heap)
        | (Some (value, rest), heap) \<Rightarrow>
            (let rest = skip_spaces rest in
             if at rest 0 = CHR '','' then
               (if length (drop 1 rest) < length sql
                then parse_values vars list_close (skip_spaces (drop 1 rest)) (values @ [value]) heap
                else (Inl SQLITE_ERROR, heap))
             else if at rest 0 = list_close then (Inr (values @ [value], skip_spaces (drop 1 rest)), heap)
             else (Inl SQLITE_ERROR, heap)))"
  by pat_completeness auto
termination
  by (relation "measure (\<lambda>(_, _, sql, _). length sql)")
    (auto simp del: length_skip_spaces intro: le_less_trans [OF length_skip_spaces])

declare parse_values.simps [simp del]

definition parse_list ::
  "sqlite3_var list option \<Rightarrow> bool \<Rightarrow> string \<Rightarrow> heap \<Rightarrow> (rc + list_ptr \<times> string) \<times> heap" where
  "parse_list vars is_function sql heap =
     (let list_open = (if is_function then CHR ''('' else CHR ''['');
          list_close = (if is_function then CHR '')'' else CHR '']'');
          sql = skip_spaces sql in
      if at sql 0 \<noteq> list_open then (Inl SQLITE_ERROR, heap)
      else case parse_values vars list_close (skip_spaces (drop 1 sql)) [] heap of
        (Inl rc, heap) \<Rightarrow> (Inl rc, heap)
      | (Inr (values, rest), heap) \<Rightarrow> (Inr (length heap, rest), heap @ [values]))"

end
