(* ===== verification/Proc_Parser.thy ===== *)
theory Proc_Parser
  imports Proc_Data
begin

section \<open>Stored procedures: the parser\<close>

text \<open>
  The parser of \<^verbatim>\<open>core/stored_proc.c\<close>: the array of commands of a procedure, the two global stacks of open IF
  and LOOP blocks through which the commands of a block are linked to each other, and one function per
  command. A parse function takes the position of its command, the text and the state, and returns the
  text that is left or an error code, with the new state; \<^term>\<open>None\<close> is an access outside of the array of
  commands. The stacks are global variables: they keep what an earlier parse has left.
\<close>

datatype cmd_type =
    CMD_TYPE_NONE | CMD_TYPE_DECLARE | CMD_TYPE_SET | CMD_TYPE_STATEMENT | CMD_TYPE_RETURN | CMD_TYPE_RAISE
  | CMD_TYPE_ASSERT | CMD_TYPE_IF | CMD_TYPE_ELSEIF | CMD_TYPE_ELSE | CMD_TYPE_ENDIF | CMD_TYPE_LOOP
  | CMD_TYPE_ENDLOOP | CMD_TYPE_BREAK | CMD_TYPE_CONTINUE | CMD_TYPE_FOREACH

record 'stmt command =
  cmd_type :: cmd_type
  cmd_sql :: "string option"
  cmd_nsql :: nat
  cmd_sql2 :: "string option"
  cmd_nsql2 :: nat
  cmd_stmt :: "'stmt option"
  input_list :: "list_ptr option"
  input_var :: "nat option"
  current_item :: nat
  store_as_list :: bool
  dynamic_sql :: bool
  executed :: bool
  next_if_cmd :: nat
  related_cmd :: nat
  cmd_vars :: "nat list"

record 'stmt stored_proc =
  proc_name :: string
  is_function :: bool
  cmds :: "'stmt command list"
  num_cmds :: nat
  proc_vars :: "sqlite3_var list"
  params :: "nat list"
  result_list :: "list_ptr option"
  current_row :: int
  saved_mem :: "sql_value list option"

record if_block =
  first_cmd :: nat
  last_cmd :: nat

record 'stmt parser =
  procedure :: "'stmt stored_proc"
  if_stack :: "if_block list"
  loop_stack :: "nat list"
  lists :: heap

type_synonym 'stmt parsed = "(rc + string) \<times> 'stmt parser"

definition zero_command :: "'stmt command" where
  "zero_command = \<lparr>cmd_type = CMD_TYPE_NONE, cmd_sql = None, cmd_nsql = 0, cmd_sql2 = None, cmd_nsql2 = 0, cmd_stmt = None, input_list = None,
     input_var = None, current_item = 0, store_as_list = False, dynamic_sql = False, executed = False,
     next_if_cmd = 0, related_cmd = 0, cmd_vars = []\<rparr>"

definition zero_procedure :: "'stmt stored_proc" where
  "zero_procedure = \<lparr>proc_name = [], is_function = False, cmds = [], num_cmds = 0, proc_vars = [], params = [],
     result_list = None, current_row = 0, saved_mem = None\<rparr>"

text \<open>\<^verbatim>\<open>procedure->cmds[i]\<close> with an assignment to one of its fields.\<close>

definition upd_cmd :: "nat \<Rightarrow> ('stmt command \<Rightarrow> 'stmt command) \<Rightarrow> 'stmt parser \<Rightarrow> 'stmt parser" where
  "upd_cmd i f s = s\<lparr>procedure := (procedure s)\<lparr>cmds := (cmds (procedure s))[i := f (cmds (procedure s) ! i)]\<rparr>\<rparr>"

definition in_array :: "nat \<Rightarrow> 'stmt parser \<Rightarrow> bool" where
  "in_array i s \<longleftrightarrow> i < length (cmds (procedure s))"

definition set_vars :: "sqlite3_var list \<Rightarrow> 'stmt parser \<Rightarrow> 'stmt parser" where
  "set_vars vs s = s\<lparr>procedure := (procedure s)\<lparr>proc_vars := vs\<rparr>\<rparr>"

text \<open>The array begins with 16 slots of zeros and doubles; a slot keeps what is in it when its command is added.\<close>

definition new_command :: "cmd_type \<Rightarrow> 'stmt stored_proc \<Rightarrow> nat \<times> 'stmt stored_proc" where
  "new_command type p =
     (let cs = (if cmds p = [] then replicate 16 zero_command
                else if num_cmds p = length (cmds p) then cmds p @ replicate (length (cmds p)) zero_command
                else cmds p);
          pos = num_cmds p
      in (pos, p\<lparr>cmds := cs[pos := (cs ! pos)\<lparr>cmd_type := type\<rparr>], num_cmds := pos + 1\<rparr>))"

subsection \<open>Lists of variables\<close>

function parse_variables_loop ::
  "bool \<Rightarrow> string \<Rightarrow> nat list \<Rightarrow> sqlite3_var list \<Rightarrow> (rc + nat list \<times> string) \<times> sqlite3_var list" where
  "parse_variables_loop expect_type sql used vs =
     (if sql = [] then (Inr (used, []), vs)
      else
        let sql' = skip_spaces sql; (n, tokenType) = sqlite3GetToken sql' in
        if tokenType \<noteq> TK_VARIABLE then (Inl SQLITE_ERROR, vs)
        else case addVariable vs (take n sql') of
            None \<Rightarrow> (Inl SQLITE_ERROR, vs)
          | Some (var, vs) \<Rightarrow>
              if var \<in> set used then (Inl SQLITE_ERROR, vs)
              else
                let rest = skip_spaces (drop n sql');
                    (m, t) = sqlite3GetToken rest;
                    rest = (if t = TK_ID \<and> expect_type then drop m rest else rest);
                    (m, t) = sqlite3GetToken rest
                in if t = TK_COMMA then parse_variables_loop expect_type (drop m rest) (used @ [var]) vs
                   else (Inr (used @ [var], skip_spaces rest), vs))"
  by pat_completeness auto
termination
proof (relation "measure (\<lambda>(_, sql, _). length sql)")
  fix expect_type :: bool and sql :: string and used :: "nat list" and vs vs' :: "sqlite3_var list"
    and z y n t x2 x y' var m' t' w w' m tk rest
  assume a: "sql \<noteq> []" "z = skip_spaces sql" "y = sqlite3GetToken z" "(n, t) = y" "\<not> t \<noteq> TK_VARIABLE"
    and rest: "rest = skip_spaces (drop n z)" "w = (if t' = TK_ID \<and> expect_type then drop m' rest else rest)"
  have "n \<noteq> 0"
  proof
    assume "n = 0"
    then have "at z 0 = CHR 0x00" using a token_empty_iff [of z] by (metis fst_conv)
    then show False using a token_nul [of z] by simp
  qed
  moreover have "z \<noteq> []" using a by auto
  ultimately have "length (drop n z) < length z" by simp
  then have "length (drop n z) < length sql" unfolding a(2) using length_skip_spaces [of sql] by (rule less_le_trans)
  moreover have "length w \<le> length (drop n z)" using rest length_skip_spaces [of "drop n z"] by auto
  ultimately show "((expect_type, drop m w, used @ [var], vs'), expect_type, sql, used, vs) \<in> measure (\<lambda>(_, sql, _). length sql)"
    by auto
qed auto

declare parse_variables_loop.simps [simp del]

definition parse_variables_list ::
  "'stmt parser \<Rightarrow> nat option \<Rightarrow> string \<Rightarrow> (rc + nat list \<times> string) \<times> 'stmt parser" where
  "parse_variables_list s cmd_pos sql =
     (let expect_type = (case cmd_pos of None \<Rightarrow> True
                         | Some pos \<Rightarrow> cmd_type (cmds (procedure s) ! pos) = CMD_TYPE_DECLARE);
          (res, vs) = parse_variables_loop expect_type sql [] (proc_vars (procedure s))
      in (res, set_vars vs s))"

subsection \<open>Commands without blocks\<close>

definition parseDeclareStatement :: "nat \<Rightarrow> string \<Rightarrow> 'stmt parser \<Rightarrow> 'stmt parsed" where
  "parseDeclareStatement pos sql s =
     (case parse_variables_list s (Some pos) (skip_spaces (drop 7 sql)) of
        (Inl rc, s) \<Rightarrow> (Inl rc, s)
      | (Inr (_, sql), s) \<Rightarrow>
          (let sql = skip_spaces sql in
           if at sql 0 \<noteq> CHR '';'' then (Inl SQLITE_ERROR, s) else (Inr (drop 1 sql), s)))"

text \<open>\<^verbatim>\<open>SET\<close>: a list, a statement in parentheses whose rows are stored as a list, or a statement or expression.\<close>

definition parse_set_input :: "nat \<Rightarrow> nat \<Rightarrow> string \<Rightarrow> 'stmt parser \<Rightarrow> 'stmt parsed" where
  "parse_set_input pos num_vars sql s =
     (if at sql 0 = CHR ''['' then
        (let s = upd_cmd pos (\<lambda>c. c\<lparr>store_as_list := True\<rparr>) s;
             (res, heap) = parse_list (Some (proc_vars (procedure s))) False sql (lists s);
             s = s\<lparr>lists := heap\<rparr> in
         case res of
           Inl rc \<Rightarrow> (Inl rc, s)
         | Inr (list, sql) \<Rightarrow>
             (let s = upd_cmd pos (\<lambda>c. c\<lparr>input_list := Some list\<rparr>) s in
              if at sql 0 \<noteq> CHR '';'' then (Inl SQLITE_ERROR, s) else (Inr (drop 1 sql), s)))
      else
        let (n, tokenType) = sqlite3GetToken sql;
            as_list = (tokenType = TK_LP);
            sql = (if as_list then skip_spaces (drop n sql) else sql);
            (nsql, rest) = skip_sql_command sql;
            s = upd_cmd pos (\<lambda>c. c\<lparr>store_as_list := store_as_list c \<or> as_list, cmd_sql := Some sql,
                                      cmd_nsql := if as_list then nsql - 1 else nsql\<rparr>) s
        in if as_list \<and> (nsql = 0 \<or> at sql (nsql - 1) \<noteq> CHR '')'') then (Inl SQLITE_ERROR, s)
           else if as_list \<and> num_vars \<noteq> 1 then (Inl SQLITE_ERROR, s)
           else (Inr rest, s))"

definition parseSetStatement :: "nat \<Rightarrow> string \<Rightarrow> 'stmt parser \<Rightarrow> 'stmt parsed" where
  "parseSetStatement pos sql s =
     (case parse_variables_list s (Some pos) (skip_spaces (drop 4 sql)) of
        (Inl rc, s) \<Rightarrow> (Inl rc, s)
      | (Inr (used_vars, sql), s) \<Rightarrow>
          if at sql 0 \<noteq> CHR ''='' then (Inl SQLITE_ERROR, s)
          else case parse_set_input pos (length used_vars) (skip_spaces (drop 1 sql)) s of
              (Inl rc, s) \<Rightarrow> (Inl rc, s)
            | (Inr sql, s) \<Rightarrow> (Inr (skip_spaces sql), upd_cmd pos (\<lambda>c. c\<lparr>cmd_vars := used_vars\<rparr>) s))"

text \<open>\<^verbatim>\<open>RETURN\<close>: nothing, variables, or an expression; what is not a list of variables is an expression.\<close>

definition parseReturnStatement :: "nat \<Rightarrow> string \<Rightarrow> 'stmt parser \<Rightarrow> 'stmt parsed" where
  "parseReturnStatement pos sql s =
     (let expression = skip_spaces (drop 6 sql) in
      if at expression 0 = CHR '';'' then (Inr (skip_spaces (drop 1 expression)), s)
      else
        let (res, s) = parse_variables_list s (Some pos) expression;
            (nsql, rest) = skip_sql_command expression;
            as_expression = (Inr (skip_spaces rest), upd_cmd pos (\<lambda>c. c\<lparr>cmd_sql := Some expression, cmd_nsql := nsql\<rparr>) s)
        in case res of
             Inl rc \<Rightarrow> as_expression
           | Inr (used_vars, sql) \<Rightarrow>
               if at sql 0 = CHR '';''
               then (Inr (skip_spaces (drop 1 sql)), upd_cmd pos (\<lambda>c. c\<lparr>cmd_vars := used_vars\<rparr>) s)
               else as_expression)"

definition parseRaiseStatement :: "nat \<Rightarrow> string \<Rightarrow> 'stmt parser \<Rightarrow> 'stmt parsed" where
  "parseRaiseStatement pos sql s =
     (let sql = skip_spaces (drop 5 sql) in
      if \<not> sqlite3_strnicmp sql ''EXCEPTION'' then (Inl SQLITE_ERROR, s)
      else
        let sql = skip_spaces (drop 9 sql); (nsql, rest) = skip_sql_command sql in
        (Inr (skip_spaces rest), upd_cmd pos (\<lambda>c. c\<lparr>cmd_sql := Some sql, cmd_nsql := nsql\<rparr>) s))"

definition parseAssertStatement :: "nat \<Rightarrow> string \<Rightarrow> 'stmt parser \<Rightarrow> 'stmt parsed" where
  "parseAssertStatement pos sql s =
     (let sql = skip_spaces (drop 6 sql) in
      case skip_delimited_sql_command sql TK_COMMA 1 of
        None \<Rightarrow> (Inl SQLITE_ERROR, s)
      | Some (n, message) \<Rightarrow>
          (case skip_delimited_sql_command message TK_SEMI 1 of
             None \<Rightarrow> (Inl SQLITE_ERROR, s)
           | Some (n2, rest) \<Rightarrow>
               (Inr (skip_spaces rest), upd_cmd pos (\<lambda>c. c\<lparr>cmd_sql := Some sql, cmd_nsql := n,
                                                         cmd_sql2 := Some message, cmd_nsql2 := n2\<rparr>) s)))"

subsection \<open>IF blocks\<close>

text \<open>The links of a block: IF, ELSEIF and ELSE point to the next one and the last one to END IF; ELSEIF and ELSE point back
  to IF. The block on the top of the stack is the one that is open.\<close>

definition link_if :: "nat \<Rightarrow> 'stmt parser \<Rightarrow> 'stmt parser" where
  "link_if pos s = s\<lparr>if_stack := \<lparr>first_cmd = pos, last_cmd = pos\<rparr> # if_stack s\<rparr>"

definition link_else :: "nat \<Rightarrow> 'stmt parser \<Rightarrow> (rc + 'stmt parser) option" where
  "link_else pos s =
     (case if_stack s of
        [] \<Rightarrow> Some (Inl SQLITE_ERROR)
      | ifb # rest \<Rightarrow>
          if \<not> in_array (last_cmd ifb) s then None
          else Some (Inr ((upd_cmd (last_cmd ifb) (\<lambda>c. c\<lparr>next_if_cmd := pos\<rparr>)
                 (upd_cmd pos (\<lambda>c. c\<lparr>related_cmd := first_cmd ifb\<rparr>) s))\<lparr>if_stack := ifb\<lparr>last_cmd := pos\<rparr> # rest\<rparr>)))"

definition link_endif :: "nat \<Rightarrow> 'stmt parser \<Rightarrow> (rc + 'stmt parser) option" where
  "link_endif pos s =
     (case if_stack s of
        [] \<Rightarrow> Some (Inl SQLITE_ERROR)
      | ifb # rest \<Rightarrow>
          if \<not> in_array (last_cmd ifb) s then None
          else Some (Inr ((upd_cmd (last_cmd ifb) (\<lambda>c. c\<lparr>next_if_cmd := pos\<rparr>) s)\<lparr>if_stack := rest\<rparr>)))"

definition parse_condition :: "nat \<Rightarrow> string \<Rightarrow> 'stmt parser \<Rightarrow> 'stmt parsed" where
  "parse_condition pos sql s =
     (case skip_delimited_sql_command sql TK_THEN 4 of
        None \<Rightarrow> (Inl SQLITE_ERROR, s)
      | Some (n, rest) \<Rightarrow> (Inr rest, upd_cmd pos (\<lambda>c. c\<lparr>cmd_sql := Some sql, cmd_nsql := n\<rparr>) s))"

definition parseIfStatement :: "nat \<Rightarrow> string \<Rightarrow> 'stmt parser \<Rightarrow> 'stmt parsed" where
  "parseIfStatement pos sql s = parse_condition pos (skip_spaces (drop 2 sql)) (link_if pos s)"

definition parseElseIfStatement :: "nat \<Rightarrow> string \<Rightarrow> 'stmt parser \<Rightarrow> 'stmt parsed option" where
  "parseElseIfStatement pos sql s =
     (case link_else pos s of
        None \<Rightarrow> None
      | Some (Inl rc) \<Rightarrow> Some (Inl rc, s)
      | Some (Inr s) \<Rightarrow> Some (parse_condition pos (skip_spaces (drop 6 sql)) s))"

definition parseElseStatement :: "nat \<Rightarrow> string \<Rightarrow> 'stmt parser \<Rightarrow> 'stmt parsed option" where
  "parseElseStatement pos sql s =
     (case link_else pos s of
        None \<Rightarrow> None
      | Some (Inl rc) \<Rightarrow> Some (Inl rc, s)
      | Some (Inr s) \<Rightarrow> Some (Inr (skip_spaces (drop 4 sql)), s))"

definition parseEndIfStatement :: "nat \<Rightarrow> string \<Rightarrow> 'stmt parser \<Rightarrow> 'stmt parsed option" where
  "parseEndIfStatement pos sql s =
     (case link_endif pos s of
        None \<Rightarrow> None
      | Some (Inl rc) \<Rightarrow> Some (Inl rc, s)
      | Some (Inr s) \<Rightarrow> Some (Inr (skip_spaces (drop 7 sql)), s))"

subsection \<open>Loops\<close>

text \<open>The links of a loop: LOOP or FOREACH points to END LOOP, and END LOOP, BREAK and CONTINUE point to LOOP or
  FOREACH. The kind of the block is stored by the code and never read.\<close>

definition link_loop :: "nat \<Rightarrow> 'stmt parser \<Rightarrow> 'stmt parser" where
  "link_loop pos s = s\<lparr>loop_stack := pos # loop_stack s\<rparr>"

definition link_endloop :: "nat \<Rightarrow> 'stmt parser \<Rightarrow> (rc + 'stmt parser) option" where
  "link_endloop pos s =
     (case loop_stack s of
        [] \<Rightarrow> Some (Inl SQLITE_ERROR)
      | start # rest \<Rightarrow>
          if \<not> in_array start s then None
          else Some (Inr ((upd_cmd pos (\<lambda>c. c\<lparr>related_cmd := start\<rparr>)
                 (upd_cmd start (\<lambda>c. c\<lparr>related_cmd := pos\<rparr>) s))\<lparr>loop_stack := rest\<rparr>)))"

definition link_jump :: "nat \<Rightarrow> nat \<Rightarrow> 'stmt parser \<Rightarrow> 'stmt parser option" where
  "link_jump pos level s =
     (if level - 1 < length (loop_stack s)
      then Some (upd_cmd pos (\<lambda>c. c\<lparr>related_cmd := loop_stack s ! (level - 1)\<rparr>) s) else None)"

definition parseLoopStatement :: "nat \<Rightarrow> string \<Rightarrow> 'stmt parser \<Rightarrow> 'stmt parsed" where
  "parseLoopStatement pos sql s = (Inr (skip_spaces (drop 4 sql)), link_loop pos s)"

definition parseEndLoopStatement :: "nat \<Rightarrow> string \<Rightarrow> 'stmt parser \<Rightarrow> 'stmt parsed option" where
  "parseEndLoopStatement pos sql s =
     (case link_endloop pos s of
        None \<Rightarrow> None
      | Some (Inl rc) \<Rightarrow> Some (Inl rc, s)
      | Some (Inr s) \<Rightarrow> Some (Inr (skip_spaces (drop 9 sql)), s))"

text \<open>\<^verbatim>\<open>parseBreakStatement\<close> and \<^verbatim>\<open>parseContinueStatement\<close> differ in the length of the word only. Level 0 is level 1.\<close>

definition parse_jump :: "nat \<Rightarrow> nat \<Rightarrow> string \<Rightarrow> 'stmt parser \<Rightarrow> 'stmt parsed" where
  "parse_jump word pos sql s =
     (let sql = skip_spaces (drop word sql);
          digit = sqlite3Isdigit (at sql 0);
          level = (if digit then digits_value sql else 1) in
      case link_jump pos level s of
        None \<Rightarrow> (Inl SQLITE_ERROR, s)
      | Some s \<Rightarrow>
          (let sql = (if digit then skip_spaces (dropWhile sqlite3Isdigit sql) else sql) in
           if at sql 0 \<noteq> CHR '';'' then (Inl SQLITE_ERROR, s) else (Inr (drop 1 sql), s)))"

definition parseBreakStatement :: "nat \<Rightarrow> string \<Rightarrow> 'stmt parser \<Rightarrow> 'stmt parsed" where
  "parseBreakStatement pos sql s = parse_jump 5 pos sql s"

definition parseContinueStatement :: "nat \<Rightarrow> string \<Rightarrow> 'stmt parser \<Rightarrow> 'stmt parsed" where
  "parseContinueStatement pos sql s = parse_jump 8 pos sql s"

text \<open>\<^verbatim>\<open>FOREACH\<close>: the variables (or VALUE, then the columns become variables), and the input: a list, a variable
  or a statement up to the keyword DO.\<close>

definition foreach_end :: "nat \<Rightarrow> string \<Rightarrow> 'stmt parser \<Rightarrow> 'stmt parsed" where
  "foreach_end num_vars sql s =
     (let sql = skip_spaces sql in
      if num_vars = 0 then (Inl SQLITE_ERROR, s)
      else if \<not> sqlite3_strnicmp sql ''DO'' \<or> \<not> sqlite3Isspace (at sql 2) then (Inl SQLITE_ERROR, s)
      else (Inr (skip_spaces (drop 3 sql)), s))"

definition foreach_input :: "nat \<Rightarrow> nat \<Rightarrow> string \<Rightarrow> 'stmt parser \<Rightarrow> 'stmt parsed" where
  "foreach_input pos num_vars sql s =
     (if at sql 0 = CHR ''['' then
        (let (res, heap) = parse_list (Some (proc_vars (procedure s))) False sql (lists s);
             s = s\<lparr>lists := heap\<rparr> in
         case res of
           Inl rc \<Rightarrow> (Inl rc, s)
         | Inr (list, sql) \<Rightarrow> foreach_end num_vars sql (upd_cmd pos (\<lambda>c. c\<lparr>input_list := Some list\<rparr>) s))
      else
        let (n, tokenType) = sqlite3GetToken sql in
        if tokenType = TK_VARIABLE then
          (case findVariable (proc_vars (procedure s)) (take n sql) of
             None \<Rightarrow> (Inl SQLITE_ERROR, s)
           | Some var \<Rightarrow> foreach_end num_vars (drop n sql) (upd_cmd pos (\<lambda>c. c\<lparr>input_var := Some var\<rparr>) s))
        else
          case skip_delimited_sql_command sql TK_DO 2 of
            None \<Rightarrow> (Inl SQLITE_ERROR, s)
          | Some (nsql, rest) \<Rightarrow> (Inr rest, upd_cmd pos (\<lambda>c. c\<lparr>cmd_sql := Some sql, cmd_nsql := nsql\<rparr>) s))"

definition foreach_in :: "nat \<Rightarrow> nat list \<Rightarrow> string \<Rightarrow> 'stmt parser \<Rightarrow> 'stmt parsed" where
  "foreach_in pos used_vars sql s =
     (let s = upd_cmd pos (\<lambda>c. c\<lparr>cmd_vars := used_vars\<rparr>) s in
      if \<not> sqlite3_strnicmp sql ''IN'' \<or> \<not> sqlite3Isspace (at sql 2) then (Inl SQLITE_ERROR, s)
      else foreach_input pos (length used_vars) (skip_spaces (drop 3 sql)) s)"

definition parseForEachStatement :: "nat \<Rightarrow> string \<Rightarrow> 'stmt parser \<Rightarrow> 'stmt parsed" where
  "parseForEachStatement pos sql s =
     (let s = link_loop pos s; sql = skip_spaces (drop 7 sql) in
      if sqlite3_strnicmp sql ''VALUE'' \<and> sqlite3Isspace (at sql 5) then foreach_in pos [] (skip_spaces (drop 6 sql)) s
      else case parse_variables_list s (Some pos) sql of
          (Inl rc, s) \<Rightarrow> (Inl rc, s)
        | (Inr (used_vars, sql), s) \<Rightarrow> foreach_in pos used_vars sql s)"

subsection \<open>The body of a procedure\<close>

definition parse_new_command :: "cmd_type \<Rightarrow> string \<Rightarrow> 'stmt parser \<Rightarrow> 'stmt parsed option" where
  "parse_new_command type sql s =
     (let (pos, p) = new_command type (procedure s); s = s\<lparr>procedure := p\<rparr> in
      case type of
        CMD_TYPE_DECLARE \<Rightarrow> Some (parseDeclareStatement pos sql s)
      | CMD_TYPE_SET \<Rightarrow> Some (parseSetStatement pos sql s)
      | CMD_TYPE_RETURN \<Rightarrow> Some (parseReturnStatement pos sql s)
      | CMD_TYPE_RAISE \<Rightarrow> Some (parseRaiseStatement pos sql s)
      | CMD_TYPE_ASSERT \<Rightarrow> Some (parseAssertStatement pos sql s)
      | CMD_TYPE_IF \<Rightarrow> Some (parseIfStatement pos sql s)
      | CMD_TYPE_ELSEIF \<Rightarrow> parseElseIfStatement pos sql s
      | CMD_TYPE_ELSE \<Rightarrow> parseElseStatement pos sql s
      | CMD_TYPE_ENDIF \<Rightarrow> parseEndIfStatement pos sql s
      | CMD_TYPE_LOOP \<Rightarrow> Some (parseLoopStatement pos sql s)
      | CMD_TYPE_ENDLOOP \<Rightarrow> parseEndLoopStatement pos sql s
      | CMD_TYPE_BREAK \<Rightarrow> Some (parseBreakStatement pos sql s)
      | CMD_TYPE_CONTINUE \<Rightarrow> Some (parseContinueStatement pos sql s)
      | CMD_TYPE_FOREACH \<Rightarrow> Some (parseForEachStatement pos sql s)
      | _ \<Rightarrow> Some (Inl SQLITE_ERROR, s))"

text \<open>Any other text is an SQL statement up to the semicolon.\<close>

definition parse_sql_statement :: "string \<Rightarrow> 'stmt parser \<Rightarrow> 'stmt parsed" where
  "parse_sql_statement sql s =
     (let (pos, p) = new_command CMD_TYPE_STATEMENT (procedure s); (nsql, rest) = skip_sql_command sql in
      (Inr rest, upd_cmd pos (\<lambda>c. c\<lparr>cmd_sql := Some sql, cmd_nsql := nsql\<rparr>) (s\<lparr>procedure := p\<rparr>)))"

text \<open>The word that begins the text: a command, the end of the body (\<^term>\<open>None\<close>), or an SQL statement. Of ASSERT
  five letters are compared.\<close>

definition command_word :: "string \<Rightarrow> cmd_type option" where
  "command_word sql =
     (let word = sqlite3_strnicmp sql; space = (\<lambda>n. sqlite3Isspace (at sql n)); alpha = (\<lambda>n. sqlite3Isalpha (at sql n)) in
      if word ''DECLARE'' \<and> space 7 then Some CMD_TYPE_DECLARE
      else if word ''SET'' \<and> space 3 then Some CMD_TYPE_SET
      else if word ''RETURN'' then Some CMD_TYPE_RETURN
      else if word ''RAISE'' then Some CMD_TYPE_RAISE
      else if word ''ASSER'' then Some CMD_TYPE_ASSERT
      else if word ''IF'' \<and> space 2 then Some CMD_TYPE_IF
      else if word ''ELSEIF'' \<and> space 6 then Some CMD_TYPE_ELSEIF
      else if word ''ELSE'' \<and> space 4 then Some CMD_TYPE_ELSE
      else if word ''END IF;'' then Some CMD_TYPE_ENDIF
      else if word ''LOOP'' \<and> space 4 then Some CMD_TYPE_LOOP
      else if word ''END LOOP;'' then Some CMD_TYPE_ENDLOOP
      else if word ''BREAK'' \<and> \<not> alpha 5 then Some CMD_TYPE_BREAK
      else if word ''CONTINUE'' \<and> \<not> alpha 8 then Some CMD_TYPE_CONTINUE
      else if word ''FOREACH'' \<and> space 7 then Some CMD_TYPE_FOREACH
      else if word ''END'' \<and> \<not> alpha 3 then None
      else Some CMD_TYPE_STATEMENT)"

text \<open>Every command consumes text; the test that it does makes the recursion well-founded.\<close>

function parse_procedure_body :: "string \<Rightarrow> 'stmt parser \<Rightarrow> 'stmt parsed option" where
  "parse_procedure_body sql s =
     (if sql = [] then Some (Inr [], s)
      else case command_word sql of
        None \<Rightarrow> Some (Inr sql, s)
      | Some type \<Rightarrow>
          (case (if type = CMD_TYPE_STATEMENT then Some (parse_sql_statement sql s) else parse_new_command type sql s) of
             None \<Rightarrow> None
           | Some (Inl rc, s) \<Rightarrow> Some (Inl rc, s)
           | Some (Inr rest, s) \<Rightarrow>
               if length rest < length sql then parse_procedure_body (skip_spaces rest) s else Some (Inl SQLITE_ERROR, s)))"
  by pat_completeness auto
termination
  by (relation "measure (\<lambda>(sql, _). length sql)") (auto intro: le_less_trans [OF length_skip_spaces])

declare parse_procedure_body.simps [simp del]

subsection \<open>A procedure\<close>

definition parse_parameters :: "string \<Rightarrow> 'stmt parser \<Rightarrow> 'stmt parsed" where
  "parse_parameters sql s =
     (if at sql 0 = CHR '')'' then (Inr (drop 1 sql), s)
      else case parse_variables_list s None sql of
          (Inl rc, s) \<Rightarrow> (Inl rc, s)
        | (Inr (used_vars, sql), s) \<Rightarrow>
            (let s = s\<lparr>procedure := (procedure s)\<lparr>params := used_vars\<rparr>\<rparr> in
             if at sql 0 \<noteq> CHR '')'' then (Inl SQLITE_ERROR, s) else (Inr (drop 1 sql), s)))"

definition parse_body_and_end :: "string \<Rightarrow> 'stmt parser \<Rightarrow> 'stmt parsed option" where
  "parse_body_and_end sql s =
     (let sql = skip_spaces sql in
      if \<not> sqlite3_strnicmp sql ''BEGIN'' \<or> \<not> sqlite3Isspace (at sql 5) then Some (Inl SQLITE_ERROR, s)
      else case parse_procedure_body (skip_spaces (drop 5 sql)) s of
          None \<Rightarrow> None
        | Some (Inl rc, s) \<Rightarrow> Some (Inl rc, s)
        | Some (Inr sql, s) \<Rightarrow>
            if \<not> sqlite3_strnicmp sql ''END'' then Some (Inl SQLITE_ERROR, s)
            else let sql = skip_spaces (drop 3 sql) in
              if at sql 0 = CHR '';'' then Some (Inr (skip_spaces (drop 1 sql)), s)
              else if sql \<noteq> [] then Some (Inl SQLITE_ERROR, s)
              else Some (Inr [], s))"

definition parseStoredProcedure :: "string \<Rightarrow> 'stmt parser \<Rightarrow> 'stmt parsed option" where
  "parseStoredProcedure sql s =
     (let is_proc = sqlite3_strnicmp sql ''PROCEDURE ''; is_func = sqlite3_strnicmp sql ''FUNCTION '';
          sql = skip_spaces (drop (if is_proc then 10 else 9) sql);
          s = s\<lparr>procedure := (procedure s)\<lparr>is_function := \<not> is_proc\<rparr>\<rparr>;
          (n, tokenType) = sqlite3GetToken sql;
          rest = skip_spaces (drop n sql) in
      if \<not> is_proc \<and> \<not> is_func then Some (Inl SQLITE_ERROR, s)
      else if tokenType \<noteq> TK_ID \<or> n = 0 \<or> n > 127 \<or> at rest 0 \<noteq> CHR ''('' then Some (Inl SQLITE_ERROR, s)
      else
        let s = s\<lparr>procedure := (procedure s)\<lparr>proc_name := take n sql\<rparr>\<rparr> in
        case parse_parameters (skip_spaces (drop 1 rest)) s of
          (Inl rc, s) \<Rightarrow> Some (Inl rc, s)
        | (Inr sql, s) \<Rightarrow> parse_body_and_end sql s)"

text \<open>\<^verbatim>\<open>CREATE PROCEDURE\<close>: the new row of the table \<^verbatim>\<open>aergolite_stored_procedures\<close>. The stored code is the text from the
  word PROCEDURE to the end of the SQL string, with what follows the procedure. The stacks stay.\<close>

definition prepareNewStoredProcedure ::
  "string \<Rightarrow> 'stmt parser \<Rightarrow> ((rc + (string \<times> bool \<times> string) \<times> string) \<times> 'stmt parser) option" where
  "prepareNewStoredProcedure sql s =
     (case parseStoredProcedure sql (s\<lparr>procedure := zero_procedure\<rparr>) of
        None \<Rightarrow> None
      | Some (Inl rc, s) \<Rightarrow> Some (Inl rc, s)
      | Some (Inr rest, s) \<Rightarrow>
          Some (Inr ((proc_name (procedure s), is_function (procedure s), sql), rest), s))"

end
