(* ===== verification/Proc_Exec.thy ===== *)
theory Proc_Exec
  imports Proc_Parser
begin

section \<open>Stored procedures: execution\<close>

text \<open>
  The interpreter of \<^verbatim>\<open>core/stored_proc.c\<close>. SQLite's interface is a parameter: preparing, stepping, resetting and
  binding a statement, the columns of its row, and \<^verbatim>\<open>sqlite3_exec\<close>. Two things can go wrong with a C function besides an error
  code: it never returns (\<^term>\<open>None\<close>), or it reads through a null or stray pointer (\<open>Bad_Access\<close>). The node id and the
  flag that keeps a statement out of the log, which the code writes into every statement, are left out.
\<close>

record ('db, 'stmt) sql_api =
  sql_prepare :: "'db \<Rightarrow> string \<Rightarrow> rc \<times> 'stmt option"
  sql_step :: "'db \<Rightarrow> 'stmt \<Rightarrow> rc \<times> 'db \<times> 'stmt"
  sql_reset :: "'stmt \<Rightarrow> rc \<times> 'stmt"
  sql_columns :: "'stmt \<Rightarrow> (string \<times> sql_value) list"
  sql_int :: "sql_value \<Rightarrow> int"
  sql_bind_index :: "'stmt \<Rightarrow> string \<Rightarrow> nat"
  sql_bind :: "'stmt \<Rightarrow> nat \<Rightarrow> sql_value \<Rightarrow> 'stmt"
  sql_exec :: "'db \<Rightarrow> string \<Rightarrow> rc \<times> 'db"

text \<open>The state: database, procedure, lists, and of the CALL statement the registers, the number of columns of its
  result row (\<^term>\<open>None\<close> while the opcode is a Noop) and whether the opcode \<^verbatim>\<open>OP_NextResult\<close> is in place.\<close>

record ('db, 'stmt) machine =
  db :: 'db
  proc :: "'stmt stored_proc"
  heap :: heap
  aMem :: "sql_value list option"
  result_row :: "nat option"
  next_result :: bool

datatype 'a outcome = Bad_Access | Value 'a

definition and_then :: "'a outcome option \<Rightarrow> ('a \<Rightarrow> 'b outcome option) \<Rightarrow> 'b outcome option" where
  "and_then m f = (case m of None \<Rightarrow> None | Some Bad_Access \<Rightarrow> Some Bad_Access | Some (Value x) \<Rightarrow> f x)"

lemma and_then_simps [simp]:
  "and_then None f = None" "and_then (Some Bad_Access) f = Some Bad_Access" "and_then (Some (Value x)) f = f x"
  by (simp_all add: and_then_def)

definition command_at :: "nat \<Rightarrow> ('db, 'stmt) machine \<Rightarrow> 'stmt command" where
  "command_at pos m = cmds (proc m) ! pos"

definition set_command :: "nat \<Rightarrow> ('stmt command \<Rightarrow> 'stmt command) \<Rightarrow> ('db, 'stmt) machine \<Rightarrow> ('db, 'stmt) machine" where
  "set_command pos f m = m\<lparr>proc := (proc m)\<lparr>cmds := (cmds (proc m))[pos := f (cmds (proc m) ! pos)]\<rparr>\<rparr>"

definition set_variables :: "sqlite3_var list \<Rightarrow> ('db, 'stmt) machine \<Rightarrow> ('db, 'stmt) machine" where
  "set_variables vs m = m\<lparr>proc := (proc m)\<lparr>proc_vars := vs\<rparr>\<rparr>"

definition cmd_text :: "'stmt command \<Rightarrow> string" where
  "cmd_text c = (case cmd_sql c of None \<Rightarrow> [] | Some z \<Rightarrow> take (cmd_nsql c) z)"

text \<open>The newest variable is bound first.\<close>

definition bindLocalVariables :: "('db, 'stmt) sql_api \<Rightarrow> sqlite3_var list \<Rightarrow> 'stmt \<Rightarrow> 'stmt" where
  "bindLocalVariables api vs st =
     foldr (\<lambda>v st. let idx = sql_bind_index api st (var_name v) in if idx > 0 then sql_bind api st idx (var_value v) else st) vs st"

subsection \<open>Expressions\<close>

text \<open>The columns of the row of an expression become variables of their names.\<close>

fun add_columns :: "(string \<times> sql_value) list \<Rightarrow> nat list \<Rightarrow> sqlite3_var list \<Rightarrow> (nat list \<times> bool) \<times> sqlite3_var list" where
  "add_columns [] used vs = ((used, True), vs)"
| "add_columns ((name, value) # cols) used vs =
     (case addVariable vs name of
        None \<Rightarrow> ((used, False), vs)
      | Some (i, vs) \<Rightarrow> add_columns cols (used @ [i]) (set_var i value vs))"

text \<open>The statement of an expression: SELECT is put before the text the first time.\<close>

definition expression_statement ::
  "('db, 'stmt) sql_api \<Rightarrow> nat \<Rightarrow> ('db, 'stmt) machine \<Rightarrow> (rc \<times> 'stmt option) \<times> ('db, 'stmt) machine" where
  "expression_statement api pos m =
     (let m = (if dynamic_sql (command_at pos m) then m
               else set_command pos (\<lambda>c. c\<lparr>cmd_sql := Some (''SELECT '' @ cmd_text c), cmd_nsql := cmd_nsql c + 7, dynamic_sql := True\<rparr>) m)
      in case cmd_stmt (command_at pos m) of
           None \<Rightarrow> (let (rc, st) = sql_prepare api (db m) (cmd_text (command_at pos m)) in
                    ((rc, st), set_command pos (\<lambda>c. c\<lparr>cmd_stmt := st\<rparr>) m))
         | Some st \<Rightarrow> (let (rc, st) = sql_reset api st in
                    ((rc, Some st), set_command pos (\<lambda>c. c\<lparr>cmd_stmt := Some st\<rparr>) m)))"

text \<open>The row of the expression, and the test that there is no second one. A missing row and a second row are reported
  with the code of \<^verbatim>\<open>sqlite3_step\<close>.\<close>

definition step_expression ::
  "('db, 'stmt) sql_api \<Rightarrow> nat \<Rightarrow> ('db, 'stmt) machine \<Rightarrow> (rc \<times> (string \<times> sql_value) list \<times> ('db, 'stmt) machine) outcome option" where
  "step_expression api pos m =
     (case expression_statement api pos m of
        ((rc, st), m) \<Rightarrow>
          if rc \<noteq> SQLITE_OK then Some (Value (rc, [], m))
          else case st of
              None \<Rightarrow> Some Bad_Access
            | Some st \<Rightarrow>
                (case sql_step api (db m) (bindLocalVariables api (proc_vars (proc m)) st) of
                   (rc, d, st) \<Rightarrow>
                     Some (Value (rc, sql_columns api st, set_command pos (\<lambda>c. c\<lparr>cmd_stmt := Some st\<rparr>) (m\<lparr>db := d\<rparr>)))))"

definition finish_expression :: "('db, 'stmt) sql_api \<Rightarrow> nat \<Rightarrow> ('db, 'stmt) machine \<Rightarrow> rc \<times> ('db, 'stmt) machine" where
  "finish_expression api pos m =
     (case cmd_stmt (command_at pos m) of
        None \<Rightarrow> (SQLITE_MISUSE, m)
      | Some st \<Rightarrow>
          (let (rc, d, st) = sql_step api (db m) st;
               m = set_command pos (\<lambda>c. c\<lparr>cmd_stmt := Some st\<rparr>) (m\<lparr>db := d\<rparr>) in
           (if rc = SQLITE_DONE then SQLITE_OK else rc, m)))"

definition execute_condition ::
  "('db, 'stmt) sql_api \<Rightarrow> nat \<Rightarrow> ('db, 'stmt) machine \<Rightarrow> (rc \<times> bool \<times> ('db, 'stmt) machine) outcome option" where
  "execute_condition api pos m =
     and_then (step_expression api pos m) (\<lambda>(rc, cols, m).
       if rc \<noteq> SQLITE_ROW then Some (Value (rc, False, m))
       else
         let value = (case cols of [] \<Rightarrow> Null | (_, v) # _ \<Rightarrow> v); (rc, m) = finish_expression api pos m in
         Some (Value (rc, sql_int api value \<noteq> 0, m)))"

definition execute_values ::
  "('db, 'stmt) sql_api \<Rightarrow> nat \<Rightarrow> ('db, 'stmt) machine \<Rightarrow> (rc \<times> ('db, 'stmt) machine) outcome option" where
  "execute_values api pos m =
     and_then (step_expression api pos m) (\<lambda>(rc, cols, m).
       if rc \<noteq> SQLITE_ROW \<or> cols = [] then Some (Value (rc, m))
       else
         let ((used, ok), vs) = add_columns cols [] (proc_vars (proc m));
             m = set_command pos (\<lambda>c. c\<lparr>cmd_vars := used\<rparr>) (set_variables vs m)
         in if \<not> ok then Some (Value (SQLITE_NOMEM, m)) else Some (Value (finish_expression api pos m)))"

text \<open>\<^verbatim>\<open>db_query_str\<close>: the text of the message is not modelled, the code is.\<close>

definition db_query_str :: "('db, 'stmt) sql_api \<Rightarrow> string \<Rightarrow> ('db, 'stmt) machine \<Rightarrow> rc \<times> ('db, 'stmt) machine" where
  "db_query_str api z m =
     (case sql_prepare api (db m) z of
        (rc, st) \<Rightarrow>
          if rc \<noteq> SQLITE_OK then (rc, m)
          else case st of
              None \<Rightarrow> (SQLITE_MISUSE, m)
            | Some st \<Rightarrow>
                (let (rc, d, st) = sql_step api (db m) (bindLocalVariables api (proc_vars (proc m)) st) in
                 if rc \<noteq> SQLITE_ROW then (if rc = SQLITE_DONE then SQLITE_ERROR else rc, m\<lparr>db := d\<rparr>)
                 else let (rc, d, st) = sql_step api d st in
                   (if rc = SQLITE_ROW then SQLITE_ERROR else if rc = SQLITE_DONE then SQLITE_OK else rc, m\<lparr>db := d\<rparr>)))"

subsection \<open>Results\<close>

text \<open>\<^verbatim>\<open>sqlite3VdbeNextResult\<close>: a row that is a list is copied; any other value is moved, which leaves NULL in the list.\<close>

definition sqlite3VdbeNextResult :: "('db, 'stmt) machine \<Rightarrow> rc \<times> ('db, 'stmt) machine" where
  "sqlite3VdbeNextResult m =
     (case result_list (proc m) of
        None \<Rightarrow> (SQLITE_DONE, m)
      | Some list \<Rightarrow>
          (let row = current_row (proc m) + 1;
               m = m\<lparr>proc := (proc m)\<lparr>current_row := row\<rparr>\<rparr> in
           if row \<ge> int (length (heap m ! list)) then (SQLITE_DONE, m)
           else
             let mem = (case aMem m of None \<Rightarrow> [] | Some mem \<Rightarrow> mem); row_value = heap m ! list ! nat row in
             case get_list_from_value row_value of
               Some values \<Rightarrow>
                 (let vs = heap m ! values in
                  (SQLITE_ROW, m\<lparr>aMem := Some (take 1 mem @ vs @ drop (1 + length vs) mem), result_row := Some (length vs)\<rparr>))
             | None \<Rightarrow>
                 (SQLITE_ROW, m\<lparr>aMem := Some (mem[1 := row_value]), result_row := Some 1,
                                heap := (heap m)[list := (heap m ! list)[nat row := Null]]\<rparr>)))"

text \<open>The registers of the CALL statement are kept in the procedure while a result is there.\<close>

definition save_registers :: "('db, 'stmt) machine \<Rightarrow> ('db, 'stmt) machine" where
  "save_registers m =
     (if saved_mem (proc m) = None then m\<lparr>proc := (proc m)\<lparr>saved_mem := aMem m\<rparr>, aMem := None\<rparr> else m\<lparr>aMem := None\<rparr>)"

definition row_width :: "heap \<Rightarrow> sql_value \<Rightarrow> nat" where
  "row_width h v = (case get_list_from_value v of None \<Rightarrow> 1 | Some p \<Rightarrow> max 1 (length (h ! p)))"

definition return_list :: "list_ptr \<Rightarrow> ('db, 'stmt) machine \<Rightarrow> ('db, 'stmt) machine" where
  "return_list list m =
     (let num_cols = foldl (\<lambda>n v. max n (row_width (heap m) v)) 1 (heap m ! list) in
      snd (sqlite3VdbeNextResult
        (m\<lparr>aMem := Some (replicate (num_cols + 1) Null), next_result := True,
           proc := (proc m)\<lparr>result_list := Some list, current_row := -1\<rparr>\<rparr>)))"

text \<open>The values are moved out of the variables.\<close>

fun move_values :: "nat list \<Rightarrow> sqlite3_var list \<Rightarrow> (sql_value list \<times> bool) \<times> sqlite3_var list" where
  "move_values [] vs = (([], True), vs)"
| "move_values (i # is) vs =
     (if is_list (var_at vs i) then (([], False), vs)
      else let ((mem, ok), vs') = move_values is (set_var i Null vs) in ((var_at vs i # mem, ok), vs'))"

definition return_values :: "nat list \<Rightarrow> ('db, 'stmt) machine \<Rightarrow> rc \<times> ('db, 'stmt) machine" where
  "return_values used m =
     (let ((mem, ok), vs) = move_values used (proc_vars (proc m));
          mem = Null # mem @ replicate (length used - length mem) Null;
          m = set_variables vs (m\<lparr>aMem := Some mem\<rparr>)
      in if ok then (SQLITE_OK, m\<lparr>result_row := Some (length used)\<rparr>) else (SQLITE_ERROR, m))"

definition executeReturnCommand ::
  "('db, 'stmt) sql_api \<Rightarrow> nat \<Rightarrow> ('db, 'stmt) machine \<Rightarrow> (rc \<times> ('db, 'stmt) machine) outcome option" where
  "executeReturnCommand api pos m =
     (if cmd_vars (command_at pos m) = [] \<and> cmd_sql (command_at pos m) = None then Some (Value (SQLITE_OK, m))
      else
        let m = save_registers m in
        and_then (if cmd_sql (command_at pos m) \<noteq> None then execute_values api pos m else Some (Value (SQLITE_OK, m)))
          (\<lambda>(rc, m).
             let used = cmd_vars (command_at pos m) in
             if rc \<noteq> SQLITE_OK then Some (Value (rc, m))
             else case (if length used = 1 then get_list_from_value (var_at (proc_vars (proc m)) (hd used)) else None) of
                 Some list \<Rightarrow> Some (Value (SQLITE_OK, return_list list m))
               | None \<Rightarrow> Some (Value (return_values used m))))"

subsection \<open>RAISE, ASSERT and statements\<close>

definition executeRaiseCommand :: "('db, 'stmt) sql_api \<Rightarrow> nat \<Rightarrow> ('db, 'stmt) machine \<Rightarrow> rc \<times> ('db, 'stmt) machine" where
  "executeRaiseCommand api pos m = db_query_str api (''SELECT printf('' @ cmd_text (command_at pos m) @ '')'') m"

definition executeAssertCommand ::
  "('db, 'stmt) sql_api \<Rightarrow> nat \<Rightarrow> ('db, 'stmt) machine \<Rightarrow> (rc \<times> ('db, 'stmt) machine) outcome option" where
  "executeAssertCommand api pos m =
     and_then (execute_condition api pos m) (\<lambda>(rc, result, m).
       if rc \<noteq> SQLITE_OK \<or> result then Some (Value (rc, m))
       else
         let c = command_at pos m;
             message = (case cmd_sql2 c of None \<Rightarrow> [] | Some z \<Rightarrow> take (cmd_nsql2 c) z);
             (rc, m) = db_query_str api (''SELECT printf('' @ message @ '')'') m
         in Some (Value (if rc \<noteq> SQLITE_OK then rc else SQLITE_ERROR, m)))"

text \<open>The words that are refused, and only behind a first letter in upper case; of SAVEPOINT eight letters are compared.\<close>

definition refused_statement :: "string \<Rightarrow> nat \<Rightarrow> bool" where
  "refused_statement z n =
     (let word = (\<lambda>w. length w \<le> n \<and> sqlite3_strnicmp z w); c = at z 0 in
      if c = CHR ''B'' \<or> c = CHR ''C'' \<or> c = CHR ''R'' \<or> c = CHR ''S''
      then word ''BEGIN'' \<or> word ''COMMIT'' \<or> word ''ROLLBACK'' \<or> word ''SAVEPOIN'' \<or> word ''RELEASE''
      else if c = CHR ''A'' \<or> c = CHR ''D'' then word ''ATTACH'' \<or> word ''DETACH''
      else False)"

partial_function (option) step_to_end :: "('db, 'stmt) sql_api \<Rightarrow> 'db \<Rightarrow> 'stmt \<Rightarrow> (rc \<times> 'db \<times> 'stmt) option" where
  "step_to_end api d st =
     (let r = sql_step api d st in
      if fst r = SQLITE_ROW then step_to_end api (fst (snd r)) (snd (snd r)) else Some r)"

definition executeStatementCommand ::
  "('db, 'stmt) sql_api \<Rightarrow> nat \<Rightarrow> ('db, 'stmt) machine \<Rightarrow> (rc \<times> ('db, 'stmt) machine) outcome option" where
  "executeStatementCommand api pos m =
     (let c = command_at pos m; z = (case cmd_sql c of None \<Rightarrow> [] | Some z \<Rightarrow> z) in
      if refused_statement z (cmd_nsql c) then Some (Value (SQLITE_ERROR, m))
      else
        let (rc, st) = (case cmd_stmt c of
                          None \<Rightarrow> sql_prepare api (db m) (cmd_text c)
                        | Some st \<Rightarrow> (SQLITE_OK, Some st));
            m = set_command pos (\<lambda>c. c\<lparr>cmd_stmt := st\<rparr>) m
        in if rc \<noteq> SQLITE_OK then Some (Value (rc, m))
           else case st of
               None \<Rightarrow> Some Bad_Access
             | Some st \<Rightarrow>
                 (case step_to_end api (db m) (bindLocalVariables api (proc_vars (proc m)) st) of
                    None \<Rightarrow> None
                  | Some (rc, d, st) \<Rightarrow>
                      Some (Value (if rc = SQLITE_DONE then SQLITE_OK else rc,
                        set_command pos (\<lambda>c. c\<lparr>cmd_stmt := Some (snd (sql_reset api st))\<rparr>) (m\<lparr>db := d\<rparr>)))))"

subsection \<open>SET\<close>

text \<open>The loop over the rows: they are collected as lists, or the only row is stored in the variables.\<close>

fun store_columns :: "nat list \<Rightarrow> sql_value list \<Rightarrow> sqlite3_var list \<Rightarrow> sqlite3_var list" where
  "store_columns (i # is) (v # values) vs = store_columns is values (set_var i v vs)"
| "store_columns _ _ vs = vs"

record set_state =
  num_rows :: nat
  parent_list :: "sql_value list"
  set_heap :: heap
  set_variables_now :: "sqlite3_var list"

definition set_row :: "bool \<Rightarrow> nat list \<Rightarrow> sql_value list \<Rightarrow> set_state \<Rightarrow> set_state option" where
  "set_row as_list used cols s =
     (let s = s\<lparr>num_rows := num_rows s + 1\<rparr> in
      if cols = [] then None
      else if as_list then
        Some (s\<lparr>parent_list := parent_list s @ [List (length (set_heap s))], set_heap := set_heap s @ [cols]\<rparr>)
      else if num_rows s > 1 \<or> length cols \<noteq> length used then None
      else Some (s\<lparr>set_variables_now := store_columns used cols (set_variables_now s)\<rparr>))"

partial_function (option) set_rows ::
  "('db, 'stmt) sql_api \<Rightarrow> bool \<Rightarrow> nat list \<Rightarrow> 'db \<Rightarrow> 'stmt \<Rightarrow> set_state \<Rightarrow> ((rc \<times> 'db \<times> 'stmt) \<times> set_state) option" where
  "set_rows api as_list used d st s =
     (let r = sql_step api d st in
      if fst r \<noteq> SQLITE_ROW then Some (r, s)
      else if set_row as_list used (map snd (sql_columns api (snd (snd r)))) s = None then Some ((SQLITE_ERROR, snd r), s)
      else set_rows api as_list used (fst (snd r)) (snd (snd r))
             (the (set_row as_list used (map snd (sql_columns api (snd (snd r)))) s)))"

text \<open>The statement of SET: the code prepares the whole rest of the procedure when it has to put SELECT before it.\<close>

definition set_statement :: "('db, 'stmt) sql_api \<Rightarrow> 'db \<Rightarrow> 'stmt command \<Rightarrow> rc \<times> 'stmt option" where
  "set_statement api d c =
     (case cmd_stmt c of
        Some st \<Rightarrow> (SQLITE_OK, Some (snd (sql_reset api st)))
      | None \<Rightarrow>
          (let z = (case cmd_sql c of None \<Rightarrow> [] | Some z \<Rightarrow> z);
               (n, tokenType) = sqlite3GetToken z;
               tokenType = (if tokenType = TK_ID \<and> n = 4 \<and> sqlite3_strnicmp z ''CALL'' then TK_CALL else tokenType)
           in if n > cmd_nsql c then (SQLITE_ERROR, None)
              else if tokenType \<in> {TK_SELECT, TK_INSERT, TK_UPDATE, TK_DELETE, TK_CALL} then sql_prepare api d (cmd_text c)
              else sql_prepare api d (''SELECT '' @ z)))"

definition finish_set :: "bool \<Rightarrow> nat list \<Rightarrow> set_state \<Rightarrow> ('db, 'stmt) machine \<Rightarrow> ('db, 'stmt) machine" where
  "finish_set as_list used s m =
     (let vs = set_variables_now s in
      if as_list then
        if num_rows s = 0 then set_variables (set_var (hd used) Null vs) (m\<lparr>heap := set_heap s\<rparr>)
        else set_variables (set_var (hd used) (List (length (set_heap s))) vs) (m\<lparr>heap := set_heap s @ [parent_list s]\<rparr>)
      else if num_rows s = 0 then set_variables (foldl (\<lambda>vs i. set_var i Null vs) vs used) (m\<lparr>heap := set_heap s\<rparr>)
      else set_variables vs (m\<lparr>heap := set_heap s\<rparr>))"

definition executeSetCommand ::
  "('db, 'stmt) sql_api \<Rightarrow> nat \<Rightarrow> ('db, 'stmt) machine \<Rightarrow> (rc \<times> ('db, 'stmt) machine) outcome option" where
  "executeSetCommand api pos m =
     (let c = command_at pos m; used = cmd_vars c in
      if store_as_list c \<and> length used \<noteq> 1 then Some (Value (SQLITE_ERROR, m))
      else case input_list c of
        Some list \<Rightarrow> Some (Value (SQLITE_OK, set_variables (set_var (hd used) (List list) (proc_vars (proc m))) m))
      | None \<Rightarrow>
          (case set_statement api (db m) c of
             (rc, st) \<Rightarrow>
               let m = set_command pos (\<lambda>c. c\<lparr>cmd_stmt := st\<rparr>) m in
               if rc \<noteq> SQLITE_OK then Some (Value (rc, m))
               else case st of
                   None \<Rightarrow> Some (Value (SQLITE_ERROR, m))
                 | Some st \<Rightarrow>
                     (case set_rows api (store_as_list c) used (db m) (bindLocalVariables api (proc_vars (proc m)) st)
                             \<lparr>num_rows = 0, parent_list = [], set_heap = heap m, set_variables_now = proc_vars (proc m)\<rparr> of
                        None \<Rightarrow> None
                      | Some ((rc, d, st), s) \<Rightarrow>
                          (let m = set_command pos (\<lambda>c. c\<lparr>cmd_stmt := Some st\<rparr>) (m\<lparr>db := d\<rparr>) in
                           if rc = SQLITE_DONE \<or> rc = SQLITE_OK
                           then Some (Value (SQLITE_OK, finish_set (store_as_list c) used s m))
                           else Some (Value (rc, set_variables (set_variables_now s) m))))))"

subsection \<open>FOREACH\<close>

text \<open>The variables take the next row. With VALUE the columns become variables with an @ before their names.\<close>

fun add_row_variables :: "(string \<times> sql_value) list \<Rightarrow> sqlite3_var list \<Rightarrow> bool \<times> sqlite3_var list" where
  "add_row_variables [] vs = (True, vs)"
| "add_row_variables ((name, value) # cols) vs =
     (case addVariable vs (CHR ''@'' # name) of
        None \<Rightarrow> (False, vs)
      | Some (i, vs) \<Rightarrow> add_row_variables cols (set_var i value vs))"

definition foreach_list_item ::
  "nat \<Rightarrow> sql_value list \<Rightarrow> ('db, 'stmt) machine \<Rightarrow> rc \<times> ('db, 'stmt) machine" where
  "foreach_list_item pos items m =
     (let c = command_at pos m in
      if current_item c \<ge> length items then (SQLITE_DONE, set_command pos (\<lambda>c. c\<lparr>current_item := 0\<rparr>) m)
      else
        let row_value = items ! current_item c;
            row = (case get_list_from_value row_value of None \<Rightarrow> [row_value] | Some p \<Rightarrow> heap m ! p);
            m = set_command pos (\<lambda>c. c\<lparr>current_item := current_item c + 1\<rparr>) m
        in if length row \<noteq> length (cmd_vars c) then (SQLITE_ERROR, m)
           else (SQLITE_OK, set_variables (store_columns (cmd_vars c) row (proc_vars (proc m))) m))"

definition foreach_statement ::
  "('db, 'stmt) sql_api \<Rightarrow> nat \<Rightarrow> ('db, 'stmt) machine \<Rightarrow> rc \<times> 'stmt option" where
  "foreach_statement api pos m =
     (let c = command_at pos m; bound = map_option (bindLocalVariables api (proc_vars (proc m))) in
      if current_item c \<noteq> 0 then (SQLITE_OK, cmd_stmt c)
      else case cmd_stmt c of
          None \<Rightarrow> (let (rc, st) = sql_prepare api (db m) (cmd_text c) in (rc, if rc = SQLITE_OK then bound st else st))
        | Some st \<Rightarrow> (SQLITE_OK, bound (Some (snd (sql_reset api st)))))"

definition foreach_row ::
  "('db, 'stmt) sql_api \<Rightarrow> nat \<Rightarrow> ('db, 'stmt) machine \<Rightarrow> rc \<times> ('db, 'stmt) machine" where
  "foreach_row api pos m =
     (case foreach_statement api pos m of
        (rc, st) \<Rightarrow>
          let m = set_command pos (\<lambda>c. c\<lparr>cmd_stmt := st\<rparr>) m in
          if rc \<noteq> SQLITE_OK then (rc, m)
          else case st of
              None \<Rightarrow> (SQLITE_MISUSE, m)
            | Some st \<Rightarrow>
                (let (rc, d, st) = sql_step api (db m) st;
                     m = set_command pos (\<lambda>c. c\<lparr>cmd_stmt := Some st\<rparr>) (m\<lparr>db := d\<rparr>) in
                 if rc = SQLITE_DONE then (SQLITE_DONE, set_command pos (\<lambda>c. c\<lparr>current_item := 0\<rparr>) m)
                 else if rc \<noteq> SQLITE_ROW then (rc, m)
                 else
                   let m = set_command pos (\<lambda>c. c\<lparr>current_item := current_item c + 1\<rparr>) m;
                       cols = sql_columns api st; used = cmd_vars (command_at pos m) in
                   if used = [] then
                     (let (ok, vs) = add_row_variables cols (proc_vars (proc m)) in
                      (if ok then SQLITE_ROW else SQLITE_NOMEM, set_variables vs m))
                   else if length cols \<noteq> length used then (SQLITE_ERROR, m)
                   else (SQLITE_ROW, set_variables (store_columns used (map snd cols) (proc_vars (proc m))) m)))"

text \<open>A list item leaves the return code at \<^verbatim>\<open>SQLITE_OK\<close>, and so does an input variable that holds no list.\<close>

definition executeForeachCommand ::
  "('db, 'stmt) sql_api \<Rightarrow> nat \<Rightarrow> ('db, 'stmt) machine \<Rightarrow> rc \<times> ('db, 'stmt) machine" where
  "executeForeachCommand api pos m =
     (let c = command_at pos m in
      case input_var c of
        Some var \<Rightarrow>
          (case get_list_from_value (var_at (proc_vars (proc m)) var) of
             None \<Rightarrow> (SQLITE_OK, m)
           | Some list \<Rightarrow> foreach_list_item pos (heap m ! list) m)
      | None \<Rightarrow>
          (case input_list c of
             Some list \<Rightarrow> foreach_list_item pos (heap m ! list) m
           | None \<Rightarrow> foreach_row api pos m))"

subsection \<open>One command\<close>

text \<open>One turn of the loop of \<^verbatim>\<open>executeStoredProcedure\<close>: the position of the next command, the end of the loop with the code
  that the call returns, or the jump to \<^verbatim>\<open>loc_error\<close>. A position is given as it is after the increment.\<close>

datatype ('db, 'stmt) turn =
    Next nat "('db, 'stmt) machine"
  | Finished rc "('db, 'stmt) machine"
  | Failed rc "('db, 'stmt) machine"

definition after_command :: "nat \<Rightarrow> rc \<times> ('db, 'stmt) machine \<Rightarrow> ('db, 'stmt) turn" where
  "after_command pos r = (if fst r \<noteq> SQLITE_OK then Failed (fst r) (snd r) else Next pos (snd r))"

definition set_executed :: "bool \<Rightarrow> nat \<Rightarrow> ('db, 'stmt) machine \<Rightarrow> ('db, 'stmt) machine" where
  "set_executed b pos m = set_command pos (\<lambda>c. c\<lparr>executed := b\<rparr>) m"

definition execute_if :: "('db, 'stmt) sql_api \<Rightarrow> nat \<Rightarrow> ('db, 'stmt) machine \<Rightarrow> ('db, 'stmt) turn outcome option" where
  "execute_if api pos m =
     and_then (execute_condition api pos m) (\<lambda>(rc, result, m).
       Some (Value (if rc \<noteq> SQLITE_OK then Failed rc m
                    else if result then Next (pos + 1) (set_executed True pos m)
                    else Next (next_if_cmd (command_at pos m)) (set_executed False pos m))))"

definition execute_elseif :: "('db, 'stmt) sql_api \<Rightarrow> nat \<Rightarrow> ('db, 'stmt) machine \<Rightarrow> ('db, 'stmt) turn outcome option" where
  "execute_elseif api pos m =
     (let c = command_at pos m; ifpos = related_cmd c in
      if ifpos \<ge> length (cmds (proc m)) then Some Bad_Access
      else if executed (command_at ifpos m) then Some (Value (Next (next_if_cmd c) m))
      else and_then (execute_condition api pos m) (\<lambda>(rc, result, m).
        Some (Value (if rc \<noteq> SQLITE_OK then Failed rc m
                     else if result then Next (pos + 1) (set_executed True ifpos m)
                     else Next (next_if_cmd c) m))))"

definition execute_else :: "nat \<Rightarrow> ('db, 'stmt) machine \<Rightarrow> ('db, 'stmt) turn outcome option" where
  "execute_else pos m =
     (let c = command_at pos m; ifpos = related_cmd c in
      if ifpos \<ge> length (cmds (proc m)) then Some Bad_Access
      else if executed (command_at ifpos m) then Some (Value (Next (next_if_cmd c) m))
      else Some (Value (Next (pos + 1) (set_executed True ifpos m))))"

definition execute_break :: "nat \<Rightarrow> ('db, 'stmt) machine \<Rightarrow> ('db, 'stmt) turn outcome option" where
  "execute_break pos m =
     (let start = related_cmd (command_at pos m) in
      if start \<ge> length (cmds (proc m)) then Some Bad_Access
      else Some (Value (Next (related_cmd (command_at start m) + 1) m)))"

definition execute_foreach :: "('db, 'stmt) sql_api \<Rightarrow> nat \<Rightarrow> ('db, 'stmt) machine \<Rightarrow> ('db, 'stmt) turn" where
  "execute_foreach api pos m =
     (let (rc, m) = executeForeachCommand api pos m in
      if rc = SQLITE_ROW then Next (pos + 1) m
      else if rc = SQLITE_DONE then Next (related_cmd (command_at pos m) + 1) m
      else if rc \<noteq> SQLITE_OK then Failed rc m
      else Next (pos + 1) m)"

definition execute_command :: "('db, 'stmt) sql_api \<Rightarrow> nat \<Rightarrow> ('db, 'stmt) machine \<Rightarrow> ('db, 'stmt) turn outcome option" where
  "execute_command api pos m =
     (let c = command_at pos m; next = (\<lambda>r. Some (Value (after_command (pos + 1) r))) in
      case cmd_type c of
        CMD_TYPE_RETURN \<Rightarrow> and_then (executeReturnCommand api pos m) (\<lambda>(rc, m).
            Some (Value (if rc \<noteq> SQLITE_OK then Failed rc m else Finished SQLITE_OK m)))
      | CMD_TYPE_RAISE \<Rightarrow>
          (let (rc, m) = executeRaiseCommand api pos m in
           Some (Value (if rc \<noteq> SQLITE_OK then Failed rc m else Finished SQLITE_ERROR m)))
      | CMD_TYPE_ASSERT \<Rightarrow> and_then (executeAssertCommand api pos m) next
      | CMD_TYPE_SET \<Rightarrow> and_then (executeSetCommand api pos m) next
      | CMD_TYPE_STATEMENT \<Rightarrow> and_then (executeStatementCommand api pos m) next
      | CMD_TYPE_IF \<Rightarrow> execute_if api pos m
      | CMD_TYPE_ELSEIF \<Rightarrow> execute_elseif api pos m
      | CMD_TYPE_ELSE \<Rightarrow> execute_else pos m
      | CMD_TYPE_ENDLOOP \<Rightarrow> Some (Value (Next (related_cmd c) m))
      | CMD_TYPE_CONTINUE \<Rightarrow> Some (Value (Next (related_cmd c) m))
      | CMD_TYPE_BREAK \<Rightarrow> execute_break pos m
      | CMD_TYPE_FOREACH \<Rightarrow> Some (Value (execute_foreach api pos m))
      | _ \<Rightarrow> Some (Value (Next (pos + 1) m)))"

subsection \<open>A call\<close>

partial_function (option) run_commands ::
  "('db, 'stmt) sql_api \<Rightarrow> nat \<Rightarrow> ('db, 'stmt) machine \<Rightarrow> ('db, 'stmt) turn outcome option" where
  "run_commands api pos m =
     (if pos < num_cmds (proc m) then
        Option.bind (execute_command api pos m)
          (\<lambda>t. case t of Value (Next pos m) \<Rightarrow> run_commands api pos m | t \<Rightarrow> Some t)
      else Some (Value (Finished SQLITE_OK m)))"

text \<open>\<^verbatim>\<open>loc_exit\<close> and \<^verbatim>\<open>loc_error\<close>: they jump to each other as long as the savepoint cannot be released.\<close>

partial_function (option) leave_call ::
  "('db, 'stmt) sql_api \<Rightarrow> string \<Rightarrow> bool \<Rightarrow> rc \<Rightarrow> 'db \<Rightarrow> (rc \<times> 'db) option" where
  "leave_call api name failed rc d =
     (let back = sql_exec api d (''ROLLBACK TO '' @ name);
          d1 = (if failed then snd back else d);
          rc1 = (if failed \<and> rc = SQLITE_OK then fst back else rc);
          release = sql_exec api d1 (''RELEASE '' @ name)
      in if fst release \<noteq> SQLITE_OK
         then leave_call api name True (if rc1 = SQLITE_OK then fst release else rc1) (snd release)
         else Some (rc1, snd release))"

definition copyProcedureParameters :: "sql_value list \<Rightarrow> list_ptr \<Rightarrow> ('db, 'stmt) machine \<Rightarrow> ('db, 'stmt) machine" where
  "copyProcedureParameters aVar input m =
     (let value = (\<lambda>v. case v of Var_Number n \<Rightarrow> aVar ! nat (n - 1) | _ \<Rightarrow> v) in
      set_variables (store_columns (params (proc m)) (map value (heap m ! input)) (proc_vars (proc m))) m)"

text \<open>The name of the savepoint is random, and so a parameter.\<close>

definition executeStoredProcedure ::
  "('db, 'stmt) sql_api \<Rightarrow> string \<Rightarrow> sql_value list \<Rightarrow> list_ptr \<Rightarrow> ('db, 'stmt) machine \<Rightarrow> (rc \<times> ('db, 'stmt) machine) outcome option" where
  "executeStoredProcedure api name aVar input m =
     (let (rc, d) = sql_exec api (db m) (''SAVEPOINT '' @ name);
          m = m\<lparr>db := d, result_row := None, next_result := False\<rparr> in
      if rc \<noteq> SQLITE_OK then Some (Value (rc, m))
      else
        and_then (run_commands api 0 (copyProcedureParameters aVar input m)) (\<lambda>t.
          let leave = (\<lambda>failed rc m. case leave_call api name failed rc (db m) of
                None \<Rightarrow> None | Some (rc, d) \<Rightarrow> Some (Value (rc, m\<lparr>db := d\<rparr>))) in
          case t of
            Finished rc m \<Rightarrow> leave False rc m
          | Failed rc m \<Rightarrow> leave True rc m
          | Next _ m \<Rightarrow> Some Bad_Access))"

definition resetProcedureCall :: "('db, 'stmt) machine \<Rightarrow> ('db, 'stmt) machine" where
  "resetProcedureCall m =
     (let m = (if saved_mem (proc m) = None then m
               else m\<lparr>aMem := saved_mem (proc m), proc := (proc m)\<lparr>saved_mem := None\<rparr>\<rparr>)
      in set_variables (map (\<lambda>v. v\<lparr>var_value := Null\<rparr>) (proc_vars (proc m))) m)"

text \<open>The rows that a CALL statement returns: \<^verbatim>\<open>OP_ResultRow\<close> reads the registers from 1 on, \<^verbatim>\<open>OP_NextResult\<close> goes back to it
  as long as there is a row. The argument bounds the number of rows by the length of the list.\<close>

definition current_result :: "('db, 'stmt) machine \<Rightarrow> sql_value list list" where
  "current_result m = (case (result_row m, aMem m) of (Some n, Some mem) \<Rightarrow> [take n (drop 1 mem)] | _ \<Rightarrow> [])"

fun result_rows :: "nat \<Rightarrow> ('db, 'stmt) machine \<Rightarrow> sql_value list list \<times> ('db, 'stmt) machine" where
  "result_rows 0 m = ([], m)"
| "result_rows (Suc n) m =
     (let row = current_result m in
      if \<not> next_result m then (row, m)
      else let (rc, m) = sqlite3VdbeNextResult m in
        if rc \<noteq> SQLITE_ROW then (row, m)
        else let (rows, m) = result_rows n m in (row @ rows, m))"

definition step_call ::
  "('db, 'stmt) sql_api \<Rightarrow> string \<Rightarrow> sql_value list \<Rightarrow> list_ptr \<Rightarrow> ('db, 'stmt) machine
     \<Rightarrow> (rc \<times> sql_value list list \<times> ('db, 'stmt) machine) outcome option" where
  "step_call api name aVar input m =
     and_then (executeStoredProcedure api name aVar input m) (\<lambda>(rc, m).
       if rc \<noteq> SQLITE_OK then Some (Value (rc, [], m))
       else
         let bound = (case result_list (proc m) of None \<Rightarrow> 1 | Some p \<Rightarrow> length (heap m ! p) + 1);
             (rows, m) = result_rows bound m
         in Some (Value (SQLITE_OK, rows, resetProcedureCall m)))"

end
