(* ===== verification/Proc_Call.thy ===== *)
theory Proc_Call
  imports Proc_Exec
begin

section \<open>Stored procedures: the commands CREATE PROCEDURE and CALL\<close>

text \<open>
  How the SQL parser hands over to \<^verbatim>\<open>core/stored_proc.c\<close> and how a CALL statement is compiled: the arguments are
  parsed, the code is loaded from the table \<^verbatim>\<open>aergolite_stored_procedures\<close> (a parameter), and the procedure is
  parsed again. The variables of the CALL are numbered as \<^verbatim>\<open>sqlite3ExprAssignVarNumber\<close> does.
\<close>

datatype special_command = No_Special | Create_Procedure bool string | Call_Procedure string

definition checkSpecialCommand :: "string \<Rightarrow> special_command" where
  "checkSpecialCommand sql =
     (let after_create = drop 7 sql;
          or_replace = sqlite3_strnicmp after_create ''OR REPLACE '';
          rest = (if or_replace then drop 11 after_create else after_create) in
      if sqlite3_strnicmp sql ''CREATE ''
        \<and> (sqlite3_strnicmp rest ''PROCEDURE '' \<or> sqlite3_strnicmp rest ''FUNCTION '') then Create_Procedure or_replace rest
      else if sqlite3_strnicmp sql ''CALL '' then Call_Procedure (drop 5 sql)
      else No_Special)"

definition parseProcedureCall :: "string \<Rightarrow> heap \<Rightarrow> (rc + string \<times> list_ptr \<times> string) \<times> heap" where
  "parseProcedureCall sql h =
     (let sql = skip_spaces sql; (n, tokenType) = sqlite3GetToken sql in
      if tokenType \<noteq> TK_ID then (Inl SQLITE_ERROR, h)
      else case parse_list None True (skip_spaces (drop n sql)) h of
          (Inl rc, h) \<Rightarrow> (Inl rc, h)
        | (Inr (list, rest), h) \<Rightarrow> (Inr (take n sql, list, skip_spaces rest), h))"

text \<open>The numbers of the variables: the highest number so far and the names that have one.\<close>

type_synonym var_numbers = "nat \<times> (string \<times> nat) list"

definition assign_var_number :: "nat \<Rightarrow> string \<Rightarrow> var_numbers \<Rightarrow> (nat \<times> var_numbers) option" where
  "assign_var_number limit z st =
     (let (nVar, names) = st;
          checked = (\<lambda>(x, st). if x > limit then None else Some (x, st)) in
      if length z = 1 then checked (nVar + 1, (nVar + 1, names))
      else if at z 0 = CHR ''?'' then
        (let i = digits_value (drop 1 z) in
         if i < 1 \<or> i > limit then None else Some (i, (max nVar i, names)))
      else case map_of names z of
          Some x \<Rightarrow> checked (x, st)
        | None \<Rightarrow> checked (nVar + 1, (nVar + 1, names @ [(z, nVar + 1)])))"

fun processCallParameters :: "nat \<Rightarrow> sql_value list \<Rightarrow> var_numbers \<Rightarrow> (sql_value list \<times> var_numbers) option" where
  "processCallParameters limit [] st = Some ([], st)"
| "processCallParameters limit (v # vs) st =
     (case (case v of Var_Name z \<Rightarrow> map_option (\<lambda>(x, st). (Var_Number (int x), st)) (assign_var_number limit z st)
                    | _ \<Rightarrow> Some (v, st)) of
        None \<Rightarrow> None
      | Some (v', st) \<Rightarrow> map_option (\<lambda>(vs', st). (v' # vs', st)) (processCallParameters limit vs st))"

text \<open>\<^verbatim>\<open>prepareProcedureCall\<close>: the list of arguments when the statement was compiled, with the text that is left.\<close>

definition prepare_call_of ::
  "nat \<Rightarrow> list_ptr \<Rightarrow> string \<Rightarrow> 'stmt parser \<Rightarrow> ((rc \<times> list_ptr option) \<times> 'stmt parser) option" where
  "prepare_call_of limit input code s =
     (case processCallParameters limit (lists s ! input) (0, []) of
        None \<Rightarrow> Some ((SQLITE_ERROR, None), s)
      | Some (values, _) \<Rightarrow>
          (case parseStoredProcedure code (s\<lparr>lists := (lists s)[input := values], procedure := zero_procedure\<rparr>) of
             None \<Rightarrow> None
           | Some (Inl rc, s) \<Rightarrow> Some ((rc, None), s)
           | Some (Inr _, s) \<Rightarrow>
               if is_function (procedure s) then Some ((SQLITE_PERM, None), s)
               else if length values \<noteq> length (params (procedure s)) then Some ((SQLITE_ERROR, None), s)
               else Some ((SQLITE_OK, Some input), s)))"

definition prepareProcedureCall ::
  "nat \<Rightarrow> (string \<Rightarrow> rc \<times> string option) \<Rightarrow> string \<Rightarrow> 'stmt parser \<Rightarrow> ((rc \<times> list_ptr option) \<times> 'stmt parser) option" where
  "prepareProcedureCall limit getStoredProcedure sql s =
     (let (res, h) = parseProcedureCall sql (lists s); s = s\<lparr>lists := h\<rparr> in
      case res of
        Inl rc \<Rightarrow> Some ((rc, None), s)
      | Inr (name, input, rest) \<Rightarrow>
          (case getStoredProcedure name of
             (rc, Some code) \<Rightarrow> if rc \<noteq> SQLITE_OK then Some ((rc, None), s) else prepare_call_of limit input code s
           | (rc, None) \<Rightarrow> Some ((rc, None), s)))"

text \<open>The machine that executes a compiled call.\<close>

definition start_call :: "'db \<Rightarrow> 'stmt parser \<Rightarrow> ('db, 'stmt) machine" where
  "start_call d s = \<lparr>db = d, proc = procedure s, heap = lists s, aMem = None, result_row = None, next_result = False\<rparr>"

end
