(* ===== verification/Proc_Frames.thy ===== *)
theory Proc_Frames
  imports Proc_Exec
begin

section \<open>Stored procedures: what a command leaves alone\<close>

text \<open>
  The links between the commands do not change during the execution, and the flags of the executed IF blocks
  change only in IF, ELSEIF and ELSE. The lemmas of this theory say so for every command function.
\<close>

definition same_links :: "'stmt command \<Rightarrow> 'stmt command \<Rightarrow> bool" where
  "same_links c c' \<longleftrightarrow> cmd_type c' = cmd_type c \<and> next_if_cmd c' = next_if_cmd c \<and> related_cmd c' = related_cmd c"

text \<open>Only the flags of the commands in the set may differ.\<close>

definition cmd_frame :: "nat set \<Rightarrow> ('db, 'stmt) machine \<Rightarrow> ('db, 'stmt) machine \<Rightarrow> bool" where
  "cmd_frame F m m' \<longleftrightarrow> length (cmds (proc m')) = length (cmds (proc m)) \<and> num_cmds (proc m') = num_cmds (proc m)
     \<and> (\<forall>q < length (cmds (proc m)). same_links (command_at q m) (command_at q m')
          \<and> (q \<notin> F \<longrightarrow> executed (command_at q m') = executed (command_at q m)))"

lemma same_links_refl [simp]: "same_links c c"
  by (simp add: same_links_def)

lemma cmd_frame_refl [simp]: "cmd_frame F m m"
  by (simp add: cmd_frame_def)

lemma cmd_frame_trans: "cmd_frame F m m' \<Longrightarrow> cmd_frame G m' m'' \<Longrightarrow> F \<union> G \<subseteq> H \<Longrightarrow> cmd_frame H m m''"
  unfolding cmd_frame_def same_links_def by fastforce

lemma cmd_frame_mono: "cmd_frame F m m' \<Longrightarrow> F \<subseteq> G \<Longrightarrow> cmd_frame G m m'"
  unfolding cmd_frame_def by blast

lemma cmd_frame_then: "cmd_frame {} m m' \<Longrightarrow> cmd_frame {} m' m'' \<Longrightarrow> cmd_frame {} m m''"
  by (rule cmd_frame_trans) simp_all

lemma command_at_set_command [simp]:
  "q < length (cmds (proc m)) \<Longrightarrow> command_at q (set_command pos f m) = (if q = pos then f (command_at q m) else command_at q m)"
  by (cases "q = pos") (simp_all add: command_at_def set_command_def)

lemma set_command_sizes [simp]:
  "length (cmds (proc (set_command pos f m))) = length (cmds (proc m))" "num_cmds (proc (set_command pos f m)) = num_cmds (proc m)"
  by (simp_all add: set_command_def)

lemma cmd_frame_set_command:
  assumes "\<And>c. cmd_type (f c) = cmd_type c \<and> next_if_cmd (f c) = next_if_cmd c \<and> related_cmd (f c) = related_cmd c
      \<and> executed (f c) = executed c"
  shows "cmd_frame {} m (set_command pos f m)"
  using assms by (simp add: cmd_frame_def same_links_def)

lemma cmd_frame_keep:
  assumes "cmd_frame {} m m'"
    and "\<And>c. cmd_type (f c) = cmd_type c \<and> next_if_cmd (f c) = next_if_cmd c \<and> related_cmd (f c) = related_cmd c
      \<and> executed (f c) = executed c"
  shows "cmd_frame {} m (set_command pos f m')"
  by (rule cmd_frame_then [OF assms(1) cmd_frame_set_command]) (rule assms(2))

lemma set_command_db [simp]: "set_command pos f (m\<lparr>db := d\<rparr>) = (set_command pos f m)\<lparr>db := d\<rparr>"
  by (simp add: set_command_def)

lemma cmd_frame_set_executed: "cmd_frame {pos} m (set_executed b pos m)"
  by (simp add: cmd_frame_def same_links_def set_executed_def)

lemma cmd_frame_fields [simp]:
  "cmd_frame F m (m'\<lparr>db := d\<rparr>) = cmd_frame F m m'" "cmd_frame F m (m'\<lparr>heap := h\<rparr>) = cmd_frame F m m'" "cmd_frame F m (m'\<lparr>aMem := a\<rparr>) = cmd_frame F m m'"
  "cmd_frame F m (m'\<lparr>result_row := r\<rparr>) = cmd_frame F m m'" "cmd_frame F m (m'\<lparr>next_result := n\<rparr>) = cmd_frame F m m'"
  "cmd_frame F m (set_variables vs m') = cmd_frame F m m'"
  "cmd_frame F (m\<lparr>db := d\<rparr>) m' = cmd_frame F m m'" "cmd_frame F (set_variables vs m) m' = cmd_frame F m m'"
  by (simp_all add: cmd_frame_def command_at_def set_variables_def)

lemma cmd_frame_proc_fields [simp]:
  "cmd_frame F m (m'\<lparr>proc := p\<lparr>result_list := l\<rparr>\<rparr>) = cmd_frame F m (m'\<lparr>proc := p\<rparr>)"
  "cmd_frame F m (m'\<lparr>proc := p\<lparr>current_row := i\<rparr>\<rparr>) = cmd_frame F m (m'\<lparr>proc := p\<rparr>)"
  "cmd_frame F m (m'\<lparr>proc := p\<lparr>saved_mem := a\<rparr>\<rparr>) = cmd_frame F m (m'\<lparr>proc := p\<rparr>)"
  "cmd_frame F m (m'\<lparr>proc := proc m'\<rparr>) = cmd_frame F m m'"
  by (simp_all add: cmd_frame_def command_at_def)

lemma cmd_frame_and_then:
  assumes "and_then r f = Some (Value x)"
  obtains y where "r = Some (Value y)" "f y = Some (Value x)"
  using assms by (auto simp: and_then_def split: option.splits outcome.splits)

lemma expression_statement_frame: "cmd_frame {} m (snd (expression_statement api pos m))"
proof -
  let ?f = "\<lambda>c. c\<lparr>cmd_sql := Some (''SELECT '' @ cmd_text c), cmd_nsql := cmd_nsql c + 7, dynamic_sql := True\<rparr>"
  define m1 where "m1 = (if dynamic_sql (command_at pos m) then m else set_command pos ?f m)"
  have "cmd_frame {} m m1" by (simp add: m1_def cmd_frame_set_command)
  moreover have "cmd_frame {} m1 (snd (expression_statement api pos m))"
    unfolding expression_statement_def m1_def [symmetric]
    by (auto simp: Let_def case_prod_beta intro!: cmd_frame_set_command split: option.split)
  ultimately show ?thesis by (rule cmd_frame_then)
qed

lemma step_expression_frame:
  assumes "step_expression api pos m = Some (Value (rc, cols, m'))"
  shows "cmd_frame {} m m'"
proof -
  obtain r st m1 where e: "expression_statement api pos m = ((r, st), m1)" by (metis prod.collapse)
  have "cmd_frame {} m m1" using expression_statement_frame [of m api pos] e by simp
  moreover have "cmd_frame {} m1 m'"
    using assms e by (auto simp: step_expression_def case_prod_beta intro!: cmd_frame_set_command split: if_splits option.splits prod.splits
        intro: cmd_frame_then [OF _ cmd_frame_set_command])
  ultimately show ?thesis by (rule cmd_frame_then)
qed

lemma finish_expression_frame: "cmd_frame {} m (snd (finish_expression api pos m))"
  by (auto simp: finish_expression_def case_prod_beta Let_def intro!: cmd_frame_then [OF _ cmd_frame_set_command] split: option.split)

lemma execute_condition_frame:
  assumes "execute_condition api pos m = Some (Value (rc, b, m'))"
  shows "cmd_frame {} m m'"
  using assms unfolding execute_condition_def
  by (elim cmd_frame_and_then)
    (auto simp: case_prod_beta Let_def split: if_splits
      intro: cmd_frame_then [OF step_expression_frame finish_expression_frame] step_expression_frame)

lemma execute_values_frame:
  assumes "execute_values api pos m = Some (Value (rc, m'))"
  shows "cmd_frame {} m m'"
proof -
  obtain r cols m1 where s: "step_expression api pos m = Some (Value (r, cols, m1))"
      and rest: "(if r \<noteq> SQLITE_ROW \<or> cols = [] then Some (Value (r, m1))
        else let ((used, ok), vs) = add_columns cols [] (proc_vars (proc m1));
             m = set_command pos (\<lambda>c. c\<lparr>cmd_vars := used\<rparr>) (set_variables vs m1)
         in if \<not> ok then Some (Value (SQLITE_NOMEM, m)) else Some (Value (finish_expression api pos m)))
       = Some (Value (rc, m'))"
    using assms unfolding execute_values_def by (elim cmd_frame_and_then) (auto split: prod.splits)
  have a: "cmd_frame {} m m1" by (rule step_expression_frame [OF s])
  obtain used ok vs where v: "add_columns cols [] (proc_vars (proc m1)) = ((used, ok), vs)" by (metis prod.collapse)
  let ?m = "set_command pos (\<lambda>c. c\<lparr>cmd_vars := used\<rparr>) (set_variables vs m1)"
  have b: "cmd_frame {} m1 ?m" using cmd_frame_set_command [of "\<lambda>c. c\<lparr>cmd_vars := used\<rparr>" "set_variables vs m1" pos] by simp
  have "m' = m1 \<or> m' = ?m \<or> m' = snd (finish_expression api pos ?m)"
    using rest v by (auto simp: Let_def split: if_splits)
  then show ?thesis using a b finish_expression_frame [of ?m api pos] by (metis cmd_frame_then)
qed

lemma db_query_str_frame: "cmd_frame {} m (snd (db_query_str api z m))"
  by (simp add: db_query_str_def Let_def case_prod_beta split: option.split)

lemma next_result_frame: "cmd_frame {} m (snd (sqlite3VdbeNextResult m))"
  by (simp add: sqlite3VdbeNextResult_def Let_def split: option.split)

lemma save_registers_frame: "cmd_frame {} m (save_registers m)"
  by (simp add: save_registers_def)

lemma return_list_frame: "cmd_frame {} m (return_list list m)"
  unfolding return_list_def Let_def by (rule cmd_frame_then [OF _ next_result_frame]) simp

lemma return_values_frame: "cmd_frame {} m (snd (return_values used m))"
  by (simp add: return_values_def Let_def case_prod_beta)

lemma executeReturnCommand_frame:
  assumes "executeReturnCommand api pos m = Some (Value (rc, m'))"
  shows "cmd_frame {} m m'"
proof (cases "cmd_vars (command_at pos m) = [] \<and> cmd_sql (command_at pos m) = None")
  case True
  with assms show ?thesis by (simp add: executeReturnCommand_def)
next
  case False
  define m0 where "m0 = save_registers m"
  obtain r m1 where e: "(if cmd_sql (command_at pos m0) \<noteq> None then execute_values api pos m0 else Some (Value (SQLITE_OK, m0)))
        = Some (Value (r, m1))"
      and m': "m' = m1 \<or> (\<exists>l. m' = return_list l m1) \<or> (\<exists>u. m' = snd (return_values u m1))"
    using assms False unfolding executeReturnCommand_def Let_def m0_def [symmetric]
    by (auto elim!: cmd_frame_and_then split: if_splits option.splits) (metis snd_conv)+
  have "cmd_frame {} m m0" by (simp add: m0_def save_registers_frame)
  moreover have "cmd_frame {} m0 m1" using e execute_values_frame by (auto split: if_splits)
  ultimately show ?thesis using m' return_list_frame return_values_frame cmd_frame_then by metis
qed

lemma executeAssertCommand_frame:
  assumes "executeAssertCommand api pos m = Some (Value (rc, m'))"
  shows "cmd_frame {} m m'"
proof -
  obtain x where x: "execute_condition api pos m = Some (Value x)"
      and rest: "(\<lambda>(rc, result, m).
       if rc \<noteq> SQLITE_OK \<or> result then Some (Value (rc, m))
       else
         let c = command_at pos m;
             message = (case cmd_sql2 c of None \<Rightarrow> [] | Some z \<Rightarrow> take (cmd_nsql2 c) z);
             (rc, m) = db_query_str api (''SELECT printf('' @ message @ '')'') m
         in Some (Value (if rc \<noteq> SQLITE_OK then rc else SQLITE_ERROR, m))) x = Some (Value (rc, m'))"
    using assms unfolding executeAssertCommand_def by (rule cmd_frame_and_then)
  obtain r b m1 where c: "execute_condition api pos m = Some (Value (r, b, m1))" and x: "x = (r, b, m1)"
    using x by (cases x) auto
  have "m' = m1 \<or> (\<exists>z. m' = snd (db_query_str api z m1))"
    using rest unfolding x by (auto simp: Let_def case_prod_beta simp del: append_Cons split: if_splits)
  then show ?thesis using execute_condition_frame [OF c] db_query_str_frame cmd_frame_then by metis
qed

lemma executeStatementCommand_frame:
  assumes "executeStatementCommand api pos m = Some (Value (rc, m'))"
  shows "cmd_frame {} m m'"
  using assms unfolding executeStatementCommand_def
  by (auto simp: Let_def case_prod_beta cmd_frame_keep cmd_frame_set_command split: if_splits option.splits prod.splits)

lemma finish_set_frame: "cmd_frame {} m (finish_set as_list used s m)"
  by (simp add: finish_set_def Let_def)

lemma executeSetCommand_frame:
  assumes "executeSetCommand api pos m = Some (Value (rc, m'))"
  shows "cmd_frame {} m m'"
proof -
  have f: "cmd_frame {} m (finish_set l u s m')" if "cmd_frame {} m m'" for l u s m'
    by (rule cmd_frame_then [OF that finish_set_frame])
  show ?thesis
    using assms unfolding executeSetCommand_def
    by (auto simp: Let_def case_prod_beta f cmd_frame_keep cmd_frame_set_command split: if_splits option.splits prod.splits)
qed

lemma foreach_list_item_frame: "cmd_frame {} m (snd (foreach_list_item pos items m))"
  by (simp add: foreach_list_item_def Let_def cmd_frame_set_command)

lemma foreach_row_frame: "cmd_frame {} m (snd (foreach_row api pos m))"
  by (simp add: foreach_row_def Let_def case_prod_beta cmd_frame_keep cmd_frame_set_command split: option.split)

lemma executeForeachCommand_frame: "cmd_frame {} m (snd (executeForeachCommand api pos m))"
  by (simp add: executeForeachCommand_def foreach_list_item_frame foreach_row_frame Let_def split: option.split)

end
