(* ===== verification/Proc_Structured.thy ===== *)
theory Proc_Structured
  imports Proc_Frames
begin

section \<open>Stored procedures: the meaning of nested blocks\<close>

text \<open>
  A reference semantics of procedures as their authors read them: blocks of IF and LOOP nested in each other,
  without positions to jump to. The interpreter of the code runs on a flat array of linked commands; the
  theorem of this theory says that it does what the nested blocks say.
\<close>

subsection \<open>Nested commands\<close>

datatype stat = Simple cmd_type | Break nat | Continue nat | Loop block | Foreach block | If block branches
  and block = Empty | Seq stat block
  and branches = Endif | Else block | Elseif block branches

definition simple_types :: "cmd_type set" where
  "simple_types = {CMD_TYPE_DECLARE, CMD_TYPE_SET, CMD_TYPE_STATEMENT, CMD_TYPE_RETURN, CMD_TYPE_RAISE, CMD_TYPE_ASSERT}"

text \<open>The types of the commands one after the other.\<close>

primrec stat_shape :: "stat \<Rightarrow> cmd_type list"
  and block_shape :: "block \<Rightarrow> cmd_type list"
  and branches_shape :: "branches \<Rightarrow> cmd_type list" where
  "stat_shape (Simple t) = [t]"
| "stat_shape (Break k) = [CMD_TYPE_BREAK]"
| "stat_shape (Continue k) = [CMD_TYPE_CONTINUE]"
| "stat_shape (Loop b) = CMD_TYPE_LOOP # block_shape b @ [CMD_TYPE_ENDLOOP]"
| "stat_shape (Foreach b) = CMD_TYPE_FOREACH # block_shape b @ [CMD_TYPE_ENDLOOP]"
| "stat_shape (If b bs) = CMD_TYPE_IF # block_shape b @ branches_shape bs"
| "block_shape Empty = []"
| "block_shape (Seq s b) = stat_shape s @ block_shape b"
| "branches_shape Endif = [CMD_TYPE_ENDIF]"
| "branches_shape (Else b) = CMD_TYPE_ELSE # block_shape b @ [CMD_TYPE_ENDIF]"
| "branches_shape (Elseif b bs) = CMD_TYPE_ELSEIF # block_shape b @ branches_shape bs"

abbreviation stat_len :: "stat \<Rightarrow> nat" where "stat_len s \<equiv> length (stat_shape s)"
abbreviation block_len :: "block \<Rightarrow> nat" where "block_len b \<equiv> length (block_shape b)"
abbreviation branches_len :: "branches \<Rightarrow> nat" where "branches_len bs \<equiv> length (branches_shape bs)"

text \<open>The commands from a position on are those of the nested command, with the links that its blocks need; the list holds the
  positions where the enclosing loops begin, the innermost first. BREAK and CONTINUE carry the number of loops to leave
  before the one that they end or go on with: BREAK 1 is \<^term>\<open>Break 0\<close>.\<close>

primrec stat_code :: "(nat \<Rightarrow> 'stmt command) \<Rightarrow> nat \<Rightarrow> nat list \<Rightarrow> stat \<Rightarrow> bool"
  and block_code :: "(nat \<Rightarrow> 'stmt command) \<Rightarrow> nat \<Rightarrow> nat list \<Rightarrow> block \<Rightarrow> bool"
  and branches_code :: "(nat \<Rightarrow> 'stmt command) \<Rightarrow> nat \<Rightarrow> nat \<Rightarrow> nat list \<Rightarrow> branches \<Rightarrow> bool" where
  "stat_code C pos loops (Simple t) \<longleftrightarrow> cmd_type (C pos) = t \<and> t \<in> simple_types"
| "stat_code C pos loops (Break k) \<longleftrightarrow> cmd_type (C pos) = CMD_TYPE_BREAK \<and> k < length loops \<and> related_cmd (C pos) = loops ! k"
| "stat_code C pos loops (Continue k) \<longleftrightarrow> cmd_type (C pos) = CMD_TYPE_CONTINUE \<and> k < length loops \<and> related_cmd (C pos) = loops ! k"
| "stat_code C pos loops (Loop b) \<longleftrightarrow>
     (let e = pos + 1 + block_len b in
      cmd_type (C pos) = CMD_TYPE_LOOP \<and> related_cmd (C pos) = e \<and> block_code C (pos + 1) (pos # loops) b
      \<and> cmd_type (C e) = CMD_TYPE_ENDLOOP \<and> related_cmd (C e) = pos)"
| "stat_code C pos loops (Foreach b) \<longleftrightarrow>
     (let e = pos + 1 + block_len b in
      cmd_type (C pos) = CMD_TYPE_FOREACH \<and> related_cmd (C pos) = e \<and> block_code C (pos + 1) (pos # loops) b
      \<and> cmd_type (C e) = CMD_TYPE_ENDLOOP \<and> related_cmd (C e) = pos)"
| "stat_code C pos loops (If b bs) \<longleftrightarrow>
     (let e = pos + 1 + block_len b in
      cmd_type (C pos) = CMD_TYPE_IF \<and> next_if_cmd (C pos) = e \<and> block_code C (pos + 1) loops b
      \<and> branches_code C pos e loops bs)"
| "block_code C pos loops Empty \<longleftrightarrow> True"
| "block_code C pos loops (Seq s b) \<longleftrightarrow> stat_code C pos loops s \<and> block_code C (pos + stat_len s) loops b"
| "branches_code C ifpos pos loops Endif \<longleftrightarrow> cmd_type (C pos) = CMD_TYPE_ENDIF"
| "branches_code C ifpos pos loops (Else b) \<longleftrightarrow>
     (let e = pos + 1 + block_len b in
      cmd_type (C pos) = CMD_TYPE_ELSE \<and> related_cmd (C pos) = ifpos \<and> next_if_cmd (C pos) = e
      \<and> block_code C (pos + 1) loops b \<and> cmd_type (C e) = CMD_TYPE_ENDIF)"
| "branches_code C ifpos pos loops (Elseif b bs) \<longleftrightarrow>
     (let e = pos + 1 + block_len b in
      cmd_type (C pos) = CMD_TYPE_ELSEIF \<and> related_cmd (C pos) = ifpos \<and> next_if_cmd (C pos) = e
      \<and> block_code C (pos + 1) loops b \<and> branches_code C ifpos e loops bs)"

subsection \<open>Their meaning\<close>

text \<open>How a command ends: normally, on the way out of or back to the loop that is so many levels up, or with the whole
  procedure.\<close>

datatype ('db, 'stmt) result =
    Normal "('db, 'stmt) machine"
  | Broken nat "('db, 'stmt) machine"
  | Continued nat "('db, 'stmt) machine"
  | Stopped "('db, 'stmt) turn outcome"

definition simple_result :: "('db, 'stmt) turn outcome \<Rightarrow> ('db, 'stmt) result" where
  "simple_result t = (case t of Value (Next _ m) \<Rightarrow> Normal m | _ \<Rightarrow> Stopped t)"

text \<open>After its block a loop goes on (\<^term>\<open>Inl\<close>, with the state) or ends.\<close>

fun after_block :: "('db, 'stmt) result \<Rightarrow> ('db, 'stmt) machine + ('db, 'stmt) result" where
  "after_block (Normal m) = Inl m"
| "after_block (Continued 0 m) = Inl m"
| "after_block (Continued (Suc k) m) = Inr (Continued k m)"
| "after_block (Broken 0 m) = Inr (Normal m)"
| "after_block (Broken (Suc k) m) = Inr (Broken k m)"
| "after_block (Stopped x) = Inr (Stopped x)"

inductive runs_stat :: "('db, 'stmt) sql_api \<Rightarrow> nat \<Rightarrow> stat \<Rightarrow> ('db, 'stmt) machine \<Rightarrow> ('db, 'stmt) result \<Rightarrow> bool"
  and runs_block :: "('db, 'stmt) sql_api \<Rightarrow> nat \<Rightarrow> block \<Rightarrow> ('db, 'stmt) machine \<Rightarrow> ('db, 'stmt) result \<Rightarrow> bool"
  and runs_branches :: "('db, 'stmt) sql_api \<Rightarrow> nat \<Rightarrow> nat \<Rightarrow> branches \<Rightarrow> ('db, 'stmt) machine \<Rightarrow> ('db, 'stmt) result \<Rightarrow> bool"
  for api :: "('db, 'stmt) sql_api" where
  simple: "execute_command api pos m = Some t \<Longrightarrow> runs_stat api pos (Simple ty) m (simple_result t)"
| break: "runs_stat api pos (Break k) m (Broken k m)"
| continue: "runs_stat api pos (Continue k) m (Continued k m)"
| loop_again: "runs_block api (pos + 1) b m r \<Longrightarrow> after_block r = Inl m' \<Longrightarrow> runs_stat api pos (Loop b) m' r'
    \<Longrightarrow> runs_stat api pos (Loop b) m r'"
| loop_end: "runs_block api (pos + 1) b m r \<Longrightarrow> after_block r = Inr r' \<Longrightarrow> runs_stat api pos (Loop b) m r'"
| foreach_done: "executeForeachCommand api pos m = (SQLITE_DONE, m') \<Longrightarrow> runs_stat api pos (Foreach b) m (Normal m')"
| foreach_error: "executeForeachCommand api pos m = (rc, m') \<Longrightarrow> rc \<notin> {SQLITE_ROW, SQLITE_DONE, SQLITE_OK}
    \<Longrightarrow> runs_stat api pos (Foreach b) m (Stopped (Value (Failed rc m')))"
| foreach_again: "executeForeachCommand api pos m = (rc, m1) \<Longrightarrow> rc \<in> {SQLITE_ROW, SQLITE_OK}
    \<Longrightarrow> runs_block api (pos + 1) b m1 r \<Longrightarrow> after_block r = Inl m' \<Longrightarrow> runs_stat api pos (Foreach b) m' r'
    \<Longrightarrow> runs_stat api pos (Foreach b) m r'"
| foreach_end: "executeForeachCommand api pos m = (rc, m1) \<Longrightarrow> rc \<in> {SQLITE_ROW, SQLITE_OK}
    \<Longrightarrow> runs_block api (pos + 1) b m1 r \<Longrightarrow> after_block r = Inr r' \<Longrightarrow> runs_stat api pos (Foreach b) m r'"
| if_crash: "execute_condition api pos m = Some Bad_Access \<Longrightarrow> runs_stat api pos (If b bs) m (Stopped Bad_Access)"
| if_error: "execute_condition api pos m = Some (Value (rc, c, m')) \<Longrightarrow> rc \<noteq> SQLITE_OK
    \<Longrightarrow> runs_stat api pos (If b bs) m (Stopped (Value (Failed rc m')))"
| if_true: "execute_condition api pos m = Some (Value (SQLITE_OK, True, m'))
    \<Longrightarrow> runs_block api (pos + 1) b (set_executed True pos m') r \<Longrightarrow> runs_stat api pos (If b bs) m r"
| if_false: "execute_condition api pos m = Some (Value (SQLITE_OK, False, m'))
    \<Longrightarrow> runs_branches api pos (pos + 1 + block_len b) bs (set_executed False pos m') r \<Longrightarrow> runs_stat api pos (If b bs) m r"
| empty: "runs_block api pos Empty m (Normal m)"
| seq: "runs_stat api pos s m (Normal m') \<Longrightarrow> runs_block api (pos + stat_len s) b m' r \<Longrightarrow> runs_block api pos (Seq s b) m r"
| seq_out: "runs_stat api pos s m r \<Longrightarrow> (\<And>m'. r \<noteq> Normal m') \<Longrightarrow> runs_block api pos (Seq s b) m r"
| endif: "runs_branches api ifpos pos Endif m (Normal m)"
| else: "runs_block api (pos + 1) b (set_executed True ifpos m) r \<Longrightarrow> runs_branches api ifpos pos (Else b) m r"
| elseif_crash: "execute_condition api pos m = Some Bad_Access \<Longrightarrow> runs_branches api ifpos pos (Elseif b bs) m (Stopped Bad_Access)"
| elseif_error: "execute_condition api pos m = Some (Value (rc, c, m')) \<Longrightarrow> rc \<noteq> SQLITE_OK
    \<Longrightarrow> runs_branches api ifpos pos (Elseif b bs) m (Stopped (Value (Failed rc m')))"
| elseif_true: "execute_condition api pos m = Some (Value (SQLITE_OK, True, m'))
    \<Longrightarrow> runs_block api (pos + 1) b (set_executed True ifpos m') r \<Longrightarrow> runs_branches api ifpos pos (Elseif b bs) m r"
| elseif_false: "execute_condition api pos m = Some (Value (SQLITE_OK, False, m'))
    \<Longrightarrow> runs_branches api ifpos (pos + 1 + block_len b) bs m' r \<Longrightarrow> runs_branches api ifpos pos (Elseif b bs) m r"

subsection \<open>The interpreter agrees\<close>

definition linked :: "(nat \<Rightarrow> 'stmt command) \<Rightarrow> nat \<Rightarrow> ('db, 'stmt) machine \<Rightarrow> bool" where
  "linked C N m \<longleftrightarrow> num_cmds (proc m) = N \<and> N \<le> length (cmds (proc m)) \<and> (\<forall>q<N. same_links (C q) (command_at q m))"

lemma linked_frame: "linked C N m \<Longrightarrow> cmd_frame F m m' \<Longrightarrow> linked C N m'"
  unfolding linked_def cmd_frame_def same_links_def by auto

lemma linkedD:
  assumes "linked C N m" and "q < N"
  shows "cmd_type (command_at q m) = cmd_type (C q)" "next_if_cmd (command_at q m) = next_if_cmd (C q)"
    "related_cmd (command_at q m) = related_cmd (C q)" "q < length (cmds (proc m))" "q < num_cmds (proc m)"
  using assms by (auto simp: linked_def same_links_def)

text \<open>Where the flat program goes on.\<close>

definition goes_on ::
  "('db, 'stmt) sql_api \<Rightarrow> (nat \<Rightarrow> 'stmt command) \<Rightarrow> nat list \<Rightarrow> ('db, 'stmt) result \<Rightarrow> nat \<Rightarrow> ('db, 'stmt) turn outcome option" where
  "goes_on api C loops r pos =
     (case r of
        Normal m \<Rightarrow> run_commands api pos m
      | Broken t m \<Rightarrow> run_commands api (related_cmd (C (loops ! t)) + 1) m
      | Continued t m \<Rightarrow> run_commands api (loops ! t) m
      | Stopped x \<Rightarrow> Some x)"

definition keeps :: "nat set \<Rightarrow> nat list \<Rightarrow> ('db, 'stmt) machine \<Rightarrow> ('db, 'stmt) result \<Rightarrow> bool" where
  "keeps F loops m r \<longleftrightarrow>
     (case r of
        Normal m' \<Rightarrow> cmd_frame F m m'
      | Broken t m' \<Rightarrow> cmd_frame F m m' \<and> t < length loops
      | Continued t m' \<Rightarrow> cmd_frame F m m' \<and> t < length loops
      | Stopped x \<Rightarrow> True)"

lemma keeps_trans: "cmd_frame F m m' \<Longrightarrow> keeps G loops m' r \<Longrightarrow> F \<union> G \<subseteq> H \<Longrightarrow> keeps H loops m r"
  unfolding keeps_def by (auto split: result.splits intro: cmd_frame_trans)

lemma keeps_same: "cmd_frame F m m' \<Longrightarrow> keeps F loops m' r \<Longrightarrow> keeps F loops m r"
  using keeps_trans [of F m m' F loops r F] by blast

lemma keeps_mono: "keeps F loops m r \<Longrightarrow> F \<subseteq> G \<Longrightarrow> keeps G loops m r"
  by (rule keeps_trans [OF cmd_frame_refl [of "{}"]]) simp_all

lemma run_next:
  assumes "pos < num_cmds (proc m)" and "execute_command api pos m = Some (Value (Next p m'))"
  shows "run_commands api pos m = run_commands api p m'"
  using assms by (subst run_commands.simps) simp

lemma run_stop:
  assumes "pos < num_cmds (proc m)" and "execute_command api pos m = Some t" and "\<And>p m'. t \<noteq> Value (Next p m')"
  shows "run_commands api pos m = Some t"
  using assms by (subst run_commands.simps) (auto split: outcome.split turn.split)

lemma run_end: "num_cmds (proc m) \<le> pos \<Longrightarrow> run_commands api pos m = Some (Value (Finished SQLITE_OK m))"
  by (subst run_commands.simps) simp

text \<open>One step of each kind of command that links blocks.\<close>

lemma run_loop: "linked C N m \<Longrightarrow> pos < N \<Longrightarrow> cmd_type (C pos) = CMD_TYPE_LOOP \<Longrightarrow> run_commands api pos m = run_commands api (pos + 1) m"
  by (rule run_next) (simp_all add: linkedD execute_command_def)

lemma run_endif: "linked C N m \<Longrightarrow> pos < N \<Longrightarrow> cmd_type (C pos) = CMD_TYPE_ENDIF \<Longrightarrow> run_commands api pos m = run_commands api (pos + 1) m"
  by (rule run_next) (simp_all add: linkedD execute_command_def)

lemma run_endloop:
  "linked C N m \<Longrightarrow> pos < N \<Longrightarrow> cmd_type (C pos) = CMD_TYPE_ENDLOOP \<or> cmd_type (C pos) = CMD_TYPE_CONTINUE
    \<Longrightarrow> run_commands api pos m = run_commands api (related_cmd (C pos)) m"
  by (rule run_next) (auto simp: linkedD execute_command_def)

lemma run_break:
  "linked C N m \<Longrightarrow> pos < N \<Longrightarrow> cmd_type (C pos) = CMD_TYPE_BREAK \<Longrightarrow> related_cmd (C pos) < N
    \<Longrightarrow> run_commands api pos m = run_commands api (related_cmd (C (related_cmd (C pos))) + 1) m"
  by (rule run_next) (auto simp: linkedD execute_command_def execute_break_def Let_def not_le)

lemma run_elseif_skip:
  "linked C N m \<Longrightarrow> pos < N \<Longrightarrow> cmd_type (C pos) = CMD_TYPE_ELSEIF \<or> cmd_type (C pos) = CMD_TYPE_ELSE
    \<Longrightarrow> related_cmd (C pos) < N \<Longrightarrow> executed (command_at (related_cmd (C pos)) m)
    \<Longrightarrow> run_commands api pos m = run_commands api (next_if_cmd (C pos)) m"
  by (rule run_next) (auto simp: linkedD execute_command_def execute_elseif_def execute_else_def Let_def not_le)

lemma run_else:
  "linked C N m \<Longrightarrow> pos < N \<Longrightarrow> cmd_type (C pos) = CMD_TYPE_ELSE
    \<Longrightarrow> related_cmd (C pos) < N \<Longrightarrow> \<not> executed (command_at (related_cmd (C pos)) m)
    \<Longrightarrow> run_commands api pos m = run_commands api (pos + 1) (set_executed True (related_cmd (C pos)) m)"
  by (rule run_next) (auto simp: linkedD execute_command_def execute_else_def Let_def not_le)

text \<open>After a branch that was executed the others are passed over.\<close>

lemma branches_induct [case_names Endif Else Elseif]:
  "P Endif \<Longrightarrow> (\<And>b. P (Else b)) \<Longrightarrow> (\<And>b bs. P bs \<Longrightarrow> P (Elseif b bs)) \<Longrightarrow> P bs"
  by (rule branches.induct [of "\<lambda>_. True" "\<lambda>_. True" P]) simp_all

lemma run_skip_branches:
  assumes "branches_code C ifpos pos loops bs" and "linked C N m" and "pos + branches_len bs \<le> N" and "ifpos < N"
    and "executed (command_at ifpos m)"
  shows "run_commands api pos m = run_commands api (pos + branches_len bs) m"
  using assms
proof (induction bs arbitrary: pos rule: branches_induct)
  case Endif
  then show ?case using run_endif [of C N m pos api] by simp
next
  case (Else b)
  then show ?case
    using run_elseif_skip [of C N m pos api] run_endif [of C N m "pos + 1 + block_len b" api] by (simp add: Let_def add_ac)
next
  case (Elseif b bs)
  then show ?case using run_elseif_skip [of C N m pos api] Elseif.IH [of "pos + 1 + block_len b"] by (simp add: Let_def add_ac)
qed

lemma simple_command:
  fixes m m' :: "('db, 'stmt) machine"
  assumes "cmd_type (command_at pos m) \<in> simple_types" and "execute_command api pos m = Some (Value (Next p m'))"
  shows "p = pos + 1 \<and> cmd_frame {} m m'"
proof -
  have *: "and_then r (\<lambda>r. Some (Value (after_command (pos + 1) r))) = Some (Value (Next p m'))
      \<Longrightarrow> p = pos + 1 \<and> (\<exists>rc. r = Some (Value (rc, m')))" for r :: "(rc \<times> ('db, 'stmt) machine) outcome option"
    by (elim cmd_frame_and_then) (auto simp: after_command_def split: if_splits)
  have nret: "\<not> (\<exists>r. and_then r (\<lambda>(rc, m). Some (Value (if rc \<noteq> SQLITE_OK then Failed rc m else Finished SQLITE_OK m)))
      = Some (Value (Next p m')))" for r :: "(rc \<times> ('db, 'stmt) machine) outcome option"
    by (auto elim!: cmd_frame_and_then split: if_splits)
  show ?thesis
  proof (cases "cmd_type (command_at pos m)")
    case CMD_TYPE_SET
    with assms(2) * [of "executeSetCommand api pos m"] show ?thesis by (auto simp: execute_command_def executeSetCommand_frame)
  next
    case CMD_TYPE_STATEMENT
    with assms(2) * [of "executeStatementCommand api pos m"] show ?thesis
      by (auto simp: execute_command_def executeStatementCommand_frame)
  next
    case CMD_TYPE_ASSERT
    with assms(2) * [of "executeAssertCommand api pos m"] show ?thesis by (auto simp: execute_command_def executeAssertCommand_frame)
  next
    case CMD_TYPE_RETURN
    with assms(2) nret show ?thesis by (auto simp: execute_command_def)
  next
    case CMD_TYPE_RAISE
    with assms(2) show ?thesis by (auto simp: execute_command_def case_prod_beta Let_def split: if_splits)
  qed (use assms in \<open>auto simp: execute_command_def simple_types_def\<close>)
qed

text \<open>What the block of a loop does to the loop.\<close>

lemma loop_block:
  assumes "keeps F (pos # loops) m r" and "linked C N m" and "cmd_type (C e) = CMD_TYPE_ENDLOOP" and "related_cmd (C e) = pos"
    and "related_cmd (C pos) = e" and "e < N" and "F \<subseteq> G"
  shows "after_block r = Inl m' \<Longrightarrow> goes_on api C (pos # loops) r e = run_commands api pos m' \<and> cmd_frame G m m'"
    and "after_block r = Inr r' \<Longrightarrow> goes_on api C (pos # loops) r e = goes_on api C loops r' (e + 1) \<and> keeps G loops m r'"
proof -
  have end_loop: "run_commands api e m1 = run_commands api pos m1" if "cmd_frame F m m1" for m1
    using run_endloop [of C N m1 e api] linked_frame [OF assms(2) that] assms(3,4,6) by simp
  show "after_block r = Inl m' \<Longrightarrow> goes_on api C (pos # loops) r e = run_commands api pos m' \<and> cmd_frame G m m'"
    using assms(1) end_loop cmd_frame_mono [OF _ assms(7)]
    by (cases r rule: after_block.cases) (auto simp: goes_on_def keeps_def)
  show "after_block r = Inr r' \<Longrightarrow> goes_on api C (pos # loops) r e = goes_on api C loops r' (e + 1) \<and> keeps G loops m r'"
    using assms(1,5) cmd_frame_mono [OF _ assms(7)]
    by (cases r rule: after_block.cases) (auto simp: goes_on_def keeps_def)
qed

definition sim_stat :: "('db, 'stmt) sql_api \<Rightarrow> nat \<Rightarrow> stat \<Rightarrow> ('db, 'stmt) machine \<Rightarrow> ('db, 'stmt) result \<Rightarrow> bool" where
  "sim_stat api pos s m r \<longleftrightarrow>
     (\<forall>C loops N. stat_code C pos loops s \<and> linked C N m \<and> pos + stat_len s \<le> N \<and> (\<forall>l\<in>set loops. l < pos) \<longrightarrow>
        run_commands api pos m = goes_on api C loops r (pos + stat_len s) \<and> keeps {pos..<pos + stat_len s} loops m r)"

definition sim_block :: "('db, 'stmt) sql_api \<Rightarrow> nat \<Rightarrow> block \<Rightarrow> ('db, 'stmt) machine \<Rightarrow> ('db, 'stmt) result \<Rightarrow> bool" where
  "sim_block api pos b m r \<longleftrightarrow>
     (\<forall>C loops N. block_code C pos loops b \<and> linked C N m \<and> pos + block_len b \<le> N \<and> (\<forall>l\<in>set loops. l < pos) \<longrightarrow>
        run_commands api pos m = goes_on api C loops r (pos + block_len b) \<and> keeps {pos..<pos + block_len b} loops m r)"

definition sim_branches :: "('db, 'stmt) sql_api \<Rightarrow> nat \<Rightarrow> nat \<Rightarrow> branches \<Rightarrow> ('db, 'stmt) machine \<Rightarrow> ('db, 'stmt) result \<Rightarrow> bool" where
  "sim_branches api ifpos pos bs m r \<longleftrightarrow>
     (\<forall>C loops N. branches_code C ifpos pos loops bs \<and> linked C N m \<and> pos + branches_len bs \<le> N \<and> (\<forall>l\<in>set loops. l < pos)
        \<and> ifpos < pos \<and> \<not> executed (command_at ifpos m) \<longrightarrow>
        run_commands api pos m = goes_on api C loops r (pos + branches_len bs)
        \<and> keeps (insert ifpos {pos..<pos + branches_len bs}) loops m r)"

lemma sim_simple:
  assumes "execute_command api pos m = Some t"
  shows "sim_stat api pos (Simple ty) m (simple_result t)"
  unfolding sim_stat_def
proof (intro allI impI)
  fix C loops N
  assume a: "stat_code C pos loops (Simple ty) \<and> linked C N m \<and> pos + stat_len (Simple ty) \<le> N \<and> (\<forall>l\<in>set loops. l < pos)"
  then have pos: "pos < num_cmds (proc m)" and ty: "cmd_type (command_at pos m) \<in> simple_types"
    using linkedD [of C N m pos] by auto
  show "run_commands api pos m = goes_on api C loops (simple_result t) (pos + stat_len (Simple ty))
      \<and> keeps {pos..<pos + stat_len (Simple ty)} loops m (simple_result t)"
  proof (cases "\<exists>p m'. t = Value (Next p m')")
    case True
    then obtain p m' where t: "t = Value (Next p m')" by blast
    then have p: "p = pos + 1 \<and> cmd_frame {} m m'" using simple_command [OF ty] assms by simp
    then have "run_commands api pos m = run_commands api (pos + 1) m'" using run_next [OF pos] assms t by simp
    then show ?thesis using t p cmd_frame_mono [of "{}" m m'] by (simp add: simple_result_def goes_on_def keeps_def)
  next
    case False
    then have "run_commands api pos m = Some t" using run_stop [OF pos assms] by blast
    moreover have "simple_result t = Stopped t" using False by (auto simp: simple_result_def split: outcome.split turn.split)
    ultimately show ?thesis by (simp add: goes_on_def keeps_def)
  qed
qed

lemma sim_break: "sim_stat api pos (Break k) m (Broken k m)"
  unfolding sim_stat_def
proof (intro allI impI)
  fix C loops N
  assume a: "stat_code C pos loops (Break k) \<and> linked C N m \<and> pos + stat_len (Break k) \<le> N \<and> (\<forall>l\<in>set loops. l < pos)"
  then have pos: "pos < N" and "related_cmd (C pos) < pos" by simp_all
  then have "related_cmd (C pos) < N" by (rule less_trans [rotated])
  then show "run_commands api pos m = goes_on api C loops (Broken k m) (pos + stat_len (Break k))
      \<and> keeps {pos..<pos + stat_len (Break k)} loops m (Broken k m)"
    using a pos run_break [of C N m pos api] by (simp add: goes_on_def keeps_def)
qed

lemma sim_continue: "sim_stat api pos (Continue k) m (Continued k m)"
  unfolding sim_stat_def
proof (intro allI impI)
  fix C loops N
  assume a: "stat_code C pos loops (Continue k) \<and> linked C N m \<and> pos + stat_len (Continue k) \<le> N \<and> (\<forall>l\<in>set loops. l < pos)"
  then show "run_commands api pos m = goes_on api C loops (Continued k m) (pos + stat_len (Continue k))
      \<and> keeps {pos..<pos + stat_len (Continue k)} loops m (Continued k m)"
    using run_endloop [of C N m pos api] by (simp add: goes_on_def keeps_def)
qed

text \<open>The facts about a block inside a loop.\<close>

lemma sim_loop_block:
  assumes "sim_block api (pos + 1) b m r" and "block_code C (pos + 1) (pos # loops) b" and "linked C N m"
    and "pos + block_len b + 2 \<le> N" and "\<forall>l\<in>set loops. l < pos"
    and "cmd_type (C (pos + 1 + block_len b)) = CMD_TYPE_ENDLOOP" and "related_cmd (C (pos + 1 + block_len b)) = pos"
    and "related_cmd (C pos) = pos + 1 + block_len b"
  shows "after_block r = Inl m' \<Longrightarrow> run_commands api (pos + 1) m = run_commands api pos m'
      \<and> cmd_frame {pos..<pos + block_len b + 2} m m'"
    and "after_block r = Inr r' \<Longrightarrow> run_commands api (pos + 1) m = goes_on api C loops r' (pos + block_len b + 2)
      \<and> keeps {pos..<pos + block_len b + 2} loops m r'"
proof -
  let ?e = "pos + 1 + block_len b" and ?F = "{pos + 1..<pos + 1 + block_len b}" and ?G = "{pos..<pos + block_len b + 2}"
  have "\<forall>l\<in>set (pos # loops). l < pos + 1" using assms(5) by auto
  moreover have "pos + 1 + block_len b \<le> N" using assms(4) by simp
  ultimately have b: "run_commands api (pos + 1) m = goes_on api C (pos # loops) r ?e" "keeps ?F (pos # loops) m r"
    using assms(1-3) unfolding sim_block_def by blast+
  have e: "?e < N" "?F \<subseteq> ?G" using assms(4) by auto
  note lb = loop_block [OF b(2) assms(3,6,7,8) e]
  show "after_block r = Inl m' \<Longrightarrow> run_commands api (pos + 1) m = run_commands api pos m' \<and> cmd_frame ?G m m'"
    using lb(1) b(1) by simp
  show "after_block r = Inr r' \<Longrightarrow> run_commands api (pos + 1) m = goes_on api C loops r' (pos + block_len b + 2) \<and> keeps ?G loops m r'"
    using lb(2) b(1) by (simp add: add_ac)
qed

lemma sim_loop_again:
  assumes "sim_block api (pos + 1) b m r" and "after_block r = Inl m'" and "sim_stat api pos (Loop b) m' r'"
  shows "sim_stat api pos (Loop b) m r'"
  unfolding sim_stat_def
proof (intro allI impI)
  fix C loops N
  assume a: "stat_code C pos loops (Loop b) \<and> linked C N m \<and> pos + stat_len (Loop b) \<le> N \<and> (\<forall>l\<in>set loops. l < pos)"
  then have body: "run_commands api (pos + 1) m = run_commands api pos m'" "cmd_frame {pos..<pos + block_len b + 2} m m'"
    using sim_loop_block(1) [OF assms(1) _ _ _ _ _ _ _ assms(2), of C loops N] by (simp_all add: Let_def)
  have "linked C N m'" using a linked_frame [OF _ body(2)] by blast
  then have "run_commands api pos m' = goes_on api C loops r' (pos + stat_len (Loop b))
      \<and> keeps {pos..<pos + stat_len (Loop b)} loops m' r'"
    using assms(3) a unfolding sim_stat_def by blast
  moreover have "run_commands api pos m = run_commands api (pos + 1) m" using a run_loop [of C N m pos api] by (simp add: Let_def)
  ultimately show "run_commands api pos m = goes_on api C loops r' (pos + stat_len (Loop b))
      \<and> keeps {pos..<pos + stat_len (Loop b)} loops m r'"
    using body(1) keeps_same [OF body(2)] by (simp add: add_ac)
qed

lemma sim_loop_end:
  assumes "sim_block api (pos + 1) b m r" and "after_block r = Inr r'"
  shows "sim_stat api pos (Loop b) m r'"
  unfolding sim_stat_def
proof (intro allI impI)
  fix C loops N
  assume a: "stat_code C pos loops (Loop b) \<and> linked C N m \<and> pos + stat_len (Loop b) \<le> N \<and> (\<forall>l\<in>set loops. l < pos)"
  then have "run_commands api (pos + 1) m = goes_on api C loops r' (pos + block_len b + 2)" "keeps {pos..<pos + block_len b + 2} loops m r'"
    using sim_loop_block(2) [OF assms(1) _ _ _ _ _ _ _ assms(2), of C loops N] by (simp_all add: Let_def)
  moreover have "run_commands api pos m = run_commands api (pos + 1) m" using a run_loop [of C N m pos api] by (simp add: Let_def)
  ultimately show "run_commands api pos m = goes_on api C loops r' (pos + stat_len (Loop b))
      \<and> keeps {pos..<pos + stat_len (Loop b)} loops m r'"
    by (simp add: add_ac)
qed

lemma run_foreach:
  assumes "linked C N m" and "pos < N" and "cmd_type (C pos) = CMD_TYPE_FOREACH" and "executeForeachCommand api pos m = (rc, m')"
  shows "rc = SQLITE_DONE \<Longrightarrow> run_commands api pos m = run_commands api (related_cmd (C pos) + 1) m'"
    and "rc \<in> {SQLITE_ROW, SQLITE_OK} \<Longrightarrow> run_commands api pos m = run_commands api (pos + 1) m'"
    and "rc \<notin> {SQLITE_ROW, SQLITE_DONE, SQLITE_OK} \<Longrightarrow> run_commands api pos m = Some (Value (Failed rc m'))"
    and "linked C N m'" and "cmd_frame {} m m'"
proof -
  show f: "cmd_frame {} m m'" using executeForeachCommand_frame [of m api pos] assms(4) by simp
  show l: "linked C N m'" by (rule linked_frame [OF assms(1) f])
  have e: "execute_command api pos m = Some (Value (execute_foreach api pos m))"
    using assms(3) linkedD(1) [OF assms(1,2)] by (simp add: execute_command_def)
  have n: "pos < num_cmds (proc m)" using linkedD(5) [OF assms(1,2)] .
  show "rc = SQLITE_DONE \<Longrightarrow> run_commands api pos m = run_commands api (related_cmd (C pos) + 1) m'"
    by (rule run_next [OF n]) (simp add: e execute_foreach_def assms(4) linkedD [OF l assms(2)])
  show "rc \<in> {SQLITE_ROW, SQLITE_OK} \<Longrightarrow> run_commands api pos m = run_commands api (pos + 1) m'"
    by (rule run_next [OF n]) (auto simp: e execute_foreach_def assms(4))
  show "rc \<notin> {SQLITE_ROW, SQLITE_DONE, SQLITE_OK} \<Longrightarrow> run_commands api pos m = Some (Value (Failed rc m'))"
    by (rule run_stop [OF n]) (auto simp: e execute_foreach_def assms(4))
qed

lemma sim_foreach:
  assumes "executeForeachCommand api pos m = (rc, m1)"
    and "rc = SQLITE_DONE \<and> r' = Normal m1
      \<or> rc \<notin> {SQLITE_ROW, SQLITE_DONE, SQLITE_OK} \<and> r' = Stopped (Value (Failed rc m1))
      \<or> rc \<in> {SQLITE_ROW, SQLITE_OK} \<and> sim_block api (pos + 1) b m1 r
          \<and> (after_block r = Inr r' \<or> (\<exists>m'. after_block r = Inl m' \<and> sim_stat api pos (Foreach b) m' r'))"
  shows "sim_stat api pos (Foreach b) m r'"
  unfolding sim_stat_def
proof (intro allI impI)
  fix C loops N
  let ?G = "{pos..<pos + block_len b + 2}"
  assume a: "stat_code C pos loops (Foreach b) \<and> linked C N m \<and> pos + stat_len (Foreach b) \<le> N \<and> (\<forall>l\<in>set loops. l < pos)"
  then have c: "cmd_type (C pos) = CMD_TYPE_FOREACH" "related_cmd (C pos) = pos + 1 + block_len b" "pos < N" "linked C N m"
    by (simp_all add: Let_def)
  note f = run_foreach [OF c(4) c(3) c(1) assms(1)]
  have G: "keeps ?G loops m x" if "keeps ?G loops m1 x" for x
    using keeps_trans [OF f(5) that, of ?G] by simp
  have body: "after_block r = Inl m' \<Longrightarrow> sim_block api (pos + 1) b m1 r \<Longrightarrow>
        run_commands api (pos + 1) m1 = run_commands api pos m' \<and> cmd_frame ?G m1 m'"
      "after_block r = Inr r' \<Longrightarrow> sim_block api (pos + 1) b m1 r \<Longrightarrow>
        run_commands api (pos + 1) m1 = goes_on api C loops r' (pos + block_len b + 2) \<and> keeps ?G loops m1 r'" for m'
    using sim_loop_block(1) [of api pos b m1 r C loops N m'] sim_loop_block(2) [of api pos b m1 r C loops N r'] a f(4)
    by (simp_all add: Let_def)
  consider (finish) "rc = SQLITE_DONE" "r' = Normal m1"
    | (error) "rc \<notin> {SQLITE_ROW, SQLITE_DONE, SQLITE_OK}" "r' = Stopped (Value (Failed rc m1))"
    | (out) "rc \<in> {SQLITE_ROW, SQLITE_OK}" "sim_block api (pos + 1) b m1 r" "after_block r = Inr r'"
    | (again) m' where "rc \<in> {SQLITE_ROW, SQLITE_OK}" "sim_block api (pos + 1) b m1 r" "after_block r = Inl m'"
        "sim_stat api pos (Foreach b) m' r'"
    using assms(2) by (elim disjE conjE exE) (rule that; assumption)+
  then have "run_commands api pos m = goes_on api C loops r' (pos + block_len b + 2) \<and> keeps ?G loops m r'"
  proof cases
    case finish
    then show ?thesis using f(1) c(2) cmd_frame_mono [OF f(5)] by (simp add: goes_on_def keeps_def)
  next
    case error
    then show ?thesis using f(3) by (simp add: goes_on_def keeps_def)
  next
    case out
    then show ?thesis using f(2) body(2) G by simp
  next
    case again
    then have m': "run_commands api (pos + 1) m1 = run_commands api pos m'" "cmd_frame ?G m1 m'" using body(1) by blast+
    have "linked C N m'" by (rule linked_frame [OF f(4) m'(2)])
    then have "run_commands api pos m' = goes_on api C loops r' (pos + stat_len (Foreach b)) \<and> keeps {pos..<pos + stat_len (Foreach b)} loops m' r'"
      using again(4) a unfolding sim_stat_def by blast
    then show ?thesis using f(2) [OF again(1)] m'(1) G keeps_same [OF m'(2)] by (simp add: add_ac)
  qed
  then show "run_commands api pos m = goes_on api C loops r' (pos + stat_len (Foreach b))
      \<and> keeps {pos..<pos + stat_len (Foreach b)} loops m r'"
    by (simp add: add_ac)
qed

text \<open>IF and ELSEIF: a branch that ends normally is followed by the end of the block.\<close>

lemma run_condition:
  assumes "linked C N m" and "pos < N"
    and "cmd_type (C pos) = CMD_TYPE_IF \<and> ifpos = pos
      \<or> cmd_type (C pos) = CMD_TYPE_ELSEIF \<and> related_cmd (C pos) = ifpos \<and> ifpos < N \<and> \<not> executed (command_at ifpos m)"
  shows "execute_condition api pos m = Some Bad_Access \<Longrightarrow> run_commands api pos m = Some Bad_Access"
    and "execute_condition api pos m = Some (Value (rc, c, m')) \<Longrightarrow> rc \<noteq> SQLITE_OK \<Longrightarrow> run_commands api pos m = Some (Value (Failed rc m'))"
    and "execute_condition api pos m = Some (Value (SQLITE_OK, True, m'))
      \<Longrightarrow> run_commands api pos m = run_commands api (pos + 1) (set_executed True ifpos m')"
    and "execute_condition api pos m = Some (Value (SQLITE_OK, False, m')) \<Longrightarrow> cmd_type (C pos) = CMD_TYPE_IF
      \<Longrightarrow> run_commands api pos m = run_commands api (next_if_cmd (C pos)) (set_executed False pos m')"
    and "execute_condition api pos m = Some (Value (SQLITE_OK, False, m')) \<Longrightarrow> cmd_type (C pos) = CMD_TYPE_ELSEIF
      \<Longrightarrow> run_commands api pos m = run_commands api (next_if_cmd (C pos)) m'"
proof -
  note n = linkedD(5) [OF assms(1,2)] and l = linkedD [OF assms(1,2)]
  have e: "execute_command api pos m = (if cmd_type (C pos) = CMD_TYPE_IF then execute_if api pos m else execute_elseif api pos m)"
    using assms(3) l(1) by (auto simp: execute_command_def)
  have ifpos: "ifpos < length (cmds (proc m))" using assms linkedD(4) [OF assms(1), of ifpos] by auto
  note defs = e execute_if_def execute_elseif_def Let_def not_le
  show "execute_condition api pos m = Some Bad_Access \<Longrightarrow> run_commands api pos m = Some Bad_Access"
    by (rule run_stop [OF n]) (use assms(3) l ifpos in \<open>auto simp: defs\<close>)
  show "execute_condition api pos m = Some (Value (rc, c, m')) \<Longrightarrow> rc \<noteq> SQLITE_OK \<Longrightarrow> run_commands api pos m = Some (Value (Failed rc m'))"
    by (rule run_stop [OF n]) (use assms(3) l ifpos in \<open>auto simp: defs\<close>)
  show "execute_condition api pos m = Some (Value (SQLITE_OK, True, m'))
      \<Longrightarrow> run_commands api pos m = run_commands api (pos + 1) (set_executed True ifpos m')"
    by (rule run_next [OF n]) (use assms(3) l ifpos in \<open>auto simp: defs\<close>)
  have link: "next_if_cmd (command_at pos m') = next_if_cmd (C pos)" if "execute_condition api pos m = Some (Value (SQLITE_OK, b, m'))" for b
    using linkedD(2) [OF linked_frame [OF assms(1) execute_condition_frame [OF that]] assms(2)] .
  show "execute_condition api pos m = Some (Value (SQLITE_OK, False, m')) \<Longrightarrow> cmd_type (C pos) = CMD_TYPE_IF
      \<Longrightarrow> run_commands api pos m = run_commands api (next_if_cmd (C pos)) (set_executed False pos m')"
    by (rule run_next [OF n]) (use link in \<open>auto simp: defs\<close>)
  show "execute_condition api pos m = Some (Value (SQLITE_OK, False, m')) \<Longrightarrow> cmd_type (C pos) = CMD_TYPE_ELSEIF
      \<Longrightarrow> run_commands api pos m = run_commands api (next_if_cmd (C pos)) m'"
    by (rule run_next [OF n]) (use assms(3) l ifpos in \<open>auto simp: defs\<close>)
qed

lemma executed_set [simp]: "pos < length (cmds (proc m)) \<Longrightarrow> executed (command_at pos (set_executed b pos m)) = b"
  by (simp add: set_executed_def)

text \<open>The block of a branch, and the way from its end to the end of the IF block.\<close>

lemma sim_branch_block:
  assumes "sim_block api (pos + 1) b (set_executed True ifpos m) r" and "block_code C (pos + 1) loops b"
    and "branches_code C ifpos (pos + 1 + block_len b) loops bs" and "linked C N m" and "pos + 1 + block_len b + branches_len bs \<le> N"
    and "\<forall>l\<in>set loops. l < pos" and "ifpos \<le> pos"
  shows "run_commands api (pos + 1) (set_executed True ifpos m) = goes_on api C loops r (pos + 1 + block_len b + branches_len bs)
    \<and> keeps (insert ifpos {pos..<pos + 1 + block_len b + branches_len bs}) loops m r"
proof -
  let ?m = "set_executed True ifpos m" and ?e = "pos + 1 + block_len b" and ?F = "{pos + 1..<pos + 1 + block_len b}"
  have f0: "cmd_frame {ifpos} m ?m" by (rule cmd_frame_set_executed)
  have l: "linked C N ?m" by (rule linked_frame [OF assms(4) f0])
  have n: "ifpos < N" "?e \<le> N" using assms(5,7) by auto
  have "\<forall>l\<in>set loops. l < pos + 1" using assms(6) by auto
  then have b: "run_commands api (pos + 1) ?m = goes_on api C loops r ?e" "keeps ?F loops ?m r"
    using assms(1,2) l n unfolding sim_block_def by blast+
  have "run_commands api ?e m' = run_commands api (?e + branches_len bs) m'" if "r = Normal m'" for m'
  proof -
    have f: "cmd_frame ?F ?m m'" using b(2) that by (simp add: keeps_def)
    have "executed (command_at ifpos m') = executed (command_at ifpos ?m)"
      using f linkedD(4) [OF l n(1)] assms(7) by (auto simp: cmd_frame_def)
    then have "executed (command_at ifpos m')" using linkedD(4) [OF assms(4) n(1)] by simp
    then show ?thesis using run_skip_branches [OF assms(3) linked_frame [OF l f] assms(5) n(1)] by simp
  qed
  then have "goes_on api C loops r ?e = goes_on api C loops r (?e + branches_len bs)" by (simp add: goes_on_def split: result.split)
  moreover have "{ifpos} \<union> ?F \<subseteq> insert ifpos {pos..<pos + 1 + block_len b + branches_len bs}" by auto
  ultimately show ?thesis using b(1) keeps_trans [OF f0 b(2)] by simp
qed

lemma sim_if:
  assumes "execute_condition api pos m = Some Bad_Access \<and> r = Stopped Bad_Access
      \<or> (\<exists>rc c m'. execute_condition api pos m = Some (Value (rc, c, m')) \<and> rc \<noteq> SQLITE_OK \<and> r = Stopped (Value (Failed rc m')))
      \<or> (\<exists>m'. execute_condition api pos m = Some (Value (SQLITE_OK, True, m')) \<and> sim_block api (pos + 1) b (set_executed True pos m') r)
      \<or> (\<exists>m'. execute_condition api pos m = Some (Value (SQLITE_OK, False, m'))
          \<and> sim_branches api pos (pos + 1 + block_len b) bs (set_executed False pos m') r)"
  shows "sim_stat api pos (If b bs) m r"
  unfolding sim_stat_def
proof (intro allI impI)
  fix C loops N
  let ?e = "pos + 1 + block_len b" and ?G = "{pos..<pos + 1 + block_len b + branches_len bs}"
  assume a: "stat_code C pos loops (If b bs) \<and> linked C N m \<and> pos + stat_len (If b bs) \<le> N \<and> (\<forall>l\<in>set loops. l < pos)"
  then have c: "cmd_type (C pos) = CMD_TYPE_IF" "next_if_cmd (C pos) = ?e" "pos < N" "linked C N m" "block_code C (pos + 1) loops b"
      "branches_code C pos ?e loops bs" "?e + branches_len bs \<le> N" "\<forall>l\<in>set loops. l < pos"
    by (simp_all add: Let_def)
  have G: "insert pos ?G = ?G" by auto
  have ty: "cmd_type (C pos) = CMD_TYPE_IF \<and> pos = pos
      \<or> cmd_type (C pos) = CMD_TYPE_ELSEIF \<and> related_cmd (C pos) = pos \<and> pos < N \<and> \<not> executed (command_at pos m)"
    using c(1) by simp
  note rc = run_condition [OF c(4,3) ty, of api]
  have fr: "keeps ?G loops m r" if "execute_condition api pos m = Some (Value (x, y, m'))" "keeps ?G loops m' r" for x y m'
    using keeps_trans [OF execute_condition_frame [OF that(1)] that(2), of ?G] by simp
  from assms have "run_commands api pos m = goes_on api C loops r (?e + branches_len bs) \<and> keeps ?G loops m r"
  proof (elim disjE exE conjE)
    fix m' assume e: "execute_condition api pos m = Some (Value (SQLITE_OK, True, m'))"
      and s: "sim_block api (pos + 1) b (set_executed True pos m') r"
    have "linked C N m'" by (rule linked_frame [OF c(4) execute_condition_frame [OF e]])
    from sim_branch_block [OF s c(5,6) this c(7,8)] have "run_commands api (pos + 1) (set_executed True pos m')
        = goes_on api C loops r (?e + branches_len bs) \<and> keeps ?G loops m' r" using G by simp
    then show ?thesis using rc(3) [OF e] fr [OF e] by simp
  next
    fix m' assume e: "execute_condition api pos m = Some (Value (SQLITE_OK, False, m'))"
      and s: "sim_branches api pos ?e bs (set_executed False pos m') r"
    let ?m = "set_executed False pos m'"
    have l: "linked C N m'" by (rule linked_frame [OF c(4) execute_condition_frame [OF e]])
    then have l2: "linked C N ?m" by (rule linked_frame [OF _ cmd_frame_set_executed])
    have "\<forall>l\<in>set loops. l < ?e" "pos < ?e" using c(8) by auto
    then have r: "run_commands api ?e ?m = goes_on api C loops r (?e + branches_len bs)" "keeps (insert pos {?e..<?e + branches_len bs}) loops ?m r"
      using s c(6,7) l2 linkedD(4) [OF l c(3)] unfolding sim_branches_def by auto
    have "{pos} \<union> insert pos {?e..<?e + branches_len bs} \<subseteq> ?G" by auto
    then have "keeps ?G loops m' r" by (rule keeps_trans [OF cmd_frame_set_executed r(2)])
    then show ?thesis using rc(4) [OF e c(1)] c(2) fr [OF e] r(1) by simp
  qed (simp_all add: rc goes_on_def keeps_def)
  then show "run_commands api pos m = goes_on api C loops r (pos + stat_len (If b bs)) \<and> keeps {pos..<pos + stat_len (If b bs)} loops m r"
    by (simp add: add_ac)
qed

lemma sim_else:
  assumes "sim_block api (pos + 1) b (set_executed True ifpos m) r"
  shows "sim_branches api ifpos pos (Else b) m r"
  unfolding sim_branches_def
proof (intro allI impI)
  fix C loops N
  let ?n = "pos + branches_len (Else b)"
  assume a: "branches_code C ifpos pos loops (Else b) \<and> linked C N m \<and> ?n \<le> N \<and> (\<forall>l\<in>set loops. l < pos)
      \<and> ifpos < pos \<and> \<not> executed (command_at ifpos m)"
  then have "run_commands api (pos + 1) (set_executed True ifpos m) = goes_on api C loops r ?n \<and> keeps (insert ifpos {pos..<?n}) loops m r"
    using sim_branch_block [OF assms, of C loops Endif N] by (simp add: Let_def add_ac)
  moreover have "run_commands api pos m = run_commands api (pos + 1) (set_executed True ifpos m)"
    using run_else [of C N m pos api] a by (simp add: Let_def)
  ultimately show "run_commands api pos m = goes_on api C loops r ?n \<and> keeps (insert ifpos {pos..<?n}) loops m r" by simp
qed

lemma sim_elseif:
  assumes "execute_condition api pos m = Some Bad_Access \<and> r = Stopped Bad_Access
      \<or> (\<exists>rc c m'. execute_condition api pos m = Some (Value (rc, c, m')) \<and> rc \<noteq> SQLITE_OK \<and> r = Stopped (Value (Failed rc m')))
      \<or> (\<exists>m'. execute_condition api pos m = Some (Value (SQLITE_OK, True, m')) \<and> sim_block api (pos + 1) b (set_executed True ifpos m') r)
      \<or> (\<exists>m'. execute_condition api pos m = Some (Value (SQLITE_OK, False, m'))
          \<and> sim_branches api ifpos (pos + 1 + block_len b) bs m' r)"
  shows "sim_branches api ifpos pos (Elseif b bs) m r"
  unfolding sim_branches_def
proof (intro allI impI)
  fix C loops N
  let ?e = "pos + 1 + block_len b" and ?n = "pos + branches_len (Elseif b bs)"
  let ?G = "insert ifpos {pos..<?n}"
  assume a: "branches_code C ifpos pos loops (Elseif b bs) \<and> linked C N m \<and> ?n \<le> N \<and> (\<forall>l\<in>set loops. l < pos)
      \<and> ifpos < pos \<and> \<not> executed (command_at ifpos m)"
  then have c: "cmd_type (C pos) = CMD_TYPE_ELSEIF" "next_if_cmd (C pos) = ?e" "pos < N" "linked C N m" "block_code C (pos + 1) loops b"
      "branches_code C ifpos ?e loops bs" "?e + branches_len bs \<le> N" "\<forall>l\<in>set loops. l < pos" "ifpos \<le> pos"
      "related_cmd (C pos) = ifpos" "ifpos < N"
    by (simp_all add: Let_def)
  have n: "?n = ?e + branches_len bs" by simp
  have ty: "cmd_type (C pos) = CMD_TYPE_IF \<and> ifpos = pos
      \<or> cmd_type (C pos) = CMD_TYPE_ELSEIF \<and> related_cmd (C pos) = ifpos \<and> ifpos < N \<and> \<not> executed (command_at ifpos m)"
    using c a by simp
  note rc = run_condition [OF c(4,3) ty, of api]
  have fr: "keeps ?G loops m r" if "execute_condition api pos m = Some (Value (x, y, m'))" "keeps ?G loops m' r" for x y m'
    using keeps_trans [OF execute_condition_frame [OF that(1)] that(2), of ?G] by simp
  from assms show "run_commands api pos m = goes_on api C loops r ?n \<and> keeps ?G loops m r"
  proof (elim disjE exE conjE)
    fix m' assume e: "execute_condition api pos m = Some (Value (SQLITE_OK, True, m'))"
      and s: "sim_block api (pos + 1) b (set_executed True ifpos m') r"
    have "linked C N m'" by (rule linked_frame [OF c(4) execute_condition_frame [OF e]])
    from sim_branch_block [OF s c(5,6) this c(7-9)] show ?thesis using rc(3) [OF e] fr [OF e] unfolding n by metis
  next
    fix m' assume e: "execute_condition api pos m = Some (Value (SQLITE_OK, False, m'))"
      and s: "sim_branches api ifpos ?e bs m' r"
    have f: "cmd_frame {} m m'" by (rule execute_condition_frame [OF e])
    have l: "linked C N m'" by (rule linked_frame [OF c(4) f])
    have "\<not> executed (command_at ifpos m')" using f a linkedD(4) [OF c(4,11)] by (simp add: cmd_frame_def)
    moreover have "\<forall>l\<in>set loops. l < ?e" "ifpos < ?e" using c(8,9) by auto
    ultimately have r: "run_commands api ?e m' = goes_on api C loops r (?e + branches_len bs)"
        "keeps (insert ifpos {?e..<?e + branches_len bs}) loops m' r"
      using s c(6,7) l unfolding sim_branches_def by blast+
    have "insert ifpos {?e..<?e + branches_len bs} \<subseteq> ?G" by auto
    then have "keeps ?G loops m' r" by (rule keeps_mono [OF r(2)])
    then show ?thesis using rc(5) [OF e c(1)] c(2) fr [OF e] r(1) unfolding n by simp
  qed (simp_all add: rc goes_on_def keeps_def)
qed

lemma sim_endif: "sim_branches api ifpos pos Endif m (Normal m)"
  unfolding sim_branches_def using run_endif by (fastforce simp: goes_on_def keeps_def)

lemma sim_empty: "sim_block api pos Empty m (Normal m)"
  by (simp add: sim_block_def goes_on_def keeps_def)

lemma sim_seq:
  assumes "sim_stat api pos s m r1"
    and "(\<exists>m'. r1 = Normal m' \<and> sim_block api (pos + stat_len s) b m' r) \<or> r1 = r \<and> (\<forall>m'. r \<noteq> Normal m')"
  shows "sim_block api pos (Seq s b) m r"
  unfolding sim_block_def
proof (intro allI impI)
  fix C loops N
  let ?n = "pos + block_len (Seq s b)"
  assume a: "block_code C pos loops (Seq s b) \<and> linked C N m \<and> ?n \<le> N \<and> (\<forall>l\<in>set loops. l < pos)"
  then have c: "stat_code C pos loops s" "block_code C (pos + stat_len s) loops b" "linked C N m" "pos + stat_len s \<le> N"
      "pos + stat_len s + block_len b \<le> N" "\<forall>l\<in>set loops. l < pos" by simp_all
  have s: "run_commands api pos m = goes_on api C loops r1 (pos + stat_len s)" "keeps {pos..<pos + stat_len s} loops m r1"
    using assms(1) c(1,3,4,6) unfolding sim_stat_def by blast+
  have n: "?n = pos + stat_len s + block_len b" by simp
  have sub: "{pos..<pos + stat_len s} \<subseteq> {pos..<?n}" by auto
  from assms(2) show "run_commands api pos m = goes_on api C loops r ?n \<and> keeps {pos..<?n} loops m r"
  proof (elim disjE exE conjE)
    fix m' assume r1: "r1 = Normal m'" and b: "sim_block api (pos + stat_len s) b m' r"
    have f: "cmd_frame {pos..<pos + stat_len s} m m'" using s(2) r1 by (simp add: keeps_def)
    have l: "linked C N m'" by (rule linked_frame [OF c(3) f])
    have "\<forall>l\<in>set loops. l < pos + stat_len s" using c(6) by auto
    then have "run_commands api (pos + stat_len s) m' = goes_on api C loops r ?n"
        "keeps {pos + stat_len s..<?n} loops m' r"
      using b c(2,5) l unfolding sim_block_def n by blast+
    then show ?thesis using s(1) r1 keeps_trans [OF f, of "{pos + stat_len s..<?n}" loops r "{pos..<?n}"] sub by (auto simp: goes_on_def)
  next
    assume "r1 = r" and "\<forall>m'. r \<noteq> Normal m'"
    then show ?thesis using s keeps_mono [OF _ sub] by (auto simp: goes_on_def split: result.splits)
  qed
qed

lemma simulation:
  "runs_stat api pos s m r \<Longrightarrow> sim_stat api pos s m r"
  "runs_block api pos b m r \<Longrightarrow> sim_block api pos b m r"
  "runs_branches api ifpos pos bs m r \<Longrightarrow> sim_branches api ifpos pos bs m r"
proof (induction rule: runs_stat_runs_block_runs_branches.inducts)
  case (simple pos m t ty) then show ?case by (rule sim_simple)
next
  case (break pos k m) show ?case by (rule sim_break)
next
  case (continue pos k m) show ?case by (rule sim_continue)
next
  case (loop_again pos b m r m' r') then show ?case by (blast intro: sim_loop_again)
next
  case (loop_end pos b m r r') then show ?case by (blast intro: sim_loop_end)
next
  case (foreach_done pos m m' b) then show ?case by (rule sim_foreach) simp
next
  case (foreach_error pos m rc m' b) then show ?case by (intro sim_foreach [OF foreach_error(1)]) simp
next
  case (foreach_again pos m rc m1 b r m' r') then show ?case by (intro sim_foreach [OF foreach_again(1)]) blast
next
  case (foreach_end pos m rc m1 b r r') then show ?case by (intro sim_foreach [OF foreach_end(1)]) blast
next
  case (if_crash pos m b bs) then show ?case by (intro sim_if) blast
next
  case (if_error pos m rc c m' b bs) then show ?case by (intro sim_if) blast
next
  case (if_true pos m m' b r bs) then show ?case by (intro sim_if) blast
next
  case (if_false pos m m' b bs r) then show ?case by (intro sim_if) blast
next
  case (empty pos m) show ?case by (rule sim_empty)
next
  case (seq pos s m m' b r) then show ?case by (intro sim_seq) blast+
next
  case (seq_out pos s m r b) then show ?case by (intro sim_seq [OF seq_out(2)]) blast
next
  case (endif ifpos pos m) show ?case by (rule sim_endif)
next
  case (else pos b ifpos m r) then show ?case by (intro sim_else)
next
  case (elseif_crash pos m ifpos b bs) then show ?case by (intro sim_elseif) blast
next
  case (elseif_error pos m rc c m' ifpos b bs) then show ?case by (intro sim_elseif) blast
next
  case (elseif_true pos m m' b ifpos r bs) then show ?case by (intro sim_elseif) blast
next
  case (elseif_false pos m m' ifpos b bs r) then show ?case by (intro sim_elseif) blast
qed

text \<open>The code of a whole procedure.\<close>

lemma structured_run:
  assumes "block_code C 0 [] b" and "linked C (block_len b) m" and "runs_block api 0 b m r"
  shows "(\<exists>m'. r = Normal m' \<and> run_commands api 0 m = Some (Value (Finished SQLITE_OK m')))
    \<or> (\<exists>t. r = Stopped t \<and> run_commands api 0 m = Some t)"
proof -
  have s: "run_commands api 0 m = goes_on api C [] r (block_len b)" "keeps {0..<block_len b} [] m r"
    using simulation(2) [OF assms(3)] assms(1,2) unfolding sim_block_def by fastforce+
  show ?thesis
  proof (cases r)
    case (Normal m')
    then have "linked C (block_len b) m'" using s(2) linked_frame [OF assms(2)] by (simp add: keeps_def)
    then have "num_cmds (proc m') = block_len b" by (simp add: linked_def)
    then show ?thesis using s(1) Normal run_end [of m' "block_len b" api] by (simp add: goes_on_def)
  qed (use s in \<open>simp_all add: goes_on_def keeps_def\<close>)
qed

end
