(* ===== verification/Proc_Links.thy ===== *)
theory Proc_Links
  imports Proc_Structured
begin

section \<open>Stored procedures: the parser links the blocks\<close>

text \<open>
  The parser links the commands of a block through two stacks. When the IF and LOOP blocks of the text are
  nested properly, the links are those that the nested reading of the text asks for.
\<close>

subsection \<open>What the parse of a command does to the links\<close>

abbreviation cmd_at :: "'stmt parser \<Rightarrow> nat \<Rightarrow> 'stmt command" where "cmd_at s q \<equiv> cmds (procedure s) ! q"
abbreviation cmd_count :: "'stmt parser \<Rightarrow> nat" where "cmd_count s \<equiv> num_cmds (procedure s)"

definition kept :: "'stmt parser \<Rightarrow> 'stmt parser \<Rightarrow> bool" where
  "kept s s' \<longleftrightarrow> if_stack s' = if_stack s \<and> loop_stack s' = loop_stack s \<and> cmd_count s' = cmd_count s
     \<and> length (cmds (procedure s')) = length (cmds (procedure s)) \<and> (\<forall>q. same_links (cmd_at s q) (cmd_at s' q))"

named_theorems links \<open>functions of the parser that keep the links and the stacks\<close>

lemma kept_refl [simp, links]: "kept s s"
  by (simp add: kept_def)

lemma kept_trans: "kept s s1 \<Longrightarrow> kept s1 s2 \<Longrightarrow> kept s s2"
  by (simp add: kept_def same_links_def)

lemma kept_upd_cmd [links]:
  assumes "kept s s'" and "\<And>c. cmd_type (f c) = cmd_type c \<and> next_if_cmd (f c) = next_if_cmd c \<and> related_cmd (f c) = related_cmd c"
  shows "kept s (upd_cmd pos f s')"
proof (cases "pos < length (cmds (procedure s'))")
  case True
  then show ?thesis using assms by (auto simp: kept_def same_links_def upd_cmd_def nth_list_update)
next
  case False
  then show ?thesis using assms(1) by (simp add: kept_def same_links_def upd_cmd_def list_update_beyond)
qed

lemma kept_lists [links]: "kept s s' \<Longrightarrow> kept s (s'\<lparr>lists := h\<rparr>)"
  by (simp add: kept_def)

lemma kept_set_vars [links]: "kept s s' \<Longrightarrow> kept s (set_vars vs s')"
  by (simp add: kept_def set_vars_def)

lemma kept_variables: "parse_variables_list s p sql = (res, s') \<Longrightarrow> kept s s'"
  by (auto simp: parse_variables_list_def Let_def case_prod_beta intro: kept_set_vars)

lemma kept_declare: "kept s (snd (parseDeclareStatement pos sql s))"
  by (auto simp: parseDeclareStatement_def Let_def split: prod.split sum.split intro: kept_variables)

lemma kept_set_input: "kept s s' \<Longrightarrow> kept s (snd (parse_set_input pos n sql s'))"
  by (auto simp: parse_set_input_def Let_def case_prod_beta split: sum.split intro!: links)

lemma kept_set: "kept s (snd (parseSetStatement pos sql s))"
proof (cases "parse_variables_list s (Some pos) (skip_spaces (drop 4 sql))")
  case (Pair x s1)
  note s1 = kept_variables [OF Pair]
  have "kept s (snd (parse_set_input pos n t s1))" for n t by (rule kept_set_input [OF s1])
  then have "kept s s2" if "parse_set_input pos n t s1 = (y, s2)" for n t y s2 using that by (metis snd_conv)
  then show ?thesis using Pair s1 by (auto simp: parseSetStatement_def split: prod.split sum.split intro!: kept_upd_cmd)
qed

lemma kept_return: "kept s (snd (parseReturnStatement pos sql s))"
  by (auto simp: parseReturnStatement_def Let_def split: prod.split sum.split intro!: kept_upd_cmd dest: kept_variables)

lemma kept_raise: "kept s (snd (parseRaiseStatement pos sql s))"
  by (auto simp: parseRaiseStatement_def Let_def case_prod_beta intro!: kept_upd_cmd)

lemma kept_assert: "kept s (snd (parseAssertStatement pos sql s))"
  by (auto simp: parseAssertStatement_def Let_def split: option.split intro!: kept_upd_cmd)

lemma kept_condition: "kept s (snd (parse_condition pos sql s))"
  by (auto simp: parse_condition_def split: option.split intro!: kept_upd_cmd)

lemma kept_foreach_end: "kept s s' \<Longrightarrow> kept s (snd (foreach_end n sql s'))"
  by (simp add: foreach_end_def Let_def)

lemma kept_foreach_input: "kept s s' \<Longrightarrow> kept s (snd (foreach_input pos n sql s'))"
  by (auto simp: foreach_input_def Let_def case_prod_beta split: option.split sum.split intro!: kept_foreach_end links)

lemma kept_foreach_in: "kept s s' \<Longrightarrow> kept s (snd (foreach_in pos vs sql s'))"
  by (auto simp: foreach_in_def Let_def intro!: kept_foreach_input links)

lemma kept_foreach: "kept (link_loop pos s) (snd (parseForEachStatement pos sql s))"
  by (auto simp: parseForEachStatement_def Let_def split: prod.split sum.split intro!: kept_foreach_in dest: kept_variables)

subsection \<open>One command\<close>

definition link_step :: "cmd_type \<Rightarrow> nat \<Rightarrow> 'stmt parser \<Rightarrow> 'stmt parser \<Rightarrow> bool" where
  "link_step t pos s s' \<longleftrightarrow>
     (if t \<in> simple_types then s' = s
      else case t of
        CMD_TYPE_IF \<Rightarrow> s' = link_if pos s
      | CMD_TYPE_ELSEIF \<Rightarrow> link_else pos s = Some (Inr s')
      | CMD_TYPE_ELSE \<Rightarrow> link_else pos s = Some (Inr s')
      | CMD_TYPE_ENDIF \<Rightarrow> link_endif pos s = Some (Inr s')
      | CMD_TYPE_LOOP \<Rightarrow> s' = link_loop pos s
      | CMD_TYPE_FOREACH \<Rightarrow> s' = link_loop pos s
      | CMD_TYPE_ENDLOOP \<Rightarrow> link_endloop pos s = Some (Inr s')
      | CMD_TYPE_BREAK \<Rightarrow> \<exists>level. link_jump pos level s = Some s'
      | CMD_TYPE_CONTINUE \<Rightarrow> \<exists>level. link_jump pos level s = Some s'
      | _ \<Rightarrow> False)"

definition with_slot :: "cmd_type \<Rightarrow> 'stmt parser \<Rightarrow> 'stmt parser" where
  "with_slot t s = s\<lparr>procedure := snd (new_command t (procedure s))\<rparr>"

definition command_step :: "cmd_type \<Rightarrow> 'stmt parser \<Rightarrow> 'stmt parser \<Rightarrow> bool" where
  "command_step t s s' \<longleftrightarrow> (\<exists>s1. link_step t (cmd_count s) (with_slot t s) s1 \<and> kept s1 s')"

lemma fst_new_command [simp]: "fst (new_command t p) = num_cmds p"
  by (simp add: new_command_def Let_def)

lemma jump_step:
  assumes "parse_jump word pos sql s = (Inr rest, s')"
  shows "\<exists>level. link_jump pos level s = Some s'"
  using assms by (auto simp: parse_jump_def Let_def split: option.splits if_splits)

lemma parse_new_command_step:
  assumes "parse_new_command t sql s = Some (Inr rest, s')"
  shows "command_step t s s'"
proof -
  let ?pos = "cmd_count s" and ?s = "with_slot t s"
  have k: "kept s1 s'" if "kept s1 (snd x)" "x = (Inr rest, s')" for s1 and x :: "'a parsed" using that by simp
  show ?thesis
  proof (cases t)
    case CMD_TYPE_IF
    then have "kept (link_if ?pos ?s) s'"
      using assms kept_condition [of "link_if ?pos ?s" ?pos "skip_spaces (drop 2 sql)"]
      by (simp add: parse_new_command_def parseIfStatement_def with_slot_def case_prod_beta)
    then show ?thesis using CMD_TYPE_IF by (auto simp: command_step_def link_step_def simple_types_def)
  next
    case CMD_TYPE_ELSEIF
    with assms obtain s1 where s1: "link_else ?pos ?s = Some (Inr s1)" "parse_condition ?pos (skip_spaces (drop 6 sql)) s1 = (Inr rest, s')"
      by (auto simp: parse_new_command_def parseElseIfStatement_def with_slot_def case_prod_beta Let_def split: option.splits sum.splits)
    from k [OF kept_condition s1(2)] s1(1) CMD_TYPE_ELSEIF show ?thesis
      by (auto simp: command_step_def link_step_def simple_types_def)
  next
    case CMD_TYPE_FOREACH
    then have "parseForEachStatement ?pos sql ?s = (Inr rest, s')"
      using assms by (simp add: parse_new_command_def with_slot_def case_prod_beta)
    from k [OF kept_foreach this] CMD_TYPE_FOREACH show ?thesis by (auto simp: command_step_def link_step_def simple_types_def)
  next
    case CMD_TYPE_BREAK
    then have "parse_jump 5 ?pos sql ?s = (Inr rest, s')"
      using assms by (simp add: parse_new_command_def with_slot_def case_prod_beta parseBreakStatement_def)
    from jump_step [OF this] CMD_TYPE_BREAK show ?thesis
      by (auto simp: command_step_def link_step_def simple_types_def intro: kept_refl)
  next
    case CMD_TYPE_CONTINUE
    then have "parse_jump 8 ?pos sql ?s = (Inr rest, s')"
      using assms by (simp add: parse_new_command_def with_slot_def case_prod_beta parseContinueStatement_def)
    from jump_step [OF this] CMD_TYPE_CONTINUE show ?thesis
      by (auto simp: command_step_def link_step_def simple_types_def intro: kept_refl)
  qed (use assms k [OF kept_declare] k [OF kept_set] k [OF kept_return] k [OF kept_raise] k [OF kept_assert] in
      \<open>auto simp: parse_new_command_def command_step_def link_step_def simple_types_def with_slot_def case_prod_beta Let_def
         parseElseStatement_def parseEndIfStatement_def parseLoopStatement_def parseEndLoopStatement_def
         split: option.splits sum.splits\<close>)
qed

lemma parse_sql_statement_step:
  assumes "parse_sql_statement sql s = (Inr rest, s')"
  shows "command_step CMD_TYPE_STATEMENT s s'"
  using assms
  by (auto simp: parse_sql_statement_def command_step_def link_step_def simple_types_def with_slot_def case_prod_beta Let_def
      intro!: kept_upd_cmd)

subsection \<open>A text\<close>

inductive command_steps :: "'stmt parser \<Rightarrow> cmd_type list \<Rightarrow> 'stmt parser \<Rightarrow> bool" where
  none: "command_steps s [] s"
| more: "command_step t s s1 \<Longrightarrow> command_steps s1 ts s' \<Longrightarrow> command_steps s (t # ts) s'"

inductive_simps command_steps_Nil [simp]: "command_steps s [] s'"
inductive_simps command_steps_Cons: "command_steps s (t # ts) s'"

lemma command_steps_append: "command_steps s (ts @ us) s' \<longleftrightarrow> (\<exists>s1. command_steps s ts s1 \<and> command_steps s1 us s')"
  by (induction ts arbitrary: s) (auto simp: command_steps_Cons)

lemma parse_procedure_body_steps:
  "parse_procedure_body sql s = Some (Inr rest, s') \<Longrightarrow> \<exists>ts. command_steps s ts s'"
proof (induction sql s rule: parse_procedure_body.induct)
  case (1 sql s)
  show ?case
  proof (cases "sql = [] \<or> command_word sql = None")
    case True
    then have "s' = s" using "1.prems" by (auto simp: parse_procedure_body.simps [of sql s] split: if_splits)
    then show ?thesis by (auto intro: command_steps.none)
  next
    case False
    then obtain t where t: "sql \<noteq> []" "command_word sql = Some t" by auto
    let ?r = "if t = CMD_TYPE_STATEMENT then Some (parse_sql_statement sql s) else parse_new_command t sql s"
    from t "1.prems" obtain u s1 where u: "?r = Some (Inr u, s1)" "length u < length sql"
        "parse_procedure_body (skip_spaces u) s1 = Some (Inr rest, s')"
      by (auto simp: parse_procedure_body.simps [of sql s] split: option.splits sum.splits if_splits)
    have step: "command_step t s s1"
      using u(1) parse_sql_statement_step [of sql s u s1] parse_new_command_step [of t sql s u s1] by (simp split: if_splits)
    from "1.IH" [OF t u(1) refl refl u(2,3)] obtain ts where "command_steps s1 ts s'" by blast
    with step show ?thesis by (blast intro: command_steps.more)
  qed
qed

subsection \<open>The links after a command\<close>

definition well_stacked :: "'stmt parser \<Rightarrow> bool" where
  "well_stacked s \<longleftrightarrow> cmd_count s \<le> length (cmds (procedure s)) \<and> (\<forall>l\<in>set (loop_stack s). l < cmd_count s)
     \<and> (\<forall>b\<in>set (if_stack s). first_cmd b < cmd_count s \<and> last_cmd b < cmd_count s)"

text \<open>One more command; the links of the ones before are those that they were, with the exception of one.\<close>

definition grown :: "cmd_type \<Rightarrow> nat set \<Rightarrow> 'stmt parser \<Rightarrow> 'stmt parser \<Rightarrow> bool" where
  "grown t F s s' \<longleftrightarrow> well_stacked s' \<and> cmd_count s' = Suc (cmd_count s) \<and> cmd_type (cmd_at s' (cmd_count s)) = t
     \<and> (\<forall>q<cmd_count s. q \<notin> F \<longrightarrow> same_links (cmd_at s q) (cmd_at s' q))
     \<and> (\<forall>q<cmd_count s. cmd_type (cmd_at s' q) = cmd_type (cmd_at s q))"

lemma with_slot:
  assumes "cmd_count s \<le> length (cmds (procedure s))"
  shows "cmd_count (with_slot t s) = Suc (cmd_count s)" "cmd_count s < length (cmds (procedure (with_slot t s)))"
    "q < cmd_count s \<Longrightarrow> cmd_at (with_slot t s) q = cmd_at s q" "cmd_type (cmd_at (with_slot t s) (cmd_count s)) = t"
    "if_stack (with_slot t s) = if_stack s" "loop_stack (with_slot t s) = loop_stack s"
  using assms by (auto simp: with_slot_def new_command_def Let_def nth_append)

lemma cmd_at_upd_cmd:
  "cmd_at (upd_cmd p f s) q = (if q = p \<and> p < length (cmds (procedure s)) then f (cmd_at s q) else cmd_at s q)"
  by (auto simp: upd_cmd_def nth_list_update list_update_beyond)

lemma upd_cmd_other [simp]:
  "if_stack (upd_cmd p f s) = if_stack s" "loop_stack (upd_cmd p f s) = loop_stack s" "cmd_count (upd_cmd p f s) = cmd_count s"
  "length (cmds (procedure (upd_cmd p f s))) = length (cmds (procedure s))"
  by (simp_all add: upd_cmd_def)

lemma grownI:
  assumes "kept s1 s'" and "well_stacked s1" and "cmd_count s1 = Suc (cmd_count s)" and "cmd_type (cmd_at s1 (cmd_count s)) = t"
    and "\<And>q. q < cmd_count s \<Longrightarrow> q \<notin> F \<Longrightarrow> same_links (cmd_at s q) (cmd_at s1 q)"
    and "\<And>q. q < cmd_count s \<Longrightarrow> cmd_type (cmd_at s1 q) = cmd_type (cmd_at s q)"
  shows "grown t F s s'"
  using assms by (simp add: kept_def grown_def same_links_def well_stacked_def)

lemma simple_step:
  assumes "command_step t s s'" and "t \<in> simple_types" and "well_stacked s"
  shows "grown t {} s s'" "if_stack s' = if_stack s" "loop_stack s' = loop_stack s"
proof -
  have n: "cmd_count s \<le> length (cmds (procedure s))" using assms(3) by (simp add: well_stacked_def)
  note w = with_slot [OF n]
  have k: "kept (with_slot t s) s'" using assms(1,2) by (simp add: command_step_def link_step_def)
  show "grown t {} s s'" by (rule grownI [OF k]) (use assms(3) w in \<open>auto simp: well_stacked_def less_Suc_eq Suc_le_eq\<close>)
  show "if_stack s' = if_stack s" "loop_stack s' = loop_stack s" using k w by (simp_all add: kept_def)
qed

lemma loop_step:
  assumes "command_step t s s'" and "t = CMD_TYPE_LOOP \<or> t = CMD_TYPE_FOREACH" and "well_stacked s"
  shows "grown t {} s s'" "if_stack s' = if_stack s" "loop_stack s' = cmd_count s # loop_stack s"
proof -
  have n: "cmd_count s \<le> length (cmds (procedure s))" using assms(3) by (simp add: well_stacked_def)
  note w = with_slot [OF n]
  have k: "kept (link_loop (cmd_count s) (with_slot t s)) s'"
    using assms(1,2) by (elim disjE) (simp_all add: command_step_def link_step_def simple_types_def)
  show "grown t {} s s'"
    by (rule grownI [OF k]) (use assms(3) w in \<open>auto simp: well_stacked_def link_loop_def less_Suc_eq Suc_le_eq\<close>)
  show "if_stack s' = if_stack s" "loop_stack s' = cmd_count s # loop_stack s" using k w by (simp_all add: kept_def link_loop_def)
qed

lemma if_step:
  assumes "command_step CMD_TYPE_IF s s'" and "well_stacked s"
  shows "grown CMD_TYPE_IF {} s s'" "loop_stack s' = loop_stack s"
    "if_stack s' = \<lparr>first_cmd = cmd_count s, last_cmd = cmd_count s\<rparr> # if_stack s"
proof -
  have n: "cmd_count s \<le> length (cmds (procedure s))" using assms(2) by (simp add: well_stacked_def)
  note w = with_slot [OF n]
  have k: "kept (link_if (cmd_count s) (with_slot CMD_TYPE_IF s)) s'"
    using assms(1) by (simp add: command_step_def link_step_def simple_types_def)
  show "grown CMD_TYPE_IF {} s s'"
    by (rule grownI [OF k]) (use assms(2) w in \<open>auto simp: well_stacked_def link_if_def less_Suc_eq Suc_le_eq\<close>)
  show "loop_stack s' = loop_stack s" "if_stack s' = \<lparr>first_cmd = cmd_count s, last_cmd = cmd_count s\<rparr> # if_stack s"
    using k w by (simp_all add: kept_def link_if_def)
qed

lemma jump_link_step:
  assumes "command_step t s s'" and "t = CMD_TYPE_BREAK \<or> t = CMD_TYPE_CONTINUE" and "well_stacked s"
  shows "grown t {} s s'" "if_stack s' = if_stack s" "loop_stack s' = loop_stack s"
    "\<exists>k<length (loop_stack s). related_cmd (cmd_at s' (cmd_count s)) = loop_stack s ! k"
proof -
  let ?n = "cmd_count s"
  have n: "?n \<le> length (cmds (procedure s))" using assms(3) by (simp add: well_stacked_def)
  note w = with_slot [OF n]
  from assms(1,2) obtain level s1 where "link_jump ?n level (with_slot t s) = Some s1" and k: "kept s1 s'"
    by (elim disjE) (auto simp: command_step_def link_step_def simple_types_def)
  then have l: "level - 1 < length (loop_stack s)"
    and s1: "s1 = upd_cmd ?n (\<lambda>c. c\<lparr>related_cmd := loop_stack s ! (level - 1)\<rparr>) (with_slot t s)"
    by (simp_all add: link_jump_def w split: if_splits)
  have at: "cmd_at s1 q = (if q = ?n then (cmd_at (with_slot t s) q)\<lparr>related_cmd := loop_stack s ! (level - 1)\<rparr>
      else cmd_at (with_slot t s) q)" for q
    using w(2) [of t] by (simp add: s1 cmd_at_upd_cmd)
  have st: "cmd_count s1 = Suc ?n" "?n < length (cmds (procedure s1))" "if_stack s1 = if_stack s" "loop_stack s1 = loop_stack s"
    using w by (simp_all add: s1)
  show "grown t {} s s'"
    by (rule grownI [OF k]) (use assms(3) st w in \<open>auto simp: at well_stacked_def less_Suc_eq Suc_le_eq\<close>)
  show "if_stack s' = if_stack s" "loop_stack s' = loop_stack s" using k st by (simp_all add: kept_def)
  have "same_links (cmd_at s1 ?n) (cmd_at s' ?n)" using k by (simp add: kept_def)
  then have "related_cmd (cmd_at s' ?n) = loop_stack s ! (level - 1)" by (simp add: same_links_def at)
  then show "\<exists>k<length (loop_stack s). related_cmd (cmd_at s' ?n) = loop_stack s ! k" using l by blast
qed

lemma endloop_step:
  assumes "command_step CMD_TYPE_ENDLOOP s s'" and "well_stacked s" and "loop_stack s = start # rest"
  shows "grown CMD_TYPE_ENDLOOP {start} s s'" "if_stack s' = if_stack s" "loop_stack s' = rest"
    "related_cmd (cmd_at s' start) = cmd_count s" "related_cmd (cmd_at s' (cmd_count s)) = start"
    "next_if_cmd (cmd_at s' start) = next_if_cmd (cmd_at s start)"
proof -
  let ?n = "cmd_count s" and ?s = "with_slot CMD_TYPE_ENDLOOP s"
  have n: "?n \<le> length (cmds (procedure s))" "start < ?n" using assms(2,3) by (auto simp: well_stacked_def)
  note w = with_slot [OF n(1)]
  define s1 where "s1 = (upd_cmd ?n (\<lambda>c. c\<lparr>related_cmd := start\<rparr>) (upd_cmd start (\<lambda>c. c\<lparr>related_cmd := ?n\<rparr>) ?s))\<lparr>loop_stack := rest\<rparr>"
  have k: "kept s1 s'"
    using assms(1,3) w(6) by (auto simp: s1_def command_step_def link_step_def simple_types_def link_endloop_def split: if_splits)
  have at: "cmd_at s1 q = (if q = ?n then (cmd_at ?s q)\<lparr>related_cmd := start\<rparr>
      else if q = start then (cmd_at ?s q)\<lparr>related_cmd := ?n\<rparr> else cmd_at ?s q)" for q
    using n w(2) [of CMD_TYPE_ENDLOOP] by (simp add: s1_def cmd_at_upd_cmd less_trans [OF n(2)])
  have st: "cmd_count s1 = Suc ?n" "?n < length (cmds (procedure s1))" using w by (simp_all add: s1_def)
  have stacks: "if_stack s1 = if_stack s" "loop_stack s1 = rest" using w by (simp_all add: s1_def)
  show "grown CMD_TYPE_ENDLOOP {start} s s'"
    by (rule grownI [OF k]) (use assms(2,3) n st stacks w in \<open>auto simp: at well_stacked_def less_Suc_eq Suc_le_eq\<close>)
  show "if_stack s' = if_stack s" "loop_stack s' = rest" using k stacks by (simp_all add: kept_def)
  have s: "same_links (cmd_at s1 q) (cmd_at s' q)" for q using k by (simp add: kept_def)
  show "related_cmd (cmd_at s' start) = cmd_count s" "related_cmd (cmd_at s' (cmd_count s)) = start"
    "next_if_cmd (cmd_at s' start) = next_if_cmd (cmd_at s start)"
    using s [of start] s [of ?n] n(2) w(3) [OF n(2)] unfolding same_links_def at by simp_all
qed

lemma else_step:
  assumes "command_step t s s'" and "t = CMD_TYPE_ELSEIF \<or> t = CMD_TYPE_ELSE" and "well_stacked s" and "if_stack s = b # rest"
  shows "grown t {last_cmd b} s s'" "loop_stack s' = loop_stack s" "if_stack s' = b\<lparr>last_cmd := cmd_count s\<rparr> # rest"
    "next_if_cmd (cmd_at s' (last_cmd b)) = cmd_count s" "related_cmd (cmd_at s' (cmd_count s)) = first_cmd b"
    "related_cmd (cmd_at s' (last_cmd b)) = related_cmd (cmd_at s (last_cmd b))"
proof -
  let ?n = "cmd_count s" and ?s = "with_slot t s" and ?l = "last_cmd b"
  have n: "?n \<le> length (cmds (procedure s))" "?l < ?n" "first_cmd b < ?n" using assms(3,4) by (auto simp: well_stacked_def)
  note w = with_slot [OF n(1)]
  define s1 where "s1 = (upd_cmd ?l (\<lambda>c. c\<lparr>next_if_cmd := ?n\<rparr>)
                 (upd_cmd ?n (\<lambda>c. c\<lparr>related_cmd := first_cmd b\<rparr>) ?s))\<lparr>if_stack := b\<lparr>last_cmd := ?n\<rparr> # rest\<rparr>"
  have k: "kept s1 s'"
    using assms(1,2,4) w(5) by (auto simp: s1_def command_step_def link_step_def simple_types_def link_else_def split: if_splits)
  have at: "cmd_at s1 q = (if q = ?n then (cmd_at ?s q)\<lparr>related_cmd := first_cmd b\<rparr>
      else if q = ?l then (cmd_at ?s q)\<lparr>next_if_cmd := ?n\<rparr> else cmd_at ?s q)" for q
    using n w(2) [of t] by (simp add: s1_def cmd_at_upd_cmd less_trans [OF n(2)])
  have st: "cmd_count s1 = Suc ?n" "?n < length (cmds (procedure s1))" using w by (simp_all add: s1_def)
  have stacks: "loop_stack s1 = loop_stack s" "if_stack s1 = b\<lparr>last_cmd := ?n\<rparr> # rest" using w by (simp_all add: s1_def)
  show "grown t {?l} s s'"
    by (rule grownI [OF k]) (use assms(3,4) n st stacks w in \<open>auto simp: at well_stacked_def less_Suc_eq Suc_le_eq\<close>)
  show "loop_stack s' = loop_stack s" "if_stack s' = b\<lparr>last_cmd := ?n\<rparr> # rest" using k stacks by (simp_all add: kept_def)
  have s: "same_links (cmd_at s1 q) (cmd_at s' q)" for q using k by (simp add: kept_def)
  show "next_if_cmd (cmd_at s' ?l) = ?n" "related_cmd (cmd_at s' ?n) = first_cmd b"
    "related_cmd (cmd_at s' ?l) = related_cmd (cmd_at s ?l)"
    using s [of ?l] s [of ?n] n(2) w(3) [OF n(2)] unfolding same_links_def at by simp_all
qed

lemma endif_step:
  assumes "command_step CMD_TYPE_ENDIF s s'" and "well_stacked s" and "if_stack s = b # rest"
  shows "grown CMD_TYPE_ENDIF {last_cmd b} s s'" "loop_stack s' = loop_stack s" "if_stack s' = rest"
    "next_if_cmd (cmd_at s' (last_cmd b)) = cmd_count s"
    "related_cmd (cmd_at s' (last_cmd b)) = related_cmd (cmd_at s (last_cmd b))"
proof -
  let ?n = "cmd_count s" and ?s = "with_slot CMD_TYPE_ENDIF s" and ?l = "last_cmd b"
  have n: "?n \<le> length (cmds (procedure s))" "?l < ?n" using assms(2,3) by (auto simp: well_stacked_def)
  note w = with_slot [OF n(1)]
  define s1 where "s1 = (upd_cmd ?l (\<lambda>c. c\<lparr>next_if_cmd := ?n\<rparr>) ?s)\<lparr>if_stack := rest\<rparr>"
  have k: "kept s1 s'"
    using assms(1,3) w(5) by (auto simp: s1_def command_step_def link_step_def simple_types_def link_endif_def split: if_splits)
  have at: "cmd_at s1 q = (if q = ?l then (cmd_at ?s q)\<lparr>next_if_cmd := ?n\<rparr> else cmd_at ?s q)" for q
    using n w(2) [of CMD_TYPE_ENDIF] by (simp add: s1_def cmd_at_upd_cmd less_trans [OF n(2)])
  have st: "cmd_count s1 = Suc ?n" "?n < length (cmds (procedure s1))" using w by (simp_all add: s1_def)
  have stacks: "loop_stack s1 = loop_stack s" "if_stack s1 = rest" using w by (simp_all add: s1_def)
  show "grown CMD_TYPE_ENDIF {?l} s s'"
    by (rule grownI [OF k]) (use assms(2,3) n st stacks w in \<open>auto simp: at well_stacked_def less_Suc_eq Suc_le_eq\<close>)
  show "loop_stack s' = loop_stack s" "if_stack s' = rest" using k stacks by (simp_all add: kept_def)
  have s: "same_links (cmd_at s1 q) (cmd_at s' q)" for q using k by (simp add: kept_def)
  show "next_if_cmd (cmd_at s' ?l) = ?n" "related_cmd (cmd_at s' ?l) = related_cmd (cmd_at s ?l)"
    using s [of ?l] n(2) w(3) [OF n(2)] unfolding same_links_def at by simp_all
qed

subsection \<open>The links of nested blocks\<close>

text \<open>The nested commands whose simple commands are simple indeed.\<close>

primrec proper_stat :: "stat \<Rightarrow> bool" and proper_block :: "block \<Rightarrow> bool" and proper_branches :: "branches \<Rightarrow> bool" where
  "proper_stat (Simple t) = (t \<in> simple_types)"
| "proper_stat (Break k) = True"
| "proper_stat (Continue k) = True"
| "proper_stat (Loop b) = proper_block b"
| "proper_stat (Foreach b) = proper_block b"
| "proper_stat (If b bs) = (proper_block b \<and> proper_branches bs)"
| "proper_block Empty = True"
| "proper_block (Seq s b) = (proper_stat s \<and> proper_block b)"
| "proper_branches Endif = True"
| "proper_branches (Else b) = proper_block b"
| "proper_branches (Elseif b bs) = (proper_block b \<and> proper_branches bs)"

lemma code_cong:
  "stat_code C pos loops s \<Longrightarrow> (\<And>q. pos \<le> q \<Longrightarrow> q < pos + stat_len s \<Longrightarrow> same_links (C q) (C' q)) \<Longrightarrow> stat_code C' pos loops s"
  "block_code C pos loops b \<Longrightarrow> (\<And>q. pos \<le> q \<Longrightarrow> q < pos + block_len b \<Longrightarrow> same_links (C q) (C' q)) \<Longrightarrow> block_code C' pos loops b"
  "branches_code C ifpos pos loops bs \<Longrightarrow> (\<And>q. pos \<le> q \<Longrightarrow> q < pos + branches_len bs \<Longrightarrow> same_links (C q) (C' q))
    \<Longrightarrow> branches_code C' ifpos pos loops bs"
proof (induction s and b and bs arbitrary: pos loops and pos loops and ifpos pos loops)
  case (Loop b)
  note L = Loop.prems(2) [unfolded same_links_def]
  have "block_code C' (pos + 1) (pos # loops) b" by (rule Loop.IH) (use Loop.prems in \<open>auto simp: Let_def\<close>)
  then show ?case using Loop.prems(1) L [of pos] L [of "pos + 1 + block_len b"] by (simp add: Let_def)
next
  case (Foreach b)
  note L = Foreach.prems(2) [unfolded same_links_def]
  have "block_code C' (pos + 1) (pos # loops) b" by (rule Foreach.IH) (use Foreach.prems in \<open>auto simp: Let_def\<close>)
  then show ?case using Foreach.prems(1) L [of pos] L [of "pos + 1 + block_len b"] by (simp add: Let_def)
next
  case (If b bs)
  have "block_code C' (pos + 1) loops b" by (rule If.IH(1)) (use If.prems in \<open>auto simp: Let_def\<close>)
  moreover have "branches_code C' pos (pos + 1 + block_len b) loops bs" by (rule If.IH(2)) (use If.prems in \<open>auto simp: Let_def\<close>)
  ultimately show ?case using If.prems(1) If.prems(2) [unfolded same_links_def, of pos] by (simp add: Let_def)
next
  case (Seq s b)
  have "stat_code C' pos loops s" by (rule Seq.IH(1)) (use Seq.prems in auto)
  moreover have "block_code C' (pos + stat_len s) loops b" by (rule Seq.IH(2)) (use Seq.prems in auto)
  ultimately show ?case by simp
next
  case (Else b)
  note L = Else.prems(2) [unfolded same_links_def]
  have "block_code C' (pos + 1) loops b" by (rule Else.IH) (use Else.prems in \<open>auto simp: Let_def\<close>)
  then show ?case using Else.prems(1) L [of pos] L [of "pos + 1 + block_len b"] by (simp add: Let_def)
next
  case (Elseif b bs)
  have "block_code C' (pos + 1) loops b" by (rule Elseif.IH(1)) (use Elseif.prems in \<open>auto simp: Let_def\<close>)
  moreover have "branches_code C' ifpos (pos + 1 + block_len b) loops bs"
    by (rule Elseif.IH(2)) (use Elseif.prems in \<open>auto simp: Let_def\<close>)
  ultimately show ?case using Elseif.prems(1) Elseif.prems(2) [unfolded same_links_def, of pos] by (simp add: Let_def)
qed (force simp: same_links_def)+

text \<open>Several commands: the links before them stay, with the exception of a set.\<close>

definition nested :: "nat set \<Rightarrow> nat \<Rightarrow> 'stmt parser \<Rightarrow> 'stmt parser \<Rightarrow> bool" where
  "nested F n s s' \<longleftrightarrow> well_stacked s' \<and> cmd_count s' = cmd_count s + n
     \<and> (\<forall>q<cmd_count s. q \<notin> F \<longrightarrow> same_links (cmd_at s q) (cmd_at s' q))
     \<and> (\<forall>q<cmd_count s. cmd_type (cmd_at s' q) = cmd_type (cmd_at s q))"

lemma nested_grown: "grown t F s s' \<Longrightarrow> nested F 1 s s'"
  by (simp add: nested_def grown_def)

lemma nestedD:
  assumes "nested F n s s'" and "q < cmd_count s"
  shows "q \<notin> F \<Longrightarrow> same_links (cmd_at s q) (cmd_at s' q)" "cmd_type (cmd_at s' q) = cmd_type (cmd_at s q)"
  using assms by (simp_all add: nested_def)

lemma same_links_trans: "same_links c c1 \<Longrightarrow> same_links c1 c2 \<Longrightarrow> same_links c c2"
  by (simp add: same_links_def)

lemma nested_trans:
  assumes "nested F n s s1" and "nested G k s1 s'" and "(F \<union> G) \<inter> {..<cmd_count s} \<subseteq> H" and "i = n + k"
  shows "nested H i s s'"
proof -
  have "same_links (cmd_at s q) (cmd_at s' q)" if "q < cmd_count s" "q \<notin> H" for q
  proof -
    have "q \<notin> F" "q \<notin> G" "q < cmd_count s1" using assms(1,3) that by (auto simp: nested_def)
    then show ?thesis
      using nestedD(1) [OF assms(1) that(1)] nestedD(1) [OF assms(2)] same_links_trans by blast
  qed
  then show ?thesis using assms(1,2,4) unfolding nested_def by simp
qed

lemma nested_code:
  assumes "nested F n s s'" and "pos + k \<le> cmd_count s" and "\<And>q. q \<in> F \<Longrightarrow> q < pos \<or> pos + k \<le> q"
  shows "stat_code (cmd_at s) pos loops st \<Longrightarrow> stat_len st = k \<Longrightarrow> stat_code (cmd_at s') pos loops st"
    "block_code (cmd_at s) pos loops b \<Longrightarrow> block_len b = k \<Longrightarrow> block_code (cmd_at s') pos loops b"
proof -
  have same: "same_links (cmd_at s q) (cmd_at s' q)" if "pos \<le> q" "q < pos + k" for q
    using nestedD(1) [OF assms(1), of q] assms(2,3) that by fastforce
  show "stat_code (cmd_at s) pos loops st \<Longrightarrow> stat_len st = k \<Longrightarrow> stat_code (cmd_at s') pos loops st"
    using code_cong(1) [of "cmd_at s" pos loops st "cmd_at s'"] same by blast
  show "block_code (cmd_at s) pos loops b \<Longrightarrow> block_len b = k \<Longrightarrow> block_code (cmd_at s') pos loops b"
    using code_cong(2) [of "cmd_at s" pos loops b "cmd_at s'"] same by blast
qed

definition parsed_stat :: "stat \<Rightarrow> 'stmt parser \<Rightarrow> 'stmt parser \<Rightarrow> bool" where
  "parsed_stat x s s' \<longleftrightarrow>
     (\<exists>y. stat_shape y = stat_shape x \<and> stat_code (cmd_at s') (cmd_count s) (loop_stack s) y)
     \<and> nested {} (stat_len x) s s' \<and> loop_stack s' = loop_stack s \<and> if_stack s' = if_stack s"

definition parsed_block :: "block \<Rightarrow> 'stmt parser \<Rightarrow> 'stmt parser \<Rightarrow> bool" where
  "parsed_block x s s' \<longleftrightarrow>
     (\<exists>y. block_shape y = block_shape x \<and> block_code (cmd_at s') (cmd_count s) (loop_stack s) y)
     \<and> nested {} (block_len x) s s' \<and> loop_stack s' = loop_stack s \<and> if_stack s' = if_stack s"

definition parsed_branches :: "branches \<Rightarrow> if_block \<Rightarrow> 'stmt parser \<Rightarrow> 'stmt parser \<Rightarrow> bool" where
  "parsed_branches x b s s' \<longleftrightarrow>
     (\<exists>y. branches_shape y = branches_shape x \<and> branches_code (cmd_at s') (first_cmd b) (cmd_count s) (loop_stack s) y)
     \<and> nested {last_cmd b} (branches_len x) s s' \<and> loop_stack s' = loop_stack s \<and> b # if_stack s' = if_stack s
     \<and> next_if_cmd (cmd_at s' (last_cmd b)) = cmd_count s
     \<and> related_cmd (cmd_at s' (last_cmd b)) = related_cmd (cmd_at s (last_cmd b))"

lemma parsed_loop:
  assumes "command_step t s s1" and "t = CMD_TYPE_LOOP \<and> x = Loop b \<or> t = CMD_TYPE_FOREACH \<and> x = Foreach b" and "well_stacked s"
    and "parsed_block b s1 s2" and "command_step CMD_TYPE_ENDLOOP s2 s'"
  shows "parsed_stat x s s'"
proof -
  let ?n = "cmd_count s"
  have t: "t = CMD_TYPE_LOOP \<or> t = CMD_TYPE_FOREACH" using assms(2) by blast
  note s1 = loop_step [OF assms(1) t assms(3)]
  have n1: "nested {} 1 s s1" by (rule nested_grown [OF s1(1)])
  from assms(4) obtain y where y: "block_shape y = block_shape b" "block_code (cmd_at s2) (?n + 1) (?n # loop_stack s) y"
    and n2: "nested {} (block_len b) s1 s2" and st: "loop_stack s2 = ?n # loop_stack s" "if_stack s2 = if_stack s"
    using n1 s1 by (auto simp: parsed_block_def nested_def)
  have w2: "well_stacked s2" "cmd_count s2 = ?n + 1 + block_len b" "cmd_count s1 = ?n + 1" using n1 n2 by (simp_all add: nested_def)
  note s' = endloop_step [OF assms(5) w2(1) st(1)]
  have n3: "nested {?n} 1 s2 s'" by (rule nested_grown [OF s'(1)])
  have c: "block_code (cmd_at s') (?n + 1) (?n # loop_stack s) y"
    by (rule nested_code(2) [OF n3 _ _ y(2)]) (use w2 y(1) in auto)
  have ty: "cmd_type (cmd_at s' ?n) = t"
    using s1(1) nestedD(2) [OF n2, of ?n] nestedD(2) [OF n3, of ?n] w2 by (simp add: grown_def)
  have te: "cmd_type (cmd_at s' (cmd_count s2)) = CMD_TYPE_ENDLOOP" using s'(1) by (simp add: grown_def)
  have "nested {} (1 + block_len b) s s2" by (rule nested_trans [OF n1 n2]) simp_all
  then have "nested {} (1 + block_len b + 1) s s'" by (rule nested_trans [OF _ n3]) auto
  moreover have "\<exists>z. stat_shape z = stat_shape x \<and> stat_code (cmd_at s') ?n (loop_stack s) z"
    using assms(2)
  proof
    assume a: "t = CMD_TYPE_LOOP \<and> x = Loop b"
    show ?thesis by (rule exI [of _ "Loop y"]) (use a c ty te s' w2 y(1) in \<open>simp add: Let_def\<close>)
  next
    assume a: "t = CMD_TYPE_FOREACH \<and> x = Foreach b"
    show ?thesis by (rule exI [of _ "Foreach y"]) (use a c ty te s' w2 y(1) in \<open>simp add: Let_def\<close>)
  qed
  moreover have "stat_len x = 1 + block_len b + 1" using assms(2) by auto
  ultimately show ?thesis using s'(2,3) st by (simp add: parsed_stat_def)
qed

lemma parsed_if:
  assumes "command_step CMD_TYPE_IF s s1" and "well_stacked s" and "parsed_block b s1 s2"
    and "\<And>ifb rest. if_stack s2 = ifb # rest \<Longrightarrow> parsed_branches bs ifb s2 s'"
  shows "parsed_stat (If b bs) s s'"
proof -
  let ?n = "cmd_count s"
  let ?ifb = "\<lparr>first_cmd = ?n, last_cmd = ?n\<rparr>"
  note s1 = if_step [OF assms(1,2)]
  have n1: "nested {} 1 s s1" by (rule nested_grown [OF s1(1)])
  from assms(3) obtain y where y: "block_shape y = block_shape b" "block_code (cmd_at s2) (?n + 1) (loop_stack s) y"
    and n2: "nested {} (block_len b) s1 s2" and st: "loop_stack s2 = loop_stack s" "if_stack s2 = ?ifb # if_stack s"
    using n1 s1 by (auto simp: parsed_block_def nested_def)
  have w2: "cmd_count s2 = ?n + 1 + block_len b" "cmd_count s1 = ?n + 1" using n1 n2 by (simp_all add: nested_def)
  from assms(4) [OF st(2)] obtain z where z: "branches_shape z = branches_shape bs"
      "branches_code (cmd_at s') ?n (?n + 1 + block_len b) (loop_stack s) z"
    and n3: "nested {?n} (branches_len bs) s2 s'" and st': "loop_stack s' = loop_stack s" "if_stack s' = if_stack s"
      "next_if_cmd (cmd_at s' ?n) = ?n + 1 + block_len b"
    using st w2 by (auto simp: parsed_branches_def)
  have c: "block_code (cmd_at s') (?n + 1) (loop_stack s) y"
    by (rule nested_code(2) [OF n3 _ _ y(2)]) (use w2 y(1) in auto)
  have ty: "cmd_type (cmd_at s' ?n) = CMD_TYPE_IF"
    using s1(1) nestedD(2) [OF n2, of ?n] nestedD(2) [OF n3, of ?n] w2 by (simp add: grown_def)
  have "nested {} (1 + block_len b) s s2" by (rule nested_trans [OF n1 n2]) simp_all
  then have "nested {} (1 + block_len b + branches_len bs) s s'" by (rule nested_trans [OF _ n3]) auto
  moreover have "\<exists>v. stat_shape v = stat_shape (If b bs) \<and> stat_code (cmd_at s') ?n (loop_stack s) v"
    by (rule exI [of _ "If y z"]) (use y(1) z c ty st'(3) in \<open>simp add: Let_def\<close>)
  ultimately show ?thesis using st' by (simp add: parsed_stat_def)
qed

text \<open>The branches begin with the block of an IF or of an ELSEIF on the top of the stack.\<close>

lemma parsed_endif:
  assumes "command_step CMD_TYPE_ENDIF s s'" and "well_stacked s" and "if_stack s = ifb # rest"
  shows "parsed_branches Endif ifb s s'"
proof -
  note e = endif_step [OF assms]
  have "\<exists>y. branches_shape y = branches_shape Endif \<and> branches_code (cmd_at s') (first_cmd ifb) (cmd_count s) (loop_stack s) y"
    by (rule exI [of _ Endif]) (use e(1) in \<open>simp add: grown_def\<close>)
  moreover have "nested {last_cmd ifb} (branches_len Endif) s s'" using nested_grown [OF e(1)] by simp
  ultimately show ?thesis using e assms(3) by (simp add: parsed_branches_def)
qed

text \<open>The start of an ELSE or ELSEIF and its block.\<close>

lemma parsed_else_block:
  assumes "command_step t s s1" and "t = CMD_TYPE_ELSEIF \<or> t = CMD_TYPE_ELSE" and "well_stacked s" and "if_stack s = ifb # rest"
    and "parsed_block b s1 s2"
  obtains y where "block_shape y = block_shape b" "block_code (cmd_at s2) (cmd_count s + 1) (loop_stack s) y"
    "nested {last_cmd ifb} (1 + block_len b) s s2" "loop_stack s2 = loop_stack s"
    "if_stack s2 = ifb\<lparr>last_cmd := cmd_count s\<rparr> # rest" "next_if_cmd (cmd_at s2 (last_cmd ifb)) = cmd_count s"
    "related_cmd (cmd_at s2 (last_cmd ifb)) = related_cmd (cmd_at s (last_cmd ifb))"
    "cmd_type (cmd_at s2 (cmd_count s)) = t" "related_cmd (cmd_at s2 (cmd_count s)) = first_cmd ifb"
proof -
  let ?n = "cmd_count s" and ?l = "last_cmd ifb"
  note s1 = else_step [OF assms(1-4)]
  have l: "?l < ?n" using assms(3,4) by (auto simp: well_stacked_def)
  have n1: "nested {?l} 1 s s1" by (rule nested_grown [OF s1(1)])
  from assms(5) obtain y where y: "block_shape y = block_shape b" "block_code (cmd_at s2) (?n + 1) (loop_stack s) y"
    and n2: "nested {} (block_len b) s1 s2" and st: "loop_stack s2 = loop_stack s" "if_stack s2 = ifb\<lparr>last_cmd := ?n\<rparr> # rest"
    using n1 s1 by (auto simp: parsed_block_def nested_def)
  have w: "cmd_count s1 = ?n + 1" using n1 by (simp add: nested_def)
  have keep: "same_links (cmd_at s1 q) (cmd_at s2 q)" if "q \<le> ?n" for q using nestedD(1) [OF n2, of q] that w by simp
  show ?thesis
  proof (rule that [OF y])
    show "nested {?l} (1 + block_len b) s s2" by (rule nested_trans [OF n1 n2]) auto
    show "cmd_type (cmd_at s2 ?n) = t" "related_cmd (cmd_at s2 ?n) = first_cmd ifb"
      using keep [of ?n] s1(1,5) by (simp_all add: same_links_def grown_def)
    show "next_if_cmd (cmd_at s2 ?l) = ?n" "related_cmd (cmd_at s2 ?l) = related_cmd (cmd_at s ?l)"
      using keep [of ?l] l s1(4,6) by (simp_all add: same_links_def)
  qed (use st in simp_all)
qed

text \<open>The rest of the branches after such a block.\<close>

lemma parsed_branches_step:
  assumes "command_step t s s1" and "t = CMD_TYPE_ELSEIF \<and> x = Elseif b bs \<or> t = CMD_TYPE_ELSE \<and> x = Else b \<and> bs = Endif"
    and "well_stacked s" and "if_stack s = ifb # rest" and "parsed_block b s1 s2"
    and "\<And>ifb rest. if_stack s2 = ifb # rest \<Longrightarrow> parsed_branches bs ifb s2 s'"
  shows "parsed_branches x ifb s s'"
proof -
  let ?n = "cmd_count s" and ?l = "last_cmd ifb"
  have t: "t = CMD_TYPE_ELSEIF \<or> t = CMD_TYPE_ELSE" using assms(2) by blast
  from parsed_else_block [OF assms(1) t assms(3-5)] obtain y
    where y: "block_shape y = block_shape b" "block_code (cmd_at s2) (?n + 1) (loop_stack s) y"
      and n2: "nested {?l} (1 + block_len b) s s2" and st: "loop_stack s2 = loop_stack s" "if_stack s2 = ifb\<lparr>last_cmd := ?n\<rparr> # rest"
      and l2: "next_if_cmd (cmd_at s2 ?l) = ?n" "related_cmd (cmd_at s2 ?l) = related_cmd (cmd_at s ?l)"
      and c2: "cmd_type (cmd_at s2 ?n) = t" "related_cmd (cmd_at s2 ?n) = first_cmd ifb" .
  have w2: "cmd_count s2 = ?n + 1 + block_len b" using n2 by (simp add: nested_def)
  from assms(6) [OF st(2)] obtain z where z: "branches_shape z = branches_shape bs"
      "branches_code (cmd_at s') (first_cmd ifb) (?n + 1 + block_len b) (loop_stack s) z"
    and n3: "nested {?n} (branches_len bs) s2 s'" and st': "loop_stack s' = loop_stack s" "if_stack s' = rest"
    and l3: "next_if_cmd (cmd_at s' ?n) = ?n + 1 + block_len b" "related_cmd (cmd_at s' ?n) = first_cmd ifb"
    using st w2 c2 by (auto simp: parsed_branches_def)
  have c: "block_code (cmd_at s') (?n + 1) (loop_stack s) y"
    by (rule nested_code(2) [OF n3 _ _ y(2)]) (use w2 y(1) in auto)
  have ty: "cmd_type (cmd_at s' ?n) = t" using c2(1) nestedD(2) [OF n3, of ?n] w2 by simp
  have "?l < ?n" using assms(3,4) by (auto simp: well_stacked_def)
  then have l: "next_if_cmd (cmd_at s' ?l) = ?n" "related_cmd (cmd_at s' ?l) = related_cmd (cmd_at s ?l)"
    using nestedD(1) [OF n3, of ?l] l2 w2 by (simp_all add: same_links_def)
  have "nested {?l} (1 + block_len b + branches_len bs) s s'" by (rule nested_trans [OF n2 n3]) auto
  moreover have "branches_len x = 1 + block_len b + branches_len bs" using assms(2) by auto
  moreover have "\<exists>v. branches_shape v = branches_shape x \<and> branches_code (cmd_at s') (first_cmd ifb) ?n (loop_stack s) v"
    using assms(2)
  proof
    assume "t = CMD_TYPE_ELSEIF \<and> x = Elseif b bs"
    then show ?thesis by (intro exI [of _ "Elseif y z"]) (use c ty z l3 y(1) in \<open>simp add: Let_def\<close>)
  next
    assume a: "t = CMD_TYPE_ELSE \<and> x = Else b \<and> bs = Endif"
    then have "z = Endif" using z(1) by (cases z) simp_all
    with a show ?thesis by (intro exI [of _ "Else y"]) (use c ty z l3 y(1) in \<open>simp add: Let_def\<close>)
  qed
  ultimately show ?thesis using st' l assms(4) by (simp add: parsed_branches_def)
qed

lemma parsed_seq:
  assumes "parsed_stat x s s1" and "parsed_block b s1 s'"
  shows "parsed_block (Seq x b) s s'"
proof -
  let ?n = "cmd_count s"
  from assms(1) obtain y where y: "stat_shape y = stat_shape x" "stat_code (cmd_at s1) ?n (loop_stack s) y"
    and n1: "nested {} (stat_len x) s s1" and st: "loop_stack s1 = loop_stack s" "if_stack s1 = if_stack s"
    by (auto simp: parsed_stat_def)
  have w: "cmd_count s1 = ?n + stat_len x" using n1 by (simp add: nested_def)
  from assms(2) obtain z where z: "block_shape z = block_shape b" "block_code (cmd_at s') (?n + stat_len x) (loop_stack s) z"
    and n2: "nested {} (block_len b) s1 s'" and st': "loop_stack s' = loop_stack s" "if_stack s' = if_stack s"
    using st w by (auto simp: parsed_block_def)
  have "stat_code (cmd_at s') ?n (loop_stack s) y" by (rule nested_code(1) [OF n2 _ _ y(2)]) (use w y(1) in auto)
  then have "\<exists>v. block_shape v = block_shape (Seq x b) \<and> block_code (cmd_at s') ?n (loop_stack s) v"
    by (intro exI [of _ "Seq y z"]) (use y(1) z in simp)
  moreover have "nested {} (block_len (Seq x b)) s s'" by (rule nested_trans [OF n1 n2]) simp_all
  ultimately show ?thesis using st' by (simp add: parsed_block_def)
qed

lemma parsed_jump:
  assumes "command_step t s s'" and "t = CMD_TYPE_BREAK \<and> x = Break k \<or> t = CMD_TYPE_CONTINUE \<and> x = Continue k" and "well_stacked s"
  shows "parsed_stat x s s'"
proof -
  have t: "t = CMD_TYPE_BREAK \<or> t = CMD_TYPE_CONTINUE" using assms(2) by blast
  note j = jump_link_step [OF assms(1) t assms(3)]
  from j(4) obtain i where i: "i < length (loop_stack s)" "related_cmd (cmd_at s' (cmd_count s)) = loop_stack s ! i" by blast
  have ty: "cmd_type (cmd_at s' (cmd_count s)) = t" using j(1) by (simp add: grown_def)
  have "\<exists>v. stat_shape v = stat_shape x \<and> stat_code (cmd_at s') (cmd_count s) (loop_stack s) v"
    by (rule exI [of _ "if t = CMD_TYPE_BREAK then Break i else Continue i"]) (use assms(2) i ty in auto)
  then show ?thesis using nested_grown [OF j(1)] j(2,3) assms(2) by (auto simp: parsed_stat_def)
qed

lemma parsed_simple:
  assumes "command_step t s s'" and "t \<in> simple_types" and "well_stacked s"
  shows "parsed_stat (Simple t) s s'"
proof -
  note g = simple_step [OF assms]
  have "\<exists>v. stat_shape v = stat_shape (Simple t) \<and> stat_code (cmd_at s') (cmd_count s) (loop_stack s) v"
    by (rule exI [of _ "Simple t"]) (use g(1) assms(2) in \<open>simp add: grown_def\<close>)
  then show ?thesis using nested_grown [OF g(1)] g(2,3) by (simp add: parsed_stat_def)
qed

lemma nested_stacked: "nested F n s s' \<Longrightarrow> well_stacked s'"
  by (simp add: nested_def)

lemma parsed_shape:
  "command_steps s (stat_shape x) s' \<Longrightarrow> well_stacked s \<Longrightarrow> proper_stat x \<Longrightarrow> parsed_stat x s s'"
  "command_steps s (block_shape b) s' \<Longrightarrow> well_stacked s \<Longrightarrow> proper_block b \<Longrightarrow> parsed_block b s s'"
  "command_steps s (branches_shape bs) s' \<Longrightarrow> well_stacked s \<Longrightarrow> proper_branches bs \<Longrightarrow> if_stack s = ifb # rest
    \<Longrightarrow> parsed_branches bs ifb s s'"
proof (induction x and b and bs arbitrary: s s' and s s' and s s' ifb rest)
  case (Simple t)
  then show ?case by (auto simp: command_steps_Cons intro: parsed_simple)
next
  case (Break k)
  then show ?case by (auto simp: command_steps_Cons intro: parsed_jump)
next
  case (Continue k)
  then show ?case by (auto simp: command_steps_Cons intro: parsed_jump)
next
  case (Loop b)
  then obtain s1 s2 where s: "command_step CMD_TYPE_LOOP s s1" "command_steps s1 (block_shape b) s2" "command_step CMD_TYPE_ENDLOOP s2 s'"
    by (auto simp: command_steps_Cons command_steps_append)
  have "well_stacked s1" using loop_step(1) [OF s(1) _ Loop.prems(2)] by (simp add: grown_def)
  then show ?case using parsed_loop [OF s(1) _ Loop.prems(2) Loop.IH [OF s(2)] s(3)] Loop.prems(3) by simp
next
  case (Foreach b)
  then obtain s1 s2 where s: "command_step CMD_TYPE_FOREACH s s1" "command_steps s1 (block_shape b) s2" "command_step CMD_TYPE_ENDLOOP s2 s'"
    by (auto simp: command_steps_Cons command_steps_append)
  have "well_stacked s1" using loop_step(1) [OF s(1) _ Foreach.prems(2)] by (simp add: grown_def)
  then show ?case using parsed_loop [OF s(1) _ Foreach.prems(2) Foreach.IH [OF s(2)] s(3)] Foreach.prems(3) by simp
next
  case (If b bs)
  then obtain s1 s2 where s: "command_step CMD_TYPE_IF s s1" "command_steps s1 (block_shape b) s2" "command_steps s2 (branches_shape bs) s'"
    by (auto simp: command_steps_Cons command_steps_append)
  have "well_stacked s1" using if_step(1) [OF s(1) If.prems(2)] by (simp add: grown_def)
  then have b: "parsed_block b s1 s2" using If.IH(1) [OF s(2)] If.prems(3) by simp
  then have "well_stacked s2" by (auto simp: parsed_block_def intro: nested_stacked)
  then show ?case using parsed_if [OF s(1) If.prems(2) b If.IH(2) [OF s(3)]] If.prems(3) by simp
next
  case Empty
  then have "s' = s" by simp
  moreover have "nested {} 0 s s" using Empty.prems(2) by (simp add: nested_def)
  ultimately show ?case unfolding parsed_block_def using exI [of _ Empty] by simp
next
  case (Seq x b)
  then obtain s1 where s: "command_steps s (stat_shape x) s1" "command_steps s1 (block_shape b) s'"
    by (auto simp: command_steps_append)
  have x: "parsed_stat x s s1" using Seq.IH(1) [OF s(1) Seq.prems(2)] Seq.prems(3) by simp
  then have "well_stacked s1" by (auto simp: parsed_stat_def intro: nested_stacked)
  then show ?case using parsed_seq [OF x] Seq.IH(2) [OF s(2)] Seq.prems(3) by simp
next
  case Endif
  then show ?case by (auto simp: command_steps_Cons intro: parsed_endif)
next
  case (Else b)
  then obtain s1 s2 where s: "command_step CMD_TYPE_ELSE s s1" "command_steps s1 (block_shape b) s2" "command_step CMD_TYPE_ENDIF s2 s'"
    by (auto simp: command_steps_Cons command_steps_append)
  have "well_stacked s1" using else_step(1) [OF s(1) _ Else.prems(2,4)] by (simp add: grown_def)
  then have b: "parsed_block b s1 s2" using Else.IH [OF s(2)] Else.prems(3) by simp
  then have "well_stacked s2" by (auto simp: parsed_block_def intro: nested_stacked)
  then have "parsed_branches Endif ifb' s2 s'" if "if_stack s2 = ifb' # rest'" for ifb' rest'
    using parsed_endif [OF s(3) _ that] by simp
  then show ?case using parsed_branches_step [OF s(1) _ Else.prems(2,4) b, of "Else b" Endif s'] by simp
next
  case (Elseif b bs)
  then obtain s1 s2 where s: "command_step CMD_TYPE_ELSEIF s s1" "command_steps s1 (block_shape b) s2" "command_steps s2 (branches_shape bs) s'"
    by (auto simp: command_steps_Cons command_steps_append)
  have "well_stacked s1" using else_step(1) [OF s(1) _ Elseif.prems(2,4)] by (simp add: grown_def)
  then have b: "parsed_block b s1 s2" using Elseif.IH(1) [OF s(2)] Elseif.prems(3) by simp
  then have "well_stacked s2" by (auto simp: parsed_block_def intro: nested_stacked)
  then show ?case using parsed_branches_step [OF s(1) _ Elseif.prems(2,4) b Elseif.IH(2) [OF s(3)]] Elseif.prems(3) by simp
qed

subsection \<open>The execution of a parsed procedure\<close>

lemma command_step_grown:
  assumes "command_step t s s'" and "well_stacked s"
  shows "\<exists>F. grown t F s s'"
proof (cases "t \<in> simple_types")
  case True
  then show ?thesis using simple_step(1) [OF assms(1) _ assms(2)] by blast
next
  case False
  have n: "cmd_count s \<le> length (cmds (procedure s))" using assms(2) by (simp add: well_stacked_def)
  from assms(1) obtain s1 where s1: "link_step t (cmd_count s) (with_slot t s) s1" by (auto simp: command_step_def)
  show ?thesis
  proof (cases t)
    case CMD_TYPE_ENDLOOP
    then obtain l rest where "loop_stack s = l # rest"
      using s1 with_slot(6) [OF n] by (cases "loop_stack s") (auto simp: link_step_def link_endloop_def simple_types_def)
    then show ?thesis using endloop_step(1) assms CMD_TYPE_ENDLOOP by blast
  next
    case CMD_TYPE_ENDIF
    then obtain b rest where "if_stack s = b # rest"
      using s1 with_slot(5) [OF n] by (cases "if_stack s") (auto simp: link_step_def link_endif_def simple_types_def)
    then show ?thesis using endif_step(1) assms CMD_TYPE_ENDIF by blast
  next
    case CMD_TYPE_ELSE
    then obtain b rest where "if_stack s = b # rest"
      using s1 with_slot(5) [OF n] by (cases "if_stack s") (auto simp: link_step_def link_else_def simple_types_def)
    then show ?thesis using else_step(1) assms CMD_TYPE_ELSE by blast
  next
    case CMD_TYPE_ELSEIF
    then obtain b rest where "if_stack s = b # rest"
      using s1 with_slot(5) [OF n] by (cases "if_stack s") (auto simp: link_step_def link_else_def simple_types_def)
    then show ?thesis using else_step(1) assms CMD_TYPE_ELSEIF by blast
  next
    case CMD_TYPE_IF
    then show ?thesis using if_step(1) assms by blast
  next
    case CMD_TYPE_LOOP
    then show ?thesis using loop_step(1) assms by blast
  next
    case CMD_TYPE_FOREACH
    then show ?thesis using loop_step(1) assms by blast
  next
    case CMD_TYPE_BREAK
    then show ?thesis using jump_link_step(1) assms by blast
  next
    case CMD_TYPE_CONTINUE
    then show ?thesis using jump_link_step(1) assms by blast
  qed (use False s1 in \<open>simp_all add: link_step_def simple_types_def\<close>)
qed

definition types_of :: "'stmt parser \<Rightarrow> cmd_type list" where
  "types_of s = map cmd_type (take (cmd_count s) (cmds (procedure s)))"

lemma types_of_grown:
  assumes "grown t F s s'" and "well_stacked s"
  shows "types_of s' = types_of s @ [t]"
proof -
  have n: "cmd_count s \<le> length (cmds (procedure s))" "Suc (cmd_count s) \<le> length (cmds (procedure s'))"
    and ty: "q < cmd_count s \<Longrightarrow> cmd_type (cmd_at s' q) = cmd_type (cmd_at s q)" "cmd_type (cmd_at s' (cmd_count s)) = t"
      "cmd_count s' = Suc (cmd_count s)" for q
    using assms by (simp_all add: grown_def well_stacked_def)
  show ?thesis
  proof (rule nth_equalityI)
    show "length (types_of s') = length (types_of s @ [t])" using n ty(3) by (simp add: types_of_def)
    fix i
    assume "i < length (types_of s')"
    then show "types_of s' ! i = (types_of s @ [t]) ! i" using n ty by (auto simp: types_of_def nth_append less_Suc_eq)
  qed
qed

lemma command_steps_types:
  assumes "command_steps s ts s'" and "well_stacked s"
  shows "types_of s' = types_of s @ ts"
  using assms
proof (induction rule: command_steps.induct)
  case (more t s s1 ts s')
  then obtain F where g: "grown t F s s1" using command_step_grown by blast
  moreover have "well_stacked s1" using g by (simp add: grown_def)
  ultimately show ?case using more.IH types_of_grown [OF g more.prems] by simp
qed simp

lemma parsed_body_code:
  assumes "parse_procedure_body sql s = Some (Inr rest, s')" and "num_cmds (procedure s) = 0" and "if_stack s = []" and "loop_stack s = []"
    and "map cmd_type (take (num_cmds (procedure s')) (cmds (procedure s'))) = block_shape P" and "proper_block P"
  shows "\<exists>Q. block_shape Q = block_shape P \<and> block_code (\<lambda>q. cmds (procedure s') ! q) 0 [] Q"
proof -
  obtain ts where ts: "command_steps s ts s'" using parse_procedure_body_steps [OF assms(1)] by blast
  have w: "well_stacked s" using assms(2-4) by (simp add: well_stacked_def)
  have "types_of s' = ts" using command_steps_types [OF ts w] assms(2) by (simp add: types_of_def)
  then have "ts = block_shape P" using assms(5) by (simp add: types_of_def)
  then have "parsed_block P s s'" using parsed_shape(2) [OF _ w assms(6)] ts by simp
  then show ?thesis using assms(2,4) by (simp add: parsed_block_def)
qed

text \<open>The body of a whole procedure.\<close>

lemma parse_parameters_stacks:
  assumes "parse_parameters sql s = (r, s')"
  shows "if_stack s' = if_stack s" "loop_stack s' = loop_stack s" "cmds (procedure s') = cmds (procedure s)" "cmd_count s' = cmd_count s"
  using assms
  by (auto simp: parse_parameters_def parse_variables_list_def Let_def case_prod_beta set_vars_def split: sum.splits if_splits)

lemma procedure_body:
  assumes "parseStoredProcedure sql s = Some (Inr rest, s')"
  shows "\<exists>sql1 s1 rest1. parse_procedure_body sql1 s1 = Some (Inr rest1, s') \<and> if_stack s1 = if_stack s
    \<and> loop_stack s1 = loop_stack s \<and> cmd_count s1 = cmd_count s"
proof -
  have body: "\<exists>sql1 rest1. parse_procedure_body sql1 s1 = Some (Inr rest1, s')"
    if "parse_body_and_end sql0 s1 = Some (Inr rest, s')" for sql0 s1
    using that by (auto simp: parse_body_and_end_def Let_def split: option.splits sum.splits if_splits; blast)
  from assms obtain s0 sql0 sql1 s1 where s0: "if_stack s0 = if_stack s" "loop_stack s0 = loop_stack s" "cmd_count s0 = cmd_count s"
      "parse_parameters sql0 s0 = (Inr sql1, s1)" "parse_body_and_end sql1 s1 = Some (Inr rest, s')"
    by (auto simp: parseStoredProcedure_def Let_def split: prod.splits sum.splits if_splits) (erule that [rotated 3]; simp)+
  then show ?thesis using body [OF s0(5)] parse_parameters_stacks [OF s0(4)] by auto
qed

end
