(* ===== verification/Proc_Examples.thy ===== *)
theory Proc_Examples
  imports Proc_Call "HOL-Library.Code_Target_Nat"
begin

section \<open>Stored procedures: a small database for the examples\<close>

text \<open>
  A concrete database to run procedures on: its contents are the texts of the statements that were executed, with
  the contents at the open savepoint. A SELECT returns one row with the value 1 or 0 or none, FAIL returns an error, and
  \<^verbatim>\<open>commit\<close> ends the savepoint where the database is asked to know that statement.
\<close>

declare run_commands.simps [code] step_to_end.simps [code] set_rows.simps [code] leave_call.simps [code]

type_synonym example_db = "string list \<times> string list option"
type_synonym example_stmt = "string \<times> bool"

definition example_step :: "bool \<Rightarrow> example_db \<Rightarrow> example_stmt \<Rightarrow> rc \<times> example_db \<times> example_stmt" where
  "example_step commits d st =
     (let (z, row) = st in
      if take 6 z = ''SELECT'' then (if row \<or> z = ''SELECT none'' then SQLITE_DONE else SQLITE_ROW, d, (z, \<not> row))
      else if z = ''FAIL'' then (SQLITE_ERROR, d, st)
      else if commits \<and> z = ''commit'' then (SQLITE_DONE, (fst d, None), st)
      else (SQLITE_DONE, (fst d @ [z], snd d), st))"

definition example_exec :: "example_db \<Rightarrow> string \<Rightarrow> rc \<times> example_db" where
  "example_exec d z =
     (if take 9 z = ''SAVEPOINT'' then (SQLITE_OK, (fst d, Some (fst d)))
      else case snd d of
          None \<Rightarrow> (SQLITE_ERROR, d)
        | Some c \<Rightarrow> (SQLITE_OK, if take 8 z = ''ROLLBACK'' then (c, Some c) else (fst d, None)))"

definition example_api :: "bool \<Rightarrow> (example_db, example_stmt) sql_api" where
  "example_api commits =
     \<lparr>sql_prepare = (\<lambda>d z. (SQLITE_OK, Some (z, False))), sql_step = example_step commits,
      sql_reset = (\<lambda>st. (SQLITE_OK, (fst st, False))),
      sql_columns = (\<lambda>st. [(''c'', Integer (if fst st = ''SELECT 1'' then 1 else 0))]),
      sql_int = (\<lambda>v. case v of Integer i \<Rightarrow> i | _ \<Rightarrow> 0), sql_bind_index = (\<lambda>_ _. 0), sql_bind = (\<lambda>st _ _. st),
      sql_exec = example_exec\<rparr>"

definition example_command :: "cmd_type \<Rightarrow> string \<Rightarrow> example_stmt command" where
  "example_command t z = zero_command\<lparr>cmd_type := t, cmd_sql := Some z, cmd_nsql := length z\<rparr>"

definition example_machine :: "example_stmt command list \<Rightarrow> (example_db, example_stmt) machine" where
  "example_machine cs =
     \<lparr>db = ([], None), proc = zero_procedure\<lparr>cmds := cs, num_cmds := length cs\<rparr>, heap = [[]], aMem = None,
      result_row = None, next_result = False\<rparr>"

definition fresh_parser :: "example_stmt parser" where
  "fresh_parser = \<lparr>procedure = zero_procedure, if_stack = [], loop_stack = [], lists = []\<rparr>"

end
