(* ===== verification/Proc_Savepoint.thy ===== *)
theory Proc_Savepoint
  imports Proc_Frames Proc_Examples
begin

section \<open>Stored procedures: the savepoint of a call\<close>

text \<open>
  A procedure changes the database only by stepping statements, and a call wraps it in a savepoint. The theorems
  say which calls are undone and that a call whose savepoint is gone never returns.
\<close>

subsection \<open>The database changes by steps only\<close>

inductive reaches :: "('db, 'stmt) sql_api \<Rightarrow> 'db \<Rightarrow> 'db \<Rightarrow> bool" for api :: "('db, 'stmt) sql_api" where
  here: "reaches api d d"
| step: "reaches api d d' \<Longrightarrow> sql_step api d' st = (rc, d'', st') \<Longrightarrow> reaches api d d''"

declare reaches.here [simp, intro]

lemma reaches_trans: "reaches api d1 d2 \<Longrightarrow> reaches api d d1 \<Longrightarrow> reaches api d d2"
  by (induction rule: reaches.induct) (auto intro: reaches.step)

lemma reaches_fst [intro]: "reaches api d d' \<Longrightarrow> reaches api d (fst (snd (sql_step api d' st)))"
  by (metis prod.collapse reaches.step)

abbreviation db_reaches :: "('db, 'stmt) sql_api \<Rightarrow> ('db, 'stmt) machine \<Rightarrow> ('db, 'stmt) machine \<Rightarrow> bool" where
  "db_reaches api m m' \<equiv> reaches api (db m) (db m')"

lemma db_set [simp]: "db (set_command pos f m) = db m" "db (set_variables vs m) = db m" "db (set_executed b pos m) = db m"
  by (simp_all add: set_command_def set_variables_def set_executed_def)

lemma step_expression_db:
  assumes "step_expression api pos m = Some (Value (rc, cols, m'))"
  shows "db_reaches api m m'"
proof -
  obtain r st m1 where e: "expression_statement api pos m = ((r, st), m1)" by (metis prod.collapse)
  have "db m1 = db m" using arg_cong [OF e, of "\<lambda>x. db (snd x)"]
    by (simp add: expression_statement_def Let_def case_prod_beta split: option.splits if_splits)
  then show ?thesis using assms e by (auto simp: step_expression_def split: if_splits option.splits prod.splits intro: reaches.step)
qed

lemma finish_expression_db: "db_reaches api m (snd (finish_expression api pos m))"
  by (auto simp: finish_expression_def Let_def case_prod_beta split: option.split)

lemma execute_condition_db:
  assumes "execute_condition api pos m = Some (Value (rc, b, m'))"
  shows "db_reaches api m m'"
  using assms unfolding execute_condition_def
  by (elim cmd_frame_and_then)
    (auto simp: case_prod_beta Let_def split: if_splits intro: reaches_trans [OF finish_expression_db step_expression_db] step_expression_db)

lemma execute_values_db:
  assumes "execute_values api pos m = Some (Value (rc, m'))"
  shows "db_reaches api m m'"
proof -
  obtain r cols m1 where s: "step_expression api pos m = Some (Value (r, cols, m1))"
      and rest: "(if r \<noteq> SQLITE_ROW \<or> cols = [] then Some (Value (r, m1))
        else let ((used, ok), vs) = add_columns cols [] (proc_vars (proc m1));
             m = set_command pos (\<lambda>c. c\<lparr>cmd_vars := used\<rparr>) (set_variables vs m1)
         in if \<not> ok then Some (Value (SQLITE_NOMEM, m)) else Some (Value (finish_expression api pos m)))
       = Some (Value (rc, m'))"
    using assms unfolding execute_values_def by (elim cmd_frame_and_then) (auto split: prod.splits)
  have f: "reaches api (db m1) (db m')"
    if "finish_expression api pos (set_command pos g (set_variables vs m1)) = (rc, m')" for g vs
    using finish_expression_db [of api "set_command pos g (set_variables vs m1)" pos] that by simp
  have "reaches api (db m1) (db m')" using rest f by (auto simp: Let_def split: if_splits prod.splits)
  then show ?thesis using step_expression_db [OF s] by (rule reaches_trans)
qed

lemma db_query_str_db: "db_reaches api m (snd (db_query_str api z m))"
  by (auto simp: db_query_str_def Let_def case_prod_beta split: option.split)

lemma next_result_db: "db (snd (sqlite3VdbeNextResult m)) = db m"
  by (simp add: sqlite3VdbeNextResult_def Let_def split: option.split)

lemma executeReturnCommand_db:
  assumes "executeReturnCommand api pos m = Some (Value (rc, m'))"
  shows "db_reaches api m m'"
proof (cases "cmd_vars (command_at pos m) = [] \<and> cmd_sql (command_at pos m) = None")
  case True
  with assms show ?thesis by (simp add: executeReturnCommand_def)
next
  case False
  define m0 where "m0 = save_registers m"
  obtain r m1 where e: "(if cmd_sql (command_at pos m0) \<noteq> None then execute_values api pos m0 else Some (Value (SQLITE_OK, m0)))
        = Some (Value (r, m1))"
      and m': "m' = m1 \<or> (\<exists>l. m' = return_list l m1) \<or> (\<exists>u. m' = snd (return_values u m1))"
    using assms False unfolding executeReturnCommand_def Let_def m0_def [symmetric]
    by (auto elim!: cmd_frame_and_then split: if_splits option.splits) (metis snd_conv)+
  have "db m0 = db m" by (simp add: m0_def save_registers_def)
  moreover have "db_reaches api m0 m1" using e execute_values_db by (auto split: if_splits)
  moreover have "db m' = db m1"
    using m' by (auto simp: return_list_def return_values_def Let_def case_prod_beta next_result_db)
  ultimately show ?thesis by simp
qed

lemma executeAssertCommand_db:
  assumes "executeAssertCommand api pos m = Some (Value (rc, m'))"
  shows "db_reaches api m m'"
proof -
  obtain x where x: "execute_condition api pos m = Some (Value x)"
      and rest: "(\<lambda>(rc, result, m).
       if rc \<noteq> SQLITE_OK \<or> result then Some (Value (rc, m))
       else
         let c = command_at pos m;
             message = (case cmd_sql2 c of None \<Rightarrow> [] | Some z \<Rightarrow> take (cmd_nsql2 c) z);
             (rc, m) = db_query_str api (''SELECT printf('' @ message @ '')'') m
         in Some (Value (if rc \<noteq> SQLITE_OK then rc else SQLITE_ERROR, m))) x = Some (Value (rc, m'))"
    using assms unfolding executeAssertCommand_def by (rule cmd_frame_and_then)
  obtain r b m1 where c: "execute_condition api pos m = Some (Value (r, b, m1))" and x: "x = (r, b, m1)"
    using x by (cases x) auto
  have "m' = m1 \<or> (\<exists>z. m' = snd (db_query_str api z m1))"
    using rest unfolding x by (auto simp: Let_def case_prod_beta simp del: append_Cons split: if_splits)
  then show ?thesis using execute_condition_db [OF c] db_query_str_db reaches_trans by metis
qed

lemma step_to_end_db: "step_to_end api d st = Some r \<Longrightarrow> reaches api d (fst (snd r))"
proof (erule step_to_end.raw_induct [rotated])
  fix f and api :: "('a, 'b) sql_api" and d st r
  assume IH: "\<And>api d st r. f api d st = Some r \<Longrightarrow> reaches api d (fst (snd r))"
    and r: "(let r = sql_step api d st in if fst r = SQLITE_ROW then f api (fst (snd r)) (snd (snd r)) else Some r) = Some r"
  show "reaches api d (fst (snd r))"
    using r IH [of api "fst (snd (sql_step api d st))" "snd (snd (sql_step api d st))" r]
    by (auto simp: Let_def split: if_splits intro: reaches_trans)
qed

lemma executeStatementCommand_db:
  assumes "executeStatementCommand api pos m = Some (Value (rc, m'))"
  shows "db_reaches api m m'"
  using assms unfolding executeStatementCommand_def
  by (auto simp: Let_def case_prod_beta split: if_splits option.splits prod.splits dest: step_to_end_db)

lemma set_rows_db: "set_rows api l used d st s = Some r \<Longrightarrow> reaches api d (fst (snd (fst r)))"
proof (erule set_rows.raw_induct [rotated])
  fix f and api :: "('a, 'b) sql_api" and l used d st s r
  let ?r = "sql_step api d st"
  let ?row = "set_row l used (map snd (sql_columns api (snd (snd ?r)))) s"
  assume IH: "\<And>api l used d st s r. f api l used d st s = Some r \<Longrightarrow> reaches api d (fst (snd (fst r)))"
    and "(let r = ?r in if fst r \<noteq> SQLITE_ROW then Some (r, s)
          else if set_row l used (map snd (sql_columns api (snd (snd r)))) s = None then Some ((SQLITE_ERROR, snd r), s)
          else f api l used (fst (snd r)) (snd (snd r)) (the (set_row l used (map snd (sql_columns api (snd (snd r)))) s))) = Some r"
  moreover have d: "reaches api d (fst (snd ?r))" by (rule reaches_fst) (rule reaches.here)
  ultimately show "reaches api d (fst (snd (fst r)))"
    using reaches_trans [OF IH [of api l used "fst (snd ?r)" "snd (snd ?r)" "the ?row" r] d]
    by (auto simp: Let_def split: if_splits)
qed

lemma finish_set_db [simp]: "db (finish_set l used s m) = db m"
  by (simp add: finish_set_def Let_def)

lemma executeSetCommand_db:
  assumes "executeSetCommand api pos m = Some (Value (rc, m'))"
  shows "db_reaches api m m'"
  using assms unfolding executeSetCommand_def
  by (auto simp: Let_def case_prod_beta split: if_splits option.splits prod.splits dest: set_rows_db)

lemma executeForeachCommand_db: "db_reaches api m (snd (executeForeachCommand api pos m))"
proof -
  have "db (snd (foreach_list_item pos items m)) = db m" for items by (simp add: foreach_list_item_def Let_def)
  moreover have "db_reaches api m (snd (foreach_row api pos m))"
    by (auto simp: foreach_row_def Let_def case_prod_beta split: option.split)
  ultimately show ?thesis by (simp add: executeForeachCommand_def Let_def split: option.split)
qed

text \<open>One command, and the whole procedure.\<close>

definition turn_machine :: "('db, 'stmt) turn \<Rightarrow> ('db, 'stmt) machine" where
  "turn_machine t = (case t of Next _ m \<Rightarrow> m | Finished _ m \<Rightarrow> m | Failed _ m \<Rightarrow> m)"

lemma turn_machine_simps [simp]:
  "turn_machine (Next p m) = m" "turn_machine (Finished rc m) = m" "turn_machine (Failed rc m) = m"
  by (simp_all add: turn_machine_def)

lemma condition_turn_db:
  assumes "and_then (execute_condition api pos m) (\<lambda>(rc, result, m). Some (Value (f rc result m))) = Some (Value t)"
    and "\<And>rc b m. db (turn_machine (f rc b m)) = db m"
  shows "reaches api (db m) (db (turn_machine t))"
  using assms by (elim cmd_frame_and_then) (auto dest: execute_condition_db)

lemma command_turn_db:
  assumes "and_then r f = Some (Value t)" and "\<And>rc m'. r = Some (Value (rc, m')) \<Longrightarrow> db_reaches api m m'"
    and "\<And>rc m' t. f (rc, m') = Some (Value t) \<Longrightarrow> db (turn_machine t) = db m'"
  shows "reaches api (db m) (db (turn_machine t))"
proof -
  from assms(1) obtain rc m' where "r = Some (Value (rc, m'))" "f (rc, m') = Some (Value t)" by (elim cmd_frame_and_then) auto
  then show ?thesis using assms(2,3) by metis
qed

lemma execute_command_db:
  assumes "execute_command api pos m = Some (Value t)"
  shows "reaches api (db m) (db (turn_machine t))"
proof -
  have after: "db (turn_machine (after_command p (rc, m'))) = db m'" for p rc and m' :: "('a, 'b) machine"
    by (simp add: after_command_def)
  have advance: "reaches api (db m) (db (turn_machine t))"
    if "and_then r (\<lambda>r. Some (Value (after_command (pos + 1) r))) = Some (Value t)"
      "\<And>rc m'. r = Some (Value (rc, m')) \<Longrightarrow> db_reaches api m m'" for r
    by (rule command_turn_db [OF that]) (auto simp: after)
  show ?thesis
  proof (cases "cmd_type (command_at pos m)")
    case CMD_TYPE_SET
    with assms show ?thesis by (intro advance [OF _ executeSetCommand_db]) (simp_all add: execute_command_def)
  next
    case CMD_TYPE_STATEMENT
    with assms show ?thesis by (intro advance [OF _ executeStatementCommand_db]) (simp_all add: execute_command_def)
  next
    case CMD_TYPE_ASSERT
    with assms show ?thesis by (intro advance [OF _ executeAssertCommand_db]) (simp_all add: execute_command_def)
  next
    case CMD_TYPE_RETURN
    with assms show ?thesis
      by (intro command_turn_db [OF _ executeReturnCommand_db, of "executeReturnCommand api pos m"])
        (auto simp: execute_command_def split: if_splits)
  next
    case CMD_TYPE_RAISE
    with assms db_query_str_db [of api m] show ?thesis
      by (auto simp: execute_command_def executeRaiseCommand_def Let_def case_prod_beta simp del: append_Cons split: if_splits)
  next
    case CMD_TYPE_IF
    with assms show ?thesis
      by (intro condition_turn_db) (auto simp: execute_command_def execute_if_def)
  next
    case CMD_TYPE_ELSEIF
    with assms show ?thesis
      by (auto simp: execute_command_def execute_elseif_def Let_def split: if_splits elim!: condition_turn_db)
  next
    case CMD_TYPE_FOREACH
    with assms executeForeachCommand_db [of api m pos] show ?thesis
      by (auto simp: execute_command_def execute_foreach_def case_prod_beta Let_def split: if_splits)
  qed (use assms in \<open>auto simp: execute_command_def execute_else_def execute_break_def Let_def split: if_splits\<close>)
qed

lemma run_commands_db:
  "run_commands api pos m = Some x \<Longrightarrow> (case x of Bad_Access \<Rightarrow> True | Value t \<Rightarrow> reaches api (db m) (db (turn_machine t)))"
proof (erule run_commands.raw_induct [rotated])
  fix f and api :: "('a, 'b) sql_api" and pos m x
  let ?Q = "\<lambda>m x. case x of Bad_Access \<Rightarrow> True | Value t \<Rightarrow> reaches api (db m) (db (turn_machine t))"
  assume IH: "\<And>api pos m x. f api pos m = Some x
      \<Longrightarrow> (case x of Bad_Access \<Rightarrow> True | Value t \<Rightarrow> reaches api (db m) (db (turn_machine t)))"
    and r: "(if pos < num_cmds (proc m)
       then Option.bind (execute_command api pos m) (\<lambda>t. case t of Value (Next pos m) \<Rightarrow> f api pos m | t \<Rightarrow> Some t)
       else Some (Value (Finished SQLITE_OK m))) = Some x"
  show "?Q m x"
  proof (cases "pos < num_cmds (proc m)")
    case True
    with r obtain t where e: "execute_command api pos m = Some t"
        and t: "(case t of Value (Next pos m) \<Rightarrow> f api pos m | t \<Rightarrow> Some t) = Some x"
      by (auto split: bind_splits)
    show ?thesis
    proof (cases "\<exists>p m'. t = Value (Next p m')")
      case True
      then obtain p m' where t': "t = Value (Next p m')" by blast
      have "reaches api (db m) (db m')" using execute_command_db [of api pos m "Next p m'"] e t' by simp
      moreover have "?Q m' x" using IH [of api p m' x] t t' by simp
      ultimately show ?thesis by (auto split: outcome.splits intro: reaches_trans)
    next
      case False
      then have "x = t" using t by (auto split: outcome.splits turn.splits)
      then show ?thesis using execute_command_db [of api pos m] e by (auto split: outcome.splits)
    qed
  next
    case False
    then show ?thesis using r by auto
  qed
qed

lemma run_commands_no_next:
  "run_commands api pos m = Some x \<Longrightarrow> x \<noteq> Value (Next p m')"
proof (erule run_commands.raw_induct [rotated])
  fix f and api :: "('a, 'b) sql_api" and pos m x
  assume IH: "\<And>api pos m x. f api pos m = Some x \<Longrightarrow> x \<noteq> Value (Next p m')"
    and r: "(if pos < num_cmds (proc m)
       then Option.bind (execute_command api pos m) (\<lambda>t. case t of Value (Next pos m) \<Rightarrow> f api pos m | t \<Rightarrow> Some t)
       else Some (Value (Finished SQLITE_OK m))) = Some x"
  then show "x \<noteq> Value (Next p m')"
    by (auto split: if_splits bind_splits outcome.splits turn.splits)
qed

subsection \<open>The savepoint\<close>

text \<open>
  What SQLite documents of a savepoint: once it is open, statements leave it open with the contents that the
  database had (the predicate), ROLLBACK TO brings them back and leaves it open, and RELEASE keeps the
  contents. Statements that end a transaction are no statements in this sense.
\<close>

definition savepoint_laws :: "('db, 'stmt) sql_api \<Rightarrow> string \<Rightarrow> ('db \<Rightarrow> 'c) \<Rightarrow> ('c \<Rightarrow> 'db \<Rightarrow> bool) \<Rightarrow> bool" where
  "savepoint_laws api name contents open_with \<longleftrightarrow>
     (\<forall>d d'. sql_exec api d (''SAVEPOINT '' @ name) = (SQLITE_OK, d') \<longrightarrow> open_with (contents d) d')
     \<and> (\<forall>c d d' st rc st'. open_with c d \<and> sql_step api d st = (rc, d', st') \<longrightarrow> open_with c d')
     \<and> (\<forall>c d. open_with c d \<longrightarrow>
          (\<exists>d'. sql_exec api d (''ROLLBACK TO '' @ name) = (SQLITE_OK, d') \<and> open_with c d' \<and> contents d' = c))
     \<and> (\<forall>c d. open_with c d \<longrightarrow> (\<exists>d'. sql_exec api d (''RELEASE '' @ name) = (SQLITE_OK, d') \<and> contents d' = contents d))"

lemma savepoint_stays:
  assumes "savepoint_laws api name contents open_with" and "open_with c d" and "reaches api d d'"
  shows "open_with c d'"
  using assms(3,2)
proof induction
  case (step d d' st rc d'' st')
  have "\<forall>c d d' st rc st'. open_with c d \<and> sql_step api d st = (rc, d', st') \<longrightarrow> open_with c d'"
    using assms(1) by (simp add: savepoint_laws_def)
  then show ?case using step by blast
qed simp

lemma leave_call_open:
  assumes "savepoint_laws api name contents open_with" and "open_with c d"
  shows "\<exists>d'. leave_call api name failed rc d = Some (rc, d') \<and> contents d' = (if failed then c else contents d)"
proof -
  have law: "\<forall>c d. open_with c d \<longrightarrow>
          (\<exists>d'. sql_exec api d (''ROLLBACK TO '' @ name) = (SQLITE_OK, d') \<and> open_with c d' \<and> contents d' = c)"
      "\<forall>c d. open_with c d \<longrightarrow> (\<exists>d'. sql_exec api d (''RELEASE '' @ name) = (SQLITE_OK, d') \<and> contents d' = contents d)"
    using assms(1) by (simp_all add: savepoint_laws_def)
  obtain d1 where d1: "sql_exec api d (''ROLLBACK TO '' @ name) = (SQLITE_OK, d1)" "open_with c d1" "contents d1 = c"
    using law(1) assms(2) by blast
  define e where "e = (if failed then d1 else d)"
  have "open_with c e" using d1(2) assms(2) by (simp add: e_def)
  then obtain d2 where d2: "sql_exec api e (''RELEASE '' @ name) = (SQLITE_OK, d2)" "contents d2 = contents e"
    using law(2) by blast
  have "leave_call api name failed rc d = Some (rc, d2)"
    by (subst leave_call.simps) (use d1(1) d2(1) in \<open>auto simp: Let_def e_def split: if_splits simp del: append_Cons\<close>)
  then show ?thesis using d1(3) d2(2) by (simp add: e_def)
qed

text \<open>The state in which the commands of a call begin.\<close>

definition call_start :: "sql_value list \<Rightarrow> list_ptr \<Rightarrow> 'db \<Rightarrow> ('db, 'stmt) machine \<Rightarrow> ('db, 'stmt) machine" where
  "call_start aVar input d m = copyProcedureParameters aVar input (m\<lparr>db := d, result_row := None, next_result := False\<rparr>)"

lemma call_start_db [simp]: "db (call_start aVar input d m) = d"
  by (simp add: call_start_def copyProcedureParameters_def Let_def)

lemma executeStoredProcedure_run:
  assumes "sql_exec api (db m) (''SAVEPOINT '' @ name) = (SQLITE_OK, d)"
    and "run_commands api 0 (call_start aVar input d m) = Some (Value t)"
  shows "executeStoredProcedure api name aVar input m =
    (case t of
       Finished rc m1 \<Rightarrow> (case leave_call api name False rc (db m1) of None \<Rightarrow> None | Some (rc, d) \<Rightarrow> Some (Value (rc, m1\<lparr>db := d\<rparr>)))
     | Failed rc m1 \<Rightarrow> (case leave_call api name True rc (db m1) of None \<Rightarrow> None | Some (rc, d) \<Rightarrow> Some (Value (rc, m1\<lparr>db := d\<rparr>)))
     | Next p m1 \<Rightarrow> Some Bad_Access)"
  using assms by (simp add: executeStoredProcedure_def call_start_def Let_def del: append_Cons split: turn.split)


text \<open>An example: the second statement fails, and the first is undone.\<close>

definition failing_call :: "(example_db, example_stmt) machine" where
  "failing_call = example_machine [example_command CMD_TYPE_STATEMENT ''INSERT'', example_command CMD_TYPE_STATEMENT ''FAIL'']"

lemma example_laws: "savepoint_laws (example_api False) ''x'' fst (\<lambda>c d. snd d = Some c)"
  unfolding savepoint_laws_def
  by (auto simp: example_api_def example_exec_def example_step_def Let_def split: if_splits)

lemma map_outcome_value: "map_outcome f x = Value y \<longleftrightarrow> (\<exists>z. x = Value z \<and> f z = y)"
  by (cases x) auto

lemma failing_call_runs:
  "map_option (map_outcome (\<lambda>t. case t of Failed rc m \<Rightarrow> Some (rc, db m) | _ \<Rightarrow> None))
     (run_commands (example_api False) 0 (call_start [] 0 ([], Some []) failing_call))
   = Some (Value (Some (SQLITE_ERROR, ([''INSERT''], Some []))))"
  by code_simp


text \<open>Where the savepoint cannot be released: the two labels of the code jump to each other.\<close>

definition release_fails :: "('db, 'stmt) sql_api \<Rightarrow> string \<Rightarrow> ('db \<Rightarrow> bool) \<Rightarrow> bool" where
  "release_fails api name lost \<longleftrightarrow>
     (\<forall>d. lost d \<longrightarrow> fst (sql_exec api d (''RELEASE '' @ name)) \<noteq> SQLITE_OK
        \<and> lost (snd (sql_exec api d (''RELEASE '' @ name))) \<and> lost (snd (sql_exec api d (''ROLLBACK TO '' @ name))))"

lemma leave_call_lost_Some: "leave_call api name failed rc d = Some r \<Longrightarrow> release_fails api name lost \<longrightarrow> \<not> lost d"
proof (erule leave_call.raw_induct [rotated], rule impI)
  fix f :: "('a, 'b) sql_api \<Rightarrow> string \<Rightarrow> bool \<Rightarrow> rc \<Rightarrow> 'a \<Rightarrow> (rc \<times> 'a) option" and api :: "('a, 'b) sql_api" and name failed rc d r
  assume IH: "\<And>(api :: ('a, 'b) sql_api) name failed rc d r. f api name failed rc d = Some r \<Longrightarrow> release_fails api name lost \<longrightarrow> \<not> lost d"
    and law: "release_fails api name lost"
  let ?d1 = "if failed then snd (sql_exec api d (''ROLLBACK TO '' @ name)) else d"
  let ?release = "sql_exec api ?d1 (''RELEASE '' @ name)"
  assume "(let back = sql_exec api d (''ROLLBACK TO '' @ name);
          d1 = (if failed then snd back else d);
          rc1 = (if failed \<and> rc = SQLITE_OK then fst back else rc);
          release = sql_exec api d1 (''RELEASE '' @ name)
      in if fst release \<noteq> SQLITE_OK
         then f api name True (if rc1 = SQLITE_OK then fst release else rc1) (snd release)
         else Some (rc1, snd release)) = Some r"
  then have "fst ?release \<noteq> SQLITE_OK \<Longrightarrow> \<exists>rc. f api name True rc (snd ?release) = Some r"
    unfolding Let_def by (metis (no_types, lifting))
  then have again: "fst ?release \<noteq> SQLITE_OK \<Longrightarrow> \<not> lost (snd ?release)" using IH law by blast
  show "\<not> lost d"
  proof
    assume "lost d"
    then have "lost ?d1" using law by (simp add: release_fails_def)
    then have "fst ?release \<noteq> SQLITE_OK \<and> lost (snd ?release)" using law unfolding release_fails_def by blast
    then show False using again by blast
  qed
qed

lemma leave_call_lost: "release_fails api name lost \<Longrightarrow> lost d \<Longrightarrow> leave_call api name failed rc d = None"
  using leave_call_lost_Some [of api name failed rc d] by (cases "leave_call api name failed rc d") auto

text \<open>C14: a call whose savepoint is gone never returns. The commands may end it: \<^verbatim>\<open>refused_statement\<close> lets a
  \<^verbatim>\<open>commit\<close> in lower case pass.\<close>

theorem lost_savepoint_hangs:
  assumes "release_fails api name lost"
    and "sql_exec api (db m) (''SAVEPOINT '' @ name) = (SQLITE_OK, d)"
    and "run_commands api 0 (call_start aVar input d m) = Some (Value t)"
    and "lost (db (turn_machine t))"
  shows "executeStoredProcedure api name aVar input m = None"
proof -
  have none: "leave_call api name failed rc (db (turn_machine t)) = None" for failed rc
    by (rule leave_call_lost [OF assms(1,4)])
  show ?thesis
    using executeStoredProcedure_run [OF assms(2,3)] none run_commands_no_next [OF assms(3)] by (cases t) auto
qed

definition committing_call :: "(example_db, example_stmt) machine" where
  "committing_call = example_machine [example_command CMD_TYPE_STATEMENT ''commit'']"

lemma committing_call_runs:
  "map_option (map_outcome (\<lambda>t. snd (db (turn_machine t))))
     (run_commands (example_api True) 0 (call_start [] 0 ([], Some []) committing_call)) = Some (Value None)"
  by code_simp

theorem lost_savepoint_hangs_witness:
  "executeStoredProcedure (example_api True) ''x'' [] 0 committing_call = None"
proof -
  have sp: "sql_exec (example_api True) (db committing_call) (''SAVEPOINT '' @ ''x'') = (SQLITE_OK, ([], Some []))"
    by (simp add: committing_call_def example_machine_def example_api_def example_exec_def)
  obtain t where r: "run_commands (example_api True) 0 (call_start [] 0 ([], Some []) committing_call) = Some (Value t)"
      "snd (db (turn_machine t)) = None"
    using committing_call_runs by (auto simp: map_outcome_value)
  have "release_fails (example_api True) ''x'' (\<lambda>d. snd d = None)"
    by (simp add: release_fails_def example_api_def example_exec_def)
  from lost_savepoint_hangs [OF this sp r(1)] r(2) show ?thesis by simp
qed

end
