(* ===== verification/Proc_Facts.thy ===== *)
theory Proc_Facts
  imports Proc_Links Proc_Savepoint
begin

section \<open>Stored procedures: theorems about their execution\<close>

text \<open>
  The parser and the interpreter together: what the parser accepts runs as it is nested, a FOREACH over a variable
  without a list never ends, and the rows of a returned list.
\<close>

subsection \<open>Nested blocks\<close>

text \<open>C12: the parser links nested blocks correctly. When the types of the commands that it has read are those of
  properly nested IF and LOOP blocks, every IF, ELSEIF and ELSE points to the next branch or to END IF, ELSEIF and
  ELSE point to their IF, LOOP and END LOOP point to each other, and BREAK and CONTINUE to a loop that they are in.\<close>

theorem blocks_linked:
  assumes "parseStoredProcedure sql s = Some (Inr rest, s')"
    and "num_cmds (procedure s) = 0" and "if_stack s = []" and "loop_stack s = []"
    and "map cmd_type (take (num_cmds (procedure s')) (cmds (procedure s'))) = block_shape P" and "proper_block P"
  shows "\<exists>Q. block_shape Q = block_shape P \<and> block_code (\<lambda>q. cmds (procedure s') ! q) 0 [] Q"
proof -
  obtain sql1 s1 rest1 where b: "parse_procedure_body sql1 s1 = Some (Inr rest1, s')" "if_stack s1 = []" "loop_stack s1 = []"
      "num_cmds (procedure s1) = 0"
    using procedure_body [OF assms(1)] assms(2-4) by auto
  show ?thesis by (rule parsed_body_code [OF b(1,4,2,3) assms(5,6)])
qed

definition loop_text :: string where
  "loop_text = ''PROCEDURE p() BEGIN LOOP BREAK; END LOOP; END''"

lemma loop_text_parses:
  "map_option (\<lambda>(r, s). (r, map cmd_type (take (num_cmds (procedure s)) (cmds (procedure s))))) (parseStoredProcedure loop_text fresh_parser)
   = Some (Inr [], [CMD_TYPE_LOOP, CMD_TYPE_BREAK, CMD_TYPE_ENDLOOP])"
  by code_simp

theorem blocks_linked_witness:
  "\<exists>s Q. parseStoredProcedure loop_text fresh_parser = Some (Inr [], s)
     \<and> block_shape Q = [CMD_TYPE_LOOP, CMD_TYPE_BREAK, CMD_TYPE_ENDLOOP] \<and> block_code (\<lambda>q. cmds (procedure s) ! q) 0 [] Q"
proof -
  obtain s where s: "parseStoredProcedure loop_text fresh_parser = Some (Inr [], s)"
      "map cmd_type (take (num_cmds (procedure s)) (cmds (procedure s))) = [CMD_TYPE_LOOP, CMD_TYPE_BREAK, CMD_TYPE_ENDLOOP]"
    using loop_text_parses by auto
  let ?P = "Seq (Loop (Seq (Break 0) Empty)) Empty"
  have "num_cmds (procedure fresh_parser) = 0" "if_stack fresh_parser = []" "loop_stack fresh_parser = []"
    by (simp_all add: fresh_parser_def zero_procedure_def)
  from blocks_linked [OF s(1) this, of ?P] s show ?thesis by auto
qed

text \<open>C11: the interpreter with its positions and jumps runs linked commands as the nested blocks say. What the
  reference semantics derives for a procedure is what the loop of \<^verbatim>\<open>executeStoredProcedure\<close> comes to: the end of the
  procedure, or the RETURN, RAISE, error or crash in one of its commands.\<close>

theorem structured_execution:
  assumes "block_code (\<lambda>q. cmds (proc m) ! q) 0 [] b" and "num_cmds (proc m) = block_len b"
    and "block_len b \<le> length (cmds (proc m))" and "runs_block api 0 b m r"
  shows "(\<exists>m'. r = Normal m' \<and> run_commands api 0 m = Some (Value (Finished SQLITE_OK m')))
    \<or> (\<exists>t. r = Stopped t \<and> run_commands api 0 m = Some t)"
proof -
  have "linked (\<lambda>q. cmds (proc m) ! q) (block_len b) m" using assms(2,3) by (simp add: linked_def command_at_def)
  from structured_run [OF assms(1) this assms(4)] show ?thesis .
qed

definition loop_call :: "(example_db, example_stmt) machine" where
  "loop_call = example_machine
     [zero_command\<lparr>cmd_type := CMD_TYPE_LOOP, related_cmd := 3\<rparr>, example_command CMD_TYPE_STATEMENT ''INSERT'',
      zero_command\<lparr>cmd_type := CMD_TYPE_BREAK\<rparr>, zero_command\<lparr>cmd_type := CMD_TYPE_ENDLOOP\<rparr>]"

definition loop_block_text :: block where
  "loop_block_text = Seq (Loop (Seq (Simple CMD_TYPE_STATEMENT) (Seq (Break 0) Empty))) Empty"

lemma loop_call_statement:
  "map_option (map_outcome (\<lambda>t. case t of Next p m \<Rightarrow> Some (p, db m) | _ \<Rightarrow> None)) (execute_command (example_api False) 1 loop_call)
   = Some (Value (Some (2, ([''INSERT''], None))))"
  by code_simp

theorem structured_execution_witness:
  "\<exists>m'. run_commands (example_api False) 0 loop_call = Some (Value (Finished SQLITE_OK m')) \<and> db m' = ([''INSERT''], None)"
proof -
  obtain t where t: "execute_command (example_api False) 1 loop_call = Some (Value t)"
      "(case t of Next p m \<Rightarrow> Some (p, db m) | _ \<Rightarrow> None) = Some (2, ([''INSERT''], None))"
    using loop_call_statement by (auto simp: map_outcome_value)
  then obtain m1 where m1: "t = Next 2 m1" "db m1 = ([''INSERT''], None)" by (cases t) auto
  have "runs_stat (example_api False) 1 (Simple CMD_TYPE_STATEMENT) loop_call (Normal m1)"
    using runs_stat_runs_block_runs_branches.simple [OF t(1), of CMD_TYPE_STATEMENT] m1(1) by (simp add: simple_result_def)
  moreover have "runs_block (example_api False) 2 (Seq (Break 0) Empty) m1 (Broken 0 m1)"
    by (rule runs_stat_runs_block_runs_branches.seq_out [OF runs_stat_runs_block_runs_branches.break]) simp
  ultimately have "runs_block (example_api False) (0 + 1) (Seq (Simple CMD_TYPE_STATEMENT) (Seq (Break 0) Empty)) loop_call (Broken 0 m1)"
    using runs_stat_runs_block_runs_branches.seq [of "example_api False" 1 "Simple CMD_TYPE_STATEMENT" loop_call m1]
    by (simp add: numeral_2_eq_2)
  then have "runs_stat (example_api False) 0 (Loop (Seq (Simple CMD_TYPE_STATEMENT) (Seq (Break 0) Empty))) loop_call (Normal m1)"
    by (rule runs_stat_runs_block_runs_branches.loop_end) simp
  then have r: "runs_block (example_api False) 0 loop_block_text loop_call (Normal m1)"
    unfolding loop_block_text_def by (rule runs_stat_runs_block_runs_branches.seq) (rule runs_stat_runs_block_runs_branches.empty)
  have c: "block_code (\<lambda>q. cmds (proc loop_call) ! q) 0 [] loop_block_text" "num_cmds (proc loop_call) = block_len loop_block_text"
      "block_len loop_block_text \<le> length (cmds (proc loop_call))"
    by (simp_all add: loop_block_text_def loop_call_def example_machine_def example_command_def simple_types_def Let_def
        zero_command_def numeral_3_eq_3)
  from structured_execution [OF c r] m1(2) show ?thesis by auto
qed

end
