(* ===== verification/Proc_Results.thy ===== *)
theory Proc_Results
  imports Proc_Examples
begin

section \<open>Stored procedures: the rows of a CALL statement\<close>

text \<open>
  A procedure that returns a list has its items read one by one through \<^verbatim>\<open>OP_NextResult\<close>. The theorem says which
  rows the caller gets and what is left of the list.
\<close>

text \<open>The row of an item, and the item after it was read: a value that is no list is moved out.\<close>

definition item_row :: "heap \<Rightarrow> sql_value \<Rightarrow> sql_value list" where
  "item_row h v = (case get_list_from_value v of None \<Rightarrow> [v] | Some p \<Rightarrow> h ! p)"

definition item_left :: "sql_value \<Rightarrow> sql_value" where
  "item_left v = (if is_list v then v else Null)"

text \<open>The state between two rows: so many items were read.\<close>

definition reading :: "list_ptr \<Rightarrow> sql_value list \<Rightarrow> heap \<Rightarrow> nat \<Rightarrow> ('db, 'stmt) machine \<Rightarrow> bool" where
  "reading list items h n m \<longleftrightarrow>
     result_list (proc m) = Some list \<and> current_row (proc m) = int n - 1 \<and> n \<le> length items \<and> next_result m
     \<and> heap m = h[list := map item_left (take n items) @ drop n items] \<and> list < length h
     \<and> (\<exists>mem. aMem m = Some mem \<and> 2 \<le> length mem
          \<and> (0 < n \<longrightarrow> (\<exists>k. result_row m = Some k \<and> take k (drop 1 mem) = item_row h (items ! (n - 1)))))"

lemma next_result_done:
  assumes "reading list items h (length items) m"
  shows "fst (sqlite3VdbeNextResult m) = SQLITE_DONE" "heap (snd (sqlite3VdbeNextResult m)) = heap m"
    "result_row (snd (sqlite3VdbeNextResult m)) = result_row m" "aMem (snd (sqlite3VdbeNextResult m)) = aMem m"
  using assms by (simp_all add: reading_def sqlite3VdbeNextResult_def Let_def)

lemma next_result_row:
  assumes "reading list items h n m" and "n < length items" and "\<forall>v\<in>set items. get_list_from_value v \<noteq> Some list"
  shows "fst (sqlite3VdbeNextResult m) = SQLITE_ROW \<and> reading list items h (n + 1) (snd (sqlite3VdbeNextResult m))"
proof -
  let ?v = "items ! n" and ?l = "map item_left (take n items) @ drop n items"
  obtain mem where mem: "aMem m = Some mem" "2 \<le> length mem" using assms(1) by (auto simp: reading_def)
  have r: "result_list (proc m) = Some list" "current_row (proc m) = int n - 1" "next_result m" "heap m = h[list := ?l]" "list < length h"
    using assms(1) by (simp_all add: reading_def)
  have at: "heap m ! list = ?l" "?l ! n = ?v" "length ?l = length items" using r(4,5) assms(2) by (simp_all add: nth_append)
  have next_l: "map item_left (take (Suc n) items) @ drop (Suc n) items = ?l[n := item_left ?v]"
    by (rule nth_equalityI) (use assms(2) in \<open>auto simp: nth_append nth_list_update min_def less_Suc_eq\<close>)
  show ?thesis
  proof (cases "get_list_from_value ?v")
    case None
    then have "\<not> is_list ?v" by (simp add: is_list_def)
    then show ?thesis
      using None assms(2) mem r at
      by (auto simp: reading_def sqlite3VdbeNextResult_def Let_def next_l item_left_def item_row_def take_Suc nth_append
          hd_drop_conv_nth neq_Nil_conv)
  next
    case (Some p)
    then have p: "is_list ?v" "p \<noteq> list" using assms(2,3) by (auto simp: is_list_def)
    have left: "?l[n := item_left ?v] = ?l" using p(1) at(2) by (simp add: item_left_def) (metis list_update_id)
    have "heap m ! p = h ! p" using p(2) r(4) by simp
    then show ?thesis
      using Some assms(2) mem r at left
      by (auto simp: reading_def sqlite3VdbeNextResult_def Let_def next_l item_row_def)
  qed
qed

lemma reading_current:
  assumes "reading list items h n m" and "0 < n"
  shows "current_result m = [item_row h (items ! (n - 1))]"
  using assms by (auto simp: reading_def current_result_def)

lemma reading_rows:
  assumes "reading list items h n m" and "length items < n + k" and "\<forall>v\<in>set items. get_list_from_value v \<noteq> Some list" and "0 < n"
  shows "fst (result_rows k m) = map (item_row h) (drop (n - 1) items)
    \<and> heap (snd (result_rows k m)) = h[list := map item_left items]"
  using assms
proof (induction k arbitrary: n m)
  case 0
  then have False by (simp add: reading_def)
  then show ?case ..
next
  case (Suc k)
  have n: "n \<le> length items" "next_result m" "0 < n" using Suc.prems by (simp_all add: reading_def)
  have d: "drop (n - 1) items = items ! (n - 1) # drop n items" using n(1,3) Cons_nth_drop_Suc [of "n - 1" items] by simp
  note cur = reading_current [OF Suc.prems(1,4)]
  show ?case
  proof (cases "n = length items")
    case True
    have r: "reading list items h (length items) m" using Suc.prems(1) True by simp
    have "heap m = h[list := map item_left items]" using r by (simp add: reading_def)
    then show ?thesis using next_result_done [OF r] cur d n(2) True by (simp add: Let_def case_prod_beta)
  next
    case False
    then have lt: "n < length items" using n(1) by simp
    note r = next_result_row [OF Suc.prems(1) lt Suc.prems(3)]
    have "length items < n + 1 + k" "0 < n + 1" using Suc.prems(2) by simp_all
    from Suc.IH [OF conjunct2 [OF r] this(1) Suc.prems(3) this(2)] show ?thesis
      using r cur d n(2) by (simp add: Let_def case_prod_beta)
  qed
qed

lemma reading_start:
  assumes "heap m ! list = items" and "list < length (heap m)"
  shows "reading list items (heap m) 0
    (m\<lparr>aMem := Some (replicate (foldl (\<lambda>n v. max n (row_width (heap m) v)) 1 items + 1) Null), next_result := True,
       proc := (proc m)\<lparr>result_list := Some list, current_row := -1\<rparr>\<rparr>)"
proof -
  have "k \<le> foldl (\<lambda>n v. max n (f v)) k items" for k :: nat and f :: "sql_value \<Rightarrow> nat"
    by (induction items arbitrary: k) (simp, metis foldl_Cons max.bounded_iff)
  from this [of 1 "row_width (heap m)"] assms show ?thesis by (auto simp: reading_def)
qed

text \<open>C16: a procedure that returns a list returns its items as rows, each once and in their order: the values of an item
  that is a list itself, and one column for any other item. What is left behind is the same list with NULL in the
  place of the items that are no lists, so a second execution of the statement returns other rows.\<close>

theorem returned_list_rows:
  assumes "list < length (heap m)" and "heap m ! list \<noteq> []"
    and "\<forall>v\<in>set (heap m ! list). get_list_from_value v \<noteq> Some list"
  shows "fst (result_rows (length (heap m ! list) + 1) (return_list list m)) = map (item_row (heap m)) (heap m ! list)
    \<and> heap (snd (result_rows (length (heap m ! list) + 1) (return_list list m)))
        = (heap m)[list := map item_left (heap m ! list)]"
proof -
  let ?items = "heap m ! list"
  have "0 < length ?items" using assms(2) by simp
  from next_result_row [OF reading_start [OF refl assms(1)] this assms(3)]
  have r: "reading list ?items (heap m) 1 (return_list list m)" by (simp add: return_list_def Let_def)
  show ?thesis using reading_rows [OF r _ assms(3), of "length ?items + 1"] by simp
qed

definition returning_machine :: "(example_db, example_stmt) machine" where
  "returning_machine = (example_machine [])\<lparr>heap := [[Integer 1, Text ''a''], [List 0, Integer 7]]\<rparr>"

theorem returned_list_rows_witness:
  "fst (result_rows 3 (return_list 1 returning_machine)) = [[Integer 1, Text ''a''], [Integer 7]]
   \<and> heap (snd (result_rows 3 (return_list 1 returning_machine))) ! 1 = [List 0, Null]"
proof -
  have h: "heap returning_machine = [[Integer 1, Text ''a''], [List 0, Integer 7]]" by (simp add: returning_machine_def)
  have "1 < length (heap returning_machine)" "heap returning_machine ! 1 \<noteq> []"
      "\<forall>v\<in>set (heap returning_machine ! 1). get_list_from_value v \<noteq> Some 1"
    by (simp_all add: h get_list_from_value_def)
  from returned_list_rows [OF this] show ?thesis
    by (simp add: h item_row_def item_left_def get_list_from_value_def is_list_def numeral_3_eq_3)
qed

end
