(* ===== verification/Proc_Foreach.thy ===== *)
theory Proc_Foreach
  imports Proc_Examples
begin

section \<open>Stored procedures: FOREACH over a variable without a list\<close>

text \<open>
  \<^verbatim>\<open>executeForeachCommand\<close> returns \<^verbatim>\<open>SQLITE_OK\<close> both for the next item of a list and for an input variable that
  holds no list, and the loop of the interpreter cannot tell the two apart.
\<close>

definition stuck_foreach :: "nat \<Rightarrow> nat \<Rightarrow> ('db, 'stmt) machine \<Rightarrow> bool" where
  "stuck_foreach pos var m \<longleftrightarrow>
     cmd_type (command_at pos m) = CMD_TYPE_FOREACH \<and> input_var (command_at pos m) = Some var
     \<and> get_list_from_value (var_at (proc_vars (proc m)) var) = None
     \<and> pos + 1 < num_cmds (proc m) \<and> cmd_type (command_at (pos + 1) m) = CMD_TYPE_ENDLOOP \<and> related_cmd (command_at (pos + 1) m) = pos"

lemma stuck_turns:
  assumes "stuck_foreach pos var m"
  shows "execute_command api pos m = Some (Value (Next (pos + 1) m))" "execute_command api (pos + 1) m = Some (Value (Next pos m))"
  using assms by (simp_all add: stuck_foreach_def execute_command_def execute_foreach_def executeForeachCommand_def)

lemma stuck_Some: "run_commands api p m = Some x \<Longrightarrow> p = pos \<or> p = pos + 1 \<Longrightarrow> \<not> stuck_foreach pos var m"
proof (erule run_commands.raw_induct [rotated, THEN mp], rule impI)
  fix f :: "('a, 'b) sql_api \<Rightarrow> nat \<Rightarrow> ('a, 'b) machine \<Rightarrow> ('a, 'b) turn outcome option" and api p m x
  assume IH: "\<And>(api :: ('a, 'b) sql_api) p m x. f api p m = Some x \<Longrightarrow> p = pos \<or> p = pos + 1 \<longrightarrow> \<not> stuck_foreach pos var m"
    and r: "(if p < num_cmds (proc m)
       then Option.bind (execute_command api p m) (\<lambda>t. case t of Value (Next pos m) \<Rightarrow> f api pos m | t \<Rightarrow> Some t)
       else Some (Value (Finished SQLITE_OK m))) = Some x" and p: "p = pos \<or> p = pos + 1"
  show "\<not> stuck_foreach pos var m"
  proof
    assume s: "stuck_foreach pos var m"
    then have "p < num_cmds (proc m)" using p by (auto simp: stuck_foreach_def)
    then have "f api (if p = pos then pos + 1 else pos) m = Some x" using r p stuck_turns [OF s, of api] by auto
    then show False using IH [of api "if p = pos then pos + 1 else pos" m x] s by (simp split: if_splits)
  qed
qed

lemma stuck_hangs: "stuck_foreach pos var m \<Longrightarrow> run_commands api pos m = None"
  using stuck_Some [of api pos m] by (cases "run_commands api pos m") auto


definition foreach_text :: string where
  "foreach_text = ''PROCEDURE p() BEGIN SET @l=(SELECT none); FOREACH @x IN @l DO END LOOP; END''"

definition foreach_call :: "example_stmt parser \<Rightarrow> (example_db, example_stmt) machine" where
  "foreach_call s = start_call ([], None) s"

definition foreach_as_parsed :: "(example_db, example_stmt) machine \<Rightarrow> bool" where
  "foreach_as_parsed m \<longleftrightarrow>
     num_cmds (proc m) = 3 \<and> 3 \<le> length (cmds (proc m))
     \<and> cmd_type (command_at 0 m) = CMD_TYPE_SET \<and> store_as_list (command_at 0 m) \<and> cmd_vars (command_at 0 m) = [0]
     \<and> input_list (command_at 0 m) = None \<and> 0 < length (proc_vars (proc m))
     \<and> cmd_type (command_at 1 m) = CMD_TYPE_FOREACH \<and> input_var (command_at 1 m) = Some 0
     \<and> cmd_type (command_at 2 m) = CMD_TYPE_ENDLOOP \<and> related_cmd (command_at 2 m) = 1
     \<and> set_statement (example_api False) (db m) (command_at 0 m) = (SQLITE_OK, Some (''SELECT none'', False))
     \<and> sql_step (example_api False) (db m) (bindLocalVariables (example_api False) (proc_vars (proc m)) (''SELECT none'', False))
         = (SQLITE_DONE, ([], None), (''SELECT none'', True))"

lemma foreach_text_parses:
  "map_option (\<lambda>(r, s). (r, foreach_as_parsed (foreach_call s))) (parseStoredProcedure foreach_text fresh_parser) = Some (Inr [], True)"
  by code_simp


end
