(* ===== verification/Proc_Progress.thy ===== *)
theory Proc_Progress
  imports Proc_Parser "HOL-Library.Sublist" "HOL-Library.Code_Target_Nat"
begin

section \<open>Stored procedures: the parser gets ahead\<close>

text \<open>
  Every command that is parsed without an error leaves a shorter end of the text. The test in \<^const>\<open>parse_procedure_body\<close> that makes
  its recursion well-founded is therefore always true, and the loop of the code ends for every text.
\<close>

named_theorems text_rests \<open>functions that leave an end of the text\<close>

lemma suffix_skip [text_rests]: "suffix z sql \<Longrightarrow> suffix (skip_spaces z) sql"
  unfolding skip_spaces_def using suffix_dropWhile suffix_order.trans by blast

lemma suffix_drops [text_rests]: "suffix z sql \<Longrightarrow> suffix (drop n z) sql"
  using suffix_drop suffix_order.trans by blast

lemma suffix_digits [text_rests]: "suffix z sql \<Longrightarrow> suffix (dropWhile P z) sql"
  using suffix_dropWhile suffix_order.trans by blast

lemma suffix_self [text_rests]: "suffix (sql :: string) sql"
  by simp

lemma suffix_variables_loop:
  "fst (parse_variables_loop et sql used vs) = Inr (u, rest) \<Longrightarrow> suffix rest sql"
proof (induction et sql used vs arbitrary: u rest rule: parse_variables_loop.induct)
  case (1 et sql used vs)
  have IH: "suffix r (drop m2 r2)"
    if "sql \<noteq> []" "(n, TK_VARIABLE) = sqlite3GetToken (skip_spaces sql)" "addVariable vs (take n (skip_spaces sql)) = Some (i, vs')"
      "i \<notin> set used" "(m1, t1) = sqlite3GetToken (skip_spaces (drop n (skip_spaces sql)))"
      "r2 = (if t1 = TK_ID \<and> et then drop m1 (skip_spaces (drop n (skip_spaces sql))) else skip_spaces (drop n (skip_spaces sql)))"
      "(m2, TK_COMMA) = sqlite3GetToken r2" "fst (parse_variables_loop et (drop m2 r2) (used @ [i]) vs') = Inr (u, r)"
    for n i vs' m1 t1 r2 m2 u r
    using "1.IH" [OF that(1) refl refl that(2) _ that(3) refl that(4) refl refl that(5,6) refl that(7) refl that(8)] by simp
  have r: "suffix (drop m2 r2) sql"
    if "r2 = (if b then drop m1 (skip_spaces (drop n (skip_spaces sql))) else skip_spaces (drop n (skip_spaces sql)))" for b m1 m2 n r2
    using that by (auto intro!: text_rests)
  show ?case
    using "1.prems"
    by (subst (asm) parse_variables_loop.simps)
      (auto simp: Let_def split: if_splits option.splits prod.splits intro!: text_rests
        dest!: IH intro: suffix_order.trans [OF _ r])
qed

lemma suffix_variables: "fst (parse_variables_list s p sql) = Inr (used, rest) \<Longrightarrow> suffix rest sql"
  by (auto simp: parse_variables_list_def Let_def case_prod_beta intro: suffix_variables_loop)

lemma suffix_value: "sqlite3ValueFromToken z n t = Some (v, rest) \<Longrightarrow> suffix rest z"
  by (auto simp: sqlite3ValueFromToken_def Let_def case_prod_beta intro!: text_rests split: if_splits)

lemma suffix_values: "fst (parse_values vars list_close sql vals h) = Inr (vs, rest) \<Longrightarrow> suffix rest sql"
proof (induction vars list_close sql vals h arbitrary: vs rest rule: parse_values.induct)
  case (1 vars list_close sql vals h)
  obtain n t where nt: "sqlite3GetToken sql = (n, t)" by force
  let ?inner = "parse_values vars CHR '']'' (skip_spaces (drop 1 sql)) [] h"
  let ?unknown = "case vars of None \<Rightarrow> False | Some vs \<Rightarrow> findVariable vs (take n sql) = None"
  define item where "item = (if t = TK_VARIABLE then
                (if ?unknown then (None, h) else (Some (Var_Name (take n sql), drop n sql), h))
              else if at sql 0 = CHR ''['' then
                (if sql = [] then (None, h)
                 else case ?inner of
                   (Inl rc, heap) \<Rightarrow> (None, heap)
                 | (Inr (vs, rest), heap) \<Rightarrow> (Some (List (length heap), rest), heap @ [vs]))
              else (sqlite3ValueFromToken sql n t, h))"
  let ?stop = "t \<noteq> TK_VARIABLE \<and> at sql 0 \<noteq> CHR ''['' \<and> n = 1 \<and> at sql 0 = list_close"
  show ?case
  proof (cases ?stop)
    case True
    then show ?thesis using "1.prems" nt by (subst (asm) parse_values.simps) (auto intro!: text_rests)
  next
    case False
    have sk: "suffix (skip_spaces (drop (Suc 0) sql)) sql" by (intro text_rests)
    have item: "suffix r sql" if "fst item = Some (v, r)" for v r
      using that "1.IH"(1) [OF nt [symmetric] refl refl False]
      by (auto simp: item_def split: if_splits prod.splits sum.splits
          intro: suffix_drop suffix_value suffix_order.trans [OF _ sk])
    have rest: "suffix r (skip_spaces (drop 1 (skip_spaces r0)))"
      if "item = (Some (v, r0), h')" "at (skip_spaces r0) 0 = CHR '',''" "length (drop 1 (skip_spaces r0)) < length sql"
        "fst (parse_values vars list_close (skip_spaces (drop 1 (skip_spaces r0))) (vals @ [v]) h') = Inr (vs, r)" for v r0 h' vs r
      by (rule "1.IH"(2) [OF nt [symmetric] refl refl False _ refl refl refl that(2,3,4)]) (use that(1) in \<open>simp add: item_def\<close>)
    have body: "parse_values vars list_close sql vals h =
       (case item of
          (None, heap) \<Rightarrow> (Inl SQLITE_ERROR, heap)
        | (Some (value, rest), heap) \<Rightarrow>
            (let rest = skip_spaces rest in
             if at rest 0 = CHR '','' then
               (if length (drop 1 rest) < length sql
                then parse_values vars list_close (skip_spaces (drop 1 rest)) (vals @ [value]) heap
                else (Inl SQLITE_ERROR, heap))
             else if at rest 0 = list_close then (Inr (vals @ [value], skip_spaces (drop 1 rest)), heap)
             else (Inl SQLITE_ERROR, heap)))"
      by (subst parse_values.simps) (simp only: nt prod.case Let_def if_not_P [OF False] item_def)
    show ?thesis
    proof (cases item)
      case (Pair x h')
      with "1.prems" body obtain v r0 where x: "x = Some (v, r0)" by (cases x) auto
      let ?r = "skip_spaces (drop 1 (skip_spaces r0))"
      have r0: "suffix ?r sql" using item [of v r0] Pair x by (intro text_rests) simp
      show ?thesis
        using "1.prems" body Pair x r0 rest [of v r0 h' vs rest] suffix_order.trans [OF _ r0]
        by (auto simp: Let_def split: if_splits)
    qed
  qed
qed

lemma suffix_list: "fst (parse_list vars f sql h) = Inr (l, rest) \<Longrightarrow> suffix rest sql"
proof -
  let ?z = "skip_spaces (drop 1 (skip_spaces sql))"
  have z: "suffix ?z sql" by (intro text_rests)
  assume "fst (parse_list vars f sql h) = Inr (l, rest)"
  then obtain c vs where "fst (parse_values vars c ?z [] h) = Inr (vs, rest)"
    by (auto simp: parse_list_def Let_def split: if_splits prod.splits sum.splits) (metis fst_conv)+
  then show ?thesis using suffix_values z suffix_order.trans by blast
qed

lemma suffix_delimited: "skip_delimited_sql_command sql d k = Some (n, rest) \<Longrightarrow> suffix rest sql"
  by (auto simp: skip_delimited_sql_command_def case_prod_beta intro!: text_rests split: if_splits)

lemma suffix_statement: "suffix (snd (skip_sql_command sql)) sql"
  by (simp add: skip_sql_command_def case_prod_beta suffix_drop)

text \<open>One command: the word is behind, and what is left is an end of the rest.\<close>

lemmas rests = suffix_list suffix_delimited suffix_variables

lemma suffix_chain:
  "suffix y (skip_spaces z) \<Longrightarrow> suffix y z" "suffix y (drop k z) \<Longrightarrow> suffix y z" "suffix x y \<Longrightarrow> suffix y z \<Longrightarrow> suffix x z"
  using suffix_skip [OF suffix_self, of z] suffix_drop [of k z] suffix_order.trans by blast+

lemma suffix_tl: "suffix rest (drop (Suc k) sql) \<Longrightarrow> sql \<noteq> [] \<Longrightarrow> length rest < length sql"
  using suffix_length_le [of rest "drop (Suc k) sql"] by (cases sql) auto

lemma rest_declare: "fst (parseDeclareStatement pos sql s) = Inr rest \<Longrightarrow> suffix rest (drop 7 sql)"
  by (auto simp: parseDeclareStatement_def Let_def case_prod_beta split: prod.splits sum.splits if_splits
      intro!: text_rests dest!: rests intro: suffix_chain)

lemma rest_set_input: "fst (parse_set_input pos k sql s) = Inr rest \<Longrightarrow> suffix rest sql"
  by (auto simp: parse_set_input_def Let_def case_prod_beta split: prod.splits sum.splits if_splits intro!: text_rests
      intro: rests suffix_chain(3) [OF suffix_statement])

lemma rest_set: "fst (parseSetStatement pos sql s) = Inr rest \<Longrightarrow> suffix rest (drop 4 sql)"
proof -
  have step: "suffix (skip_spaces r) z" if "suffix r (skip_spaces (drop (Suc 0) t))" "suffix t (skip_spaces z)" for r t z
    using that suffix_skip suffix_chain by meson
  assume "fst (parseSetStatement pos sql s) = Inr rest"
  then show ?thesis
    by (auto simp: parseSetStatement_def case_prod_beta split: sum.splits if_splits dest!: rests rest_set_input intro: step)
qed

lemma rest_return: "fst (parseReturnStatement pos sql s) = Inr rest \<Longrightarrow> suffix rest (drop 6 sql)"
proof -
  have step: "suffix (skip_spaces (drop k t)) z" "suffix (skip_spaces t) z" if "suffix t (skip_spaces z)" for t z k
    using that suffix_skip suffix_drops suffix_chain by meson+
  show "fst (parseReturnStatement pos sql s) = Inr rest \<Longrightarrow> suffix rest (drop 6 sql)"
    by (auto simp: parseReturnStatement_def Let_def case_prod_beta split: sum.splits if_splits dest!: rests
        intro: step suffix_statement)
qed

lemma rest_raise: "fst (parseRaiseStatement pos sql s) = Inr rest \<Longrightarrow> suffix rest (drop 5 sql)"
proof -
  have "suffix (skip_spaces (snd (skip_sql_command (skip_spaces (drop 9 (skip_spaces z)))))) z" for z
    by (meson suffix_chain suffix_skip suffix_statement)
  then show "fst (parseRaiseStatement pos sql s) = Inr rest \<Longrightarrow> suffix rest (drop 5 sql)"
    by (auto simp: parseRaiseStatement_def Let_def case_prod_beta split: if_splits)
qed

lemma rest_assert: "fst (parseAssertStatement pos sql s) = Inr rest \<Longrightarrow> suffix rest (drop 6 sql)"
proof -
  have step: "suffix (skip_spaces r) z" if "suffix r t" "suffix t (skip_spaces z)" for r t z
    using that suffix_skip suffix_chain by meson
  show "fst (parseAssertStatement pos sql s) = Inr rest \<Longrightarrow> suffix rest (drop 6 sql)"
    by (auto simp: parseAssertStatement_def Let_def split: option.splits if_splits dest!: rests) (rule step)
qed

lemma rest_condition: "fst (parse_condition pos sql s) = Inr rest \<Longrightarrow> suffix rest sql"
  by (auto simp: parse_condition_def split: option.splits intro: suffix_delimited)

lemma rest_jump: "fst (parse_jump k pos sql s) = Inr rest \<Longrightarrow> suffix rest (drop k sql)"
  by (auto simp: parse_jump_def Let_def split: option.splits if_splits intro!: text_rests)

lemma rest_foreach_end: "fst (foreach_end k sql s) = Inr rest \<Longrightarrow> suffix rest sql"
  by (auto simp: foreach_end_def Let_def split: if_splits intro!: text_rests)

lemma rest_foreach_input: "fst (foreach_input pos k sql s) = Inr rest \<Longrightarrow> suffix rest sql"
  by (auto simp: foreach_input_def Let_def case_prod_beta split: option.splits sum.splits if_splits dest!: rest_foreach_end rests
      intro: suffix_chain(2) suffix_chain(3))

lemma rest_foreach_in: "fst (foreach_in pos vs sql s) = Inr rest \<Longrightarrow> suffix rest sql"
  by (auto simp: foreach_in_def Let_def split: if_splits dest!: rest_foreach_input suffix_chain(1) suffix_chain(2))

lemma rest_foreach: "fst (parseForEachStatement pos sql (s :: 'a parser)) = Inr rest \<Longrightarrow> suffix rest (drop 7 sql)"
proof -
  let ?z = "skip_spaces (drop 7 sql)"
  assume r: "fst (parseForEachStatement pos sql s) = Inr rest"
  have "\<exists>t vs (s1 :: 'a parser). (t = skip_spaces (drop 6 ?z) \<or> suffix t ?z) \<and> fst (foreach_in pos vs t s1) = Inr rest"
  proof (cases "sqlite3_strnicmp ?z ''VALUE'' \<and> sqlite3Isspace (at ?z 5)")
    case True
    then have f: "fst (foreach_in pos [] (skip_spaces (drop 6 ?z)) (link_loop pos s)) = Inr rest"
      using r by (simp add: parseForEachStatement_def Let_def)
    show ?thesis by (rule exI, rule exI, rule exI, rule conjI, rule disjI1, rule refl, rule f)
  next
    case False
    then obtain vs t s1 where "parse_variables_list (link_loop pos s) (Some pos) ?z = (Inr (vs, t), s1)" "fst (foreach_in pos vs t s1) = Inr rest"
      using r by (auto simp: parseForEachStatement_def Let_def split: prod.splits sum.splits)
    then show ?thesis using suffix_variables [of "link_loop pos s" "Some pos" ?z vs t] by auto
  qed
  moreover have "suffix (skip_spaces (drop 6 ?z)) ?z" "suffix ?z (drop 7 sql)" by (intro text_rests)+
  ultimately show ?thesis using rest_foreach_in suffix_chain(3) by metis
qed

text \<open>Every command.\<close>

lemma word_not_empty: "sqlite3_strnicmp [] (c # w) = False"
  by (simp add: sqlite3_strnicmp_def)

lemma rest_new_command:
  assumes "parse_new_command t sql s = Some (Inr rest, s')"
  shows "\<exists>k. suffix rest (drop (Suc k) sql)"
proof -
  have *: "\<exists>k. suffix r (drop (Suc k) sql)" if "suffix r (drop n sql)" "0 < n" for r n
    using that by (metis Suc_pred)
  let ?pos = "fst (new_command t (procedure s))" and ?s = "s\<lparr>procedure := snd (new_command t (procedure s))\<rparr>"
  have skip: "suffix (skip_spaces (drop n sql)) (drop n sql)" for n by (intro text_rests)
  note defs = parse_new_command_def Let_def case_prod_beta
  show ?thesis
  proof (cases t)
    case CMD_TYPE_DECLARE
    then have "parseDeclareStatement ?pos sql ?s = (Inr rest, s')" using assms by (simp add: defs)
    then show ?thesis using * [OF rest_declare [of ?pos sql ?s rest]] by simp
  next
    case CMD_TYPE_SET
    then have "parseSetStatement ?pos sql ?s = (Inr rest, s')" using assms by (simp add: defs)
    then show ?thesis using * [OF rest_set [of ?pos sql ?s rest]] by simp
  next
    case CMD_TYPE_RETURN
    then have "parseReturnStatement ?pos sql ?s = (Inr rest, s')" using assms by (simp add: defs)
    then show ?thesis using * [OF rest_return [of ?pos sql ?s rest]] by simp
  next
    case CMD_TYPE_RAISE
    then have "parseRaiseStatement ?pos sql ?s = (Inr rest, s')" using assms by (simp add: defs)
    then show ?thesis using * [OF rest_raise [of ?pos sql ?s rest]] by simp
  next
    case CMD_TYPE_ASSERT
    then have "parseAssertStatement ?pos sql ?s = (Inr rest, s')" using assms by (simp add: defs)
    then show ?thesis using * [OF rest_assert [of ?pos sql ?s rest]] by simp
  next
    case CMD_TYPE_FOREACH
    then have "parseForEachStatement ?pos sql ?s = (Inr rest, s')" using assms by (simp add: defs)
    then show ?thesis using * [OF rest_foreach [of ?pos sql ?s rest]] by simp
  next
    case CMD_TYPE_BREAK
    then have "parse_jump 5 ?pos sql ?s = (Inr rest, s')" using assms by (simp add: defs parseBreakStatement_def)
    then show ?thesis using * [OF rest_jump [of 5 ?pos sql ?s rest]] by simp
  next
    case CMD_TYPE_CONTINUE
    then have "parse_jump 8 ?pos sql ?s = (Inr rest, s')" using assms by (simp add: defs parseContinueStatement_def)
    then show ?thesis using * [OF rest_jump [of 8 ?pos sql ?s rest]] by simp
  next
    case CMD_TYPE_IF
    then have "parse_condition ?pos (skip_spaces (drop 2 sql)) (link_if ?pos ?s) = (Inr rest, s')"
      using assms by (simp add: defs parseIfStatement_def)
    then have "suffix rest (skip_spaces (drop 2 sql))" using rest_condition [of ?pos "skip_spaces (drop 2 sql)" "link_if ?pos ?s" rest] by simp
    then show ?thesis using * [of rest 2] suffix_chain(1) by simp
  next
    case CMD_TYPE_ELSEIF
    then obtain s1 where "parse_condition ?pos (skip_spaces (drop 6 sql)) s1 = (Inr rest, s')"
      using assms by (auto simp: defs parseElseIfStatement_def split: option.splits sum.splits)
    then have "suffix rest (skip_spaces (drop 6 sql))" using rest_condition [of ?pos "skip_spaces (drop 6 sql)" s1 rest] by simp
    then show ?thesis using * [of rest 6] suffix_chain(1) by simp
  qed (use assms * [OF skip] in \<open>auto simp: defs parseElseStatement_def parseEndIfStatement_def parseLoopStatement_def
      parseEndLoopStatement_def split: option.splits sum.splits\<close>)
qed

lemma statement_shorter:
  assumes "sql \<noteq> []" and "CHR 0x00 \<notin> set sql"
  shows "length (snd (skip_sql_command sql)) < length sql"
proof -
  obtain n t where nt: "sqlite3GetToken sql = (n, t)" by force
  have "at sql 0 = hd sql" using assms(1) by (cases sql) simp_all
  then have "at sql 0 \<noteq> CHR 0x00" using assms by (metis hd_in_set)
  then have "n \<noteq> 0" using token_empty_iff [of sql] nt by auto
  then show ?thesis
    using nt assms(1) by (subst skip_sql_command_def, subst token_end.simps) (simp add: case_prod_beta Let_def)
qed

text \<open>C17: the loop of \<^verbatim>\<open>parse_procedure_body\<close> ends for every text without a NUL: each command that is parsed leaves a
  shorter text, so the equation of the C loop holds, in which nothing tests for progress.\<close>

theorem parse_procedure_body_loop:
  assumes "CHR 0x00 \<notin> set sql"
  shows "parse_procedure_body sql s =
     (if sql = [] then Some (Inr [], s)
      else case command_word sql of
        None \<Rightarrow> Some (Inr sql, s)
      | Some type \<Rightarrow>
          (case (if type = CMD_TYPE_STATEMENT then Some (parse_sql_statement sql s) else parse_new_command type sql s) of
             None \<Rightarrow> None
           | Some (Inl rc, s) \<Rightarrow> Some (Inl rc, s)
           | Some (Inr rest, s) \<Rightarrow> parse_procedure_body (skip_spaces rest) s))"
proof -
  have shorter: "length rest < length sql"
    if "sql \<noteq> []" "(if t = CMD_TYPE_STATEMENT then Some (parse_sql_statement sql s) else parse_new_command t sql s) = Some (Inr rest, s')"
    for t rest s'
  proof (cases "t = CMD_TYPE_STATEMENT")
    case True
    then have "rest = snd (skip_sql_command sql)" using that(2) by (auto simp: parse_sql_statement_def Let_def case_prod_beta)
    then show ?thesis using statement_shorter [OF that(1) assms] by simp
  next
    case False
    then show ?thesis using rest_new_command [of t sql s rest s'] that suffix_tl [of rest _ sql] by auto
  qed
  show ?thesis
  proof (cases "sql = [] \<or> command_word sql = None")
    case True
    then show ?thesis by (subst parse_procedure_body.simps) auto
  next
    case False
    then obtain t where t: "sql \<noteq> []" "command_word sql = Some t" by auto
    define r where "r = (if t = CMD_TYPE_STATEMENT then Some (parse_sql_statement sql s) else parse_new_command t sql s)"
    have "length rest < length sql" if "r = Some (Inr rest, s')" for rest s' using shorter [OF t(1)] that by (simp add: r_def)
    then show ?thesis unfolding parse_procedure_body.simps [of sql s] t(2) option.case r_def [symmetric]
      using t(1) by (auto split: option.split sum.split)
  qed
qed

definition empty_parser :: "nat parser" where
  "empty_parser = \<lparr>procedure = zero_procedure, if_stack = [], loop_stack = [], lists = []\<rparr>"

theorem parse_procedure_body_loop_witness:
  "\<exists>s. parse_procedure_body ''LOOP END'' empty_parser = Some (Inr ''END'', s) \<and> loop_stack s = [0]"
proof -
  have w: "command_word ''LOOP END'' = Some CMD_TYPE_LOOP" "command_word ''END'' = None" by code_simp+
  have n: "parse_new_command CMD_TYPE_LOOP ''LOOP END'' empty_parser
      = Some (Inr ''END'', link_loop 0 (empty_parser\<lparr>procedure := snd (new_command CMD_TYPE_LOOP zero_procedure)\<rparr>))"
    by code_simp
  have sk: "skip_spaces ''END'' = ''END''" by code_simp
  let ?s = "link_loop 0 (empty_parser\<lparr>procedure := snd (new_command CMD_TYPE_LOOP zero_procedure)\<rparr>)"
  have "parse_procedure_body ''LOOP END'' empty_parser = parse_procedure_body ''END'' ?s"
    using parse_procedure_body_loop [of "''LOOP END''" empty_parser] w(1) n sk by simp
  moreover have "parse_procedure_body ''END'' ?s = Some (Inr ''END'', ?s)"
    using parse_procedure_body_loop [of "''END''" ?s] w(2) by simp
  moreover have "loop_stack ?s = [0]" by (simp add: link_loop_def empty_parser_def)
  ultimately show ?thesis by auto
qed

end
