(* ===== verification/Uv_Callback.thy ===== *)
theory Uv_Callback
  imports Prelude
begin

section \<open>Calls between threads\<close>

text \<open>
  \<^verbatim>\<open>plugins/common/uv_callback.c\<close>: the worker thread of the plugin is called through a queue of calls. All callbacks
  with a queue on one event loop share the queue and the async handle of the first one, their master. The handles of
  the loop are those of callbacks; what libuv answers to \<^verbatim>\<open>uv_async_send\<close> and \<^verbatim>\<open>uv_idle_init\<close>
  is a parameter. A call that runs outside of its mutex is a step of its own. \<^term>\<open>None\<close> is an access through a null or
  stale pointer. \<^verbatim>\<open>uv_callback_fire_sync\<close> runs an event loop of its own and is not modelled.
\<close>

datatype uv_rc = UV_OK | UV_EINVAL | UV_EPERM | UV_FAILED

datatype callback_type = UV_DEFAULT | UV_COALESCE | UV_OTHER

record 'd uv_call =
  call_data :: "'d option"
  call_callback :: ptr
  call_notify :: ptr
  call_free_data :: bool

record 'd uv_callback =
  usequeue :: bool
  cb_queue :: "'d uv_call list"
  cb_function :: nat
  cb_arg :: "'d option"
  idle_active :: bool
  cb_master :: ptr
  cb_next :: ptr
  inactive :: bool
  refcount :: int
  free_cb :: bool
  free_result :: bool

text \<open>The memory of the callbacks (a released one is gone), the async handles of the loop, the signals sent and the data
  released so far.\<close>

record 'd uv_state =
  callbacks :: "ptr \<Rightarrow> 'd uv_callback option"
  async_handles :: "ptr list"
  signals :: "ptr list"
  freed :: "'d list"

definition set_cb :: "ptr \<Rightarrow> ('d uv_callback \<Rightarrow> 'd uv_callback) \<Rightarrow> 'd uv_state \<Rightarrow> 'd uv_state option" where
  "set_cb p f s = map_option (\<lambda>cb. s\<lparr>callbacks := (callbacks s)(p \<mapsto> f cb)\<rparr>) (callbacks s p)"

subsection \<open>Queue\<close>

text \<open>New calls are put in front, the last one is taken.\<close>

definition enqueue_call :: "'d uv_call \<Rightarrow> 'd uv_call list \<Rightarrow> 'd uv_call list" where
  "enqueue_call c q = c # q"

definition dequeue_last :: "'d uv_call list \<Rightarrow> ('d uv_call \<times> 'd uv_call list) option" where
  "dequeue_last q = (if q = [] then None else Some (last q, butlast q))"

definition dequeue_call :: "ptr \<Rightarrow> 'd uv_state \<Rightarrow> ('d uv_call option \<times> 'd uv_state) option" where
  "dequeue_call p s =
     (case callbacks s p of
        None \<Rightarrow> None
      | Some cb \<Rightarrow>
          (case dequeue_last (cb_queue cb) of
             None \<Rightarrow> Some (None, s)
           | Some (c, q) \<Rightarrow> map_option (Pair (Some c)) (set_cb p (\<lambda>cb. cb\<lparr>cb_queue := q\<rparr>) s)))"

text \<open>The loop of \<^verbatim>\<open>dequeue_all_from_callback\<close> over the calls behind the ones that stay: for a call at the front there is
  no previous one to go on with.\<close>

fun dequeue_all_loop :: "ptr \<Rightarrow> 'd uv_call list \<Rightarrow> 'd uv_call list \<Rightarrow> 'd list \<Rightarrow> ('d uv_call list \<times> 'd list) option" where
  "dequeue_all_loop p stay [] fr = Some (stay, fr)"
| "dequeue_all_loop p stay (c # cs) fr =
     (if call_callback c = p then
        if stay = [] then None
        else dequeue_all_loop p stay cs
               (case call_data c of Some d \<Rightarrow> if call_free_data c then fr @ [d] else fr | None \<Rightarrow> fr)
      else dequeue_all_loop p (stay @ [c]) cs fr)"

definition dequeue_all_from_callback :: "ptr \<Rightarrow> ptr \<Rightarrow> 'd uv_state \<Rightarrow> 'd uv_state option" where
  "dequeue_all_from_callback m p s =
     (let m = (if m = NULL then p else m) in
      case callbacks s m of
        None \<Rightarrow> None
      | Some cb \<Rightarrow>
          (case dequeue_all_loop p [] (cb_queue cb) (freed s) of
             None \<Rightarrow> None
           | Some (q, fr) \<Rightarrow> set_cb m (\<lambda>cb. cb\<lparr>cb_queue := q\<rparr>) (s\<lparr>freed := fr\<rparr>)))"

subsection \<open>Initialization\<close>

definition new_callback :: "nat \<Rightarrow> bool \<Rightarrow> 'd uv_callback" where
  "new_callback f fcb =
     \<lparr>usequeue = False, cb_queue = [], cb_function = f, cb_arg = None, idle_active = False, cb_master = NULL, cb_next = NULL,
      inactive = False, refcount = 1, free_cb = fcb, free_result = False\<rparr>"

text \<open>The walk over the handles keeps the last one with a queue.\<close>

definition get_master_callback :: "'d uv_state \<Rightarrow> ptr" where
  "get_master_callback s =
     foldl (\<lambda>m p. case callbacks s p of Some cb \<Rightarrow> if usequeue cb then p else m | None \<Rightarrow> m) NULL (async_handles s)"

partial_function (option) append_callback :: "ptr \<Rightarrow> ptr \<Rightarrow> 'd uv_state \<Rightarrow> 'd uv_state option" where
  "append_callback base p s =
     Option.bind (callbacks s base)
       (\<lambda>cb. if cb_next cb = NULL then set_cb base (\<lambda>cb. cb\<lparr>cb_next := p\<rparr>) s else append_callback (cb_next cb) p s)"

definition uv_callback_init_ex ::
  "(ptr \<Rightarrow> uv_rc) \<Rightarrow> (ptr \<Rightarrow> uv_rc) \<Rightarrow> ptr \<Rightarrow> nat \<Rightarrow> callback_type \<Rightarrow> bool \<Rightarrow> bool \<Rightarrow> 'd uv_state \<Rightarrow> (uv_rc \<times> 'd uv_state) option" where
  "uv_callback_init_ex idle_init async_init p f type fcb fres s =
     (if p = NULL \<or> f = 0 then Some (UV_EINVAL, s)
      else
        let cb = new_callback f fcb;
            store = (\<lambda>cb. s\<lparr>callbacks := (callbacks s)(p \<mapsto> cb)\<rparr>);
            finish = (\<lambda>s. (async_init p, if async_init p = UV_OK then s\<lparr>async_handles := async_handles s @ [p]\<rparr> else s)) in
        case type of
          UV_DEFAULT \<Rightarrow>
            (let m = get_master_callback s; cb = cb\<lparr>usequeue := True, free_result := fres, cb_master := m\<rparr> in
             if m \<noteq> NULL then map_option (Pair UV_OK) (append_callback m p (store cb))
             else if idle_init p \<noteq> UV_OK then Some (idle_init p, store cb)
             else Some (finish (store cb)))
        | UV_COALESCE \<Rightarrow> Some (finish (store cb))
        | UV_OTHER \<Rightarrow> Some (UV_EINVAL, store cb))"

subsection \<open>Release and stop\<close>

partial_function (option) unlink_callback :: "ptr \<Rightarrow> ptr \<Rightarrow> ptr \<Rightarrow> 'd uv_state \<Rightarrow> 'd uv_state option" where
  "unlink_callback cb p nxt s =
     (if cb = NULL then Some s
      else Option.bind (callbacks s cb)
        (\<lambda>c. if cb_next c = p then set_cb cb (\<lambda>c. c\<lparr>cb_next := nxt\<rparr>) s else unlink_callback (cb_next c) p nxt s))"

definition uv_callback_release :: "ptr \<Rightarrow> 'd uv_state \<Rightarrow> 'd uv_state option" where
  "uv_callback_release p s =
     (if p = NULL then Some s
      else case callbacks s p of
        None \<Rightarrow> None
      | Some cb \<Rightarrow>
          (let cb = cb\<lparr>refcount := refcount cb - 1\<rparr>; s = s\<lparr>callbacks := (callbacks s)(p \<mapsto> cb)\<rparr> in
           if refcount cb = 0 \<and> free_cb cb
           then map_option (\<lambda>s. s\<lparr>callbacks := (callbacks s)(p := None)\<rparr>) (unlink_callback (cb_master cb) p (cb_next cb) s)
           else Some s))"

definition uv_callback_stop :: "ptr \<Rightarrow> 'd uv_state \<Rightarrow> 'd uv_state option" where
  "uv_callback_stop p s =
     (if p = NULL then Some s
      else case callbacks s p of
        None \<Rightarrow> None
      | Some cb \<Rightarrow>
          (let s = s\<lparr>callbacks := (callbacks s)(p \<mapsto> cb\<lparr>inactive := True\<rparr>)\<rparr> in
           if usequeue cb then dequeue_all_from_callback (cb_master cb) p s else Some s))"

text \<open>All callbacks of the loop: each handle is the first of a chain.\<close>

partial_function (option) stop_chain :: "ptr \<Rightarrow> 'd uv_state \<Rightarrow> 'd uv_state option" where
  "stop_chain p s =
     (if p = NULL then Some s
      else Option.bind (callbacks s p) (\<lambda>cb. Option.bind (uv_callback_stop p s) (stop_chain (cb_next cb))))"

primrec stop_handles :: "ptr list \<Rightarrow> 'd uv_state \<Rightarrow> 'd uv_state option" where
  "stop_handles [] s = Some s"
| "stop_handles (p # ps) s = Option.bind (stop_chain p s) (stop_handles ps)"

definition uv_callback_stop_all :: "'d uv_state \<Rightarrow> 'd uv_state option" where
  "uv_callback_stop_all s = stop_handles (async_handles s) s"

subsection \<open>Firing and calling\<close>

definition uv_callback_fire_ex ::
  "(ptr \<Rightarrow> uv_rc) \<Rightarrow> ptr \<Rightarrow> 'd option \<Rightarrow> bool \<Rightarrow> ptr \<Rightarrow> 'd uv_state \<Rightarrow> (uv_rc \<times> 'd uv_state) option" where
  "uv_callback_fire_ex async_send p d fr notify s =
     (if p = NULL then Some (UV_EINVAL, s)
      else case callbacks s p of
        None \<Rightarrow> None
      | Some cb \<Rightarrow>
          if inactive cb then Some (UV_EPERM, s)
          else if notify \<noteq> NULL \<and> \<not> usequeue cb then Some (UV_EINVAL, s)
          else
            let target = (if usequeue cb \<and> cb_master cb \<noteq> NULL then cb_master cb else p);
                c = \<lparr>call_data = d, call_callback = p, call_notify = notify, call_free_data = fr\<rparr>;
                send = (\<lambda>s. (async_send target, s\<lparr>signals := signals s @ [target]\<rparr>)) in
            if usequeue cb then
              (case set_cb target (\<lambda>m. m\<lparr>cb_queue := enqueue_call c (cb_queue m)\<rparr>) s of
                 None \<Rightarrow> None
               | Some s \<Rightarrow>
                   map_option send (if notify = NULL then Some s else set_cb notify (\<lambda>n. n\<lparr>refcount := refcount n + 1\<rparr>) s))
            else map_option send (set_cb p (\<lambda>cb. cb\<lparr>cb_arg := d\<rparr>) s))"

text \<open>The called function is a parameter that may change the state. One call is made; then an idle handle continues with the
  queue until it is empty.\<close>

definition notify_result ::
  "(ptr \<Rightarrow> uv_rc) \<Rightarrow> 'd uv_call \<Rightarrow> 'd option \<Rightarrow> 'd uv_state \<Rightarrow> 'd uv_state option" where
  "notify_result async_send c result s =
     (let n = call_notify c;
          discard = (case (result, callbacks s (call_callback c)) of
              (Some d, Some cb) \<Rightarrow> Some (if free_result cb then s\<lparr>freed := freed s @ [d]\<rparr> else s)
            | (Some d, None) \<Rightarrow> None
            | (None, _) \<Rightarrow> Some s) in
      if n = NULL then discard
      else case callbacks s n of
          None \<Rightarrow> None
        | Some ncb \<Rightarrow>
            Option.bind (if inactive ncb then discard else map_option snd (uv_callback_fire_ex async_send n result False NULL s))
              (uv_callback_release n))"

definition uv_callback_async_cb ::
  "(ptr \<Rightarrow> uv_rc) \<Rightarrow> (nat \<Rightarrow> ptr \<Rightarrow> 'd option \<Rightarrow> 'd uv_state \<Rightarrow> 'd option \<times> 'd uv_state) \<Rightarrow> ptr \<Rightarrow> 'd uv_state \<Rightarrow> 'd uv_state option" where
  "uv_callback_async_cb async_send run p s =
     (case callbacks s p of
        None \<Rightarrow> None
      | Some cb \<Rightarrow>
          if \<not> usequeue cb then Some (snd (run (cb_function cb) p (cb_arg cb) s))
          else case dequeue_call p s of
              None \<Rightarrow> None
            | Some (None, s) \<Rightarrow> set_cb p (\<lambda>cb. cb\<lparr>idle_active := False\<rparr>) s
            | Some (Some c, s) \<Rightarrow>
                (case callbacks s (call_callback c) of
                   None \<Rightarrow> None
                 | Some called \<Rightarrow>
                     (let (result, s) = run (cb_function called) (call_callback c) (call_data c) s in
                      Option.bind (notify_result async_send c result s) (set_cb p (\<lambda>cb. cb\<lparr>idle_active := True\<rparr>)))))"

text \<open>\<^verbatim>\<open>uv_functions.c\<close>, in the build with callbacks: the command for the worker thread is an \<^verbatim>\<open>int\<close> of the caller, read as an
  integer of 64 bits; \<open>behind\<close> are the four bytes that follow it in memory.\<close>

definition worker_command :: "u32 \<Rightarrow> u32 \<Rightarrow> u64" where
  "worker_command cmd behind = ucast cmd + 2 ^ 32 * ucast behind"

definition send_request_to_worker ::
  "(ptr \<Rightarrow> uv_rc) \<Rightarrow> bool \<Rightarrow> ptr \<Rightarrow> u32 \<Rightarrow> u32 \<Rightarrow> u64 uv_state \<Rightarrow> u64 uv_state option" where
  "send_request_to_worker async_send running worker_cb cmd behind s =
     (if running
      then map_option snd (uv_callback_fire_ex async_send worker_cb (Some (worker_command cmd behind)) False NULL s)
      else Some s)"

text \<open>The worker thread compares the 64 bits: the command arrives as it is only if the bytes behind it are zero.\<close>

lemma worker_command_exact: "worker_command cmd behind = ucast cmd \<longleftrightarrow> behind = 0"
proof -
  have "2 ^ 32 * (ucast behind :: u64) = 0 \<longleftrightarrow> behind = 0"
  proof -
    have "uint (2 ^ 32 * (ucast behind :: u64)) = 2 ^ 32 * uint behind"
      using uint_lt2p [of behind] by (simp add: uint_word_ariths unsigned_ucast_eq take_bit_eq_mod)
    then show ?thesis by (metis mult_eq_0_iff uint_0_iff power_not_zero zero_neq_numeral)
  qed
  then show ?thesis by (simp add: worker_command_def)
qed

subsection \<open>First in, first out\<close>

locale fifo =
  fixes enq :: "'a \<Rightarrow> 'q \<Rightarrow> 'q" and deq :: "'q \<Rightarrow> ('a \<times> 'q) option" and contents :: "'q \<Rightarrow> 'a list"
  assumes contents_enq: "contents (enq x q) = contents q @ [x]"
    and deq_empty: "contents q = [] \<Longrightarrow> deq q = None"
    and deq_front: "contents q = x # xs \<Longrightarrow> \<exists>q'. deq q = Some (x, q') \<and> contents q' = xs"
begin

lemma contents_enqs: "contents (foldl (\<lambda>q x. enq x q) q xs) = contents q @ xs"
  by (induction xs arbitrary: q) (simp_all add: contents_enq)

primrec deqs :: "nat \<Rightarrow> 'q \<Rightarrow> 'a list" where
  "deqs 0 q = []"
| "deqs (Suc n) q = (case deq q of None \<Rightarrow> [] | Some (x, q) \<Rightarrow> x # deqs n q)"

lemma deqs_contents: "deqs n q = take n (contents q)"
proof (induction n arbitrary: q)
  case (Suc n)
  show ?case
  proof (cases "contents q")
    case Nil
    then show ?thesis by (simp add: deq_empty)
  next
    case (Cons x xs)
    then obtain q' where "deq q = Some (x, q')" "contents q' = xs" using deq_front by blast
    then show ?thesis using Suc Cons by simp
  qed
qed simp

end

interpretation calls: fifo enqueue_call dequeue_last rev
proof
  fix x :: "'a uv_call" and q xs
  show "rev (enqueue_call x q) = rev q @ [x]" by (simp add: enqueue_call_def)
  show "rev q = [] \<Longrightarrow> dequeue_last q = None" for q :: "'a uv_call list" by (simp add: dequeue_last_def)
  show "rev q = x # xs \<Longrightarrow> \<exists>q'. dequeue_last q = Some (x, q') \<and> rev q' = xs"
    by (rule exI [of _ "rev xs"]) (auto simp: dequeue_last_def rev_swap)
qed

subsection \<open>Calls in their order\<close>

primrec fire_all :: "(ptr \<Rightarrow> uv_rc) \<Rightarrow> (ptr \<times> 'd option) list \<Rightarrow> 'd uv_state \<Rightarrow> 'd uv_state option" where
  "fire_all async_send [] s = Some s"
| "fire_all async_send (x # xs) s =
     Option.bind (uv_callback_fire_ex async_send (fst x) (snd x) False NULL s) (\<lambda>r. fire_all async_send xs (snd r))"

primrec take_calls :: "nat \<Rightarrow> ptr \<Rightarrow> 'd uv_state \<Rightarrow> 'd uv_call list" where
  "take_calls 0 m s = []"
| "take_calls (Suc n) m s = (case dequeue_call m s of Some (Some c, s) \<Rightarrow> c # take_calls n m s | _ \<Rightarrow> [])"

definition plain_call :: "ptr \<times> 'd option \<Rightarrow> 'd uv_call" where
  "plain_call x = \<lparr>call_data = snd x, call_callback = fst x, call_notify = NULL, call_free_data = False\<rparr>"

text \<open>A callback that shares the queue of a master.\<close>

definition queued_at :: "ptr \<Rightarrow> 'd uv_state \<Rightarrow> ptr \<Rightarrow> bool" where
  "queued_at m s p \<longleftrightarrow> p \<noteq> NULL \<and> m \<noteq> NULL
     \<and> (\<exists>cb. callbacks s p = Some cb \<and> usequeue cb \<and> \<not> inactive cb \<and> (if p = m then cb_master cb = NULL else cb_master cb = m))"

lemma take_calls_deqs: "callbacks s m = Some cb \<Longrightarrow> take_calls n m s = calls.deqs n (cb_queue cb)"
proof (induction n arbitrary: s cb)
  case (Suc n)
  show ?case
  proof (cases "dequeue_last (cb_queue cb)")
    case None
    then show ?thesis using Suc.prems by (simp add: dequeue_call_def)
  next
    case (Some r)
    then obtain c q where r: "dequeue_last (cb_queue cb) = Some (c, q)" by (cases r) auto
    let ?cb = "cb\<lparr>cb_queue := q\<rparr>"
    have "dequeue_call m s = Some (Some c, s\<lparr>callbacks := (callbacks s)(m \<mapsto> ?cb)\<rparr>)"
      using Suc.prems r by (simp add: dequeue_call_def set_cb_def)
    then show ?thesis using Suc.IH [of "s\<lparr>callbacks := (callbacks s)(m \<mapsto> ?cb)\<rparr>" ?cb] r by simp
  qed
qed simp

lemma fire_queued:
  assumes "queued_at m s p" and "callbacks s m = Some cb"
  shows "uv_callback_fire_ex async_send p d False NULL s =
    Some (async_send m, s\<lparr>callbacks := (callbacks s)(m \<mapsto> cb\<lparr>cb_queue := enqueue_call (plain_call (p, d)) (cb_queue cb)\<rparr>),
                          signals := signals s @ [m]\<rparr>)"
  using assms by (auto simp: queued_at_def uv_callback_fire_ex_def Let_def set_cb_def plain_call_def split: if_splits)

lemma fire_all_queued:
  assumes "\<forall>x\<in>set xs. queued_at m s (fst x)" and "callbacks s m = Some cb"
  shows "\<exists>s' cb'. fire_all async_send xs s = Some s' \<and> callbacks s' m = Some cb'
    \<and> cb_queue cb' = foldl (\<lambda>q c. enqueue_call c q) (cb_queue cb) (map plain_call xs)"
  using assms
proof (induction xs arbitrary: s cb)
  case (Cons x xs)
  let ?cb = "cb\<lparr>cb_queue := enqueue_call (plain_call x) (cb_queue cb)\<rparr>"
  let ?s = "s\<lparr>callbacks := (callbacks s)(m \<mapsto> ?cb), signals := signals s @ [m]\<rparr>"
  have f: "uv_callback_fire_ex async_send (fst x) (snd x) False NULL s = Some (async_send m, ?s)"
    using fire_queued [of m s "fst x" cb] Cons.prems by simp
  have "\<forall>y\<in>set xs. queued_at m ?s (fst y)" using Cons.prems by (auto simp: queued_at_def)
  from Cons.IH [OF this, of ?cb] show ?case using f by simp
qed simp

text \<open>C19: the calls fired on callbacks that share a queue are taken in the order in which they were fired, after those that
  were waiting, and each once.\<close>

theorem calls_taken_in_order:
  assumes "\<forall>x\<in>set xs. queued_at m s (fst x)" and "callbacks s m = Some cb"
  shows "\<exists>s'. fire_all async_send xs s = Some s'
    \<and> (\<forall>n. take_calls n m s' = take n (rev (cb_queue cb) @ map plain_call xs))"
proof -
  obtain s' cb' where s': "fire_all async_send xs s = Some s'" "callbacks s' m = Some cb'"
      "cb_queue cb' = foldl (\<lambda>q c. enqueue_call c q) (cb_queue cb) (map plain_call xs)"
    using fire_all_queued [OF assms] by blast
  then show ?thesis by (simp add: take_calls_deqs calls.deqs_contents calls.contents_enqs)
qed

subsection \<open>Stopping a callback\<close>

lemma dequeue_all_behind:
  "stay \<noteq> [] \<Longrightarrow> \<exists>fr'. dequeue_all_loop p stay cs fr = Some (stay @ filter (\<lambda>c. call_callback c \<noteq> p) cs, fr')"
  by (induction p stay cs fr rule: dequeue_all_loop.induct) auto

text \<open>C21: stopping a callback removes its waiting calls from the queue and keeps the others in their order, unless the newest
  call of the queue is one of its own: then the code goes on through a null pointer.\<close>

theorem stop_removes_calls:
  assumes "p \<noteq> NULL" and "callbacks s p = Some cb" and "usequeue cb" and "cb_master cb = m" and "m \<noteq> NULL" and "m \<noteq> p"
    and "callbacks s m = Some mcb"
  shows "if \<exists>c cs. cb_queue mcb = c # cs \<and> call_callback c = p then uv_callback_stop p s = None
    else \<exists>s' mcb'. uv_callback_stop p s = Some s' \<and> callbacks s' m = Some mcb'
           \<and> cb_queue mcb' = filter (\<lambda>c. call_callback c \<noteq> p) (cb_queue mcb)"
proof -
  let ?s = "s\<lparr>callbacks := (callbacks s)(p \<mapsto> cb\<lparr>inactive := True\<rparr>)\<rparr>"
  have stop: "uv_callback_stop p s = dequeue_all_from_callback m p ?s" using assms(1-4) by (simp add: uv_callback_stop_def Let_def)
  have at: "callbacks ?s m = Some mcb" using assms(6,7) by simp
  show ?thesis
  proof (cases "cb_queue mcb")
    case Nil
    then show ?thesis using stop at assms(5) by (auto simp: dequeue_all_from_callback_def set_cb_def)
  next
    case (Cons c cs)
    obtain fr' where "dequeue_all_loop p [c] cs (freed s) = Some ([c] @ filter (\<lambda>c. call_callback c \<noteq> p) cs, fr')"
      using dequeue_all_behind [of "[c]" p cs "freed s"] by blast
    then show ?thesis using Cons stop at assms(5) by (auto simp: dequeue_all_from_callback_def set_cb_def)
  qed
qed

text \<open>A master with one callback on its queue.\<close>

definition example_callbacks :: "nat uv_call list \<Rightarrow> nat uv_state" where
  "example_callbacks q =
     \<lparr>callbacks = [1 \<mapsto> (new_callback 1 False)\<lparr>usequeue := True, cb_next := 2, cb_queue := q\<rparr>,
                   2 \<mapsto> (new_callback 2 False)\<lparr>usequeue := True, cb_master := 1\<rparr>],
      async_handles = [1], signals = [], freed = []\<rparr>"

theorem calls_taken_in_order_witness:
  "\<exists>s'. fire_all (\<lambda>_. UV_OK) [(2, Some 7), (1, None), (2, Some 8)] (example_callbacks []) = Some s'
     \<and> map call_data (take_calls 3 1 s') = [Some 7, None, Some 8]"
proof -
  have "\<forall>x\<in>set [(2, Some 7), (1, None), (2, Some (8 :: nat))]. queued_at 1 (example_callbacks []) (fst x)"
    by (simp add: queued_at_def example_callbacks_def new_callback_def)
  moreover have "callbacks (example_callbacks []) 1 = Some ((new_callback 1 False)\<lparr>usequeue := True, cb_next := 2, cb_queue := []\<rparr>)"
    by (simp add: example_callbacks_def)
  ultimately show ?thesis
    using calls_taken_in_order [of "[(2, Some 7), (1, None), (2, Some 8)]" 1 "example_callbacks []" _ "\<lambda>_. UV_OK"]
    by (fastforce simp: plain_call_def)
qed

theorem stop_removes_calls_witness:
  "uv_callback_stop 2 (example_callbacks [plain_call (2, Some 7)]) = None"
proof -
  let ?s = "example_callbacks [plain_call (2, Some 7)]"
  have "callbacks ?s 2 = Some ((new_callback 2 False)\<lparr>usequeue := True, cb_master := 1\<rparr>)"
      "callbacks ?s 1 = Some ((new_callback 1 False)\<lparr>usequeue := True, cb_next := 2, cb_queue := [plain_call (2, Some 7)]\<rparr>)"
    by (simp_all add: example_callbacks_def)
  from stop_removes_calls [OF _ this(1) _ _ _ _ this(2)] show ?thesis by (simp add: plain_call_def)
qed

end
