(* ===== verification/Udp_Messages.thy ===== *)
theory Udp_Messages
  imports Plugin_Examples
begin

section \<open>Datagrams, broadcasts and texts\<close>

text \<open>
  The functions of \<^verbatim>\<open>no-leader.c\<close>, \<^verbatim>\<open>node_discovery.c\<close> and \<^verbatim>\<open>uv_functions.c\<close> that send and receive datagrams, and the
  texts that go to all peers. The network interfaces of the device, the conversion of addresses and the result of a send
  are parameters; what is sent is a list of datagrams. The result of a function is an SQLite code: 0 is \<^verbatim>\<open>SQLITE_OK\<close>, 1
  \<^verbatim>\<open>SQLITE_ERROR\<close>, 2 \<^verbatim>\<open>SQLITE_INTERNAL\<close>.
\<close>

unbundle bit_operations_syntax

text \<open>An address is the text that \<^verbatim>\<open>uv_ip4_name\<close> writes, or \<^verbatim>\<open>uv_ip6_name\<close> if that one fails, and a port. An interface
  whose address is not of IPv4 has no \<open>address4\<close>.\<close>

type_synonym endpoint = "string \<times> int"

type_synonym datagram = "endpoint \<times> string"

record network_interface =
  is_internal :: bool
  address4 :: "u32 option"
  netmask4 :: u32
  address_text :: string

text \<open>\<open>ip4_name\<close> is \<^verbatim>\<open>uv_ip4_name\<close>; \<open>valid_ip\<close> says whether \<^verbatim>\<open>uv_ip4_addr\<close> or \<^verbatim>\<open>uv_ip6_addr\<close> takes an address; \<open>udp_send\<close>
  is the result of \<^verbatim>\<open>uv_udp_send\<close>. The status of the core is a text.\<close>

record udp =
  interfaces :: "network_interface list"
  ip4_name :: "u32 \<Rightarrow> string"
  valid_ip :: "string \<Rightarrow> bool"
  udp_send :: "endpoint \<Rightarrow> string \<Rightarrow> int"
  blockchain_status :: "string option"

subsection \<open>Interfaces\<close>

definition is_local_ip_address :: "udp \<Rightarrow> string \<Rightarrow> bool" where
  "is_local_ip_address u address \<longleftrightarrow> list_ex (\<lambda>i. address_text i = address) (interfaces u)"

fun broadcast_loop :: "(u32 \<Rightarrow> string) \<Rightarrow> nat \<Rightarrow> network_interface list \<Rightarrow> string \<Rightarrow> string" where
  "broadcast_loop name limit [] acc = acc"
| "broadcast_loop name limit (i # is) acc =
     (if is_internal i then broadcast_loop name limit is acc
      else
        let broadcast = (case address4 i of None \<Rightarrow> [] | Some a \<Rightarrow> name (a OR NOT (netmask4 i))) in
        if broadcast = [] then broadcast_loop name limit is acc
        else if acc = [] then broadcast_loop name limit is broadcast
        else if length acc + length broadcast + 2 > limit then acc
        else broadcast_loop name limit is (acc @ CHR '','' # broadcast))"

definition get_local_broadcast_address :: "udp \<Rightarrow> nat \<Rightarrow> string" where
  "get_local_broadcast_address u limit = broadcast_loop (ip4_name u) limit (interfaces u) []"

subsection \<open>Sending\<close>

text \<open>The pointer \<^verbatim>\<open>plugin->broadcast\<close>: the last of the addresses with the mark.\<close>

definition broadcast_address :: "'db plugin \<Rightarrow> tcp_address option" where
  "broadcast_address p = (case filter is_broadcast (discovery p) of [] \<Rightarrow> None | l \<Rightarrow> Some (List.last l))"

definition send_udp_message :: "udp \<Rightarrow> endpoint \<Rightarrow> string \<Rightarrow> int \<times> datagram list" where
  "send_udp_message u address message =
     (if udp_send u address message = 0 then (0, [(address, message)]) else (1, []))"

fun broadcast_to :: "udp \<Rightarrow> int \<Rightarrow> string \<Rightarrow> string list \<Rightarrow> int \<Rightarrow> int \<times> datagram list" where
  "broadcast_to u prt message [] rc = (rc, [])"
| "broadcast_to u prt message (a # as') rc =
     (if a = [] then (rc, [])
      else if \<not> valid_ip u a then broadcast_to u prt message as' rc
      else
        let (rc, out) = send_udp_message u (a, prt) message; (rc, outs) = broadcast_to u prt message as' rc
        in (rc, out @ outs))"

definition send_local_udp_broadcast :: "udp \<Rightarrow> 'db plugin \<Rightarrow> string \<Rightarrow> int \<times> datagram list" where
  "send_local_udp_broadcast u p message =
     (case broadcast_address p of
        None \<Rightarrow> (2, [])
      | Some b \<Rightarrow>
          broadcast_to u (tcp_port b) message (split_chr (CHR '','') (get_local_broadcast_address u 128)) 0)"

text \<open>Without a broadcast address each peer gets the datagram; the result is that of the last send.\<close>

fun send_to_peers :: "udp \<Rightarrow> string \<Rightarrow> peer list \<Rightarrow> int \<Rightarrow> int \<times> datagram list" where
  "send_to_peers u message [] rc = (rc, [])"
| "send_to_peers u message (n # ns) rc =
     (if \<not> valid_ip u (host n) then send_to_peers u message ns rc
      else
        let rc = udp_send u (host n, bind_port n) message;
            out = (if rc = 0 then [((host n, bind_port n), message)] else []);
            (rc, outs) = send_to_peers u message ns rc
        in (rc, out @ outs))"

definition send_udp_broadcast :: "udp \<Rightarrow> 'db plugin \<Rightarrow> string \<Rightarrow> int \<times> datagram list" where
  "send_udp_broadcast u p message =
     (if broadcast_address p \<noteq> None then send_local_udp_broadcast u p message else send_to_peers u message (peers p) 0)"

definition text_message :: "string \<Rightarrow> message" where
  "text_message message = [PLUGIN_CMD \<mapsto> V_Int PLUGIN_TEXT_CMD, PLUGIN_TEXT \<mapsto> V_Str message]"

definition send_text_message :: "net \<Rightarrow> 'db plugin \<Rightarrow> peer \<Rightarrow> string \<Rightarrow> 'db plugin \<times> bool" where
  "send_text_message net p n message = send_peer_message net p n (text_message message)"

fun tcp_broadcast_loop :: "net \<Rightarrow> string \<Rightarrow> peer list \<Rightarrow> 'db plugin \<Rightarrow> 'db plugin" where
  "tcp_broadcast_loop net message [] p = p"
| "tcp_broadcast_loop net message (n # ns) p =
     tcp_broadcast_loop net message ns (if is_authorized n then fst (send_text_message net p n message) else p)"

definition send_tcp_broadcast :: "net \<Rightarrow> 'db plugin \<Rightarrow> string \<Rightarrow> 'db plugin" where
  "send_tcp_broadcast net p message = tcp_broadcast_loop net message (peers p) p"

definition on_local_node_info_changed :: "net \<Rightarrow> 'db plugin \<Rightarrow> string \<Rightarrow> 'db plugin" where
  "on_local_node_info_changed net p info = send_tcp_broadcast net p (''node_info:'' @ info)"

subsection \<open>Receiving\<close>

datatype udp_handler = Find_Node_Request | Find_Node_Response | Blockchain_Status_Request | Node_Info_Request

definition register_udp_message :: "string \<Rightarrow> udp_handler \<Rightarrow> (string \<times> udp_handler) list \<Rightarrow> (string \<times> udp_handler) list" where
  "register_udp_message name h table = (if list_ex (\<lambda>m. name = fst m) table then table else table @ [(name, h)])"

definition node_discovery_init :: "(string \<times> udp_handler) list \<Rightarrow> (string \<times> udp_handler) list" where
  "node_discovery_init table =
     register_udp_message ''here'' Find_Node_Response (register_udp_message ''whr?'' Find_Node_Request table)"

text \<open>The messages that the thread of a plugin registers when it starts.\<close>

definition register_messages :: "(string \<times> udp_handler) list \<Rightarrow> (string \<times> udp_handler) list" where
  "register_messages table =
     register_udp_message ''node_info'' Node_Info_Request
       (register_udp_message ''blockchain_status'' Blockchain_Status_Request (node_discovery_init table))"

definition on_find_node_request :: "udp \<Rightarrow> endpoint \<Rightarrow> datagram list" where
  "on_find_node_request u sender =
     (if is_local_ip_address u (fst sender) then []
      else if udp_send u sender ''here'' = 0 then [(sender, ''here'')] else [])"

definition on_blockchain_status_request :: "udp \<Rightarrow> endpoint \<Rightarrow> datagram list" where
  "on_blockchain_status_request u sender =
     (case blockchain_status u of None \<Rightarrow> [] | Some s \<Rightarrow> snd (send_udp_message u sender s))"

definition on_node_info_request :: "udp \<Rightarrow> net \<Rightarrow> endpoint \<Rightarrow> datagram list" where
  "on_node_info_request u net sender =
     (case own_info net of None \<Rightarrow> snd (send_udp_message u sender []) | Some s \<Rightarrow> snd (send_udp_message u sender s))"

definition udp_callback ::
  "udp \<Rightarrow> net \<Rightarrow> 'db plugin \<Rightarrow> udp_handler \<Rightarrow> endpoint \<Rightarrow> ('db plugin \<times> datagram list) option" where
  "udp_callback u net p h sender =
     (case h of
        Find_Node_Request \<Rightarrow> Some (p, on_find_node_request u sender)
      | Find_Node_Response \<Rightarrow> map_option (\<lambda>p. (p, [])) (on_find_node_response net p (fst sender) (snd sender))
      | Blockchain_Status_Request \<Rightarrow> Some (p, on_blockchain_status_request u sender)
      | Node_Info_Request \<Rightarrow> Some (p, on_node_info_request u net sender))"

text \<open>\<open>buf\<close> is the whole buffer, of which the datagram fills the first \<open>nread\<close> bytes; the command ends at the first zero
  byte, wherever it is. Without one the code reads past the buffer.\<close>

record 'db udp_result =
  udp_plugin :: "'db plugin"
  udp_out :: "datagram list"
  buffer_released :: bool
  udp_closed :: bool

definition udp_text :: "string \<Rightarrow> string option" where
  "udp_text buf = (if CHR 0x00 \<in> set buf then Some (takeWhile (\<lambda>c. c \<noteq> CHR 0x00) buf) else None)"

definition on_udp_message ::
  "udp \<Rightarrow> net \<Rightarrow> (string \<times> udp_handler) list \<Rightarrow> 'db plugin \<Rightarrow> endpoint \<Rightarrow> int \<Rightarrow> string \<Rightarrow> 'db udp_result option" where
  "on_udp_message u net table p sender nread buf =
     (if nread < 0 then Some \<lparr>udp_plugin = p, udp_out = [], buffer_released = True, udp_closed = True\<rparr>
      else if nread = 0 then Some \<lparr>udp_plugin = p, udp_out = [], buffer_released = True, udp_closed = False\<rparr>
      else if is_local_ip_address u (fst sender) \<and> snd sender = my_bind_port p
      then Some \<lparr>udp_plugin = p, udp_out = [], buffer_released = False, udp_closed = False\<rparr>
      else
        case udp_text buf of
          None \<Rightarrow> None
        | Some text \<Rightarrow>
            (case List.find (\<lambda>m. fst (stripchr text (CHR '':'')) = fst m) table of
               None \<Rightarrow> Some \<lparr>udp_plugin = p, udp_out = [], buffer_released = True, udp_closed = False\<rparr>
             | Some m \<Rightarrow>
                 map_option (\<lambda>r. \<lparr>udp_plugin = fst r, udp_out = snd r, buffer_released = True, udp_closed = False\<rparr>)
                   (udp_callback u net p (snd m) sender)))"

text \<open>The message of the main thread to the thread of the plugin; the flag is the end of its event loop.\<close>

definition worker_thread_on_thread_message :: "'db sqlite \<Rightarrow> net \<Rightarrow> 'db plugin \<Rightarrow> u64 \<Rightarrow> ('db plugin \<times> bool) option" where
  "worker_thread_on_thread_message sql net p cmd =
     (if cmd = 0xcd02 then Some (p, True)
      else if cmd = 0xcd01 then map_option (\<lambda>p. (p, False)) (worker_thread_on_local_transaction sql net p)
      else Some (p, False))"

subsection \<open>The addresses of the interfaces\<close>

text \<open>The broadcast addresses of the interfaces that the code takes, in their order.\<close>

fun broadcast_addresses :: "(u32 \<Rightarrow> string) \<Rightarrow> network_interface list \<Rightarrow> string list" where
  "broadcast_addresses name [] = []"
| "broadcast_addresses name (i # is) =
     (case address4 i of
        Some a \<Rightarrow> if is_internal i then broadcast_addresses name is
                 else name (a OR NOT (netmask4 i)) # broadcast_addresses name is
      | None \<Rightarrow> broadcast_addresses name is)"

text \<open>What libuv documents of \<^verbatim>\<open>uv_ip4_name\<close>: dotted decimal notation.\<close>

definition dotted :: "string \<Rightarrow> bool" where
  "dotted s \<longleftrightarrow> s \<noteq> [] \<and> length s \<le> 15 \<and> CHR '','' \<notin> set s"

lemma split_chr_end: "c \<notin> set s \<Longrightarrow> split_chr c s = [s]"
  by (induction s) auto

lemma split_chr_sep: "c \<notin> set s \<Longrightarrow> split_chr c (s @ c # t) = s # split_chr c t"
  by (induction s) auto

lemma split_chr_snoc:
  assumes "c \<notin> set b"
  shows "split_chr c (acc @ c # b) = split_chr c acc @ [b]"
proof (induction acc)
  case Nil
  then show ?case using assms by (simp add: split_chr_end)
next
  case (Cons x acc)
  then show ?case using split_chr_not_Nil [of c acc] by (auto split: list.splits)
qed

text \<open>Each address takes sixteen bytes at most, so up to eight of them fit.\<close>

lemma broadcast_loop_pieces:
  assumes "\<And>a. dotted (name a)" and "acc \<noteq> []" and "length acc < 16 * m" and "m + length (broadcast_addresses name is) \<le> 8"
  shows "split_chr (CHR '','') (broadcast_loop name 128 is acc)
    = split_chr (CHR '','') acc @ broadcast_addresses name is"
  using assms(2-4)
proof (induction "is" arbitrary: acc m)
  case (Cons i "is")
  show ?case
  proof (cases "is_internal i \<or> address4 i = None")
    case True
    then have "broadcast_loop name 128 (i # is) acc = broadcast_loop name 128 is acc"
        "broadcast_addresses name (i # is) = broadcast_addresses name is"
      by (auto split: option.splits)
    then show ?thesis using Cons by metis
  next
    case False
    then obtain a where a: "address4 i = Some a" "\<not> is_internal i" by auto
    define b where "b = name (a OR NOT (netmask4 i))"
    have b: "b \<noteq> []" "length b \<le> 15" "CHR '','' \<notin> set b" using assms(1) by (auto simp: b_def dotted_def)
    have fits: "\<not> length acc + length b + 2 > 128" using Cons.prems(2,3) a b by simp
    have "split_chr (CHR '','') (broadcast_loop name 128 is (acc @ CHR '','' # b))
      = split_chr (CHR '','') (acc @ CHR '','' # b) @ broadcast_addresses name is"
      using Cons.IH [of "acc @ CHR '','' # b" "Suc m"] Cons.prems(2,3) a b by simp
    then show ?thesis using a b Cons.prems(1) fits by (simp add: b_def [symmetric] split_chr_snoc)
  qed
qed simp

lemma broadcast_address_pieces:
  assumes "\<And>a. dotted (ip4_name u a)" and "length (broadcast_addresses (ip4_name u) (interfaces u)) \<le> 8"
  shows "split_chr (CHR '','') (get_local_broadcast_address u 128)
    = (let l = broadcast_addresses (ip4_name u) (interfaces u) in if l = [] then [[]] else l)"
proof -
  have "split_chr (CHR '','') (broadcast_loop (ip4_name u) 128 is [])
    = (let l = broadcast_addresses (ip4_name u) is in if l = [] then [[]] else l)"
    if "length (broadcast_addresses (ip4_name u) is) \<le> 8" for "is"
    using that
  proof (induction "is")
    case (Cons i "is")
    show ?case
    proof (cases "is_internal i \<or> address4 i = None")
      case True
      then have "broadcast_loop (ip4_name u) 128 (i # is) [] = broadcast_loop (ip4_name u) 128 is []"
          "broadcast_addresses (ip4_name u) (i # is) = broadcast_addresses (ip4_name u) is"
        by (auto split: option.splits)
      then show ?thesis using Cons by metis
    next
      case False
      then obtain a where a: "address4 i = Some a" "\<not> is_internal i" by auto
      define b where "b = ip4_name u (a OR NOT (netmask4 i))"
      have b: "b \<noteq> []" "length b < 16" "CHR '','' \<notin> set b"
        using assms(1) [of "a OR NOT (netmask4 i)"] by (auto simp: b_def dotted_def)
      then show ?thesis
        using a Cons.prems broadcast_loop_pieces [of "ip4_name u" b 1 "is"] assms(1)
        by (simp add: b_def [symmetric] split_chr_end Let_def)
    qed
  qed simp
  from this [OF assms(2)] show ?thesis by (simp add: get_local_broadcast_address_def)
qed

lemma broadcast_to_all:
  assumes "\<forall>a\<in>set as'. a \<noteq> [] \<and> valid_ip u a \<and> udp_send u (a, prt) message = 0"
  shows "broadcast_to u prt message as' 0 = (0, map (\<lambda>a. ((a, prt), message)) as')"
  using assms by (induction as') (auto simp: send_udp_message_def)

text \<open>With up to eight networks the broadcast goes to each of them, once.\<close>

theorem broadcast_reaches_networks:
  assumes "\<And>a. dotted (ip4_name u a)" and "length (broadcast_addresses (ip4_name u) (interfaces u)) \<le> 8"
    and "broadcast_address p = Some b"
    and "\<And>a. valid_ip u (ip4_name u a) \<and> udp_send u (ip4_name u a, tcp_port b) message = 0"
  shows "send_local_udp_broadcast u p message
    = (0, map (\<lambda>a. ((a, tcp_port b), message)) (broadcast_addresses (ip4_name u) (interfaces u)))"
proof -
  let ?l = "broadcast_addresses (ip4_name u) (interfaces u)"
  have from_name: "\<forall>a\<in>set (broadcast_addresses (ip4_name u) is). \<exists>w. a = ip4_name u w" for "is"
    by (induction "is") (auto split: option.splits)
  have "a \<noteq> [] \<and> valid_ip u a \<and> udp_send u (a, tcp_port b) message = 0" if a: "a \<in> set ?l" for a
  proof -
    obtain w where "a = ip4_name u w" using bspec [OF from_name a] by blast
    then show ?thesis using assms(1) [of w] assms(4) [of w] by (simp add: dotted_def)
  qed
  then have "broadcast_to u (tcp_port b) message ?l 0 = (0, map (\<lambda>a. ((a, tcp_port b), message)) ?l)"
    by (intro broadcast_to_all) blast
  moreover have "split_chr (CHR '','') (get_local_broadcast_address u 128) = (if ?l = [] then [[]] else ?l)"
    using broadcast_address_pieces [OF assms(1,2)] by (simp only: Let_def)
  ultimately show ?thesis
    using assms(3) by (cases "?l = []") (simp_all only: send_local_udp_broadcast_def option.case if_True if_False
      broadcast_to.simps list.map simp_thms)
qed


subsection \<open>Discovery\<close>

text \<open>The part of \<^verbatim>\<open>start_node_discovery\<close> that sends; the zero byte is sent with the text.\<close>

definition discovery_datagrams :: "udp \<Rightarrow> 'db plugin \<Rightarrow> datagram list" where
  "discovery_datagrams u p = (if broadcast_address p \<noteq> None then snd (send_local_udp_broadcast u p ''whr?'') else [])"

definition datagram_bytes :: "datagram \<Rightarrow> string" where
  "datagram_bytes d = snd d @ [CHR 0x00]"

lemma broadcast_to_text: "d \<in> set (snd (broadcast_to u prt message as' rc)) \<Longrightarrow> snd d = message"
  by (induction u prt message as' rc rule: broadcast_to.induct)
    (auto simp: send_udp_message_def case_prod_beta Let_def split: if_splits)

lemma discovery_datagram_text: "d \<in> set (discovery_datagrams u p) \<Longrightarrow> snd d = ''whr?''"
  by (auto simp: discovery_datagrams_def send_local_udp_broadcast_def dest: broadcast_to_text split: if_splits)

lemma udp_text_bytes: "CHR 0x00 \<notin> set (snd d) \<Longrightarrow> udp_text (datagram_bytes d @ rest) = Some (snd d)"
  by (auto simp: udp_text_def datagram_bytes_def takeWhile_append takeWhile_eq_all_conv)

text \<open>A second plugin of the process registers the same messages again.\<close>

lemma register_messages_again: "register_messages (register_messages table) = register_messages table"
proof -
  have again: "register_udp_message name h t = t" if "name \<in> fst ` set t" for name h and t :: "(string \<times> udp_handler) list"
    using that by (auto simp: register_udp_message_def list_ex_iff)
  have kept: "m \<in> fst ` set (register_udp_message name h t)" if "m \<in> fst ` set t \<or> m = name" for m name h and t :: "(string \<times> udp_handler) list"
    using that by (auto simp: register_udp_message_def list_ex_iff)
  show ?thesis unfolding register_messages_def node_discovery_init_def by (simp add: again kept)
qed

lemma messages_table:
  "register_messages [] = [(''whr?'', Find_Node_Request), (''here'', Find_Node_Response),
     (''blockchain_status'', Blockchain_Status_Request), (''node_info'', Node_Info_Request)]"
  by (simp add: register_messages_def node_discovery_init_def register_udp_message_def)

text \<open>A datagram with one of the four texts, or with another one, from an address that is not of this node.\<close>

lemma on_udp_text:
  assumes "\<not> (is_local_ip_address u (fst sender) \<and> snd sender = my_bind_port p)" and "CHR 0x00 \<notin> set (snd d)"
  shows "on_udp_message u net table p sender (int (length (datagram_bytes d))) (datagram_bytes d @ rest) =
    (case List.find (\<lambda>m. fst (stripchr (snd d) (CHR '':'')) = fst m) table of
       None \<Rightarrow> Some \<lparr>udp_plugin = p, udp_out = [], buffer_released = True, udp_closed = False\<rparr>
     | Some m \<Rightarrow>
         map_option (\<lambda>r. \<lparr>udp_plugin = fst r, udp_out = snd r, buffer_released = True, udp_closed = False\<rparr>)
           (udp_callback u net p (snd m) sender))"
proof -
  have "int (length (datagram_bytes d)) > 0" by (simp add: datagram_bytes_def)
  then show ?thesis using assms by (auto simp: on_udp_message_def udp_text_bytes)
qed

lemma update_peer_keeps: "n \<in> set (peers p) \<Longrightarrow> (if conn n = c then f n else n) \<in> set (peers (update_peer p c f))"
  by (simp add: update_peer_def)

lemma connect_keeps:
  assumes "n \<in> set (peers p)" and "conn n = c"
  shows "\<exists>n'\<in>set (peers (connect_to_peer net p c)). host n' = host n \<and> bind_port n' = remote_port n"
proof -
  let ?p = "update_peer p c (\<lambda>n. n\<lparr>bind_port := remote_port n, conn_state := 1\<rparr>)"
  let ?n = "n\<lparr>bind_port := remote_port n, conn_state := 1\<rparr>"
  have in1: "?n \<in> set (peers ?p)" using update_peer_keeps [OF assms(1), of c] assms(2) by force
  have in2: "?n\<lparr>conn_state := 5\<rparr> \<in> set (peers (update_peer ?p c (\<lambda>n. n\<lparr>conn_state := 5\<rparr>)))"
    using update_peer_keeps [OF in1, of c "\<lambda>n. n\<lparr>conn_state := 5\<rparr>"] assms(2) by simp
  have in3: "?n\<lparr>conn_state := 5, is_closing := True\<rparr>
      \<in> set (peers (disconnect_peer (update_peer ?p c (\<lambda>n. n\<lparr>conn_state := 5\<rparr>)) c))"
    using update_peer_keeps [OF in2, of c "\<lambda>n. n\<lparr>is_closing := True\<rparr>"] assms(2) by (simp add: disconnect_peer_def)
  show ?thesis
    using in1 in3 by (auto simp: connect_to_peer_def connect_to_peer_address_def Let_def split: option.splits intro: bexI [rotated])
qed

lemma new_peer_connects:
  assumes "\<not> (local_ip net ip \<and> prt = my_bind_port p)" and "length ip < 64"
    and "\<not> (\<exists>n\<in>set (peers p). host n = ip \<and> bind_port n = prt)"
  shows "\<exists>p' n. check_peer_connection net p ip prt = Some (p', True) \<and> n \<in> set (peers p') \<and> host n = ip \<and> bind_port n = prt"
proof -
  have none: "List.find (\<lambda>n. host n = ip \<and> bind_port n = prt) (peers p) = None"
    using assms(3) by (auto simp: find_None_iff)
  define p1 where "p1 = update_peer (fst (new_node p)) (next_addr p) (\<lambda>n. n\<lparr>host := ip, remote_port := prt\<rparr>)"
  have "\<exists>n\<in>set (peers p1). conn n = next_addr p \<and> host n = ip \<and> remote_port n = prt"
    by (auto simp: p1_def new_node_def update_peer_def)
  then obtain n where n: "n \<in> set (peers p1)" "conn n = next_addr p" "host n = ip" "remote_port n = prt" by blast
  have "check_peer_connection net p ip prt = Some (connect_to_peer net p1 (next_addr p), True)"
    using assms(1,2) none by (auto simp: check_peer_connection_def p1_def Let_def new_node_def)
  then show ?thesis using connect_keeps [OF n(1,2), of net] n(3,4) by auto
qed


subsection \<open>The node's own datagrams\<close>

text \<open>Only the datagrams that come back to the node that sent them leave their buffer allocated.\<close>

theorem own_datagram_keeps_buffer:
  assumes "on_udp_message u net table p sender nread buf = Some r"
  shows "buffer_released r \<longleftrightarrow> \<not> (nread > 0 \<and> is_local_ip_address u (fst sender) \<and> snd sender = my_bind_port p)"
  using assms by (auto simp: on_udp_message_def split: if_splits option.splits)

subsection \<open>The information of a node\<close>

lemma tcp_broadcast_sends:
  assumes "n \<in> set ns" and "is_authorized n" and "\<not> is_closing n" and "conn_state n \<notin> {0, 4, 7}"
    and "write_ok net (conn n) (text_message message)"
  shows "(conn n, text_message message) \<in> set (sent (tcp_broadcast_loop net message ns p))"
proof -
  have sent_kept: "set (sent p) \<subseteq> set (sent (tcp_broadcast_loop net message ns p))" for ns p
    by (induction ns arbitrary: p) (force simp: send_text_message_def send_peer_message_def split: if_splits)+
  show ?thesis
    using assms
  proof (induction ns arbitrary: p)
    case (Cons m ns)
    show ?case
    proof (cases "n = m")
      case True
      let ?p = "fst (send_text_message net p n message)"
      have "(conn n, text_message message) \<in> set (sent ?p)"
        using assms by (simp add: send_text_message_def send_peer_message_def)
      then show ?thesis using sent_kept [of ?p ns] True assms(2) by auto
    qed (use Cons in simp)
  qed simp
qed

lemma stripchr_first: "c \<notin> set a \<Longrightarrow> stripchr (a @ c # r) c = (a, Some r)"
  by (induction a) (auto simp: stripchr_Cons)

text \<open>The information that the application sets reaches every authorized peer that can be written to, and is stored there
  as it was set.\<close>

theorem node_info_reaches_peers:
  assumes "n \<in> set (peers p)" and "is_authorized n" and "\<not> is_closing n" and "conn_state n \<notin> {0, 4, 7}"
    and "write_ok net (conn n) (text_message (''node_info:'' @ info))"
  shows "\<exists>msg. (conn n, msg) \<in> set (sent (on_local_node_info_changed net p info))
    \<and> dispatch sql net' q m msg = Some (on_peer_info_changed q m (Some info))"
proof (intro exI conjI)
  let ?msg = "text_message (''node_info:'' @ info)"
  show "(conn n, ?msg) \<in> set (sent (on_local_node_info_changed net p info))"
    using tcp_broadcast_sends [OF assms] by (simp add: on_local_node_info_changed_def send_tcp_broadcast_def)
  have "stripchr (''node_info:'' @ info) (CHR '':'') = (''node_info'', Some info)"
    using stripchr_first [of "CHR '':''" "''node_info''" info] by simp
  then show "dispatch sql net' q m ?msg = Some (on_peer_info_changed q m (Some info))"
    by (simp add: dispatch_def text_message_def msg_defs on_text_command_received_def)
qed


subsection \<open>Two nodes of one network\<close>

text \<open>The device 192.168.1.n, with the loopback interface first.\<close>

definition example_udp :: "u32 \<Rightarrow> string \<Rightarrow> udp" where
  "example_udp n name =
     \<lparr>interfaces = [\<lparr>is_internal = True, address4 = Some 0x7F000001, netmask4 = 0xFF000000, address_text = ''127.0.0.1''\<rparr>,
        \<lparr>is_internal = False, address4 = Some (0xC0A80100 + n), netmask4 = 0xFFFFFF00, address_text = name\<rparr>],
      ip4_name = (\<lambda>w. if w = 0xC0A801FF then ''192.168.1.255'' else ''0.0.0.0''), valid_ip = (\<lambda>_. True), udp_send = (\<lambda>_ _. 0),
      blockchain_status = None\<rparr>"

definition example_local :: "nat plugin" where
  "example_local = example_init\<lparr>discovery := the (parse_discovery_address ''local:4000'' 0)\<rparr>"

lemma example_datagrams:
  "discovery_datagrams (example_udp 5 ''192.168.1.5'') example_local = [((''192.168.1.255'', 4000), ''whr?'')]"
proof -
  have "parse_discovery_address ''local:4000'' 0
      = Some [\<lparr>tcp_host = [], tcp_port = 4000, is_broadcast = True, reconnect_interval = 3000\<rparr>]"
    by code_simp
  then have "broadcast_address example_local = Some \<lparr>tcp_host = [], tcp_port = 4000, is_broadcast = True, reconnect_interval = 3000\<rparr>"
    by (simp add: broadcast_address_def example_local_def)
  moreover have "get_local_broadcast_address (example_udp 5 ''192.168.1.5'') 128 = ''192.168.1.255''"
    by (simp add: get_local_broadcast_address_def example_udp_def)
  ultimately show ?thesis
    by (simp add: discovery_datagrams_def send_local_udp_broadcast_def send_udp_message_def example_udp_def)
qed


end
