(* ===== verification/Node_Status.thy ===== *)
theory Node_Status
  imports Udp_Messages
begin

section \<open>What a node reports\<close>

text \<open>
  The texts and rows of \<^verbatim>\<open>no-leader.c\<close> that the pragmas of the status show: the protocol, the mempool and the list of
  nodes. A text with quotes is written between cartouches. The host that the plugin is bound to is a parameter.
\<close>

subsection \<open>Names\<close>

definition getSyncState :: "db_state \<Rightarrow> string" where
  "getSyncState state =
     (case state of
        DB_STATE_SYNCHRONIZING \<Rightarrow> ''synchronizing''
      | DB_STATE_IN_SYNC \<Rightarrow> ''in sync''
      | DB_STATE_LOCAL_CHANGES \<Rightarrow> ''with local changes''
      | DB_STATE_OUTDATED \<Rightarrow> ''outdated''
      | _ \<Rightarrow> ''unknown'')"

definition getConnState :: "int \<Rightarrow> string" where
  "getConnState state =
     (if state = 1 then ''connecting'' else if state = 2 then ''connected'' else if state = 3 then ''connection lost''
      else if state = 4 then ''disconnected'' else if state = 5 then ''failed'' else ''unknown'')"

definition getConnType :: "int \<Rightarrow> string" where
  "getConnType type = (if type = 1 then ''incoming'' else if type = 2 then ''outgoing'' else ''unknown'')"

definition get_node_type :: "bool \<Rightarrow> bool \<Rightarrow> string" where
  "get_node_type authorized full = (if \<not> authorized then ''unauthorized'' else if full then ''full'' else ''light'')"

subsection \<open>Texts\<close>

definition newline :: string where
  "newline = [CHR 0x0A]"

definition quoted :: "string \<Rightarrow> string" where
  "quoted s = CHR 0x22 # s @ [CHR 0x22]"

text \<open>A waiting transaction is in no block.\<close>

definition waiting :: "'db plugin \<Rightarrow> transaction list" where
  "waiting p = filter (\<lambda>t. t_block_height t = 0) (mempool p)"

definition connected :: "'db plugin \<Rightarrow> peer list" where
  "connected p = filter (\<lambda>n. conn_state n = 2) (peers p)"

definition get_protocol_status :: "'db plugin \<Rightarrow> 'db plugin \<times> string" where
  "get_protocol_status p =
     (let p = count_authorized_nodes p in
      (p, ''  '' @ quoted ''mempool'' @ '': {'' @ newline
         @ ''    '' @ quoted ''num_transactions'' @ '': '' @ nat_dec (length (waiting p)) @ newline
         @ ''  },'' @ newline @ newline
         @ ''  '' @ quoted ''network'' @ '': {'' @ newline
         @ ''    '' @ quoted ''num_authorized_nodes'' @ '': '' @ nat_dec (total_authorized_nodes p) @ '','' @ newline
         @ ''    '' @ quoted ''num_connected_peers'' @ '': '' @ nat_dec (length (connected p)) @ newline
         @ ''  },'' @ newline @ newline
         @ ''  '' @ quoted ''downstream_state'' @ '': '' @ quoted (getSyncState (sync_down_state p)) @ '','' @ newline
         @ ''  '' @ quoted ''upstream_state'' @ '': '' @ quoted (getSyncState (sync_up_state p)) @ newline))"

text \<open>The conversion \<^verbatim>\<open>%w\<close> of SQLite doubles the quotes.\<close>

definition doubled :: "string \<Rightarrow> string" where
  "doubled s = concat (map (\<lambda>c. if c = CHR 0x22 then [c, c] else [c]) s)"

fun separated :: "string list \<Rightarrow> string" where
  "separated [] = []"
| "separated [x] = x"
| "separated (x # xs) = x @ '','' @ separated xs"

fun sql_texts :: "binn list \<Rightarrow> string list" where
  "sql_texts [] = []"
| "sql_texts (Binn_Str sql # log) = (newline @ ''    '' @ quoted (doubled sql)) # sql_texts log"
| "sql_texts (_ # log) = sql_texts log"

definition transaction_text :: "transaction \<Rightarrow> string" where
  "transaction_text t =
     ''{'' @ newline
     @ ''  '' @ quoted ''id'' @ '': '' @ int_dec (sint (t_id t)) @ '','' @ newline
     @ ''  '' @ quoted ''node_id'' @ '': '' @ int_dec (t_node_id t) @ '','' @ newline
     @ ''  '' @ quoted ''nonce'' @ '': '' @ int_dec (t_nonce t) @ '','' @ newline
     @ ''  '' @ quoted ''timestamp'' @ '': '' @ quoted (t_datetime t) @ '','' @ newline
     @ ''  '' @ quoted ''commands'' @ '': ['' @ separated (sql_texts (t_log t)) @ newline
     @ ''  ]'' @ newline @ ''}''"

definition get_mempool_status :: "'db plugin \<Rightarrow> string" where
  "get_mempool_status p = ''['' @ separated (map transaction_text (waiting p)) @ '']''"

subsection \<open>List of nodes\<close>

text \<open>A row: the node id, and the address of the key, type, address, host name, processor, system, application and
  information. The text of an address has 32 bytes, with its zero; a longer one is written past it, which is \<^term>\<open>None\<close>.\<close>

type_synonym status_row = "int \<times> string list"

definition print_address :: "string \<Rightarrow> int \<Rightarrow> string option" where
  "print_address h prt = (let s = h @ '':'' @ int_dec prt in if length s < 32 then Some s else None)"

definition print_key :: "bytes \<Rightarrow> string option" where
  "print_key key = map_option fst (pubkey_to_address key 56)"

definition device_field :: "string list \<Rightarrow> nat \<Rightarrow> string" where
  "device_field d i = (if i < length d then d ! i else [])"

definition node_row ::
  "int \<Rightarrow> string \<Rightarrow> string \<Rightarrow> string \<Rightarrow> string list \<Rightarrow> string option \<Rightarrow> status_row" where
  "node_row nid key type address d info =
     (nid, [key, type, address, device_field d 2, device_field d 0, device_field d 1, device_field d 3,
            case info of None \<Rightarrow> [] | Some i \<Rightarrow> i])"

definition this_node_row :: "net \<Rightarrow> 'db plugin \<Rightarrow> string \<Rightarrow> status_row option" where
  "this_node_row net p bind_host =
     (case (if has_privkey (this_node p) then print_key (my_pubkey p) else Some []) of
        None \<Rightarrow> None
      | Some key \<Rightarrow>
          map_option (\<lambda>a. node_row (my_id p) key (get_node_type (my_is_authorized p) (my_is_full p)) a (device_info net) (own_info net))
            (print_address bind_host (my_bind_port p)))"

definition connected_row :: "peer \<Rightarrow> status_row option" where
  "connected_row n =
     (case print_key (peer_pubkey n) of
        None \<Rightarrow> None
      | Some key \<Rightarrow>
          map_option (\<lambda>a. node_row (peer_id n) key (get_node_type (is_authorized n) (peer_is_full n)) a (device n) (node_info n))
            (print_address (host n) (remote_port n)))"

text \<open>The keys are compared over the length of that of the authorization; without a key of its own the node compares with
  a null pointer.\<close>

definition print_allowed_node_cb :: "'db plugin \<Rightarrow> nodeauth \<Rightarrow> status_row list option" where
  "print_allowed_node_cb p auth =
     (let same = (\<lambda>key. take (length (pk auth)) key = pk auth) in
      if \<not> has_privkey (this_node p) \<and> pk auth \<noteq> [] then None
      else if same (my_pubkey p) then Some []
      else if list_ex (\<lambda>n. same (peer_pubkey n)) (connected p) then Some []
      else map_option (\<lambda>key. [(node_id auth, [key, get_node_type True (is_full_node auth), ''(offline)'', [], [], [], [], []])])
             (print_key (pk auth)))"

definition print_node_list :: "net \<Rightarrow> 'db plugin \<Rightarrow> string \<Rightarrow> status_row list option" where
  "print_node_list net p bind_host =
     (case (this_node_row net p bind_host, those (map connected_row (connected p)),
            those (map (print_allowed_node_cb p) (authorizations (this_node p)))) of
        (Some own, Some online, Some offline) \<Rightarrow> Some (own # online @ concat offline)
      | _ \<Rightarrow> None)"

subsection \<open>Lemmas\<close>

text \<open>The status has the counters of the state and changes nothing but the counts of nodes, which it refreshes.\<close>

lemma get_protocol_status_state: "fst (get_protocol_status p) = count_authorized_nodes p"
  by (simp add: get_protocol_status_def Let_def)

text \<open>A quote in a command ends the text of the command in the JSON of the mempool.\<close>

lemma doubled_plain: "doubled s = s \<longleftrightarrow> CHR 0x22 \<notin> set s"
proof (induction s)
  case (Cons c s)
  have "length (doubled s) \<ge> length s" for s by (induction s) (auto simp: doubled_def)
  from this [of s] show ?case using Cons by (auto simp: doubled_def dest: arg_cong [of _ _ length])
qed (simp add: doubled_def)

text \<open>A node bound to a long address cannot list its nodes.\<close>

lemma long_host_overflows: "length bind_host \<ge> 30 \<Longrightarrow> print_node_list net p bind_host = None"
proof -
  assume h: "length bind_host \<ge> 30"
  have "int_dec prt \<noteq> []" for prt
  proof -
    have "nat_dec n \<noteq> []" for n by (subst nat_dec.simps) simp
    then show ?thesis by (simp add: int_dec_def)
  qed
  then have "length (int_dec (my_bind_port p)) \<ge> 1" by (simp add: Suc_le_eq)
  then have "print_address bind_host (my_bind_port p) = None" using h by (simp add: print_address_def Let_def not_less)
  then show ?thesis by (auto simp: print_node_list_def this_node_row_def split: option.splits)
qed

lemma those_in: "those xs = Some ys \<Longrightarrow> x \<in> set xs \<Longrightarrow> \<exists>y\<in>set ys. x = Some y"
  by (induction xs arbitrary: ys) (auto split: option.splits)

text \<open>Every authorized node is in the list: it is this node, a connected peer or a row of its own.\<close>

theorem authorized_nodes_listed:
  assumes "print_node_list net p bind_host = Some rows" and "auth \<in> set (authorizations (this_node p))"
  shows "take (length (pk auth)) (my_pubkey p) = pk auth
    \<or> (\<exists>n\<in>set (peers p). conn_state n = 2 \<and> take (length (pk auth)) (peer_pubkey n) = pk auth)
    \<or> (\<exists>row\<in>set rows. fst row = node_id auth \<and> print_key (pk auth) = Some (hd (snd row)))"
proof -
  from assms(1) obtain own online offline where l: "rows = own # online @ concat offline"
      "those (map (print_allowed_node_cb p) (authorizations (this_node p))) = Some offline"
    by (auto simp: print_node_list_def split: option.splits)
  have "print_allowed_node_cb p auth \<in> set (map (print_allowed_node_cb p) (authorizations (this_node p)))"
    using assms(2) by simp
  then obtain r where r: "print_allowed_node_cb p auth = Some r" "r \<in> set offline"
    using those_in [OF l(2)] by blast
  then have "set r \<subseteq> set rows" using l(1) by auto
  then show ?thesis
    using r(1) by (fastforce simp: print_allowed_node_cb_def Let_def connected_def list_ex_iff split: if_splits)
qed

end
