(* ===== verification/Single_Instance.thy ===== *)
theory Single_Instance
  imports Checksum
begin

section \<open>One instance of a database\<close>

text \<open>
  \<^verbatim>\<open>core/single_instance.c\<close> in the build for Linux: a process that opens a database binds a socket to a name in the
  abstract namespace, made of the two checksums of the path. What the system keeps is the map from open sockets to
  their names; it gives every socket another number, and refuses to bind a name that is taken. The number of the new
  socket, negative when there is none, is an argument. \<^verbatim>\<open>this_node->single_instance\<close> is the number of the socket or zero.
\<close>

type_synonym host = "int \<rightharpoonup> string"

subsection \<open>Names\<close>

text \<open>\<^verbatim>\<open>%x\<close> prints no leading zeros.\<close>

fun hex_digits :: "nat \<Rightarrow> string" where
  "hex_digits n = (if n < 16 then [''0123456789abcdef'' ! n] else hex_digits (n div 16) @ [''0123456789abcdef'' ! (n mod 16)])"

declare hex_digits.simps [simp del]

definition calc_unique_name :: "crc_state \<Rightarrow> bytes \<Rightarrow> crc_state \<times> string" where
  "calc_unique_name st str =
     (let (st, crc1) = crc32 st (Some str); (st, crc2) = crc32rev st (Some str)
      in (st, ''aergolite'' @ hex_digits (unat crc1) @ hex_digits (unat crc2)))"

subsection \<open>Lock\<close>

definition bind_name :: "host \<Rightarrow> int \<Rightarrow> string \<Rightarrow> host option" where
  "bind_name h sock name = (if name \<in> ran h then None else Some (h(sock \<mapsto> name)))"

definition check_single_instance :: "crc_state \<Rightarrow> int \<Rightarrow> bytes \<Rightarrow> int \<Rightarrow> host \<Rightarrow> crc_state \<times> int \<times> host \<times> bool" where
  "check_single_instance st sock dbpath inst h =
     (let (st, name) = calc_unique_name st dbpath in
      if sock < 0 then (st, inst, h, False)
      else case bind_name h sock name of
          None \<Rightarrow> (st, inst, h, False)
        | Some h \<Rightarrow> (st, sock, h, True))"

definition release_single_instance :: "int \<Rightarrow> host \<Rightarrow> int \<times> host" where
  "release_single_instance inst h = (if inst \<noteq> 0 then (0, h(inst := None)) else (inst, h))"

subsection \<open>Mutual exclusion\<close>

text \<open>A lock: what a holder acquires stays its own until it releases it.\<close>

locale name_lock =
  fixes acquire :: "'s \<Rightarrow> 'p \<Rightarrow> 'n \<Rightarrow> 's option" and release :: "'p \<Rightarrow> 's \<Rightarrow> 's" and holds :: "'s \<Rightarrow> 'p \<Rightarrow> 'n option"
  assumes acquired: "acquire s p n = Some s' \<Longrightarrow> (\<forall>q. holds s q \<noteq> Some n) \<and> holds s' = (holds s)(p \<mapsto> n)"
    and refused: "acquire s p n = None \<longleftrightarrow> (\<exists>q. holds s q = Some n)"
    and released: "holds (release p s) = (holds s)(p := None)"
begin

definition exclusive :: "'s \<Rightarrow> bool" where
  "exclusive s \<longleftrightarrow> (\<forall>p q n. holds s p = Some n \<longrightarrow> holds s q = Some n \<longrightarrow> p = q)"

lemma acquire_exclusive: "exclusive s \<Longrightarrow> acquire s p n = Some s' \<Longrightarrow> exclusive s'"
  using acquired unfolding exclusive_def by (metis fun_upd_other fun_upd_same option.inject)

lemma release_exclusive: "exclusive s \<Longrightarrow> exclusive (release p s)"
  using released unfolding exclusive_def by (metis fun_upd_apply option.distinct(1))

lemma keeps_holding: "holds s p = Some n \<Longrightarrow> q \<noteq> p \<Longrightarrow> holds (release q s) p = Some n
    \<and> (acquire s q m = Some s' \<longrightarrow> holds s' p = Some n)"
  using acquired released by (metis fun_upd_other)

end

interpretation instances: name_lock bind_name "\<lambda>sock h. h(sock := None)" "\<lambda>h. h"
proof
  show "bind_name s p n = Some s' \<Longrightarrow> (\<forall>q. s q \<noteq> Some n) \<and> s' = s(p \<mapsto> n)" for s p n s'
    by (auto simp: bind_name_def ran_def split: if_splits)
  show "(bind_name s p n = None) = (\<exists>q. s q = Some n)" for s p n
    by (auto simp: bind_name_def ran_def)
qed simp

text \<open>The name does not depend on what the process did before.\<close>

lemma calc_unique_name_ok:
  assumes "crc_ok st" and "crc_ok st'"
  shows "snd (calc_unique_name st str) = snd (calc_unique_name st' str)"
proof -
  have "crc_table (crc32_init s) = crc_init_table" if "crc_ok s" for s using crc32_init_ok [OF that] by blast
  moreover have "crc_ok (crc32_init s)" if "crc_ok s" for s using crc32_init_ok [OF that] by blast
  ultimately show ?thesis using assms by (simp add: calc_unique_name_def crc32_def crc32rev_def Let_def case_prod_beta)
qed

text \<open>What other processes do in the meantime: they open and close databases through sockets of their own.\<close>

datatype instance_op = Open crc_state int bytes | Close int

fun op_socket :: "instance_op \<Rightarrow> int" where
  "op_socket (Open st sock path) = sock"
| "op_socket (Close inst) = inst"

fun run_op :: "instance_op \<Rightarrow> host \<Rightarrow> host" where
  "run_op (Open st sock path) h = fst (snd (snd (check_single_instance st sock path 0 h)))"
| "run_op (Close inst) h = snd (release_single_instance inst h)"

lemma run_op_keeps: "h sock = Some name \<Longrightarrow> op_socket op \<noteq> sock \<Longrightarrow> run_op op h sock = Some name"
  by (cases op)
    (auto simp: check_single_instance_def release_single_instance_def case_prod_beta Let_def
      dest: instances.keeps_holding split: option.splits)

text \<open>While a process has a database open, no other process opens it.\<close>

theorem one_instance_per_database:
  assumes "crc_ok st" and "crc_ok st'"
    and "check_single_instance st sock path inst h = (st1, inst1, h1, True)"
    and "\<forall>op\<in>set ops. op_socket op \<noteq> sock"
  shows "\<exists>st2. check_single_instance st' sock' path inst' (fold run_op ops h1) = (st2, inst', fold run_op ops h1, False)"
proof -
  let ?name = "snd (calc_unique_name st path)"
  have h1: "h1 sock = Some ?name"
    using assms(3) by (auto simp: check_single_instance_def bind_name_def case_prod_beta Let_def split: if_splits)
  have "fold run_op ops h sock = Some ?name" if "h sock = Some ?name" for h
    using that assms(4) by (induction ops arbitrary: h) (simp_all add: run_op_keeps)
  then have "bind_name (fold run_op ops h1) sock' ?name = None" using h1 by (auto simp: instances.refused)
  then show ?thesis
    using calc_unique_name_ok [OF assms(1,2), of path] by (simp add: check_single_instance_def case_prod_beta Let_def)
qed

text \<open>After it was closed, it can be opened again.\<close>

theorem closed_database_opens:
  assumes "instances.exclusive h" and "crc_ok st" and "crc_ok st'" and "sock \<noteq> 0" and "sock' \<ge> 0"
    and "h sock = None" and "check_single_instance st sock path inst h = (st1, inst1, h1, True)"
  shows "\<exists>st2 h2. check_single_instance st' sock' path 0 (snd (release_single_instance inst1 h1)) = (st2, sock', h2, True)"
proof -
  let ?name = "snd (calc_unique_name st path)"
  have b: "bind_name h sock ?name = Some h1" "inst1 = sock"
    using assms(7) by (auto simp: check_single_instance_def case_prod_beta Let_def split: if_splits option.splits)
  then have "?name \<notin> ran h" "h1 = h(sock \<mapsto> ?name)" by (auto simp: bind_name_def split: if_splits)
  then have "snd (release_single_instance inst1 h1) = h" using b(2) assms(4,6) by (auto simp: release_single_instance_def)
  then show ?thesis
    using \<open>?name \<notin> ran h\<close> assms(5) calc_unique_name_ok [OF assms(2,3), of path]
    by (simp add: check_single_instance_def bind_name_def case_prod_beta Let_def)
qed

text \<open>Without leading zeros the two checksums cannot be told apart in the name.\<close>

lemma name_ambiguous: "hex_digits 0x1 @ hex_digits 0x23 = hex_digits 0x12 @ hex_digits 0x3"
  by (simp add: hex_digits.simps)

end
