(* ===== verification/Spec2Isabelle.thy ===== *)
theory Spec2Isabelle
  imports Linked_List Dyn_Array Checksum Sha256 Base58 Txn_Log Authorizations Block_Header Special_Commands
    Block_Core Block_Facts
    Plugin_State Mempool Block_Producer Requests Votes State_Update Consensus Handlers Allowed_Nodes
    Connections Dispatch Block_Lists List_Invariants Plugin_Examples Vote_Facts
    Stream_Ciphers Codec Msg_Framing Sql_Tokens Proc_Data Proc_Parser Proc_Exec Proc_Call
    Proc_Frames Proc_Structured Proc_Links Proc_Examples Proc_Savepoint Proc_Facts
    Proc_Results Proc_Foreach Proc_Progress
    Uv_Callback Udp_Messages Node_Status Single_Instance
begin

text \<open>
  AergoLite is a replicated SQLite database. Every node keeps a copy of the database and a chain of blocks; the
  transactions that applications execute are signed, sent to all nodes, put into blocks and voted on, and every node
  executes the blocks in the same order. This library models the parts of the program that decide what enters the
  chain, what the nodes accept from each other, what is written to the disk, and how stored procedures run.

  \<^bold>\<open>The program and the theories.\<close> An application talks to the core (\<^verbatim>\<open>src/core/sqlite3.c\<close>, the section of AergoLite behind
  the SQLite engine), which signs and verifies transactions, keeps the list of authorized nodes, executes blocks on a
  worker connection, and stores the chain. The plugin (\<^verbatim>\<open>src/plugins/no-leader\<close>) runs on one thread with an event loop of
  libuv: it exchanges messages with the other nodes, collects transactions, creates blocks, votes and commits through
  the core. The main thread wakes it up through callbacks or a pipe.

  \<^item> Foundations. \<open>Prelude\<close>: machine integers, result codes, facts on lists. \<open>Linked_List\<close> (\<^verbatim>\<open>linked_list.c\<close>): lists threaded
    through a heap of next pointers; the locale \<open>item_list\<close> holds their laws, by which the other theories use lists of HOL.
    \<open>Dyn_Array\<close> (\<^verbatim>\<open>array.c\<close>): arrays with 16-bit counters; the locale \<open>item_order\<close>, interpreted on node ids and page numbers,
    carries binary search and sorted insertion. \<open>Checksum\<close> (\<^verbatim>\<open>checksum.c\<close>), \<open>Sha256\<close> (\<^verbatim>\<open>sha256.c\<close>), \<open>Base58\<close> (\<^verbatim>\<open>base58.c\<close>, addresses
    and node ids of the core). \<open>Single_Instance\<close> (\<^verbatim>\<open>single_instance.c\<close>): the lock on a database, with the locale
    \<open>name_lock\<close> for mutual exclusion.
  \<^item> Core. \<open>Txn_Log\<close>: the binn list of a transaction, its serialisation and signature. \<open>Authorizations\<close>: the list
    \<^verbatim>\<open>this_node->authorizations\<close>, \<^verbatim>\<open>aergolite_verify_transaction\<close>, \<^verbatim>\<open>verify_block_votes\<close>. \<open>Block_Header\<close>: varints,
    \<^verbatim>\<open>build_block_header\<close>, \<^verbatim>\<open>read_block_header\<close>. \<open>Special_Commands\<close>: the pragmas of special transactions. \<open>Block_Core\<close>:
    \<^verbatim>\<open>aergolite_begin_block\<close>, \<^verbatim>\<open>_execute_transaction\<close>, \<^verbatim>\<open>_create_block\<close>, \<^verbatim>\<open>_verify_block\<close>, \<^verbatim>\<open>_commit_block\<close>, \<^verbatim>\<open>_rollback_block\<close>,
    \<^verbatim>\<open>_apply_block\<close> and the array of page hashes; \<open>Block_Facts\<close> holds their theorems.
  \<^item> Plugin. \<open>Plugin_State\<close> (\<^verbatim>\<open>struct plugin\<close>, \<^verbatim>\<open>struct node\<close>, \<^verbatim>\<open>struct block\<close>), \<open>Mempool\<close> and \<open>Handlers\<close> (\<^verbatim>\<open>transactions.c\<close>),
    \<open>Block_Producer\<close> (\<^verbatim>\<open>block_producer.c\<close>), \<open>Requests\<close> (\<^verbatim>\<open>requests.c\<close>), \<open>Votes\<close> and \<open>Consensus\<close> (\<^verbatim>\<open>consensus.c\<close>), \<open>State_Update\<close>
    (\<^verbatim>\<open>state_update.c\<close>), \<open>Allowed_Nodes\<close> (\<^verbatim>\<open>allowed_nodes.c\<close>), \<open>Connections\<close> and \<open>Udp_Messages\<close> (\<^verbatim>\<open>no-leader.c\<close>,
    \<^verbatim>\<open>node_discovery.c\<close>), \<open>Dispatch\<close> (the events of the loop, the step relation \<open>step\<close> and the states \<open>reachable\<close> from the start),
    \<open>Node_Status\<close> (the texts and rows that the pragmas show).
  \<^item> Transport. \<open>Msg_Framing\<close> (\<^verbatim>\<open>uv_msg_framing.c\<close>): messages on a stream. \<open>Uv_Callback\<close> (\<^verbatim>\<open>uv_callback.c\<close>): calls between threads;
    the locale \<open>fifo\<close> is the contract of their queue. \<open>Stream_Ciphers\<close> (\<^verbatim>\<open>chacha.c\<close>, \<^verbatim>\<open>xrc4.c\<close>) and \<open>Codec\<close> (\<^verbatim>\<open>codec.c\<close>): encryption of
    pages and messages.
  \<^item> Stored procedures (\<^verbatim>\<open>stored_proc.c\<close>). \<open>Sql_Tokens\<close> (the tokenizer of SQLite, which the parser calls), \<open>Proc_Data\<close> (values and
    lists in a heap), \<open>Proc_Parser\<close> (the array of commands and the stacks of open blocks), \<open>Proc_Exec\<close> (the interpreter and the
    savepoint around a call), \<open>Proc_Call\<close> (CREATE PROCEDURE and CALL).

  \<^bold>\<open>What the lemmas show.\<close> For blocks: a rolled back block leaves no trace, a committed one extends the chain and brings the
  database to the state its header names, what one node creates the others verify, a verified block can be committed, and two accepted lists of votes share a voter.
  \<open>Block_Lists\<close> and \<open>List_Invariants\<close> relate every handler of the plugin to four laws (locale \<open>list_invariant\<close>); an invariant
  that obeys them holds in all reachable states (locale \<open>reachable_invariant\<close>). \<open>Vote_Facts\<close> interprets it three times: votes are
  counted once per node, blocks have different addresses, transactions different ids. For transactions: what is accepted has an
  authorized author, a fresh nonce and a valid signature; and what the signature does not cover. For encodings: round
  trips of headers, varints, addresses, signatures and encrypted pages, and reassembly of framed messages. For the
  procedures: \<open>Proc_Links\<close> shows that the parser links nested blocks correctly, \<open>Proc_Structured\<close> that the interpreter with
  its jumps agrees with a big-step semantics of nested blocks, \<open>Proc_Progress\<close> that the parser ends for every text, \<open>Proc_Savepoint\<close> which
  failed calls are undone, \<open>Proc_Results\<close> and \<open>Proc_Foreach\<close> what a caller gets and when a loop never ends. Several theorems state that
  the code does something it should not (a replayed transaction, a repeated vote, a key that is revealed, a hang); they are
  theorems about the code as it is.

  \<^bold>\<open>Partiality.\<close> An operation that may read or write outside of its memory, or follow a null pointer, returns
  \<^term>\<open>None\<close> there. A C loop that may not end is a \<^theory_text>\<open>partial_function (option)\<close>, for which \<^term>\<open>None\<close> is also that it does not
  return: the walks over linked lists and callbacks, \<open>read_messages\<close>, \<open>send_local_loop\<close>, \<open>request_state_update_next\<close>, and \<open>run_commands\<close>,
  \<open>step_to_end\<close>, \<open>set_rows\<close>, \<open>leave_call\<close> of the procedures. The interpreter distinguishes the two with the value \<open>Bad_Access\<close>. There is no fuel.
  Every other loop terminates by structure or by a measure, with one guard: \<open>parse_procedure_body\<close> tests that the text got
  shorter, and \<open>parse_procedure_body_loop\<close> shows that the test never fails. That a function returns is part of each theorem that
  states its result. Integers are words where the code relies on their width (counters of arrays, hashes, ids, ciphers, addresses); heights,
  nonces and node ids are integers, as they stay far below their bounds.

  \<^bold>\<open>Parameters.\<close> Code outside of the repository or behind an interface is an argument: \<open>secp256k1\<close> (signatures), \<open>sqlite\<close> (what the
  connections answer to the statements of a block), \<open>sql_api\<close> (prepare, step and reset of statements, with \<open>savepoint_laws\<close> where the
  theorem needs what SQLite documents of savepoints), \<open>net\<close> (VRF, sockets, random numbers, the device), \<open>udp\<close> (interfaces, datagrams), results of libuv in
  \<open>Uv_Callback\<close>. Memory allocation succeeds. The examples that the witnesses use instantiate each of them: \<open>Block_Facts\<close>,
  \<open>Plugin_Examples\<close>, \<open>Proc_Examples\<close>, and the ends of the other theories.

  \<^bold>\<open>Not modelled.\<close> The SQLite engine itself, its shell, the tool that builds the amalgamation and the tests. The files of the local log.
  \<^verbatim>\<open>backtrace.c\<close>, and the lock of \<^verbatim>\<open>single_instance.c\<close> on other systems than Linux. \<^verbatim>\<open>uv_callback_fire_sync\<close>, which runs an event loop of its own, and \<^verbatim>\<open>uv_send_message.c\<close>, which
  allocates a write request and hands it to libuv; name resolution and the opening of sockets; \<^verbatim>\<open>send_udp_message_ex\<close>, which nothing calls. Texts
  of error messages and the release of memory, where nothing depends on it. The section of AergoLite at the end of \<^verbatim>\<open>sqlite3.c\<close> (from its line 227861: block
  headers, execution of blocks, authorizations, special commands) is modelled like the rest; the manifest gives no lines for it.
\<close>

end
